(* ===== verification/Go_Prelude.thy ===== *)
theory Go_Prelude
  imports
    "HOL-Library.Word"
    "HOL-Library.Finite_Map"
    "HOL-Library.Char_ord"
    "HOL-Library.List_Lexorder"
    "HOL-Library.Sublist"
begin

text \<open>
  What the components share: the Go values the turn kernel is written with, and the
  lemmas and collections the component proofs rest on.

  \<^item> A Go string is a list of bytes (\<open>string\<close>); \<open>TrimSpace\<close> is the byte-level
    \<open>strings.TrimSpace\<close> over UTF-8, so a leading or trailing rune is white space exactly when
    one of the encodings in \<open>space_runes\<close> starts or ends the string.
  \<^item> A Go map is an \<open>fmap\<close>; \<open>keys\<close> lists the keys in the byte order \<open>slices.Sort\<close> gives,
    \<open>check_map\<close> is a validating loop over a map, \<open>get_or\<close> a map read with Go's zero value.
  \<^item> A fallible Go function returns \<open>error + 'a\<close>; \<open>bindR\<close> is \<open>if err != nil { return err }\<close>.
  \<^item> \<open>uint32\<close> and \<open>uint64\<close> are words, \<open>time.Duration\<close> is a 64-bit word read with \<open>sint\<close>, and a
    \<open>time.Time\<close> is the number of nanoseconds since the zero time.
\<close>

named_theorems kernel_defs \<open>definitions of the reducer's handlers\<close>
named_theorems frame \<open>fields that an operation leaves alone\<close>

type_synonym uint32 = "32 word"
type_synonym uint64 = "64 word"
type_synonym Duration = "64 word"
type_synonym Time = int

section \<open>Results\<close>

text \<open>
  The text of a Go error: \<open>errors.New\<close> (\<open>Msg\<close>) or \<open>fmt.Errorf\<close> and \<open>fmt.Sprintf\<close> (\<open>Fmt\<close>), kept as
  the format and its arguments, so that two different messages stay different values.
\<close>

datatype message = Msg string | Fmt string "go_arg list"
  and go_arg = ArgS string | ArgN nat | ArgI int | ArgM message

definition bindR :: "'e + 'a \<Rightarrow> ('a \<Rightarrow> 'e + 'b) \<Rightarrow> 'e + 'b" where
  "bindR m f = (case m of Inl e \<Rightarrow> Inl e | Inr x \<Rightarrow> f x)"

lemma bindR_simps [simp]: "bindR (Inl e) f = Inl e" "bindR (Inr x) f = f x"
  by (simp_all add: bindR_def)

lemma bindR_Inr_iff: "bindR m f = Inr y \<longleftrightarrow> (\<exists>x. m = Inr x \<and> f x = Inr y)"
  by (cases m) auto

lemma bindR_InrE [elim!]:
  assumes "bindR m f = Inr y"
  obtains x where "m = Inr x" "f x = Inr y"
  using assms by (auto simp: bindR_Inr_iff)

lemma if_Inl_eq_Inr [simp]:
  "(if c then Inl e else x) = Inr y \<longleftrightarrow> \<not> c \<and> x = Inr y"
  by simp

lemma map_sum_Inr [simp]: "map_sum f id x = Inr y \<longleftrightarrow> x = Inr y"
  by (cases x) auto

text \<open>The first error of a sequence of checks: each check is \<open>None\<close> or the error it returns.\<close>

fun first_error :: "'e option list \<Rightarrow> 'e option" where
  "first_error [] = None"
| "first_error (None # rest) = first_error rest"
| "first_error (Some e # rest) = Some e"

lemma first_error_None [simp]: "first_error xs = None \<longleftrightarrow> (\<forall>x \<in> set xs. x = None)"
  by (induction xs rule: first_error.induct) auto

definition fail_if :: "bool \<Rightarrow> 'e \<Rightarrow> 'e option" where
  "fail_if c e = (if c then Some e else None)"

lemma fail_if_None [simp]: "fail_if c e = None \<longleftrightarrow> \<not> c"
  by (simp add: fail_if_def)

section \<open>Maps\<close>

definition keys :: "('k::linorder, 'v) fmap \<Rightarrow> 'k list" where
  "keys m = sorted_list_of_set (fmdom' m)"

lemma set_keys [simp]: "set (keys m) = fmdom' m"
  by (simp add: keys_def)

lemma distinct_keys [simp]: "distinct (keys m)"
  by (simp add: keys_def)

lemma sorted_keys [simp]: "sorted (keys m)"
  by (simp add: keys_def)

lemma keys_empty [simp]: "keys fmempty = []"
  by (simp add: keys_def)

lemma keys_upd [simp]: "keys (fmupd k v m) = insort k (remove1 k (keys m))"
  by (simp add: keys_def sorted_list_of_set_insert_remove sorted_list_of_set_remove)

lemma keys_map [simp]: "keys (fmmap f m) = keys m"
  by (simp add: keys_def)

definition check_map :: "('k::linorder \<Rightarrow> 'v \<Rightarrow> 'e option) \<Rightarrow> ('k, 'v) fmap \<Rightarrow> 'e option" where
  "check_map f m =
     first_error (map (\<lambda>k. case fmlookup m k of None \<Rightarrow> None | Some v \<Rightarrow> f k v) (keys m))"

lemma check_map_None: "check_map f m = None \<longleftrightarrow> (\<forall>k v. fmlookup m k = Some v \<longrightarrow> f k v = None)"
  by (auto simp: check_map_def fmlookup_dom'_iff split: option.splits)

lemma check_map_empty [simp]: "check_map f fmempty = None"
  by (simp add: check_map_None)

definition get_or :: "'v \<Rightarrow> ('k, 'v) fmap \<Rightarrow> 'k \<Rightarrow> 'v" where
  "get_or d m k = (case fmlookup m k of None \<Rightarrow> d | Some v \<Rightarrow> v)"

lemma get_or_Some [simp]: "fmlookup m k = Some v \<Longrightarrow> get_or d m k = v"
  by (simp add: get_or_def)

lemma get_or_None [simp]: "fmlookup m k = None \<Longrightarrow> get_or d m k = d"
  by (simp add: get_or_def)

abbreviation has_key :: "('k, 'v) fmap \<Rightarrow> 'k \<Rightarrow> bool" where
  "has_key m k \<equiv> fmlookup m k \<noteq> None"

definition isEmpty :: "('k, 'v) fmap \<Rightarrow> bool" where
  "isEmpty m = (fmdom m = {||})"

lemma fmdom_empty_iff: "fmdom m = {||} \<longleftrightarrow> (\<forall>k. fmlookup m k = None)"
proof
  assume "fmdom m = {||}"
  then show "\<forall>k. fmlookup m k = None" using fmdom_notD [of _ m] by simp
next
  assume "\<forall>k. fmlookup m k = None"
  then have "m = fmempty" by (intro fmap_ext) simp
  then show "fmdom m = {||}" by simp
qed

lemma isEmpty_iff: "isEmpty m \<longleftrightarrow> m = fmempty"
  by (auto simp: isEmpty_def fmdom_empty_iff intro!: fmap_ext)

lemma isEmpty_simps [simp]:
  "isEmpty fmempty" "\<not> isEmpty (fmupd k v m)" "isEmpty (fmmap f m) = isEmpty m"
  by (simp_all add: isEmpty_def)

lemma not_isEmpty: "\<not> isEmpty m \<longleftrightarrow> (\<exists>k v. fmlookup m k = Some v)"
  by (simp add: isEmpty_def fmdom_empty_iff)

lemma isEmptyD: "isEmpty m \<Longrightarrow> fmlookup m k = None"
  by (simp add: isEmpty_iff)

text \<open>\<open>fmsubset m m'\<close> reads: every binding of \<open>m\<close> is still in \<open>m'\<close>, unchanged.\<close>

lemma fmsubset_iff: "fmsubset m n \<longleftrightarrow> (\<forall>k v. fmlookup m k = Some v \<longrightarrow> fmlookup n k = Some v)"
  by (simp add: fmsubset_alt_def fmpred_iff)

lemma fmsubset_refl [simp]: "fmsubset m m"
  by (simp add: fmsubset_iff)

lemma fmsubset_trans [trans]: "fmsubset a b \<Longrightarrow> fmsubset b c \<Longrightarrow> fmsubset a c"
  by (simp add: fmsubset_iff)

lemma fmsubset_upd [intro]: "fmlookup m k = None \<Longrightarrow> fmsubset m (fmupd k v m)"
  by (auto simp: fmsubset_iff)

text \<open>\<open>apart m n\<close>: no key is in both maps, as for open and closed calls.\<close>

definition apart :: "('k, 'a) fmap \<Rightarrow> ('k, 'b) fmap \<Rightarrow> bool" where
  "apart m n \<longleftrightarrow> (\<forall>k. has_key m k \<longrightarrow> fmlookup n k = None)"

lemma apartD: "apart m n \<Longrightarrow> fmlookup m k = Some v \<Longrightarrow> fmlookup n k = None"
  by (simp add: apart_def)

lemma apart_empty [simp]: "apart fmempty n" "apart m fmempty"
  by (simp_all add: apart_def)

lemma apart_move: "apart m n \<Longrightarrow> apart (fmdrop k m) (fmupd k v n)"
  by (auto simp: apart_def)

lemma apart_replace: "apart m n \<Longrightarrow> fmlookup m k = Some u \<Longrightarrow> apart (fmupd k v m) n"
  by (auto simp: apart_def)

lemma apart_drop: "apart m n \<Longrightarrow> apart (fmdrop k m) n"
  by (auto simp: apart_def)

lemma fmsubset_move: "apart m n \<Longrightarrow> fmlookup m k = Some u \<Longrightarrow> fmsubset n (fmupd k v n)"
  by (auto simp: apart_def)

section \<open>Strings\<close>

text \<open>
  The UTF-8 encodings of the runes \<open>unicode.IsSpace\<close> accepts: the ASCII white space, U+0085,
  U+00A0, U+1680, U+2000 to U+200A, U+2028, U+2029, U+202F, U+205F and U+3000.
\<close>

definition space_runes :: "string list" where
  "space_runes =
     [[CHR 0x20], [CHR 0x09], [CHR 0x0A], [CHR 0x0B], [CHR 0x0C], [CHR 0x0D],
      [CHR 0xC2, CHR 0x85], [CHR 0xC2, CHR 0xA0], [CHR 0xE1, CHR 0x9A, CHR 0x80],
      [CHR 0xE2, CHR 0x80, CHR 0x80], [CHR 0xE2, CHR 0x80, CHR 0x81],
      [CHR 0xE2, CHR 0x80, CHR 0x82], [CHR 0xE2, CHR 0x80, CHR 0x83],
      [CHR 0xE2, CHR 0x80, CHR 0x84], [CHR 0xE2, CHR 0x80, CHR 0x85],
      [CHR 0xE2, CHR 0x80, CHR 0x86], [CHR 0xE2, CHR 0x80, CHR 0x87],
      [CHR 0xE2, CHR 0x80, CHR 0x88], [CHR 0xE2, CHR 0x80, CHR 0x89],
      [CHR 0xE2, CHR 0x80, CHR 0x8A], [CHR 0xE2, CHR 0x80, CHR 0xA8],
      [CHR 0xE2, CHR 0x80, CHR 0xA9], [CHR 0xE2, CHR 0x80, CHR 0xAF],
      [CHR 0xE2, CHR 0x81, CHR 0x9F], [CHR 0xE3, CHR 0x80, CHR 0x80]]"

lemma space_runes_nonempty: "p \<in> set space_runes \<Longrightarrow> p \<noteq> []"
  by (auto simp: space_runes_def)

function trimLeft :: "string list \<Rightarrow> string \<Rightarrow> string" where
  "trimLeft ps s =
     (case find (\<lambda>p. p \<noteq> [] \<and> prefix p s) ps of
        None \<Rightarrow> s
      | Some p \<Rightarrow> trimLeft ps (drop (length p) s))"
  by pat_completeness auto
termination
  by (relation "measure (\<lambda>(ps, s). length s)")
     (auto simp: find_Some_iff prefix_def)

declare trimLeft.simps [simp del]

definition TrimSpace :: "string \<Rightarrow> string" where
  "TrimSpace s = rev (trimLeft (map rev space_runes) (rev (trimLeft space_runes s)))"

text \<open>\<open>blank s\<close> is the kernel's recurring test \<open>strings.TrimSpace(s) == ""\<close>.\<close>

definition blank :: "string \<Rightarrow> bool" where
  "blank s \<longleftrightarrow> TrimSpace s = []"

lemma trimLeft_Nil [simp]: "trimLeft ps [] = []"
  by (subst trimLeft.simps) (auto simp: find_Some_iff split: option.split)

lemma trimLeft_id:
  assumes "\<forall>p \<in> set ps. p = [] \<or> \<not> prefix p s"
  shows "trimLeft ps s = s"
proof -
  have "find (\<lambda>p. p \<noteq> [] \<and> prefix p s) ps = None"
    using assms by (simp add: find_None_iff)
  then show ?thesis by (simp add: trimLeft.simps [of ps s])
qed

lemma TrimSpace_Nil [simp]: "TrimSpace [] = []"
  by (simp add: TrimSpace_def)

lemma blank_Nil [simp]: "blank []"
  by (simp add: blank_def)

lemma not_blank_nonempty: "\<not> blank s \<Longrightarrow> s \<noteq> []"
  by auto

lemma trimLeft_stable: "trimLeft ps (trimLeft ps s) = trimLeft ps s"
proof (induction ps s rule: trimLeft.induct)
  case (1 ps s)
  show ?case
  proof (cases "find (\<lambda>p. p \<noteq> [] \<and> prefix p s) ps")
    case None
    then show ?thesis by (simp add: trimLeft.simps [of ps s])
  next
    case (Some p)
    with "1.IH" show ?thesis by (simp add: trimLeft.simps [of ps s])
  qed
qed

section \<open>Words\<close>

lemma unat_inc: "x \<noteq> -1 \<Longrightarrow> unat (x + 1) = Suc (unat x)" for x :: "'a::len word"
  by (metis add.commute add_eq_0_iff unatSuc)

lemma word_le_inc: "x \<noteq> -1 \<Longrightarrow> x \<le> x + 1" for x :: "'a::len word"
  by (simp add: word_le_nat_alt unat_inc)

section \<open>Identifiers\<close>

text \<open>\<open>fmt.Sprintf("%016x", n)\<close>: sixteen lower-case hexadecimal digits, most significant first.\<close>

definition hexDigit :: "nat \<Rightarrow> char" where
  "hexDigit d = ''0123456789abcdef'' ! (d mod 16)"

fun hexDigits :: "nat \<Rightarrow> nat \<Rightarrow> string" where
  "hexDigits 0 n = []"
| "hexDigits (Suc w) n = hexDigits w (n div 16) @ [hexDigit n]"

definition hex16 :: "uint64 \<Rightarrow> string" where
  "hex16 n = hexDigits 16 (unat n)"

lemma length_hexDigits [simp]: "length (hexDigits w n) = w"
  by (induction w arbitrary: n) auto

lemma hexDigit_inj: "hexDigit a = hexDigit b \<longleftrightarrow> a mod 16 = b mod 16"
proof -
  have "distinct ''0123456789abcdef''" by simp
  then show ?thesis
    using nth_eq_iff_index_eq [of "''0123456789abcdef''" "a mod 16" "b mod 16"]
    by (simp add: hexDigit_def)
qed

lemma digit_eq:
  fixes x y r s :: nat
  assumes "r < 16" "s < 16"
  shows "16 * x + r = 16 * y + s \<longleftrightarrow> x = y \<and> r = s"
proof
  assume eq: "16 * x + r = 16 * y + s"
  then have "x = y" using assms by linarith
  with eq show "x = y \<and> r = s" by simp
qed simp

lemma digit_less:
  fixes x y r s :: nat
  assumes "r < 16" "s < 16"
  shows "16 * x + r < 16 * y + s \<longleftrightarrow> x < y \<or> x = y \<and> r < s"
proof (cases x y rule: linorder_cases)
  case less
  then show ?thesis using assms by linarith
next
  case equal
  then show ?thesis by simp
next
  case greater
  then show ?thesis using assms by linarith
qed

lemma mod_16_Suc: "n mod 16 ^ Suc w = 16 * (n div 16 mod 16 ^ w) + n mod (16::nat)"
  by (simp add: mod_mult2_eq)

lemma hexDigits_inj: "hexDigits w a = hexDigits w b \<longleftrightarrow> a mod 16 ^ w = b mod 16 ^ w"
proof (induction w arbitrary: a b)
  case 0
  show ?case by simp
next
  case (Suc w)
  have "hexDigits (Suc w) a = hexDigits (Suc w) b \<longleftrightarrow>
      a div 16 mod 16 ^ w = b div 16 mod 16 ^ w \<and> a mod 16 = b mod 16"
    by (simp add: Suc.IH hexDigit_inj)
  also have "\<dots> \<longleftrightarrow> a mod 16 ^ Suc w = b mod 16 ^ Suc w"
    unfolding mod_16_Suc by (rule digit_eq [symmetric]) simp_all
  finally show ?case .
qed

lemma hex16_inj [simp]: "hex16 a = hex16 b \<longleftrightarrow> a = b"
proof -
  have "unat a < 16 ^ 16" "unat b < 16 ^ 16"
    using unsigned_less [of a, where 'a = nat] unsigned_less [of b, where 'a = nat] by simp_all
  then show ?thesis by (simp add: hex16_def hexDigits_inj word_unat_eq_iff)
qed

text \<open>\<open>%d\<close> on a natural number and \<open>strconv.Itoa\<close> on an integer.\<close>

fun formatNat :: "nat \<Rightarrow> string" where
  "formatNat n = (if n < 10 then [hexDigit n] else formatNat (n div 10) @ [hexDigit (n mod 10)])"

declare formatNat.simps [simp del]

lemma formatNat_digits: "set (formatNat n) \<subseteq> hexDigit ` {..<10}"
proof (induction n rule: formatNat.induct)
  case (1 n)
  then show ?case by (subst formatNat.simps) auto
qed

definition Itoa :: "int \<Rightarrow> string" where
  "Itoa i = (if i < 0 then ''-'' @ formatNat (nat (- i)) else formatNat (nat i))"

lemma formatNat_nonempty [simp]: "formatNat n \<noteq> []"
  by (subst formatNat.simps) simp

lemma formatNat_inj [simp]: "formatNat m = formatNat n \<longleftrightarrow> m = n"
proof (induction m arbitrary: n rule: formatNat.induct)
  case (1 m)
  note formatNat.simps [of m, simp] formatNat.simps [of n, simp]
  show ?case
  proof (cases "m < 10"; cases "n < 10")
    assume "\<not> m < 10" "\<not> n < 10"
    with "1.IH" [of "n div 10"] show ?thesis
      by (simp add: hexDigit_inj) (metis div_mult_mod_eq)
  qed (auto simp: hexDigit_inj dest: sym)
qed

text \<open>Fixed-width digits order as the numbers do: \<open>slices.Sort\<close> on identifiers is issue order.\<close>

lemma hexDigit_less: "hexDigit a < hexDigit b \<longleftrightarrow> a mod 16 < b mod 16"
proof -
  have "\<forall>i < 16. \<forall>j < 16. ''0123456789abcdef'' ! i < ''0123456789abcdef'' ! j \<longleftrightarrow> i < j"
    by (simp add: All_less_Suc2 numeral_eq_Suc less_char_def)
  then show ?thesis by (simp add: hexDigit_def)
qed

lemma snoc_less_snoc:
  fixes xs ys :: "'a::linorder list"
  assumes "length xs = length ys"
  shows "xs @ [x] < ys @ [y] \<longleftrightarrow> xs < ys \<or> xs = ys \<and> x < y"
  using assms by (induction xs ys rule: list_induct2) auto

lemma hexDigits_less: "hexDigits w a < hexDigits w b \<longleftrightarrow> a mod 16 ^ w < b mod 16 ^ w"
proof (induction w arbitrary: a b)
  case 0
  show ?case by simp
next
  case (Suc w)
  have "hexDigits (Suc w) a < hexDigits (Suc w) b \<longleftrightarrow>
      a div 16 mod 16 ^ w < b div 16 mod 16 ^ w \<or>
      a div 16 mod 16 ^ w = b div 16 mod 16 ^ w \<and> a mod 16 < b mod 16"
    by (simp add: snoc_less_snoc Suc.IH hexDigits_inj hexDigit_less)
  also have "\<dots> \<longleftrightarrow> a mod 16 ^ Suc w < b mod 16 ^ Suc w"
    unfolding mod_16_Suc by (rule digit_less [symmetric]) simp_all
  finally show ?case .
qed

lemma hex16_less [simp]: "hex16 a < hex16 b \<longleftrightarrow> a < b"
proof -
  have "unat a < 16 ^ 16" "unat b < 16 ^ 16"
    using unsigned_less [of a, where 'a = nat] unsigned_less [of b, where 'a = nat] by simp_all
  then show ?thesis by (simp add: hex16_def hexDigits_less word_less_nat_alt)
qed

section \<open>Strings that need no trimming\<close>

definition plainChar :: "char \<Rightarrow> bool" where
  "plainChar c \<longleftrightarrow> list_all (\<lambda>p. c \<notin> set p) space_runes"

lemma trimLeft_keeps:
  "c \<in> set s \<Longrightarrow> \<forall>p \<in> set ps. c \<notin> set p \<Longrightarrow> c \<in> set (trimLeft ps s)"
proof (induction ps s rule: trimLeft.induct)
  case (1 ps s)
  show ?case
  proof (cases "find (\<lambda>p. p \<noteq> [] \<and> prefix p s) ps")
    case None
    then show ?thesis using 1(2) by (simp add: trimLeft.simps [of ps s])
  next
    case (Some p)
    then obtain r where p: "p \<in> set ps" "s = p @ r"
      by (auto simp: find_Some_iff prefix_def)
    then have "c \<in> set (drop (length p) s)" using 1(2,3) by auto
    then show ?thesis using 1(1) [OF Some] 1(3) Some by (simp add: trimLeft.simps [of ps s])
  qed
qed

lemma plain_prefix:
  assumes "plainChar c" "p \<in> set space_runes"
  shows "\<not> prefix p (c # cs)" "\<not> prefix (rev p) (c # cs)"
proof -
  have p: "c \<notin> set p" "p \<noteq> []"
    using assms space_runes_nonempty by (auto simp: plainChar_def list_all_iff)
  then show "\<not> prefix p (c # cs)" by (cases p) auto
  show "\<not> prefix (rev p) (c # cs)" using p by (cases p rule: rev_cases) auto
qed

lemma plain_not_blank [simp]:
  assumes "plainChar c"
  shows "\<not> blank (c # cs)"
proof -
  have "trimLeft space_runes (c # cs) = c # cs"
    by (rule trimLeft_id) (use plain_prefix [OF assms] in blast)
  moreover have "c \<in> set (trimLeft (map rev space_runes) (rev (c # cs)))"
    by (rule trimLeft_keeps) (use assms in \<open>auto simp: plainChar_def list_all_iff\<close>)
  ultimately show ?thesis unfolding blank_def TrimSpace_def by (auto simp del: rev.simps)
qed

lemma plain_trimmed [simp]:
  assumes "plainChar c" "plainChar (last (c # cs))"
  shows "TrimSpace (c # cs) = c # cs"
proof -
  have "trimLeft space_runes (c # cs) = c # cs"
    by (rule trimLeft_id) (use plain_prefix [OF assms(1)] in blast)
  moreover obtain r where r: "rev (c # cs) = last (c # cs) # r"
    by (cases cs rule: rev_cases) auto
  have "trimLeft (map rev space_runes) (rev (c # cs)) = rev (c # cs)"
    unfolding r by (rule trimLeft_id) (use plain_prefix(2) [OF assms(2)] in auto)
  ultimately show ?thesis by (simp only: TrimSpace_def rev_rev_ident)
qed

lemma plain_ascii [simp]:
  "plainChar CHR ''a''" "plainChar CHR ''b''" "plainChar CHR ''c''" "plainChar CHR ''d''"
  "plainChar CHR ''e''" "plainChar CHR ''f''" "plainChar CHR ''g''" "plainChar CHR ''h''"
  "plainChar CHR ''i''" "plainChar CHR ''j''" "plainChar CHR ''k''" "plainChar CHR ''l''"
  "plainChar CHR ''m''" "plainChar CHR ''n''" "plainChar CHR ''o''" "plainChar CHR ''p''"
  "plainChar CHR ''q''" "plainChar CHR ''r''" "plainChar CHR ''s''" "plainChar CHR ''t''"
  "plainChar CHR ''u''" "plainChar CHR ''v''" "plainChar CHR ''w''" "plainChar CHR ''x''"
  "plainChar CHR ''y''" "plainChar CHR ''z''" "plainChar CHR ''1''" "plainChar CHR ''2''"
  "plainChar CHR ''{''"
  by (simp_all add: plainChar_def space_runes_def)

section \<open>Joined and formatted text\<close>

fun joinWith :: "string \<Rightarrow> string list \<Rightarrow> string" where
  "joinWith sep [] = []"
| "joinWith sep [x] = x"
| "joinWith sep (x # y # rest) = x @ sep @ joinWith sep (y # rest)"

definition formatBool :: "bool \<Rightarrow> string" where
  "formatBool b = (if b then ''true'' else ''false'')"

end
