(* ===== verification/Provider_Types.thy ===== *)
theory Provider_Types
  imports Go_Prelude
begin

text \<open>
  The provider-neutral values of \<open>src/internal/adapter/provider/types.go\<close> that the response
  assembly is made of: transport metadata, token usage, content blocks and stream events, with
  \<open>StreamEvent.Validate\<close> and \<open>MergeCumulative\<close>. A pointer field is an option. A string
  enumeration is a datatype of the declared constants; where the code tests for the empty string,
  the empty string is a constructor of its own (\<open>StopReasonUnset\<close>).
\<close>

section \<open>Content\<close>

datatype ContentType =
  ContentText | ContentReasoning | ContentToolCall | ContentToolResult | ContentSearch
  | ContentCitation | ContentImage

record Attachment =
  at_MediaType :: string
  at_Data :: string
  at_Name :: string
  at_Handle :: string

record Source =
  so_ID :: string
  so_Title :: string
  so_URL :: string

record SearchResult =
  sr_Query :: string
  sr_Sources :: "Source list"
  sr_Error :: string

record Citation =
  ci_SourceID :: string
  ci_URL :: string
  ci_Title :: string
  ci_Start :: int
  ci_End :: int

record ToolCall =
  tl_ID :: string
  tl_Name :: string
  tl_Arguments :: string
  tl_CatalogID :: string
  tl_CatalogGeneration :: uint64
  tl_CatalogRevision :: uint64
  tl_CatalogAuthority :: uint64

record AdmissionReceipt =
  ar_Kind :: string
  ar_Reason :: string
  ar_Digest :: string
  ar_Handle :: string
  ar_OriginalBytes :: int
  ar_RetainedBytes :: int
  ar_OriginalTokens :: uint64
  ar_RetainedTokens :: uint64
  ar_TokenLimit :: uint64
  ar_Truncated :: bool

record ToolResult =
  tt_CallID :: string
  tt_Content :: string
  tt_IsError :: bool
  tt_Admission :: "AdmissionReceipt option"

record ContentBlock =
  cb_Type :: ContentType
  cb_Text :: string
  cb_ID :: string
  cb_ToolCall :: "ToolCall option"
  cb_ToolResult :: "ToolResult option"
  cb_Search :: "SearchResult option"
  cb_Citation :: "Citation option"
  cb_Attachment :: "Attachment option"

definition emptyBlock :: "ContentType \<Rightarrow> ContentBlock" where
  "emptyBlock ty = \<lparr>cb_Type = ty, cb_Text = [], cb_ID = [], cb_ToolCall = None,
     cb_ToolResult = None, cb_Search = None, cb_Citation = None, cb_Attachment = None\<rparr>"

definition ContentBlock_Validate :: "ContentBlock \<Rightarrow> message option" where
  "ContentBlock_Validate b = (case cb_Type b of
     ContentText \<Rightarrow> fail_if (cb_Text b = []) (Msg ''text is required'')
   | ContentReasoning \<Rightarrow> fail_if (cb_Text b = []) (Msg ''reasoning text is required'')
   | ContentToolCall \<Rightarrow>
       fail_if (case cb_ToolCall b of None \<Rightarrow> True | Some c \<Rightarrow> tl_ID c = [] \<or> tl_Name c = [])
         (Msg ''complete tool call is required'')
   | ContentToolResult \<Rightarrow>
       fail_if (case cb_ToolResult b of None \<Rightarrow> True | Some r \<Rightarrow> tt_CallID r = [])
         (Msg ''tool result call_id is required'')
   | ContentSearch \<Rightarrow> fail_if (cb_Search b = None) (Msg ''search result is required'')
   | ContentCitation \<Rightarrow>
       fail_if (case cb_Citation b of None \<Rightarrow> True | Some c \<Rightarrow> ci_URL c = [])
         (Msg ''citation URL is required'')
   | ContentImage \<Rightarrow> (case cb_Attachment b of
         None \<Rightarrow> Some (Msg ''image bytes are required'')
       | Some a \<Rightarrow> first_error
           [fail_if (at_Data a = []) (Msg ''image bytes are required''),
            fail_if (\<not> prefix ''image/'' (at_MediaType a))
              (Fmt ''image media type %q is not an image'' [ArgS (at_MediaType a)])]))"

section \<open>Usage and transport\<close>

record ProjectionReceipt =
  pj_Mode :: string
  pj_IncrementalEligible :: bool
  pj_FallbackReason :: string
  pj_RouteDigest :: string
  pj_PropertyDigest :: string
  pj_StablePrefixDigest :: string
  pj_InputDigest :: string
  pj_DeltaDigest :: string
  pj_ContextRevision :: uint64
  pj_WindowID :: string
  pj_WindowNumber :: uint64
  pj_LogicalItems :: int
  pj_TransportItems :: int
  pj_LogicalTransportEquivalent :: bool

record TransportMetadata =
  tm_LogicalRequestID :: string
  tm_TransportRequestID :: string
  tm_Attempt :: uint32
  tm_RequestBytes :: uint64
  tm_RouteCooldownWaitMS :: uint64
  tm_LogicalRequestDigest :: string
  tm_TransportPayloadDigest :: string
  tm_Incremental :: bool
  tm_Projection :: ProjectionReceipt

definition zeroTransport :: TransportMetadata where
  "zeroTransport = \<lparr>tm_LogicalRequestID = [], tm_TransportRequestID = [], tm_Attempt = 0,
     tm_RequestBytes = 0, tm_RouteCooldownWaitMS = 0, tm_LogicalRequestDigest = [],
     tm_TransportPayloadDigest = [], tm_Incremental = False,
     tm_Projection = \<lparr>pj_Mode = [], pj_IncrementalEligible = False, pj_FallbackReason = [],
       pj_RouteDigest = [], pj_PropertyDigest = [], pj_StablePrefixDigest = [],
       pj_InputDigest = [], pj_DeltaDigest = [], pj_ContextRevision = 0, pj_WindowID = [],
       pj_WindowNumber = 0, pj_LogicalItems = 0, pj_TransportItems = 0,
       pj_LogicalTransportEquivalent = False\<rparr>\<rparr>"

record Usage =
  ug_InputTokens :: uint64
  ug_OutputTokens :: uint64
  ug_ReasoningTokens :: uint64
  ug_CachedTokens :: uint64
  ug_Transport :: TransportMetadata

definition zeroUsage :: Usage where
  "zeroUsage = \<lparr>ug_InputTokens = 0, ug_OutputTokens = 0, ug_ReasoningTokens = 0,
     ug_CachedTokens = 0, ug_Transport = zeroTransport\<rparr>"

definition Consistent :: "Usage \<Rightarrow> bool" where
  "Consistent u \<longleftrightarrow> ug_CachedTokens u \<le> ug_InputTokens u \<and> ug_ReasoningTokens u \<le> ug_OutputTokens u"

definition Usage_Add :: "Usage \<Rightarrow> Usage \<Rightarrow> Usage" where
  "Usage_Add u v = u\<lparr>
     ug_InputTokens := ug_InputTokens u + ug_InputTokens v,
     ug_OutputTokens := ug_OutputTokens u + ug_OutputTokens v,
     ug_ReasoningTokens := ug_ReasoningTokens u + ug_ReasoningTokens v,
     ug_CachedTokens := ug_CachedTokens u + ug_CachedTokens v\<rparr>"

definition MergeCumulative :: "Usage \<Rightarrow> Usage \<Rightarrow> Usage" where
  "MergeCumulative current update =
    (let m0 = update;
         m1 = (if ug_InputTokens m0 < ug_InputTokens current
               then m0\<lparr>ug_InputTokens := ug_InputTokens current\<rparr> else m0);
         m2 = (if ug_OutputTokens m1 < ug_OutputTokens current
               then m1\<lparr>ug_OutputTokens := ug_OutputTokens current\<rparr> else m1);
         m3 = (if ug_ReasoningTokens m2 < ug_ReasoningTokens current
               then m2\<lparr>ug_ReasoningTokens := ug_ReasoningTokens current\<rparr> else m2);
         m4 = (if ug_CachedTokens m3 < ug_CachedTokens current
               then m3\<lparr>ug_CachedTokens := ug_CachedTokens current\<rparr> else m3)
     in if ug_Transport m4 = zeroTransport
        then m4\<lparr>ug_Transport := ug_Transport current\<rparr> else m4)"

text \<open>The merge is the pointwise maximum, so it is idempotent, monotone and never shrinks.\<close>

lemma MergeCumulative_fields [simp]:
  "ug_InputTokens (MergeCumulative c u) = max (ug_InputTokens c) (ug_InputTokens u)"
  "ug_OutputTokens (MergeCumulative c u) = max (ug_OutputTokens c) (ug_OutputTokens u)"
  "ug_ReasoningTokens (MergeCumulative c u) = max (ug_ReasoningTokens c) (ug_ReasoningTokens u)"
  "ug_CachedTokens (MergeCumulative c u) = max (ug_CachedTokens c) (ug_CachedTokens u)"
  by (auto simp: MergeCumulative_def Let_def max_def)

section \<open>Stream events\<close>

datatype StreamEventType =
  EventMessageStart | EventTextDelta | EventReasoningDelta | EventReasoningSignature
  | EventToolCallDelta | EventSearchResult | EventCitation | EventUsage | EventReplayState
  | EventResponseState | EventTransportProgress | EventMessageStop

datatype StopReason =
  StopReasonUnset | StopReasonEndTurn | StopReasonToolUse | StopReasonMaxTokens
  | StopReasonContentFilter | StopReasonIncomplete | StopReasonUnknown

fun StopReason_Incomplete :: "StopReason \<Rightarrow> bool" where
  "StopReason_Incomplete StopReasonMaxTokens = True"
| "StopReason_Incomplete StopReasonContentFilter = True"
| "StopReason_Incomplete StopReasonIncomplete = True"
| "StopReason_Incomplete _ = False"

record ToolCallFragment =
  tf_Index :: int
  tf_ID :: string
  tf_Name :: string
  tf_Arguments :: string

record ReplayState =
  rs_Version :: uint32
  rs_ContentDigest :: string
  rs_Data :: string

definition ReplayVersion :: uint32 where "ReplayVersion = 1"

record ResponseState =
  rp_ID :: string
  rp_Output :: "string list"

record StreamEvent =
  se_Type :: StreamEventType
  se_EventID :: string
  se_Sequenced :: bool
  se_Sequence :: uint64
  se_Ordinal :: uint32
  se_StopReason :: StopReason
  se_Index :: int
  se_Block :: "ContentBlock option"
  se_Text :: string
  se_Signature :: string
  se_ToolCall :: "ToolCallFragment option"
  se_Search :: "SearchResult option"
  se_Citation :: "Citation option"
  se_Usage :: "Usage option"
  se_Replay :: "ReplayState option"
  se_ReplayFragment :: string
  se_Response :: "ResponseState option"

text \<open>
  \<open>json.Valid\<close> is an argument of the definitions that call it; every result below holds whatever
  it accepts.
\<close>

definition StreamEvent_Validate :: "(string \<Rightarrow> bool) \<Rightarrow> StreamEvent \<Rightarrow> message option" where
  "StreamEvent_Validate jsonValid e = first_error
     [(case se_Block e of
         None \<Rightarrow> None
       | Some b \<Rightarrow> map_option (\<lambda>m. Fmt ''stream block: %w'' [ArgM m]) (ContentBlock_Validate b)),
      (case se_Type e of
         EventMessageStart \<Rightarrow>
           fail_if (se_StopReason e \<noteq> StopReasonUnset)
             (Msg ''message start cannot have a stop reason'')
       | EventMessageStop \<Rightarrow> None
       | EventTextDelta \<Rightarrow>
           fail_if (se_Text e = [] \<and> se_Block e = None) (Msg ''stream text delta is empty'')
       | EventReasoningDelta \<Rightarrow>
           fail_if (se_Text e = [] \<and> se_Block e = None) (Msg ''stream text delta is empty'')
       | EventReasoningSignature \<Rightarrow>
           fail_if (se_Signature e = []) (Msg ''reasoning signature is empty'')
       | EventToolCallDelta \<Rightarrow>
           fail_if (se_ToolCall e = None) (Msg ''tool call fragment is required'')
       | EventUsage \<Rightarrow> fail_if (se_Usage e = None) (Msg ''usage is required'')
       | EventReplayState \<Rightarrow>
           fail_if (case se_Replay e of None \<Rightarrow> True
                    | Some r \<Rightarrow> rs_Version r \<noteq> ReplayVersion \<or> rs_Data r = [] \<or> \<not> jsonValid (rs_Data r))
             (Msg ''versioned replay state is required'')
       | EventResponseState \<Rightarrow>
           fail_if (case se_Response e of None \<Rightarrow> True | Some r \<Rightarrow> rp_ID r = [])
             (Msg ''response state id is required'')
       | EventTransportProgress \<Rightarrow> None
       | EventSearchResult \<Rightarrow> (case se_Search e of
             None \<Rightarrow> Some (Msg ''search result is required'')
           | Some s \<Rightarrow> first_error (map (\<lambda>(i, src). fail_if (so_URL src = [])
                 (Fmt ''search source %d URL is required'' [ArgN i])) (enumerate 0 (sr_Sources s))))
       | EventCitation \<Rightarrow>
           fail_if (case se_Citation e of None \<Rightarrow> True | Some c \<Rightarrow> ci_URL c = [])
             (Msg ''citation URL is required''))]"

lemma StreamEvent_Validate_payload:
  assumes "StreamEvent_Validate jv e = None"
  shows "se_Type e = EventToolCallDelta \<Longrightarrow> \<exists>f. se_ToolCall e = Some f"
    and "se_Type e = EventUsage \<Longrightarrow> \<exists>u. se_Usage e = Some u"
    and "se_Type e = EventReplayState \<Longrightarrow> \<exists>r. se_Replay e = Some r"
    and "se_Type e = EventResponseState \<Longrightarrow> \<exists>r. se_Response e = Some r"
  using assms by (auto simp: StreamEvent_Validate_def split: option.splits)

end
