(* ===== verification/Response_Assembly.thy ===== *)
theory Response_Assembly
  imports Provider_Types
begin

text \<open>
  The persistable record of one logical model sample,
  \<open>src/internal/adapter/provider/assembly/response_assembly.go\<close> and
  \<open>tool_argument_repair.go\<close>: its operations, its validator and the durable-extension check the
  kernel applies to every checkpoint.

  A method on \<open>*ResponseAssembly\<close> returns the assembly it leaves behind next to its result,
  because several of them write to the receiver before they report an error.
\<close>

section \<open>State\<close>

definition ResponseAssemblyVersion :: int where "ResponseAssemblyVersion = 1"

datatype ResponseCompleteness =
  ResponseEmpty | ResponseStreaming | ResponseIncomplete | ResponseComplete | ResponseFailed

record ResponseSegment =
  rg_Transport :: TransportMetadata
  rg_State :: ResponseCompleteness
  rg_StopReason :: StopReason
  rg_Blocks :: "ContentBlock list"
  rg_ToolFragments :: "ToolCallFragment list"
  rg_Usage :: Usage
  rg_Replay :: "ReplayState option"
  rg_Response :: "ResponseState option"
  rg_Seen :: "(string, string) fmap"
  rg_HasSequence :: bool
  rg_LastSequence :: uint64
  rg_LastOrdinal :: uint32
  rg_EventCount :: uint64
  rg_Meaningful :: bool
  rg_Error :: string
  rg_RejectedToolArguments :: bool

record ResponseAssembly =
  ra_Version :: int
  ra_LogicalRequestID :: string
  ra_State :: ResponseCompleteness
  ra_Segments :: "ResponseSegment list"
  ra_ToolArgumentRepairs :: "uint32 list"

text \<open>
  What the assembly uses of \<open>encoding/json\<close> and \<open>crypto/sha256\<close>. \<open>jsonBlock\<close> is the
  encode/decode copy of a content block, which cannot fail on such a value; \<open>jsonAssembly\<close> is the
  copy of a whole assembly, which fails when a raw message in it is not valid JSON; \<open>jsonString\<close>
  decodes a quoted JSON string.
\<close>

record AssemblyEnv =
  jsonValid :: "string \<Rightarrow> bool"
  sha256hex :: "string \<Rightarrow> string"
  jsonStreamEvent :: "StreamEvent \<Rightarrow> string option"
  jsonBlock :: "ContentBlock \<Rightarrow> ContentBlock"
  jsonAssembly :: "ResponseAssembly \<Rightarrow> ResponseAssembly option"
  jsonString :: "string \<Rightarrow> string option"

definition digestBytes :: "'e AssemblyEnv_scheme \<Rightarrow> string \<Rightarrow> string" where
  "digestBytes env data = ''sha256:'' @ sha256hex env data"

definition NewResponseAssembly :: "string \<Rightarrow> ResponseAssembly" where
  "NewResponseAssembly i = \<lparr>ra_Version = ResponseAssemblyVersion, ra_LogicalRequestID = i,
     ra_State = ResponseEmpty, ra_Segments = [], ra_ToolArgumentRepairs = []\<rparr>"

definition newSegment :: "TransportMetadata \<Rightarrow> ResponseSegment" where
  "newSegment m = \<lparr>rg_Transport = m, rg_State = ResponseStreaming, rg_StopReason = StopReasonUnset,
     rg_Blocks = [], rg_ToolFragments = [], rg_Usage = zeroUsage, rg_Replay = None,
     rg_Response = None, rg_Seen = fmempty, rg_HasSequence = False, rg_LastSequence = 0,
     rg_LastOrdinal = 0, rg_EventCount = 0, rg_Meaningful = False, rg_Error = [],
     rg_RejectedToolArguments = False\<rparr>"

definition CloneResponseAssembly ::
    "'e AssemblyEnv_scheme \<Rightarrow> ResponseAssembly option \<Rightarrow> ResponseAssembly option" where
  "CloneResponseAssembly env source = Option.bind source (jsonAssembly env)"

definition currentOrNil :: "ResponseAssembly \<Rightarrow> ResponseSegment option" where
  "currentOrNil a = (if ra_Segments a = [] then None else Some (last (ra_Segments a)))"

definition setCurrent :: "ResponseSegment \<Rightarrow> ResponseAssembly \<Rightarrow> ResponseAssembly" where
  "setCurrent s a = a\<lparr>ra_Segments := butlast (ra_Segments a) @ [s]\<rparr>"

definition noTransport :: message where
  "noTransport = Msg ''response transport has not started''"

section \<open>Tool argument repair\<close>

definition ToolArgumentsRejected :: "ResponseAssembly \<Rightarrow> bool" where
  "ToolArgumentsRejected a = (case currentOrNil a of
     None \<Rightarrow> False
   | Some s \<Rightarrow> rg_State s = ResponseFailed \<and> rg_RejectedToolArguments s)"

definition toolArgumentRepairAuthorized :: "ResponseAssembly \<Rightarrow> bool" where
  "toolArgumentRepairAuthorized a \<longleftrightarrow>
     ToolArgumentsRejected a \<and> ra_ToolArgumentRepairs a \<noteq> [] \<and>
     last (ra_ToolArgumentRepairs a) = of_nat (length (ra_Segments a))"

definition ErrToolArgumentRepairLimit :: message where
  "ErrToolArgumentRepairLimit = Msg ''tool argument regeneration budget exhausted''"

definition AuthorizeToolArgumentRepair ::
    "int \<Rightarrow> ResponseAssembly \<Rightarrow> ResponseAssembly \<times> message option" where
  "AuthorizeToolArgumentRepair limit a =
    (if \<not> ToolArgumentsRejected a then (a, Some (Msg ''response has no rejected tool arguments''))
     else if toolArgumentRepairAuthorized a then (a, None)
     else if int (length (ra_ToolArgumentRepairs a)) \<ge> max limit 0
       then (a, Some ErrToolArgumentRepairLimit)
     else (a\<lparr>ra_ToolArgumentRepairs :=
               ra_ToolArgumentRepairs a @ [of_nat (length (ra_Segments a))]\<rparr>, None))"

fun repairsInOrder :: "ResponseSegment list \<Rightarrow> uint32 \<Rightarrow> uint32 list \<Rightarrow> bool" where
  "repairsInOrder segs previous [] = True"
| "repairsInOrder segs previous (i # rest) \<longleftrightarrow>
     \<not> (i \<le> previous \<or> unat i > length segs \<or> \<not> rg_RejectedToolArguments (segs ! (unat i - 1))) \<and>
     repairsInOrder segs i rest"

definition validateToolArgumentRepairs :: "ResponseAssembly \<Rightarrow> message option" where
  "validateToolArgumentRepairs a = first_error
    (fail_if (\<not> repairsInOrder (ra_Segments a) 0 (ra_ToolArgumentRepairs a))
       (Msg ''invalid tool argument repair authorization'')
     # map (\<lambda>(i, s). fail_if
         (rg_State s = ResponseFailed \<and> of_nat (i + 1) \<notin> set (ra_ToolArgumentRepairs a))
         (Fmt ''failed response segment %d was resumed without authorization'' [ArgN i]))
       (enumerate 0 (butlast (ra_Segments a))))"

section \<open>Validation\<close>

definition segmentError :: "ResponseAssembly \<Rightarrow> nat \<Rightarrow> ResponseSegment \<Rightarrow> message option" where
  "segmentError a i s = first_error
     [fail_if (tm_LogicalRequestID (rg_Transport s) \<noteq> ra_LogicalRequestID a \<or>
               tm_TransportRequestID (rg_Transport s) = [] \<or> tm_Attempt (rg_Transport s) = 0)
        (Fmt ''response segment %d has invalid attribution'' [ArgN i]),
      fail_if (rg_State s = ResponseEmpty)
        (Fmt ''response segment %d has invalid state %q'' [ArgN i, ArgS ''empty'']),
      fail_if (rg_RejectedToolArguments s \<and>
               (rg_State s \<noteq> ResponseFailed \<or> rg_ToolFragments s = []))
        (Fmt ''response segment %d has invalid tool rejection'' [ArgN i])]"

definition Assembly_Validate :: "ResponseAssembly \<Rightarrow> message option" where
  "Assembly_Validate a =
    (if ra_Version a \<noteq> ResponseAssemblyVersion
       then Some (Fmt ''unsupported response assembly version %d'' [ArgI (ra_Version a)])
     else if blank (ra_LogicalRequestID a)
       then Some (Msg ''response assembly logical request id is empty'')
     else if ra_Segments a = []
       then fail_if (ra_State a \<noteq> ResponseEmpty \<or> ra_ToolArgumentRepairs a \<noteq> [])
              (Msg ''response assembly without segments is not empty'')
     else first_error
       [first_error (map (\<lambda>(i, s). segmentError a i s) (enumerate 0 (ra_Segments a))),
        validateToolArgumentRepairs a,
        fail_if (ra_State a \<noteq> rg_State (last (ra_Segments a)))
          (Msg ''response assembly state does not match last segment'')])"

definition blockExtends :: "ContentBlock \<Rightarrow> ContentBlock \<Rightarrow> bool" where
  "blockExtends old new \<longleftrightarrow>
     old\<lparr>cb_Text := []\<rparr> =
       (if cb_ID old = [] then new\<lparr>cb_Text := [], cb_ID := []\<rparr> else new\<lparr>cb_Text := []\<rparr>) \<and>
     prefix (cb_Text old) (cb_Text new)"

definition fragmentExtends :: "ToolCallFragment \<Rightarrow> ToolCallFragment \<Rightarrow> bool" where
  "fragmentExtends old new \<longleftrightarrow> \<not> (tf_Index old \<noteq> tf_Index new \<or>
     tf_ID old \<noteq> [] \<and> tf_ID old \<noteq> tf_ID new \<or>
     tf_Name old \<noteq> [] \<and> tf_Name old \<noteq> tf_Name new \<or>
     \<not> prefix (tf_Arguments old) (tf_Arguments new))"

definition prefixErrors ::
    "('a \<Rightarrow> 'a \<Rightarrow> bool) \<Rightarrow> string \<Rightarrow> string \<Rightarrow> 'a list \<Rightarrow> 'a list \<Rightarrow> message option" where
  "prefixErrors ext removed changed before after = first_error
     (fail_if (length before > length after) (Msg removed)
      # map (\<lambda>(i, b, a). fail_if (\<not> ext b a) (Fmt changed [ArgN i]))
          (enumerate 0 (zip before after)))"

definition validateBlockPrefix :: "ContentBlock list \<Rightarrow> ContentBlock list \<Rightarrow> message option" where
  "validateBlockPrefix =
     prefixErrors blockExtends ''response blocks were removed'' ''response block %d changed''"

definition validateToolFragmentPrefix ::
    "ToolCallFragment list \<Rightarrow> ToolCallFragment list \<Rightarrow> message option" where
  "validateToolFragmentPrefix =
     prefixErrors fragmentExtends ''tool fragments were removed'' ''tool fragment %d changed''"

definition validateResponseStatePrefix ::
    "ResponseState option \<Rightarrow> ResponseState option \<Rightarrow> message option" where
  "validateResponseStatePrefix before after = (case (before, after) of
     (None, _) \<Rightarrow> None
   | (Some b, None) \<Rightarrow> Some (Msg ''response state changed'')
   | (Some b, Some a) \<Rightarrow>
       (if rp_ID b \<noteq> rp_ID a then Some (Msg ''response state changed'')
        else prefixErrors (=) ''response state changed'' ''response output %d changed''
               (rp_Output b) (rp_Output a)))"

definition validateSegmentExtension :: "ResponseSegment \<Rightarrow> ResponseSegment \<Rightarrow> message option" where
  "validateSegmentExtension before after = first_error
     [fail_if (rg_RejectedToolArguments before \<and> \<not> rg_RejectedToolArguments after \<or>
               rg_State before \<noteq> ResponseStreaming \<and>
               rg_RejectedToolArguments before \<noteq> rg_RejectedToolArguments after)
        (Msg ''tool argument rejection changed''),
      fail_if (rg_Transport before \<noteq> rg_Transport after) (Msg ''transport metadata changed''),
      fail_if (rg_EventCount before > rg_EventCount after \<or>
               ug_InputTokens (rg_Usage before) > ug_InputTokens (rg_Usage after) \<or>
               ug_OutputTokens (rg_Usage before) > ug_OutputTokens (rg_Usage after) \<or>
               ug_ReasoningTokens (rg_Usage before) > ug_ReasoningTokens (rg_Usage after) \<or>
               ug_CachedTokens (rg_Usage before) > ug_CachedTokens (rg_Usage after))
        (Msg ''counters moved backward''),
      fail_if (rg_Meaningful before \<and> \<not> rg_Meaningful after \<or>
               rg_HasSequence before \<and> \<not> rg_HasSequence after \<or>
               rg_HasSequence before \<and>
                 (rg_LastSequence after < rg_LastSequence before \<or>
                  rg_LastSequence after = rg_LastSequence before \<and>
                  rg_LastOrdinal after < rg_LastOrdinal before))
        (Msg ''stream progress moved backward''),
      fail_if (rg_StopReason before \<noteq> StopReasonUnset \<and> rg_StopReason before \<noteq> rg_StopReason after \<or>
               rg_Error before \<noteq> [] \<and> rg_Error before \<noteq> rg_Error after)
        (Msg ''terminal metadata changed''),
      fail_if (rg_State before \<noteq> ResponseStreaming \<and> rg_State before \<noteq> rg_State after)
        (Msg ''settled response state changed''),
      validateBlockPrefix (rg_Blocks before) (rg_Blocks after),
      validateToolFragmentPrefix (rg_ToolFragments before) (rg_ToolFragments after),
      fail_if (rg_Replay before \<noteq> None \<and> rg_Replay before \<noteq> rg_Replay after)
        (Msg ''replay state changed''),
      validateResponseStatePrefix (rg_Response before) (rg_Response after),
      check_map (\<lambda>key digest. fail_if (get_or [] (rg_Seen after) key \<noteq> digest)
        (Fmt ''event %q changed'' [ArgS key])) (rg_Seen before)]"

definition ValidateExtension ::
    "ResponseAssembly \<Rightarrow> ResponseAssembly option \<Rightarrow> message option" where
  "ValidateExtension a previous = (case Assembly_Validate a of
     Some e \<Rightarrow> Some e
   | None \<Rightarrow> (case previous of
       None \<Rightarrow> None
     | Some p \<Rightarrow> (case Assembly_Validate p of
         Some e \<Rightarrow> Some (Fmt ''previous response assembly: %w'' [ArgM e])
       | None \<Rightarrow> first_error
           (fail_if (ra_Version a \<noteq> ra_Version p \<or>
                     ra_LogicalRequestID a \<noteq> ra_LogicalRequestID p \<or>
                     length (ra_Segments a) < length (ra_Segments p))
              (Msg ''response assembly does not extend durable identity'')
            # fail_if (length (ra_ToolArgumentRepairs a) < length (ra_ToolArgumentRepairs p) \<or>
                       take (length (ra_ToolArgumentRepairs p)) (ra_ToolArgumentRepairs a) \<noteq>
                         ra_ToolArgumentRepairs p)
              (Msg ''tool argument repair authorizations changed'')
            # map (\<lambda>(i, b, s). map_option
                   (\<lambda>e. Fmt ''response segment %d regressed durable progress: %w'' [ArgN i, ArgM e])
                   (validateSegmentExtension b s))
                (enumerate 0 (zip (ra_Segments p) (ra_Segments a)))))))"

section \<open>Durable extension is a preorder\<close>

lemma first_error_Cons [simp]: "first_error (x # xs) = None \<longleftrightarrow> x = None \<and> first_error xs = None"
  by (cases x) auto

lemma ball_enumerate: "(\<forall>x \<in> set (enumerate n xs). P x) \<longleftrightarrow> (\<forall>i < length xs. P (n + i, xs ! i))"
  by (simp add: enumerate_eq_zip all_set_conv_all_nth)

lemma map_option_None: "map_option f x = None \<longleftrightarrow> x = None"
  by (cases x) auto

text \<open>
  Blocks, fragments and raw outputs all grow by the same rule: no element is removed and each
  element is replaced by an extension of itself. The rule is a preorder as soon as the element
  relation is one.
\<close>

locale extension_order =
  fixes ext :: "'a \<Rightarrow> 'a \<Rightarrow> bool"
  assumes ext_refl: "ext x x"
    and ext_trans: "ext x y \<Longrightarrow> ext y z \<Longrightarrow> ext x z"
begin

definition grows :: "'a list \<Rightarrow> 'a list \<Rightarrow> bool" where
  "grows xs ys \<longleftrightarrow> length xs \<le> length ys \<and> (\<forall>i < length xs. ext (xs ! i) (ys ! i))"

lemma prefixErrors_None: "prefixErrors ext r c xs ys = None \<longleftrightarrow> grows xs ys"
  by (auto simp: prefixErrors_def grows_def ball_enumerate)

lemma grows_refl: "grows xs xs"
  by (simp add: grows_def ext_refl)

lemma grows_trans: "grows xs ys \<Longrightarrow> grows ys zs \<Longrightarrow> grows xs zs"
  unfolding grows_def using ext_trans by (meson le_trans less_le_trans)

lemma grows_append: "grows xs (xs @ zs)"
  by (simp add: grows_def nth_append ext_refl)

lemma grows_Nil: "grows [] ys"
  by (simp add: grows_def)

lemma grows_Cons: "grows (x # xs) (y # ys) \<longleftrightarrow> ext x y \<and> grows xs ys"
  by (auto simp: grows_def nth_Cons split: nat.splits)

lemma grows_last: "xs \<noteq> [] \<Longrightarrow> ext (last xs) y \<Longrightarrow> grows xs (butlast xs @ [y])"
  by (cases xs rule: rev_cases) (auto simp: grows_def nth_append ext_refl less_Suc_eq_le)

lemma grows_update: "i < length xs \<Longrightarrow> ext (xs ! i) y \<Longrightarrow> grows xs (xs[i := y])"
  by (simp add: grows_def nth_list_update ext_refl)

end

interpretation block: extension_order blockExtends
proof
  show "blockExtends x x" for x
    by (cases x) (simp add: blockExtends_def)
next
  fix x y z
  assume "blockExtends x y" "blockExtends y z"
  then show "blockExtends x z"
    by (cases x; cases y; cases z)
       (auto simp: blockExtends_def split: if_splits elim: prefix_order.trans)
qed

interpretation fragment: extension_order fragmentExtends
  by unfold_locales (auto simp: fragmentExtends_def elim: prefix_order.trans)

interpretation rawout: extension_order "(=) :: string \<Rightarrow> string \<Rightarrow> bool"
  by unfold_locales auto

definition segmentExtends :: "ResponseSegment \<Rightarrow> ResponseSegment \<Rightarrow> bool" where
  "segmentExtends before after \<longleftrightarrow> validateSegmentExtension before after = None"

definition sequenceLeq :: "ResponseSegment \<Rightarrow> ResponseSegment \<Rightarrow> bool" where
  "sequenceLeq b a \<longleftrightarrow> (rg_HasSequence b \<longrightarrow> rg_HasSequence a \<and>
     (rg_LastSequence b < rg_LastSequence a \<or>
      rg_LastSequence b = rg_LastSequence a \<and> rg_LastOrdinal b \<le> rg_LastOrdinal a))"

definition outputLeq :: "ResponseState option \<Rightarrow> ResponseState option \<Rightarrow> bool" where
  "outputLeq before after = (case before of None \<Rightarrow> True
   | Some b \<Rightarrow> (case after of None \<Rightarrow> False
     | Some a \<Rightarrow> rp_ID b = rp_ID a \<and> rawout.grows (rp_Output b) (rp_Output a)))"

lemma validateResponseStatePrefix_None:
  "validateResponseStatePrefix b a = None \<longleftrightarrow> outputLeq b a"
  by (auto simp: validateResponseStatePrefix_def outputLeq_def rawout.prefixErrors_None
      split: option.splits)

lemma outputLeq_refl: "outputLeq x x"
  by (simp add: outputLeq_def rawout.grows_refl split: option.split)

lemma outputLeq_trans: "outputLeq x y \<Longrightarrow> outputLeq y z \<Longrightarrow> outputLeq x z"
  by (auto simp: outputLeq_def split: option.splits intro: rawout.grows_trans)

lemma sequenceLeq_iff: "sequenceLeq b a \<longleftrightarrow>
    \<not> (rg_HasSequence b \<and> \<not> rg_HasSequence a \<or> rg_HasSequence b \<and>
       (rg_LastSequence a < rg_LastSequence b \<or>
        rg_LastSequence a = rg_LastSequence b \<and> rg_LastOrdinal a < rg_LastOrdinal b))"
  by (auto simp: sequenceLeq_def not_less)

lemma segmentExtends_iff: "segmentExtends b a \<longleftrightarrow>
    (rg_RejectedToolArguments b \<longrightarrow> rg_RejectedToolArguments a) \<and>
    (rg_State b \<noteq> ResponseStreaming \<longrightarrow>
       rg_RejectedToolArguments b = rg_RejectedToolArguments a) \<and>
    rg_Transport b = rg_Transport a \<and>
    rg_EventCount b \<le> rg_EventCount a \<and>
    ug_InputTokens (rg_Usage b) \<le> ug_InputTokens (rg_Usage a) \<and>
    ug_OutputTokens (rg_Usage b) \<le> ug_OutputTokens (rg_Usage a) \<and>
    ug_ReasoningTokens (rg_Usage b) \<le> ug_ReasoningTokens (rg_Usage a) \<and>
    ug_CachedTokens (rg_Usage b) \<le> ug_CachedTokens (rg_Usage a) \<and>
    (rg_Meaningful b \<longrightarrow> rg_Meaningful a) \<and> sequenceLeq b a \<and>
    (rg_StopReason b \<noteq> StopReasonUnset \<longrightarrow> rg_StopReason b = rg_StopReason a) \<and>
    (rg_Error b \<noteq> [] \<longrightarrow> rg_Error b = rg_Error a) \<and>
    (rg_State b \<noteq> ResponseStreaming \<longrightarrow> rg_State b = rg_State a) \<and>
    block.grows (rg_Blocks b) (rg_Blocks a) \<and>
    fragment.grows (rg_ToolFragments b) (rg_ToolFragments a) \<and>
    (rg_Replay b \<noteq> None \<longrightarrow> rg_Replay b = rg_Replay a) \<and>
    outputLeq (rg_Response b) (rg_Response a) \<and>
    (\<forall>k d. fmlookup (rg_Seen b) k = Some d \<longrightarrow> get_or [] (rg_Seen a) k = d)"
  unfolding segmentExtends_def validateSegmentExtension_def validateBlockPrefix_def
    validateToolFragmentPrefix_def sequenceLeq_iff
  by (simp add: block.prefixErrors_None fragment.prefixErrors_None
      validateResponseStatePrefix_None check_map_None not_less disj_imp)

lemma segmentExtends_refl: "segmentExtends s s"
  by (simp add: segmentExtends_iff sequenceLeq_def block.grows_refl fragment.grows_refl outputLeq_refl)

text \<open>An event digest is never empty, so a lost event cannot be mistaken for a present one.\<close>

definition digestsPresent :: "ResponseSegment \<Rightarrow> bool" where
  "digestsPresent s \<longleftrightarrow> (\<forall>k. fmlookup (rg_Seen s) k \<noteq> Some [])"

lemma sequenceLeq_trans: "sequenceLeq x y \<Longrightarrow> sequenceLeq y z \<Longrightarrow> sequenceLeq x z"
  by (auto simp: sequenceLeq_def)

lemma segmentExtendsD:
  assumes "segmentExtends b a"
  shows "rg_RejectedToolArguments b \<longrightarrow> rg_RejectedToolArguments a"
    and "rg_State b \<noteq> ResponseStreaming \<longrightarrow> rg_RejectedToolArguments b = rg_RejectedToolArguments a"
    and "rg_Transport b = rg_Transport a"
    and "rg_EventCount b \<le> rg_EventCount a"
    and "ug_InputTokens (rg_Usage b) \<le> ug_InputTokens (rg_Usage a)"
    and "ug_OutputTokens (rg_Usage b) \<le> ug_OutputTokens (rg_Usage a)"
    and "ug_ReasoningTokens (rg_Usage b) \<le> ug_ReasoningTokens (rg_Usage a)"
    and "ug_CachedTokens (rg_Usage b) \<le> ug_CachedTokens (rg_Usage a)"
    and "rg_Meaningful b \<longrightarrow> rg_Meaningful a"
    and "sequenceLeq b a"
    and "rg_StopReason b \<noteq> StopReasonUnset \<longrightarrow> rg_StopReason b = rg_StopReason a"
    and "rg_Error b \<noteq> [] \<longrightarrow> rg_Error b = rg_Error a"
    and "rg_State b \<noteq> ResponseStreaming \<longrightarrow> rg_State b = rg_State a"
    and "block.grows (rg_Blocks b) (rg_Blocks a)"
    and "fragment.grows (rg_ToolFragments b) (rg_ToolFragments a)"
    and "rg_Replay b \<noteq> None \<longrightarrow> rg_Replay b = rg_Replay a"
    and "outputLeq (rg_Response b) (rg_Response a)"
    and "fmlookup (rg_Seen b) k = Some d \<longrightarrow> get_or [] (rg_Seen a) k = d"
  using assms unfolding segmentExtends_iff by - (elim conjE, ((erule allE)+)?, assumption)+

lemma segmentExtends_seen:
  assumes "segmentExtends x y" "digestsPresent x" "fmlookup (rg_Seen x) k = Some d"
  shows "fmlookup (rg_Seen y) k = Some d"
proof -
  have "get_or [] (rg_Seen y) k = d" using segmentExtendsD(18) [OF assms(1)] assms(3) by blast
  moreover have "d \<noteq> []" using assms(2,3) by (auto simp: digestsPresent_def)
  ultimately show ?thesis by (auto simp: get_or_def split: option.splits)
qed

lemma segmentExtends_join:
  assumes "segmentExtends x y" "segmentExtends y z"
    and seen: "\<And>k d. fmlookup (rg_Seen x) k = Some d \<Longrightarrow> get_or [] (rg_Seen z) k = d"
  shows "segmentExtends x z"
proof -
  note x = segmentExtendsD [OF assms(1)] and y = segmentExtendsD [OF assms(2)]
  show ?thesis unfolding segmentExtends_iff
  proof (intro conjI allI)
    show "fmlookup (rg_Seen x) k = Some d \<longrightarrow> get_or [] (rg_Seen z) k = d" for k d
      using seen by blast
    show "rg_State x \<noteq> ResponseStreaming \<longrightarrow> rg_RejectedToolArguments x = rg_RejectedToolArguments z"
      using x(2,13) y(2) by metis
    show "rg_State x \<noteq> ResponseStreaming \<longrightarrow> rg_State x = rg_State z" using x(13) y(13) by metis
    show "rg_StopReason x \<noteq> StopReasonUnset \<longrightarrow> rg_StopReason x = rg_StopReason z"
      using x(11) y(11) by metis
    show "rg_Error x \<noteq> [] \<longrightarrow> rg_Error x = rg_Error z" using x(12) y(12) by metis
    show "rg_Replay x \<noteq> None \<longrightarrow> rg_Replay x = rg_Replay z" using x(16) y(16) by metis
  qed (use x(1,9) y(1,9) in \<open>blast\<close>
      | rule trans [OF x(3) y(3)] order_trans [OF x(4) y(4)] order_trans [OF x(5) y(5)]
        order_trans [OF x(6) y(6)] order_trans [OF x(7) y(7)] order_trans [OF x(8) y(8)]
        sequenceLeq_trans [OF x(10) y(10)] block.grows_trans [OF x(14) y(14)]
        fragment.grows_trans [OF x(15) y(15)] outputLeq_trans [OF x(17) y(17)])+
qed

lemma segmentExtends_trans:
  assumes "segmentExtends x y" "segmentExtends y z" "digestsPresent x"
  shows "segmentExtends x z"
proof (rule segmentExtends_join [OF assms(1,2)])
  show "get_or [] (rg_Seen z) k = d" if "fmlookup (rg_Seen x) k = Some d" for k d
    using segmentExtendsD(18) [OF assms(2)] segmentExtends_seen [OF assms(1,3) that] by blast
qed

lemma ValidateExtension_Some: "ValidateExtension a (Some p) = None \<longleftrightarrow>
    Assembly_Validate a = None \<and> Assembly_Validate p = None \<and>
    ra_LogicalRequestID a = ra_LogicalRequestID p \<and>
    length (ra_Segments p) \<le> length (ra_Segments a) \<and>
    prefix (ra_ToolArgumentRepairs p) (ra_ToolArgumentRepairs a) \<and>
    (\<forall>i < length (ra_Segments p). segmentExtends (ra_Segments p ! i) (ra_Segments a ! i))"
proof (cases "Assembly_Validate a = None \<and> Assembly_Validate p = None")
  case True
  then have v: "ra_Version a = ra_Version p"
    by (auto simp: Assembly_Validate_def split: if_splits)
  have pre: "\<not> (length r < length q \<or> take (length q) r \<noteq> q) \<longleftrightarrow> prefix q r"
    for q r :: "uint32 list"
    by (metis append_eq_conv_conj linorder_not_less prefix_def prefix_length_le)
  show ?thesis using True v pre
    by (auto simp: ValidateExtension_def ball_enumerate map_option_None segmentExtends_def not_less)
next
  case False
  then show ?thesis by (auto simp: ValidateExtension_def split: option.splits)
qed

end
