(* ===== verification/Assembly_Operations.thy ===== *)
theory Assembly_Operations
  imports Response_Assembly
begin

text \<open>
  The operations of \<open>*ResponseAssembly\<close> in \<open>response_assembly.go\<close>: opening a transport, applying
  a stream event, interrupting and failing the current segment, and the projections the stream
  consumer reads. The lemmas show which of them only ever extend what was recorded before.
\<close>

section \<open>Transports\<close>

fun completenessName :: "ResponseCompleteness \<Rightarrow> string" where
  "completenessName ResponseEmpty = ''empty''"
| "completenessName ResponseStreaming = ''streaming''"
| "completenessName ResponseIncomplete = ''incomplete''"
| "completenessName ResponseComplete = ''complete''"
| "completenessName ResponseFailed = ''failed''"

definition settlePrevious :: "ResponseSegment list \<Rightarrow> ResponseSegment list" where
  "settlePrevious segs =
    (if segs \<noteq> [] \<and> rg_State (last segs) = ResponseStreaming
     then butlast segs @ [(last segs)\<lparr>rg_State := ResponseIncomplete,
            rg_Error := ''transport replaced before a complete stop event''\<rparr>]
     else segs)"

definition transportID :: "string \<Rightarrow> uint32 \<Rightarrow> string" where
  "transportID logical attempt = logical @ ''/transport/'' @ formatNat (unat attempt)"

definition BeginTransport ::
    "TransportMetadata \<Rightarrow> ResponseAssembly \<Rightarrow> ResponseAssembly \<times> message option" where
  "BeginTransport metadata a0 =
    (let a1 = (if ra_Version a0 = 0 then a0\<lparr>ra_Version := ResponseAssemblyVersion\<rparr> else a0);
         a2 = (if ra_LogicalRequestID a1 = []
               then a1\<lparr>ra_LogicalRequestID := tm_LogicalRequestID metadata\<rparr> else a1)
     in if ra_LogicalRequestID a2 = []
          then (a2, Some (Msg ''response assembly logical request id is empty''))
        else let m1 = (if tm_LogicalRequestID metadata = []
                       then metadata\<lparr>tm_LogicalRequestID := ra_LogicalRequestID a2\<rparr> else metadata)
        in if tm_LogicalRequestID m1 \<noteq> ra_LogicalRequestID a2
          then (a2, Some (Msg ''response transport changed logical request identity''))
        else if ra_State a2 = ResponseFailed \<and> \<not> toolArgumentRepairAuthorized a2
          then (a2, Some (Fmt ''response assembly is already %s''
                            [ArgS (completenessName (ra_State a2))]))
        else let a3 = a2\<lparr>ra_Segments := settlePrevious (ra_Segments a2)\<rparr>;
                 m2 = (if tm_Attempt m1 = 0
                       then m1\<lparr>tm_Attempt := of_nat (length (ra_Segments a3) + 1)\<rparr> else m1);
                 m3 = (if tm_TransportRequestID m2 = []
                       then m2\<lparr>tm_TransportRequestID :=
                              transportID (ra_LogicalRequestID a3) (tm_Attempt m2)\<rparr> else m2)
        in if tm_TransportRequestID m3 \<in>
                (tm_TransportRequestID \<circ> rg_Transport) ` set (ra_Segments a3)
          then (a3, Some (Fmt ''response transport id %q is duplicated''
                            [ArgS (tm_TransportRequestID m3)]))
        else (a3\<lparr>ra_Segments := ra_Segments a3 @ [newSegment m3],
                 ra_State := ResponseStreaming\<rparr>, None))"

section \<open>Stream events\<close>

definition responseEventIdentity ::
    "'e AssemblyEnv_scheme \<Rightarrow> StreamEvent \<Rightarrow> message + string \<times> string" where
  "responseEventIdentity env e =
    (let key = (if se_Sequenced e
                then ''sequence:'' @ formatNat (unat (se_Sequence e)) @ '':'' @
                     formatNat (unat (se_Ordinal e))
                else se_EventID e)
     in if key = [] then Inr ([], [])
        else case jsonStreamEvent env e of
          None \<Rightarrow> Inl (Msg ''json: error calling Marshal'')
        | Some data \<Rightarrow> Inr (key, digestBytes env data))"

fun appendToolFragment ::
    "ToolCallFragment \<Rightarrow> ToolCallFragment list \<Rightarrow> ToolCallFragment list \<times> message option" where
  "appendToolFragment f [] = ([f], None)"
| "appendToolFragment f (c # rest) =
    (if tf_Index c \<noteq> tf_Index f
     then (let (rest', err) = appendToolFragment f rest in (c # rest', err))
     else if tf_ID f \<noteq> [] \<and> tf_ID c \<noteq> [] \<and> tf_ID c \<noteq> tf_ID f
       then (c # rest, Some (Fmt ''tool call %d changed id from %q to %q''
                               [ArgI (tf_Index f), ArgS (tf_ID c), ArgS (tf_ID f)]))
     else let c1 = (if tf_ID f \<noteq> [] then c\<lparr>tf_ID := tf_ID f\<rparr> else c)
       in if tf_Name f \<noteq> [] \<and> tf_Name c1 \<noteq> [] \<and> tf_Name c1 \<noteq> tf_Name f
         then (c1 # rest, Some (Fmt ''tool call %d changed name from %q to %q''
                                  [ArgI (tf_Index f), ArgS (tf_Name c1), ArgS (tf_Name f)]))
         else let c2 = (if tf_Name f \<noteq> [] then c1\<lparr>tf_Name := tf_Name f\<rparr> else c1)
           in (c2\<lparr>tf_Arguments := tf_Arguments c2 @ tf_Arguments f\<rparr> # rest, None))"

definition responseEventBlock ::
    "'e AssemblyEnv_scheme \<Rightarrow> StreamEvent \<Rightarrow> ContentType \<Rightarrow> ContentBlock" where
  "responseEventBlock env e fallback = (case se_Block e of
     Some b \<Rightarrow> jsonBlock env b
   | None \<Rightarrow> (case se_Type e of
       EventTextDelta \<Rightarrow> (emptyBlock ContentText)\<lparr>cb_Text := se_Text e\<rparr>
     | EventReasoningDelta \<Rightarrow> (emptyBlock ContentReasoning)\<lparr>cb_Text := se_Text e\<rparr>
     | EventSearchResult \<Rightarrow> (emptyBlock ContentSearch)\<lparr>cb_Search := se_Search e\<rparr>
     | EventCitation \<Rightarrow> (emptyBlock ContentCitation)\<lparr>cb_Citation := se_Citation e\<rparr>
     | _ \<Rightarrow> (emptyBlock fallback)\<lparr>cb_Text := se_Text e\<rparr>))"

definition appendResponseBlock :: "ContentBlock list \<Rightarrow> ContentBlock \<Rightarrow> ContentBlock list" where
  "appendResponseBlock blocks block =
    (let l = last blocks in
     if blocks \<noteq> [] \<and> cb_Type block = cb_Type l \<and> cb_Type block = ContentText
       then butlast blocks @ [l\<lparr>cb_Text := cb_Text l @ cb_Text block\<rparr>]
     else if blocks \<noteq> [] \<and> cb_Type block = cb_Type l \<and> cb_Type block = ContentReasoning \<and>
             (cb_ID l = [] \<or> cb_ID block = [] \<or> cb_ID l = cb_ID block)
       then butlast blocks @ [l\<lparr>cb_Text := cb_Text l @ cb_Text block,
                                cb_ID := (if cb_ID l = [] then cb_ID block else cb_ID l)\<rparr>]
     else blocks @ [block])"

text \<open>
  \<open>applyEvent\<close> is the switch of \<open>Apply\<close> on the event type; it is run on the current segment after
  \<open>EventCount\<close> was advanced. The event passed \<open>Validate\<close>, so the pointer the branch reads is set.
\<close>

definition applyEvent ::
    "'e AssemblyEnv_scheme \<Rightarrow> StreamEvent \<Rightarrow> ResponseSegment \<Rightarrow> ResponseSegment \<times> message option" where
  "applyEvent env e s = (case se_Type e of
     EventMessageStart \<Rightarrow> (s, None)
   | EventTransportProgress \<Rightarrow> (s, None)
   | EventTextDelta \<Rightarrow> (s\<lparr>rg_Meaningful := True,
       rg_Blocks := appendResponseBlock (rg_Blocks s) (responseEventBlock env e ContentText)\<rparr>, None)
   | EventReasoningDelta \<Rightarrow> (s\<lparr>rg_Meaningful := True,
       rg_Blocks := appendResponseBlock (rg_Blocks s) (responseEventBlock env e ContentReasoning)\<rparr>,
       None)
   | EventReasoningSignature \<Rightarrow>
       (s, Some (Msg ''provider signature was not captured as replay state''))
   | EventSearchResult \<Rightarrow> (s\<lparr>rg_Meaningful := True,
       rg_Blocks := rg_Blocks s @ [responseEventBlock env e ContentSearch]\<rparr>, None)
   | EventCitation \<Rightarrow> (s\<lparr>rg_Meaningful := True,
       rg_Blocks := rg_Blocks s @ [responseEventBlock env e ContentCitation]\<rparr>, None)
   | EventToolCallDelta \<Rightarrow>
       (let (fs, err) = appendToolFragment (the (se_ToolCall e)) (rg_ToolFragments s)
        in (s\<lparr>rg_Meaningful := True, rg_ToolFragments := fs\<rparr>, err))
   | EventUsage \<Rightarrow> (s\<lparr>rg_Usage := MergeCumulative (rg_Usage s) (the (se_Usage e))\<rparr>, None)
   | EventReplayState \<Rightarrow>
       (if rg_Replay s \<noteq> None then (s, Some (Msg ''provider emitted duplicate replay state''))
        else (s\<lparr>rg_Replay := se_Replay e\<rparr>, None))
   | EventResponseState \<Rightarrow>
       (if (case rg_Response s of None \<Rightarrow> False | Some r \<Rightarrow> rp_ID r \<noteq> rp_ID (the (se_Response e)))
        then (s, Some (Msg ''provider changed response state identity''))
        else (s\<lparr>rg_Response := se_Response e\<rparr>, None))
   | EventMessageStop \<Rightarrow>
       (let r = (if se_StopReason e = StopReasonUnset then StopReasonEndTurn else se_StopReason e)
        in (s\<lparr>rg_StopReason := r,
              rg_State := (if StopReason_Incomplete r then ResponseIncomplete
                           else ResponseComplete)\<rparr>, None)))"

definition recordIdentity ::
    "StreamEvent \<Rightarrow> string \<Rightarrow> string \<Rightarrow> ResponseSegment \<Rightarrow> message + ResponseSegment" where
  "recordIdentity e key digest s =
    (if key = [] then Inr s
     else if se_Sequenced e \<and> rg_HasSequence s \<and> se_Sequence e < rg_LastSequence s
       then Inl (Fmt ''provider event sequence moved backward from %d to %d''
                   [ArgN (unat (rg_LastSequence s)), ArgN (unat (se_Sequence e))])
     else if se_Sequenced e \<and> rg_HasSequence s \<and> se_Sequence e = rg_LastSequence s \<and>
             se_Ordinal e \<le> rg_LastOrdinal s
       then Inl (Fmt ''provider event ordinal moved backward at sequence %d''
                   [ArgN (unat (se_Sequence e))])
     else let s1 = (if se_Sequenced e
                    then s\<lparr>rg_HasSequence := True, rg_LastSequence := se_Sequence e,
                           rg_LastOrdinal := se_Ordinal e\<rparr> else s)
       in Inr (s1\<lparr>rg_Seen := fmupd key digest (rg_Seen s1)\<rparr>))"

definition Apply_event ::
    "'e AssemblyEnv_scheme \<Rightarrow> StreamEvent \<Rightarrow> ResponseAssembly \<Rightarrow>
     ResponseAssembly \<times> (message + bool)" where
  "Apply_event env e a = (case currentOrNil a of
     None \<Rightarrow> (a, Inl noTransport)
   | Some s \<Rightarrow>
      (if rg_State s \<noteq> ResponseStreaming
         then (a, Inl (Fmt ''response segment is already %s'' [ArgS (completenessName (rg_State s))]))
       else case StreamEvent_Validate (jsonValid env) e of
         Some err \<Rightarrow> (a, Inl err)
       | None \<Rightarrow> (case responseEventIdentity env e of
           Inl err \<Rightarrow> (a, Inl err)
         | Inr (key, digest) \<Rightarrow>
            (if key \<noteq> [] \<and> has_key (rg_Seen s) key
             then (if fmlookup (rg_Seen s) key \<noteq> Some digest
                   then (a, Inl (Fmt ''provider event identity %q changed payload'' [ArgS key]))
                   else (a, Inr False))
             else case recordIdentity e key digest s of
               Inl err \<Rightarrow> (a, Inl err)
             | Inr s1 \<Rightarrow>
                (let (s2, err) = applyEvent env e (s1\<lparr>rg_EventCount := rg_EventCount s1 + 1\<rparr>);
                     a1 = setCurrent s2 a
                 in case err of
                      Some m \<Rightarrow> (a1, Inl m)
                    | None \<Rightarrow> ((if se_Type e = EventMessageStop
                                then a1\<lparr>ra_State := rg_State s2\<rparr> else a1), Inr True))))))"

definition Interrupt :: "string option \<Rightarrow> ResponseAssembly \<Rightarrow> ResponseAssembly \<times> message option" where
  "Interrupt cause a = (case currentOrNil a of
     None \<Rightarrow> (a, Some noTransport)
   | Some s \<Rightarrow>
      (if rg_State s = ResponseComplete \<or> rg_State s = ResponseFailed then (a, None)
       else ((setCurrent (s\<lparr>rg_State := ResponseIncomplete, rg_StopReason := StopReasonIncomplete,
               rg_Error := (case cause of None \<Rightarrow> rg_Error s | Some c \<Rightarrow> c)\<rparr>) a)
               \<lparr>ra_State := ResponseIncomplete\<rparr>, None)))"

definition Fail :: "string option \<Rightarrow> ResponseAssembly \<Rightarrow> ResponseAssembly \<times> message option" where
  "Fail cause a = (case currentOrNil a of
     None \<Rightarrow> (a, Some noTransport)
   | Some s \<Rightarrow>
      ((setCurrent (s\<lparr>rg_State := ResponseFailed,
          rg_Error := (case cause of None \<Rightarrow> rg_Error s | Some c \<Rightarrow> c)\<rparr>) a)
          \<lparr>ra_State := ResponseFailed\<rparr>, None))"

section \<open>Projections\<close>

definition ConfirmedBlocks :: "'e AssemblyEnv_scheme \<Rightarrow> ResponseAssembly \<Rightarrow> ContentBlock list" where
  "ConfirmedBlocks env a =
     foldl appendResponseBlock []
       (concat (map (\<lambda>s. map (jsonBlock env) (rg_Blocks s)) (ra_Segments a)))"

definition TotalUsage :: "ResponseAssembly \<Rightarrow> Usage" where
  "TotalUsage a = foldl Usage_Add zeroUsage (map rg_Usage (ra_Segments a))"

definition EventCount :: "ResponseAssembly \<Rightarrow> uint64" where
  "EventCount a = sum_list (map rg_EventCount (ra_Segments a))"

definition toolFragmentsComplete ::
    "'e AssemblyEnv_scheme \<Rightarrow> ToolCallFragment list \<Rightarrow> bool" where
  "toolFragmentsComplete env fs = list_all (\<lambda>f.
     blank (tf_Arguments f) \<and> tf_ID f \<noteq> [] \<and> tf_Name f \<noteq> [] \<or>
     \<not> (tf_ID f = [] \<or> tf_Name f = [] \<or> \<not> jsonValid env (tf_Arguments f))) fs"

definition IncompleteToolFragments ::
    "'e AssemblyEnv_scheme \<Rightarrow> ResponseAssembly \<Rightarrow> ToolCallFragment list" where
  "IncompleteToolFragments env a = foldl (\<lambda>fragments s.
     if rg_State s = ResponseFailed
     then (if rg_RejectedToolArguments s then [] else fragments)
     else if rg_State s \<noteq> ResponseComplete \<or> \<not> toolFragmentsComplete env (rg_ToolFragments s)
     then fragments @ rg_ToolFragments s else fragments) [] (ra_Segments a)"

section \<open>Validity, pointwise\<close>

definition segmentOK :: "string \<Rightarrow> ResponseSegment \<Rightarrow> bool" where
  "segmentOK logical s \<longleftrightarrow>
     tm_LogicalRequestID (rg_Transport s) = logical \<and> tm_TransportRequestID (rg_Transport s) \<noteq> [] \<and>
     tm_Attempt (rg_Transport s) \<noteq> 0 \<and> rg_State s \<noteq> ResponseEmpty \<and>
     (rg_RejectedToolArguments s \<longrightarrow> rg_State s = ResponseFailed \<and> rg_ToolFragments s \<noteq> [])"

definition repairsOK :: "ResponseSegment list \<Rightarrow> uint32 list \<Rightarrow> bool" where
  "repairsOK segs rs \<longleftrightarrow> repairsInOrder segs 0 rs \<and>
     (\<forall>i < length segs - 1. rg_State (segs ! i) = ResponseFailed \<longrightarrow> of_nat (i + 1) \<in> set rs)"

lemma segmentError_None: "segmentError a i s = None \<longleftrightarrow> segmentOK (ra_LogicalRequestID a) s"
  by (auto simp: segmentError_def segmentOK_def)

lemma validateToolArgumentRepairs_None:
  "validateToolArgumentRepairs a = None \<longleftrightarrow> repairsOK (ra_Segments a) (ra_ToolArgumentRepairs a)"
  by (simp add: validateToolArgumentRepairs_def repairsOK_def ball_enumerate nth_butlast disj_imp)

lemma Assembly_Validate_None: "Assembly_Validate a = None \<longleftrightarrow>
    ra_Version a = ResponseAssemblyVersion \<and> \<not> blank (ra_LogicalRequestID a) \<and>
    (ra_Segments a = [] \<longrightarrow> ra_State a = ResponseEmpty \<and> ra_ToolArgumentRepairs a = []) \<and>
    (ra_Segments a \<noteq> [] \<longrightarrow>
       (\<forall>s \<in> set (ra_Segments a). segmentOK (ra_LogicalRequestID a) s) \<and>
       repairsOK (ra_Segments a) (ra_ToolArgumentRepairs a) \<and>
       ra_State a = rg_State (last (ra_Segments a)))"
  by (auto simp: Assembly_Validate_def ball_enumerate segmentError_None
      validateToolArgumentRepairs_None all_set_conv_all_nth nth_enumerate_eq)

lemma repairsInOrder_mono:
  assumes "repairsInOrder segs p rs" "length segs \<le> length segs'"
    "\<And>i. i < length segs \<Longrightarrow> rg_RejectedToolArguments (segs ! i) \<Longrightarrow>
       rg_RejectedToolArguments (segs' ! i)"
  shows "repairsInOrder segs' p rs"
  using assms(1)
proof (induction rs arbitrary: p)
  case (Cons i rs)
  then have "0 < unat i" by (simp add: unat_gt_0 word_le_0_iff not_le) auto
  with Cons assms(2) assms(3) [of "unat i - 1"] show ?case by auto
qed simp

lemma repairsOK_update_last:
  assumes "repairsOK segs rs" "segs \<noteq> []"
    "rg_RejectedToolArguments (last segs) \<longrightarrow> rg_RejectedToolArguments s"
  shows "repairsOK (butlast segs @ [s]) rs"
  unfolding repairsOK_def
proof (intro conjI allI impI)
  show "repairsInOrder (butlast segs @ [s]) 0 rs"
    by (rule repairsInOrder_mono [of segs])
       (use assms in \<open>auto simp: repairsOK_def nth_append nth_butlast last_conv_nth
          less_Suc_eq_le not_less dest!: le_antisym\<close>)
  show "of_nat (i + 1) \<in> set rs"
    if "i < length (butlast segs @ [s]) - 1" "rg_State ((butlast segs @ [s]) ! i) = ResponseFailed" for i
    using that assms by (simp add: repairsOK_def nth_append nth_butlast)
qed

lemma repairsOK_append:
  assumes "repairsOK segs rs"
    "segs \<noteq> [] \<Longrightarrow> rg_State (last segs) = ResponseFailed \<Longrightarrow> of_nat (length segs) \<in> set rs"
  shows "repairsOK (segs @ [s]) rs"
  unfolding repairsOK_def
proof (intro conjI allI impI)
  show "repairsInOrder (segs @ [s]) 0 rs"
    by (rule repairsInOrder_mono [of segs]) (use assms in \<open>auto simp: repairsOK_def nth_append\<close>)
  fix i
  assume i: "i < length (segs @ [s]) - 1" and f: "rg_State ((segs @ [s]) ! i) = ResponseFailed"
  show "of_nat (i + 1) \<in> set rs"
  proof (cases "i = length segs - 1")
    case True
    have "segs \<noteq> []" using i by auto
    then have "segs ! i = last segs" using True by (simp add: last_conv_nth)
    then show ?thesis using \<open>segs \<noteq> []\<close> assms(2) f i True by (simp add: nth_append)
  next
    case False
    then show ?thesis using assms(1) f i by (simp add: repairsOK_def nth_append)
  qed
qed

section \<open>The operations extend the record\<close>

lemma fragmentExtendsI:
  assumes "tf_Index f = tf_Index c" "tf_ID c = [] \<or> tf_ID f = tf_ID c"
    "tf_Name c = [] \<or> tf_Name f = tf_Name c" "prefix (tf_Arguments c) (tf_Arguments f)"
  shows "fragmentExtends c f"
  using assms by (auto simp: fragmentExtends_def)

lemma appendToolFragment_grows: "fragment.grows fs (fst (appendToolFragment f fs))"
  by (induction f fs rule: appendToolFragment.induct)
     (auto simp: fragment.grows_Nil fragment.grows_Cons fragment.grows_refl fragment.ext_refl Let_def
        split: prod.splits intro!: fragmentExtendsI)

lemma appendResponseBlock_grows: "block.grows bs (appendResponseBlock bs b)"
proof -
  have "blockExtends l (l\<lparr>cb_Text := cb_Text l @ t\<rparr>)" for l t
    by (cases l) (simp add: blockExtends_def)
  moreover have "blockExtends l (l\<lparr>cb_Text := cb_Text l @ t, cb_ID := i\<rparr>)"
    if "cb_ID l = [] \<or> cb_ID l = i" for l t i
    using that by (cases l) (auto simp: blockExtends_def)
  ultimately show ?thesis
    by (auto simp: appendResponseBlock_def Let_def block.grows_append intro!: block.grows_last)
qed

lemma applyEvent_extends:
  assumes "rg_State s = ResponseStreaming" "rg_StopReason s = StopReasonUnset"
    and "outputLeq (rg_Response s) (rg_Response (fst (applyEvent env e s)))"
  shows "segmentExtends s (fst (applyEvent env e s))"
    and "rg_Seen (fst (applyEvent env e s)) = rg_Seen s"
  using assms appendToolFragment_grows [of "rg_ToolFragments s" "the (se_ToolCall e)"]
  unfolding segmentExtends_iff applyEvent_def
  by (auto simp: sequenceLeq_def block.grows_refl fragment.grows_refl outputLeq_refl Let_def
      appendResponseBlock_grows block.grows_append
      split: StreamEventType.splits prod.splits)

lemma recordIdentity_extends:
  assumes "recordIdentity e key digest s = Inr s1" "key = [] \<or> fmlookup (rg_Seen s) key = None"
    "rg_EventCount s \<noteq> -1"
  shows "segmentExtends s (s1\<lparr>rg_EventCount := rg_EventCount s1 + 1\<rparr>)"
  using assms unfolding segmentExtends_iff recordIdentity_def
  by (auto simp: sequenceLeq_def block.grows_refl fragment.grows_refl outputLeq_refl Let_def
      get_or_def word_le_inc split: if_splits)

lemma ValidateExtension_setCurrent:
  assumes "Assembly_Validate a = None" "ra_Segments a \<noteq> []"
    "segmentExtends (last (ra_Segments a)) s" "segmentOK (ra_LogicalRequestID a) s"
  shows "ValidateExtension ((setCurrent s a)\<lparr>ra_State := rg_State s\<rparr>) (Some a) = None"
proof -
  let ?segs = "ra_Segments a"
  have ok: "repairsOK (butlast ?segs @ [s]) (ra_ToolArgumentRepairs a)"
    using assms segmentExtendsD(1) [OF assms(3)]
    by (intro repairsOK_update_last) (auto simp: Assembly_Validate_None)
  have ext: "segmentExtends (?segs ! i) ((butlast ?segs @ [s]) ! i)" if "i < length ?segs" for i
  proof (cases "i = length ?segs - 1")
    case True
    with assms(2,3) show ?thesis by (simp add: nth_append last_conv_nth)
  next
    case False
    with that have "i < length ?segs - 1" by simp
    with that show ?thesis by (simp add: nth_append nth_butlast segmentExtends_refl)
  qed
  show ?thesis
    using assms ok ext unfolding ValidateExtension_Some
    by (auto simp: setCurrent_def Assembly_Validate_None dest: in_set_butlastD)
qed

lemma applyEvent_state:
  assumes "rg_State s = ResponseStreaming"
  shows "se_Type e \<noteq> EventMessageStop \<Longrightarrow> rg_State (fst (applyEvent env e s)) = ResponseStreaming"
    and "rg_State (fst (applyEvent env e s)) \<noteq> ResponseEmpty"
    and "rg_RejectedToolArguments (fst (applyEvent env e s)) = rg_RejectedToolArguments s"
    and "rg_Transport (fst (applyEvent env e s)) = rg_Transport s"
    and "rg_Response (fst (applyEvent env e s)) = rg_Response s \<or>
         se_Type e = EventResponseState \<and> rg_Response (fst (applyEvent env e s)) = se_Response e"
  using assms by (auto simp: applyEvent_def Let_def split: StreamEventType.splits prod.splits)

lemma recordIdentity_frame:
  assumes "recordIdentity e key digest s = Inr s1"
  shows "rg_State s1 = rg_State s" "rg_StopReason s1 = rg_StopReason s"
    "rg_Response s1 = rg_Response s" "rg_RejectedToolArguments s1 = rg_RejectedToolArguments s"
    "rg_Transport s1 = rg_Transport s"
  using assms by (auto simp: recordIdentity_def Let_def split: if_splits)

text \<open>What an accepted event leaves in the current segment.\<close>

lemma event_segment_extends:
  fixes env :: "'e AssemblyEnv_scheme"
  assumes "recordIdentity e key digest s = Inr s1" "key = [] \<or> fmlookup (rg_Seen s) key = None"
    "rg_EventCount s \<noteq> -1" "rg_State s = ResponseStreaming" "rg_StopReason s = StopReasonUnset"
    "se_Type e = EventResponseState \<longrightarrow> outputLeq (rg_Response s) (se_Response e)"
  defines "s2 \<equiv> fst (applyEvent env e (s1\<lparr>rg_EventCount := rg_EventCount s1 + 1\<rparr>))"
  shows "segmentExtends s s2"
proof -
  let ?s1 = "s1\<lparr>rg_EventCount := rg_EventCount s1 + 1\<rparr>"
  note fr = recordIdentity_frame [OF assms(1)]
  have out: "outputLeq (rg_Response ?s1) (rg_Response s2)"
    using applyEvent_state(5) [of ?s1 env e] assms(4,6) fr
    by (auto simp: s2_def outputLeq_refl)
  have 1: "segmentExtends s ?s1" by (rule recordIdentity_extends [OF assms(1-3)])
  have 2: "segmentExtends ?s1 s2" and seen: "rg_Seen s2 = rg_Seen ?s1"
    using applyEvent_extends [of ?s1 env e] out assms(4,5) fr unfolding s2_def by simp_all
  show ?thesis
    by (rule segmentExtends_join [OF 1 2]) (use segmentExtendsD(18) [OF 1] seen in auto)
qed

lemma Apply_event_Inr:
  assumes "Apply_event env e a = (a', Inr b)"
  obtains "a' = a" "\<not> b"
  | s key digest s1 s2 where "b" "currentOrNil a = Some s" "rg_State s = ResponseStreaming"
      "key = [] \<or> fmlookup (rg_Seen s) key = None" "recordIdentity e key digest s = Inr s1"
      "applyEvent env e (s1\<lparr>rg_EventCount := rg_EventCount s1 + 1\<rparr>) = (s2, None)"
      "a' = (if se_Type e = EventMessageStop
             then (setCurrent s2 a)\<lparr>ra_State := rg_State s2\<rparr> else setCurrent s2 a)"
      "responseEventIdentity env e = Inr (key, digest)"
  using assms
  by (auto simp: Apply_event_def Let_def split: option.splits if_splits sum.splits prod.splits)

text \<open>
  Applying an event to a valid assembly yields a valid extension of it: the checkpoint that follows
  an accepted event is never rejected by the kernel. The last hypothesis is the one obligation the
  code leaves to the provider: a repeated response state may not drop output items.
\<close>

theorem Apply_event_extends:
  assumes "Assembly_Validate a = None" "currentOrNil a = Some s"
    "rg_State s = ResponseStreaming \<longrightarrow> rg_StopReason s = StopReasonUnset"
    "rg_EventCount s \<noteq> -1"
    "se_Type e = EventResponseState \<longrightarrow> outputLeq (rg_Response s) (se_Response e)"
    "Apply_event env e a = (a', Inr b)"
  shows "ValidateExtension a' (Some a) = None"
proof -
  from assms(2) have ne: "ra_Segments a \<noteq> []" and l: "last (ra_Segments a) = s"
    by (auto simp: currentOrNil_def split: if_splits)
  from assms(6) show ?thesis
  proof (cases rule: Apply_event_Inr)
    case 1
    then show ?thesis using assms(1) by (simp add: ValidateExtension_Some segmentExtends_refl)
  next
    case (2 s' key digest s1 s2)
    with assms(2) have s': "s' = s" by simp
    have ext: "segmentExtends s s2"
      using event_segment_extends [of e key digest s s1 env] 2 assms(3-5) s' by simp
    let ?s1 = "s1\<lparr>rg_EventCount := rg_EventCount s1 + 1\<rparr>"
    note st = applyEvent_state [where s = ?s1 and e = e and env = env, unfolded 2(6)] recordIdentity_frame [OF 2(5)]
    have "segmentOK (ra_LogicalRequestID a) s"
      using assms(1) ne l by (auto simp: Assembly_Validate_None)
    then have ok: "segmentOK (ra_LogicalRequestID a) s2"
      using st 2(3) s' by (auto simp: segmentOK_def)
    have "ra_State a = ResponseStreaming"
      using assms(1) ne l 2(3) s' by (simp add: Assembly_Validate_None)
    then have "a' = (setCurrent s2 a)\<lparr>ra_State := rg_State s2\<rparr>"
      using 2(3,7) st(1,6) s' by (auto simp: setCurrent_def)
    then show ?thesis
      using ValidateExtension_setCurrent [OF assms(1) ne] ext ok l by simp
  qed
qed

text \<open>Opening a transport settles a replaced segment and appends a fresh one, never more.\<close>

lemma settlePrevious_extends:
  assumes "segs \<noteq> []" "rg_State (last segs) = ResponseStreaming \<longrightarrow> rg_Error (last segs) = []"
    "i < length segs"
  shows "segmentExtends (segs ! i) (settlePrevious segs ! i)"
proof (cases "rg_State (last segs) = ResponseStreaming \<and> i = length segs - 1")
  case True
  then show ?thesis using assms
    by (simp add: settlePrevious_def nth_append last_conv_nth segmentExtends_iff sequenceLeq_def
        block.grows_refl fragment.grows_refl outputLeq_refl)
next
  case False
  then show ?thesis using assms
    by (auto simp: settlePrevious_def nth_append nth_butlast segmentExtends_refl)
qed

lemma settlePrevious_simps [simp]:
  "length (settlePrevious segs) = length segs"
  "settlePrevious segs = [] \<longleftrightarrow> segs = []"
  by (auto simp: settlePrevious_def)

lemma settlePrevious_valid:
  assumes "\<forall>s \<in> set segs. segmentOK i s" "repairsOK segs rs"
  shows "\<forall>s \<in> set (settlePrevious segs). segmentOK i s" "repairsOK (settlePrevious segs) rs"
    and "segs \<noteq> [] \<Longrightarrow> rg_State (last (settlePrevious segs)) = ResponseFailed \<longleftrightarrow>
         rg_State (last segs) = ResponseFailed"
proof -
  let ?l = "(last segs)\<lparr>rg_State := ResponseIncomplete,
      rg_Error := ''transport replaced before a complete stop event''\<rparr>"
  show "\<forall>s \<in> set (settlePrevious segs). segmentOK i s"
  proof (cases "segs \<noteq> [] \<and> rg_State (last segs) = ResponseStreaming")
    case True
    then have "segmentOK i (last segs)" using assms(1) by simp
    then have "segmentOK i ?l" using True by (auto simp: segmentOK_def)
    then show ?thesis using True assms(1) by (auto simp: settlePrevious_def dest: in_set_butlastD)
  next
    case False
    with assms(1) show ?thesis by (auto simp: settlePrevious_def)
  qed
  show "repairsOK (settlePrevious segs) rs"
    using assms(2) by (auto simp: settlePrevious_def intro!: repairsOK_update_last)
  show "rg_State (last (settlePrevious segs)) = ResponseFailed \<longleftrightarrow>
      rg_State (last segs) = ResponseFailed" if "segs \<noteq> []"
    using that by (auto simp: settlePrevious_def)
qed

lemma BeginTransport_None:
  assumes "BeginTransport m a = (a', None)" "Assembly_Validate a = None"
  obtains m' where "a' = a\<lparr>ra_Segments := settlePrevious (ra_Segments a) @ [newSegment m'],
      ra_State := ResponseStreaming\<rparr>"
    "tm_LogicalRequestID m' = ra_LogicalRequestID a" "tm_TransportRequestID m' \<noteq> []"
    "tm_Attempt m' = (if tm_Attempt m = 0 then of_nat (length (ra_Segments a) + 1) else tm_Attempt m)"
    "tm_TransportRequestID m' \<notin> (tm_TransportRequestID \<circ> rg_Transport) ` set (ra_Segments a)"
    "ra_State a = ResponseFailed \<longrightarrow> toolArgumentRepairAuthorized a"
proof -
  have base: "ra_Version a \<noteq> 0" "ra_LogicalRequestID a \<noteq> []"
    using assms(2) by (auto simp: Assembly_Validate_None ResponseAssemblyVersion_def)
  have ids: "(\<lambda>s. tm_TransportRequestID (rg_Transport s)) ` set (settlePrevious segs) =
      (\<lambda>s. tm_TransportRequestID (rg_Transport s)) ` set segs" for segs
    by (cases segs rule: rev_cases) (auto simp: settlePrevious_def)
  define m1 where "m1 = (if tm_LogicalRequestID m = []
      then m\<lparr>tm_LogicalRequestID := ra_LogicalRequestID a\<rparr> else m)"
  define m2 where "m2 = (if tm_Attempt m1 = 0
      then m1\<lparr>tm_Attempt := of_nat (length (ra_Segments a) + 1)\<rparr> else m1)"
  define m3 where "m3 = (if tm_TransportRequestID m2 = []
      then m2\<lparr>tm_TransportRequestID := transportID (ra_LogicalRequestID a) (tm_Attempt m2)\<rparr> else m2)"
  have *: "BeginTransport m a =
      (if tm_LogicalRequestID m1 \<noteq> ra_LogicalRequestID a
       then (a, Some (Msg ''response transport changed logical request identity''))
       else if ra_State a = ResponseFailed \<and> \<not> toolArgumentRepairAuthorized a
       then (a, Some (Fmt ''response assembly is already %s''
                        [ArgS (completenessName (ra_State a))]))
       else if tm_TransportRequestID m3 \<in> (tm_TransportRequestID \<circ> rg_Transport) ` set (ra_Segments a)
       then (a\<lparr>ra_Segments := settlePrevious (ra_Segments a)\<rparr>,
             Some (Fmt ''response transport id %q is duplicated'' [ArgS (tm_TransportRequestID m3)]))
       else (a\<lparr>ra_Segments := settlePrevious (ra_Segments a) @ [newSegment m3],
               ra_State := ResponseStreaming\<rparr>, None))"
    using base unfolding BeginTransport_def m3_def m2_def m1_def
    by (simp add: Let_def ids comp_def)
  have props: "tm_TransportRequestID m3 \<noteq> []" "tm_Attempt m3 = (if tm_Attempt m = 0
      then of_nat (length (ra_Segments a) + 1) else tm_Attempt m)"
    "tm_LogicalRequestID m3 = tm_LogicalRequestID m1"
    using base by (simp_all add: m1_def m2_def m3_def transportID_def)
  show thesis
    by (rule that [of m3]) (use assms(1)[unfolded *] props in \<open>auto split: if_splits\<close>)
qed

theorem BeginTransport_extends:
  assumes "Assembly_Validate a = None"
    "ra_Segments a \<noteq> [] \<Longrightarrow> rg_State (last (ra_Segments a)) = ResponseStreaming \<Longrightarrow>
       rg_Error (last (ra_Segments a)) = []"
    "length (ra_Segments a) + 1 < 2 ^ 32" "BeginTransport m a = (a', None)"
  shows "ValidateExtension a' (Some a) = None"
proof -
  obtain m' where a': "a' = a\<lparr>ra_Segments := settlePrevious (ra_Segments a) @ [newSegment m'],
      ra_State := ResponseStreaming\<rparr>"
    and m': "tm_LogicalRequestID m' = ra_LogicalRequestID a" "tm_TransportRequestID m' \<noteq> []"
    "tm_Attempt m' = (if tm_Attempt m = 0 then of_nat (length (ra_Segments a) + 1) else tm_Attempt m)"
    and auth: "ra_State a = ResponseFailed \<longrightarrow> toolArgumentRepairAuthorized a"
    using BeginTransport_None [OF assms(4,1)] by metis
  have attempt: "tm_Attempt m' \<noteq> 0"
    using m'(3) assms(3) by (auto simp: word_unat_eq_iff unat_of_nat take_bit_nat_eq_self_iff
        simp flip: of_nat_Suc split: if_splits)
  have new: "segmentOK (ra_LogicalRequestID a) (newSegment m')"
    using m' attempt by (simp add: segmentOK_def newSegment_def)
  let ?s = "settlePrevious (ra_Segments a)" and ?r = "ra_ToolArgumentRepairs a"
  have old: "repairsOK (ra_Segments a) ?r" "\<forall>s \<in> set (ra_Segments a). segmentOK (ra_LogicalRequestID a) s"
    using assms(1) by (cases "ra_Segments a = []"; simp add: Assembly_Validate_None repairsOK_def)+
  note sv = settlePrevious_valid [OF old(2) old(1)]
  have "of_nat (length ?s) \<in> set ?r" if "?s \<noteq> []" "rg_State (last ?s) = ResponseFailed"
    using that sv(3) auth assms(1)
    by (auto simp: Assembly_Validate_None toolArgumentRepairAuthorized_def intro: last_in_set)
      (metis last_in_set)
  then have "repairsOK (?s @ [newSegment m']) ?r" by (rule repairsOK_append [OF sv(2)])
  moreover have "segmentExtends (ra_Segments a ! i) ((?s @ [newSegment m']) ! i)"
    if "i < length (ra_Segments a)" for i
    using settlePrevious_extends [of "ra_Segments a" i] that assms(2)
    by (cases "ra_Segments a = []") (auto simp: nth_append)
  moreover have "rg_State (newSegment m') = ResponseStreaming" by (simp add: newSegment_def)
  ultimately show ?thesis
    using assms(1) a' new sv(1) unfolding ValidateExtension_Some
    by (auto simp: Assembly_Validate_None)
qed

lemma repairsInOrder_snoc: "repairsInOrder segs p (rs @ [i]) \<longleftrightarrow> repairsInOrder segs p rs \<and>
    last (p # rs) < i \<and> unat i \<le> length segs \<and> rg_RejectedToolArguments (segs ! (unat i - 1))"
  by (induction rs arbitrary: p) auto

lemma repairsInOrder_last:
  "repairsInOrder segs p rs \<Longrightarrow> rs \<noteq> [] \<Longrightarrow> unat (last rs) \<le> length segs"
  by (induction rs arbitrary: p) auto

text \<open>
  A repair authorization extends the record, is idempotent across restarts whatever limit is in
  force by then, and never takes the number of authorizations past the configured limit.
\<close>

theorem AuthorizeToolArgumentRepair_sound:
  assumes "Assembly_Validate a = None" "length (ra_Segments a) < 2 ^ 32"
    "AuthorizeToolArgumentRepair limit a = (a', None)"
  shows "ValidateExtension a' (Some a) = None"
    and "AuthorizeToolArgumentRepair limit' a' = (a', None)"
    and "length (ra_ToolArgumentRepairs a') \<le> max (length (ra_ToolArgumentRepairs a)) (nat limit)"
proof -
  let ?n = "of_nat (length (ra_Segments a)) :: uint32" and ?rs = "ra_ToolArgumentRepairs a"
  have rej: "ToolArgumentsRejected a" using assms(3)
    by (auto simp: AuthorizeToolArgumentRepair_def split: if_splits)
  then have ne: "ra_Segments a \<noteq> []" and rl: "rg_RejectedToolArguments (last (ra_Segments a))"
    by (auto simp: ToolArgumentsRejected_def currentOrNil_def split: if_splits)
  have un: "unat ?n = length (ra_Segments a)"
    using assms(2) by (simp add: unat_of_nat take_bit_nat_eq_self_iff)
  consider (same) "a' = a" "toolArgumentRepairAuthorized a"
    | (new) "a' = a\<lparr>ra_ToolArgumentRepairs := ?rs @ [?n]\<rparr>" "\<not> toolArgumentRepairAuthorized a"
        "int (length ?rs) < max limit 0"
    using assms(3) rej by (auto simp: AuthorizeToolArgumentRepair_def split: if_splits)
  then have "ValidateExtension a' (Some a) = None \<and>
      AuthorizeToolArgumentRepair limit' a' = (a', None) \<and>
      length (ra_ToolArgumentRepairs a') \<le> max (length ?rs) (nat limit)"
  proof cases
    case same
    then show ?thesis using assms(1) rej
      by (simp add: ValidateExtension_Some segmentExtends_refl AuthorizeToolArgumentRepair_def)
  next
    case new
    have ok: "repairsOK (ra_Segments a) ?rs" using assms(1) ne by (simp add: Assembly_Validate_None)
    have "last (0 # ?rs) \<noteq> ?n" using new(2) rej ne un
      by (auto simp: toolArgumentRepairAuthorized_def)
    moreover have "unat (last (0 # ?rs)) \<le> unat ?n"
      using ok repairsInOrder_last [of "ra_Segments a" 0 ?rs] un by (auto simp: repairsOK_def)
    ultimately have "last (0 # ?rs) < ?n" by (simp add: word_less_nat_alt word_unat_eq_iff)
    then have "repairsOK (ra_Segments a) (?rs @ [?n])"
      using ok rl un ne by (auto simp: repairsOK_def repairsInOrder_snoc last_conv_nth)
    then have "Assembly_Validate a' = None" using assms(1) ne new(1)
      by (auto simp: Assembly_Validate_None)
    moreover have "toolArgumentRepairAuthorized a'" "ToolArgumentsRejected a'"
      using new(1) rej ne
      by (simp_all add: toolArgumentRepairAuthorized_def ToolArgumentsRejected_def currentOrNil_def)
    ultimately show ?thesis using assms(1) new
      by (auto simp: ValidateExtension_Some segmentExtends_refl AuthorizeToolArgumentRepair_def)
  qed
  then show "ValidateExtension a' (Some a) = None"
    and "AuthorizeToolArgumentRepair limit' a' = (a', None)"
    and "length (ra_ToolArgumentRepairs a') \<le> max (length ?rs) (nat limit)" by simp_all
qed

end
