(* ===== verification/Kernel_Types.thy ===== *)
theory Kernel_Types
  imports Assembly_Operations
begin

text \<open>
  The turn kernel's data, \<open>src/internal/runtime/agent/turnkernel/state.go\<close>, \<open>command.go\<close> and the
  types of \<open>work_item.go\<close> and \<open>observation_set.go\<close>, with the constructors of a fresh state.

  Conventions: a Go struct is a record whose fields carry a two-letter prefix; a string
  enumeration is a datatype of the declared constants, with a constructor for the empty string
  where the code tests for it (so the validator's branches for an undeclared constant have no
  counterpart); an enumeration hosts may extend (intent, recovery action, output mode, change
  kind) stays a string. A pointer is an option, a map an \<open>fmap\<close>; a nil slice or map and an empty
  one are the same value.
\<close>

section \<open>Enumerations\<close>

datatype Phase =
  PhaseCreated | PhasePreparing | PhaseSampling | PhaseExecutingTools | PhaseAwaitingApproval
  | PhaseAwaitingInput | PhaseVerifying | PhaseCommitting | PhaseCompleted | PhaseFailed
  | PhaseCanceled

definition Phase_Terminal :: "Phase \<Rightarrow> bool" where
  "Phase_Terminal p \<longleftrightarrow> p = PhaseCompleted \<or> p = PhaseFailed \<or> p = PhaseCanceled"

fun phaseName :: "Phase \<Rightarrow> string" where
  "phaseName PhaseCreated = ''created''"
| "phaseName PhasePreparing = ''preparing''"
| "phaseName PhaseSampling = ''sampling''"
| "phaseName PhaseExecutingTools = ''executing_tools''"
| "phaseName PhaseAwaitingApproval = ''awaiting_approval''"
| "phaseName PhaseAwaitingInput = ''awaiting_input''"
| "phaseName PhaseVerifying = ''verifying''"
| "phaseName PhaseCommitting = ''committing''"
| "phaseName PhaseCompleted = ''completed''"
| "phaseName PhaseFailed = ''failed''"
| "phaseName PhaseCanceled = ''canceled''"

datatype VerificationStatus =
  VerificationNotRequired | VerificationNotEvaluated | VerificationPassed | VerificationFailed
  | VerificationUnavailable

datatype JournalStatus =
  JournalNone | JournalOpen | JournalSuspended | JournalCommitted | JournalRolledBack

datatype SampleStatus = SampleUnset | SampleRequested | SampleRunning | SampleCompleted | SampleFailed

datatype EffectLifecycleStatus = EffectRequested | EffectRunning | EffectSucceeded | EffectFailed

datatype TerminalKind = TerminalCompleted | TerminalFailed | TerminalCanceled

datatype RepairKind =
  RepairUnset | RepairCompletion | RepairWorkspace | RepairDeclaration | RepairVerification

datatype StepAction =
  StepActionNone | StepActionRepairToolFailure | StepActionRepairCompletion
  | StepActionRepairWorkspace | StepActionRepairDeclaration | StepActionVerify
  | StepActionFinalize | StepActionBlock | StepActionComplete

datatype ConvergenceCause =
  ConvergenceOutputLimit | ConvergenceNoProgress | ConvergenceRepairBudget | ConvergenceStepLimit
  | ConvergenceIncomplete

fun causeName :: "ConvergenceCause \<Rightarrow> string" where
  "causeName ConvergenceOutputLimit = ''output_limit''"
| "causeName ConvergenceNoProgress = ''no_progress''"
| "causeName ConvergenceRepairBudget = ''repair_budget''"
| "causeName ConvergenceStepLimit = ''step_limit''"
| "causeName ConvergenceIncomplete = ''declared_incomplete''"

datatype VerificationAction =
  VerificationActionUnset | VerificationActionNotRequired | VerificationActionPassed
  | VerificationActionRepair | VerificationActionReported | VerificationActionBlocked
  | VerificationActionFailed | VerificationActionReverted

datatype ProgressStage =
  ProgressStageNone | ProgressStageConverge | ProgressStageFinishOnly | ProgressStageExhausted

datatype ProgressStallKind = ProgressStallNone | ProgressStallIdenticalCall | ProgressStallCycle

datatype EffectKind =
  EffectSampleProvider | EffectExecuteTool | EffectAwaitApproval | EffectAwaitInput
  | EffectRunVerification | EffectCommitJournal | EffectSuspendJournal | EffectRollbackJournal

datatype FailureCode =
  FailureUnset | FailureAuth | FailureQuota | FailureRateLimit | FailureContextWindowExceeded
  | FailureInvalidRequest | FailureUnsupportedContent | FailureServer | FailureTransport
  | FailureTimeout | FailureAborted | FailureMalformedResponse | FailureStreamClosed
  | FailureEmptyResponse | FailureUnknown

text \<open>Repair kinds are map keys; \<open>repairRank\<close> orders them.\<close>

fun repairRank :: "RepairKind \<Rightarrow> nat" where
  "repairRank RepairUnset = 0"
| "repairRank RepairCompletion = 1"
| "repairRank RepairDeclaration = 2"
| "repairRank RepairVerification = 3"
| "repairRank RepairWorkspace = 4"

lemma repairRank_inj: "repairRank a = repairRank b \<longleftrightarrow> a = b"
  by (cases a; cases b) simp_all

instantiation RepairKind :: linorder
begin

definition less_eq_RepairKind :: "RepairKind \<Rightarrow> RepairKind \<Rightarrow> bool" where
  "less_eq_RepairKind a b \<longleftrightarrow> repairRank a \<le> repairRank b"

definition less_RepairKind :: "RepairKind \<Rightarrow> RepairKind \<Rightarrow> bool" where
  "less_RepairKind a b \<longleftrightarrow> repairRank a < repairRank b"

instance
  by standard (auto simp: less_eq_RepairKind_def less_RepairKind_def simp flip: repairRank_inj)

end

type_synonym TurnIntent = string

abbreviation TurnIntentAnswer :: TurnIntent where "TurnIntentAnswer \<equiv> ''answer''"
abbreviation TurnIntentPlan :: TurnIntent where "TurnIntentPlan \<equiv> ''plan''"
abbreviation TurnIntentWorkspaceChange :: TurnIntent where
  "TurnIntentWorkspaceChange \<equiv> ''workspace_change''"
abbreviation TurnRecoveryRetry :: string where "TurnRecoveryRetry \<equiv> ''retry''"
abbreviation TurnRecoveryContinue :: string where "TurnRecoveryContinue \<equiv> ''continue''"
abbreviation CancelReasonUserInterrupted :: string where
  "CancelReasonUserInterrupted \<equiv> ''user_interrupted''"
abbreviation CancelReasonApprovalCanceled :: string where
  "CancelReasonApprovalCanceled \<equiv> ''approval_canceled''"

definition NormalizeTurnIntent :: "TurnIntent \<Rightarrow> TurnIntent" where
  "NormalizeTurnIntent intent = (if intent = [] then TurnIntentAnswer else intent)"

section \<open>Budgets, progress and policy\<close>

record RepairBudget =
  rb_ProgressKey :: string
  rb_Consecutive :: uint32
  rb_Steps :: uint32

definition zeroBudget :: RepairBudget where
  "zeroBudget = \<lparr>rb_ProgressKey = [], rb_Consecutive = 0, rb_Steps = 0\<rparr>"

record ObservationSet =
  os_order :: "string list"
  os_index :: "string fset"

record ProgressState =
  pg_Signature :: string
  pg_SampleIdentity :: string
  pg_PendingIdentity :: string
  pg_ObservationKey :: string
  pg_SeenObservations :: "ObservationSet option"
  pg_PendingResultDigests :: "string list"
  pg_ObservedSamples :: uint32
  pg_NoProgressSamples :: uint32
  pg_Stage :: ProgressStage
  pg_StallKind :: ProgressStallKind

record ConvergenceState =
  cv_Cause :: ConvergenceCause
  cv_Used :: uint32
  cv_Limit :: uint32
  cv_RepairKind :: RepairKind
  cv_FinalizationAttempted :: bool
  cv_Summary :: string
  cv_PendingActions :: "string list"

record ConvergencePolicy =
  cp_ProgressConverge :: uint32
  cp_ProgressFinishOnly :: uint32
  cp_ProgressLimit :: uint32
  cp_ResearchConverge :: uint32
  cp_ResearchFinishOnly :: uint32
  cp_ResearchLimit :: uint32

definition noConvergencePolicy :: ConvergencePolicy where
  "noConvergencePolicy = \<lparr>cp_ProgressConverge = 0, cp_ProgressFinishOnly = 0, cp_ProgressLimit = 0,
     cp_ResearchConverge = 0, cp_ResearchFinishOnly = 0, cp_ResearchLimit = 0\<rparr>"

record Policy =
  pl_CompletionRequired :: bool
  pl_StructuredTerminalRequired :: bool
  pl_VerificationRequired :: bool
  pl_VerificationMustPass :: bool
  pl_VerificationMode :: string
  pl_VerificationOnFailure :: string
  pl_CompletionRepairLimit :: uint32
  pl_WorkspaceRepairLimit :: uint32
  pl_DeclarationRepairLimit :: uint32
  pl_VerificationRepairLimit :: uint32
  pl_ExecutionStepLimit :: uint32
  pl_JournalRequired :: bool
  pl_Convergence :: ConvergencePolicy
  pl_ImplementNoProgressSamples :: uint32

definition ConvergencePolicyForStepLimit :: "uint32 \<Rightarrow> ConvergencePolicy" where
  "ConvergencePolicyForStepLimit limit =
    (if limit = 0 then noConvergencePolicy
     else let converge = max 1 (limit div 3);
              finishOnly = max converge (ucast (((ucast limit :: uint64) * 2) div 3))
          in \<lparr>cp_ProgressConverge = converge, cp_ProgressFinishOnly = finishOnly,
              cp_ProgressLimit = limit, cp_ResearchConverge = converge,
              cp_ResearchFinishOnly = finishOnly, cp_ResearchLimit = limit\<rparr>)"

definition DefaultPolicy :: Policy where
  "DefaultPolicy = \<lparr>pl_CompletionRequired = True, pl_StructuredTerminalRequired = False,
     pl_VerificationRequired = False, pl_VerificationMustPass = False, pl_VerificationMode = [],
     pl_VerificationOnFailure = [], pl_CompletionRepairLimit = 2, pl_WorkspaceRepairLimit = 1,
     pl_DeclarationRepairLimit = 1, pl_VerificationRepairLimit = 0, pl_ExecutionStepLimit = 0,
     pl_JournalRequired = False, pl_Convergence = noConvergencePolicy,
     pl_ImplementNoProgressSamples = 0\<rparr>"

section \<open>Ledger entries\<close>

record ToolCallState =
  tc_ID :: string
  tc_Name :: string
  tc_Arguments :: string
  tc_CatalogID :: string
  tc_CatalogGeneration :: uint64
  tc_CatalogRevision :: uint64
  tc_CatalogAuthority :: uint64
  tc_AdmissionRejection :: string

record ToolResultState =
  tr_ID :: string
  tr_Name :: string
  tr_IsError :: bool

record ObservedChange =
  oc_Path :: string
  oc_Kind :: string
  oc_ContentDigest :: string

record ApprovalState =
  ap_RequestID :: string
  ap_CallID :: string

record InputState =
  in_RequestID :: string
  in_CallID :: string

record WorkspaceState =
  ws_Mutation :: uint64
  ws_Changes :: "ObservedChange list"

record CompletionDecision =
  cd_NoChangeReason :: string
  cd_NoChangeEvidence :: "string list"
  cd_Accepted :: bool
  cd_Summary :: string
  cd_Reason :: string
  cd_RequiredAction :: string
  cd_OutputMode :: string
  cd_PendingActions :: "string list"
  cd_Mutation :: uint64
  cd_ChangedPaths :: "string list"
  cd_VerificationCalls :: "string list"
  cd_CompletionCall :: string

record VerificationState =
  vs_Status :: VerificationStatus
  vs_Action :: VerificationAction
  vs_Mutation :: uint64
  vs_EvidenceCalls :: "string list"
  vs_FailureMessage :: string

definition notEvaluated :: VerificationState where
  "notEvaluated = \<lparr>vs_Status = VerificationNotEvaluated, vs_Action = VerificationActionUnset,
     vs_Mutation = 0, vs_EvidenceCalls = [], vs_FailureMessage = []\<rparr>"

record DeadlineMetadata =
  dm_Scope :: string
  dm_TimeoutMS :: uint64
  dm_Renewable :: bool

record FaultMetadata =
  fm_Origin :: string
  fm_Disposition :: string
  fm_Reason :: string
  fm_SideEffects :: string
  fm_Stage :: string
  fm_OperationID :: string
  fm_RetryOwner :: string
  fm_ResumeHint :: string
  fm_Deadline :: "DeadlineMetadata option"
  fm_RecoveryAction :: string

record TerminalDecision =
  td_Kind :: TerminalKind
  td_Code :: string
  td_Message :: string
  td_Fault :: "FaultMetadata option"
  td_Convergence :: "ConvergenceState option"

record UsageState =
  us_Calls :: uint32
  us_InputTokens :: uint64
  us_OutputTokens :: uint64
  us_ReasoningTokens :: uint64
  us_CachedTokens :: uint64
  us_CostMicrounits :: uint64
  us_CostKnown :: bool
  us_Frozen :: bool

record ContextState =
  cx_Digest :: string
  cx_HistoryBytes :: int
  cx_MaxBytes :: int
  cx_Compactions :: uint32
  cx_Frozen :: bool
  cx_Truncated :: bool
  cx_TruncateCause :: string

record ProviderRetryBudget =
  pb_TransientRetries :: uint32
  pb_RateLimitRetries :: uint32
  pb_RateLimitWaited :: Duration
  pb_WaitUntil :: Time

definition zeroRetryBudget :: ProviderRetryBudget where
  "zeroRetryBudget = \<lparr>pb_TransientRetries = 0, pb_RateLimitRetries = 0, pb_RateLimitWaited = 0,
     pb_WaitUntil = 0\<rparr>"

record Commentary =
  cm_SampleID :: string
  cm_Text :: string
  cm_CallIDs :: "string list"

record ProviderRetryState =
  pr_EffectID :: string
  pr_Attempt :: uint32
  pr_Retry :: uint32
  pr_EffectiveDelayMS :: uint64
  pr_RetryAt :: Time
  pr_PolicyRevision :: string

record Failure =
  fl_Code :: FailureCode
  fl_Message :: string
  fl_HTTPStatus :: int
  fl_RetryAfterMS :: uint64
  fl_RequestID :: string

record ModelSampleState =
  ms_ID :: string
  ms_Attempt :: uint32
  ms_Status :: SampleStatus
  ms_ProviderRetries :: uint32
  ms_RetryBudget :: ProviderRetryBudget
  ms_LastFailure :: "Failure option"
  ms_Retry :: "ProviderRetryState option"
  ms_Assembly :: "ResponseAssembly option"
  ms_Error :: string

definition zeroSample :: ModelSampleState where
  "zeroSample = \<lparr>ms_ID = [], ms_Attempt = 0, ms_Status = SampleUnset, ms_ProviderRetries = 0,
     ms_RetryBudget = zeroRetryBudget, ms_LastFailure = None, ms_Retry = None,
     ms_Assembly = None, ms_Error = []\<rparr>"

record CancellationState =
  cs_Requested :: bool
  cs_Accepted :: bool
  cs_Reason :: string

record RecoveryRelation =
  rr_SourceTurnID :: string
  rr_RecoveryTurnID :: string
  rr_Action :: string
  rr_DraftResumed :: bool

record ContinuationCursor =
  cc_Sequence :: uint64
  cc_Handle :: string
  cc_Digest :: string

record Effect =
  ef_ID :: string
  ef_Kind :: EffectKind
  ef_Payload :: string
  ef_PayloadDigest :: string
  ef_Attempt :: uint32
  ef_IdempotencyKey :: string
  ef_Status :: EffectLifecycleStatus
  ef_CallID :: string
  ef_Error :: string

section \<open>Work item\<close>

record WorkItemRead =
  wr_Window :: string
  wr_ContentDigest :: string
  wr_Turn :: uint64
  wr_StartLine :: int
  wr_EndLine :: int
  wr_ResultHandle :: string
  wr_CallID :: string

record WorkItemEdit =
  we_MutationRevision :: uint64
  we_ContentDigest :: string

record WorkItemOpen =
  wo_UnverifiedPaths :: "string list"
  wo_Sessions :: "string list"
  wo_CoveredPaths :: "string list"

record WorkItem =
  wi_GoalDigest :: string
  wi_KnownReads :: "(string, WorkItemRead) fmap"
  wi_KnownEdits :: "(string, WorkItemEdit) fmap"
  wi_Open :: WorkItemOpen
  wi_RequiredAction :: string

record WorkItemObservation =
  ob_ReadPath :: string
  ob_ReadWindow :: string
  ob_ReadStart :: int
  ob_ReadEnd :: int
  ob_ResultHandle :: string
  ob_CallID :: string
  ob_ContentDigest :: string
  ob_OpenSession :: string
  ob_CloseSession :: string
  ob_CoveredPaths :: "string list"
  ob_ResultDigest :: string

end
