(* ===== verification/Kernel_State.thy ===== *)
theory Kernel_State
  imports Kernel_Types
begin

text \<open>
  The turn state, the commands, events and effects of
  \<open>src/internal/runtime/agent/turnkernel/state.go\<close> and \<open>command.go\<close>, the transition the reducer
  builds, the error values it returns, and the parts of the standard library it calls.
\<close>

section \<open>Turn state\<close>

record State =
  st_Phase :: Phase
  st_Intent :: TurnIntent
  st_Mode :: string
  st_ProfileRevision :: uint64
  st_Policy :: Policy
  st_MutationRevision :: uint64
  st_OpenCalls :: "(string, ToolCallState) fmap"
  st_ClosedCalls :: "(string, ToolResultState) fmap"
  st_PendingApprovals :: "(string, ApprovalState) fmap"
  st_PendingInput :: "InputState option"
  st_Workspace :: "WorkspaceState option"
  st_Changes :: "ObservedChange list"
  st_Completion :: "CompletionDecision option"
  st_Continuation :: "ContinuationCursor option"
  st_Verification :: VerificationState
  st_Journal :: JournalStatus
  st_Usage :: UsageState
  st_Context :: ContextState
  st_SampleLedger :: "(string, ModelSampleState) fmap"
  st_ActiveSampleID :: string
  st_Cancellation :: CancellationState
  st_RecoveryRelation :: "RecoveryRelation option"
  st_PendingEffects :: "(string, Effect) fmap"
  st_CompletedEffects :: "(string, Effect) fmap"
  st_NextEffectSequence :: uint64
  st_ProvisionalOutput :: "string list"
  st_FinalOutput :: "string list"
  st_Commentary :: "Commentary list"
  st_OutputEligibility :: bool
  st_RepairBudgets :: "(RepairKind, RepairBudget) fmap"
  st_Progress :: ProgressState
  st_WorkItem :: WorkItem
  st_Convergence :: "ConvergenceState option"
  st_NextAction :: StepAction
  st_LastModelContinued :: bool
  st_UnresolvedToolFailure :: bool
  st_RecoveryToolSucceeded :: bool
  st_PendingTerminal :: "TerminalDecision option"
  st_Terminal :: "TerminalDecision option"

definition NewState :: "TurnIntent \<Rightarrow> string \<Rightarrow> uint64 \<Rightarrow> State" where
  "NewState intent mode profileRevision = \<lparr>
     st_Phase = PhaseCreated, st_Intent = NormalizeTurnIntent intent, st_Mode = mode,
     st_ProfileRevision = profileRevision, st_Policy = DefaultPolicy, st_MutationRevision = 0,
     st_OpenCalls = fmempty, st_ClosedCalls = fmempty, st_PendingApprovals = fmempty,
     st_PendingInput = None, st_Workspace = None, st_Changes = [], st_Completion = None,
     st_Continuation = None, st_Verification = notEvaluated, st_Journal = JournalNone,
     st_Usage = \<lparr>us_Calls = 0, us_InputTokens = 0, us_OutputTokens = 0, us_ReasoningTokens = 0,
       us_CachedTokens = 0, us_CostMicrounits = 0, us_CostKnown = False, us_Frozen = False\<rparr>,
     st_Context = \<lparr>cx_Digest = [], cx_HistoryBytes = 0, cx_MaxBytes = 0, cx_Compactions = 0,
       cx_Frozen = False, cx_Truncated = False, cx_TruncateCause = []\<rparr>,
     st_SampleLedger = fmempty, st_ActiveSampleID = [],
     st_Cancellation = \<lparr>cs_Requested = False, cs_Accepted = False, cs_Reason = []\<rparr>,
     st_RecoveryRelation = None, st_PendingEffects = fmempty, st_CompletedEffects = fmempty,
     st_NextEffectSequence = 0, st_ProvisionalOutput = [], st_FinalOutput = [],
     st_Commentary = [], st_OutputEligibility = False, st_RepairBudgets = fmempty,
     st_Progress = \<lparr>pg_Signature = [], pg_SampleIdentity = [], pg_PendingIdentity = [],
       pg_ObservationKey = [], pg_SeenObservations = None, pg_PendingResultDigests = [],
       pg_ObservedSamples = 0, pg_NoProgressSamples = 0, pg_Stage = ProgressStageNone,
       pg_StallKind = ProgressStallNone\<rparr>,
     st_WorkItem = \<lparr>wi_GoalDigest = [], wi_KnownReads = fmempty, wi_KnownEdits = fmempty,
       wi_Open = \<lparr>wo_UnverifiedPaths = [], wo_Sessions = [], wo_CoveredPaths = []\<rparr>,
       wi_RequiredAction = []\<rparr>,
     st_Convergence = None, st_NextAction = StepActionNone, st_LastModelContinued = False,
     st_UnresolvedToolFailure = False, st_RecoveryToolSucceeded = False,
     st_PendingTerminal = None, st_Terminal = None\<rparr>"

definition NewStateWithPolicy :: "TurnIntent \<Rightarrow> string \<Rightarrow> uint64 \<Rightarrow> Policy \<Rightarrow> State" where
  "NewStateWithPolicy intent mode profileRevision policy =
     (NewState intent mode profileRevision)\<lparr>st_Policy := policy\<rparr>"

definition RequiresCompletion :: "State \<Rightarrow> bool" where
  "RequiresCompletion s \<longleftrightarrow>
     pl_CompletionRequired (st_Policy s) \<and> pl_StructuredTerminalRequired (st_Policy s)"

definition IsResearchIntent :: "TurnIntent \<Rightarrow> bool" where
  "IsResearchIntent intent \<longleftrightarrow> intent = TurnIntentAnswer \<or> intent = TurnIntentPlan"

section \<open>Commands\<close>

text \<open>A command with more than two fields carries them in a record.\<close>

record ModelSampleFinishedArgs =
  mf_SampleID :: string
  mf_Usage :: UsageState
  mf_Context :: ContextState
  mf_Error :: string

record ModelSampleProgressArgs =
  mp_EffectID :: string
  mp_SampleID :: string
  mp_Attempt :: uint32
  mp_Assembly :: ResponseAssembly

record ModelSampleResultArgs =
  mr_EffectID :: string
  mr_SampleID :: string
  mr_Usage :: UsageState
  mr_Context :: ContextState
  mr_Failure :: "Failure option"
  mr_Text :: string
  mr_Calls :: "ToolCallState list"
  mr_Continued :: bool
  mr_Error :: string

record SupplementalUsageArgs =
  su_Source :: string
  su_SampleID :: string
  su_Usage :: UsageState

record ProviderRetryArgs =
  pq_EffectID :: string
  pq_SampleID :: string
  pq_Attempt :: uint32
  pq_Retry :: uint32
  pq_Failure :: Failure
  pq_EffectiveDelay :: Duration
  pq_RetryAt :: Time
  pq_PolicyRevision :: string

record ProviderWaitArgs =
  pw_SampleID :: string
  pw_Delay :: Duration
  pw_Until :: Time

record ObserveProgressArgs =
  op_Signature :: string
  op_SampleIdentity :: string
  op_ResultDigest :: string
  op_CompletedSamples :: uint32

record BindWorkItemArgs =
  bw_Goal :: string
  bw_GoalDigest :: string
  bw_KnownReads :: "(string, WorkItemRead) fmap"
  bw_KnownEdits :: "(string, WorkItemEdit) fmap"
  bw_Open :: WorkItemOpen

record ConvergenceArgs =
  cr_Cause :: ConvergenceCause
  cr_Used :: uint32
  cr_Limit :: uint32
  cr_RepairKind :: RepairKind

record ApprovalResultArgs =
  aq_EffectID :: string
  aq_RequestID :: string
  aq_Accepted :: bool
  aq_Canceled :: bool
  aq_Error :: string

record InputResultArgs =
  iq_EffectID :: string
  iq_RequestID :: string
  iq_Accepted :: bool
  iq_Error :: string

record ToolResultArgs =
  tq_EffectID :: string
  tq_CallID :: string
  tq_IsError :: bool
  tq_Changes :: "ObservedChange list"
  tq_Observation :: WorkItemObservation

record CompletionCandidate =
  cn_NoChangeReason :: string
  cn_NoChangeEvidence :: "string list"
  cn_DeclarationValid :: bool
  cn_Status :: string
  cn_Summary :: string
  cn_OutputMode :: string
  cn_PendingActions :: "string list"
  cn_CompletionCall :: string
  cn_BatchMutated :: bool
  cn_BatchSize :: int
  cn_ToolError :: bool
  cn_VerificationCalls :: "string list"
  cn_PlanOpenSteps :: int

record RecoveryArgs =
  rq_SourceTurnID :: string
  rq_RecoveryTurnID :: string
  rq_CurrentProfileRevision :: uint64
  rq_Action :: string
  rq_DraftResumed :: bool
  rq_Changes :: "ObservedChange list"

record TerminalArgs =
  ta_FailureCode :: string
  ta_FailureMessage :: string
  ta_Fault :: "FaultMetadata option"
  ta_CancelReason :: string
  ta_Convergence :: "ConvergenceState option"

datatype Command =
  StartTurn
| PreparationFinished
| ModelSampleRequested string
| ModelSampleStarted string uint32
| ModelSampleFinished ModelSampleFinishedArgs
| ModelSampleProgressRecorded ModelSampleProgressArgs
| ModelSampleResultReceived ModelSampleResultArgs
| SupplementalUsageRecorded SupplementalUsageArgs
| ProviderRetryRequested ProviderRetryArgs
| ProviderWaitReserved ProviderWaitArgs
| ModelTextReceived string
| ReleaseProvisionalOutput
| DiscardProvisionalOutput string
| RepairRequested RepairKind string uint32
| EvaluateTurnStep string
| ObserveProgress ObserveProgressArgs
| BindWorkItem BindWorkItemArgs
| ConvergenceRequested ConvergenceArgs
| ConvergenceFinalizationStarted
| ToolCallsProposed "ToolCallState list"
| ApprovalRequired string string
| ApprovalResolved string
| ApprovalResultReceived ApprovalResultArgs
| InputRequired string string
| InputResolved string
| InputResultReceived InputResultArgs
| ToolBatchAdmissionRejected "string list" string
| ToolResultReceived ToolResultArgs
| AbortOpenCalls string
| WorkspaceReconciled uint64 "ObservedChange list"
| VerificationRetired
| CompletionEvaluated CompletionCandidate
| CompletionInvalidated string
| CancelRequested string
| ContinuationRecorded ContinuationCursor
| RecoveryRequested RecoveryArgs
| EffectStarted string uint32
| EffectRequeued string
| EffectResultReceived string bool string
| PersistenceResultReceived string bool string
| TerminalRequested TerminalArgs
| JournalFinalized JournalStatus
| JournalResultReceived string JournalStatus string
| FinishTerminal

fun commandName :: "Command \<Rightarrow> string" where
  "commandName StartTurn = ''start_turn''"
| "commandName PreparationFinished = ''preparation_finished''"
| "commandName (ModelSampleRequested _) = ''model_sample_requested''"
| "commandName (ModelSampleStarted _ _) = ''model_sample_started''"
| "commandName (ModelSampleFinished _) = ''model_sample_finished''"
| "commandName (ModelSampleProgressRecorded _) = ''model_sample_progress_recorded''"
| "commandName (ModelSampleResultReceived _) = ''model_sample_result_received''"
| "commandName (SupplementalUsageRecorded _) = ''supplemental_usage_recorded''"
| "commandName (ProviderRetryRequested _) = ''provider_retry_requested''"
| "commandName (ProviderWaitReserved _) = ''provider_wait_reserved''"
| "commandName (ModelTextReceived _) = ''model_text_received''"
| "commandName ReleaseProvisionalOutput = ''release_provisional_output''"
| "commandName (DiscardProvisionalOutput _) = ''discard_provisional_output''"
| "commandName (RepairRequested _ _ _) = ''repair_requested''"
| "commandName (EvaluateTurnStep _) = ''evaluate_turn_step''"
| "commandName (ObserveProgress _) = ''observe_progress''"
| "commandName (BindWorkItem _) = ''bind_work_item''"
| "commandName (ConvergenceRequested _) = ''convergence_requested''"
| "commandName ConvergenceFinalizationStarted = ''convergence_finalization_started''"
| "commandName (ToolCallsProposed _) = ''tool_calls_proposed''"
| "commandName (ApprovalRequired _ _) = ''approval_required''"
| "commandName (ApprovalResolved _) = ''approval_resolved''"
| "commandName (ApprovalResultReceived _) = ''approval_result_received''"
| "commandName (InputRequired _ _) = ''input_required''"
| "commandName (InputResolved _) = ''input_resolved''"
| "commandName (InputResultReceived _) = ''input_result_received''"
| "commandName (ToolBatchAdmissionRejected _ _) = ''tool_batch_admission_rejected''"
| "commandName (ToolResultReceived _) = ''tool_result_received''"
| "commandName (AbortOpenCalls _) = ''abort_open_calls''"
| "commandName (WorkspaceReconciled _ _) = ''workspace_reconciled''"
| "commandName VerificationRetired = ''verification_retired''"
| "commandName (CompletionEvaluated _) = ''completion_evaluated''"
| "commandName (CompletionInvalidated _) = ''completion_invalidated''"
| "commandName (CancelRequested _) = ''cancel_requested''"
| "commandName (ContinuationRecorded _) = ''continuation_recorded''"
| "commandName (RecoveryRequested _) = ''recovery_requested''"
| "commandName (EffectStarted _ _) = ''effect_started''"
| "commandName (EffectRequeued _) = ''effect_requeued''"
| "commandName (EffectResultReceived _ _ _) = ''effect_result_received''"
| "commandName (PersistenceResultReceived _ _ _) = ''persistence_result_received''"
| "commandName (TerminalRequested _) = ''terminal_requested''"
| "commandName (JournalFinalized _) = ''journal_finalized''"
| "commandName (JournalResultReceived _ _ _) = ''journal_result_received''"
| "commandName FinishTerminal = ''finish_terminal''"

section \<open>Events and transitions\<close>

datatype EventKind =
  EventTransition | EventToolStarted | EventToolClosed | EventMutationObserved
  | EventCompletionDecided | EventVerification | EventOutputReleased | EventOutputDiscarded
  | EventRepairRequested | EventConvergence | EventSampleStarted | EventSampleFinished
  | EventProviderRetry | EventUsageRecorded | EventCancelAccepted | EventRecoveryBound
  | EventEffectRequested | EventEffectStarted | EventEffectRequeued | EventEffectFinished
  | EventTerminalPrepared | EventTerminalCommitted

record Event =
  ev_Kind :: EventKind
  ev_From :: "Phase option"
  ev_To :: "Phase option"
  ev_CallID :: string
  ev_EffectID :: string
  ev_SampleID :: string
  ev_Mutation :: uint64
  ev_Terminal :: "TerminalDecision option"

definition event :: "EventKind \<Rightarrow> Event" where
  "event k = \<lparr>ev_Kind = k, ev_From = None, ev_To = None, ev_CallID = [], ev_EffectID = [],
     ev_SampleID = [], ev_Mutation = 0, ev_Terminal = None\<rparr>"

record Transition =
  tn_State :: State
  tn_Events :: "Event list"
  tn_Effects :: "Effect list"

abbreviation withState :: "(State \<Rightarrow> State) \<Rightarrow> Transition \<Rightarrow> Transition" where
  "withState f t \<equiv> t\<lparr>tn_State := f (tn_State t)\<rparr>"

abbreviation emit :: "Event \<Rightarrow> Transition \<Rightarrow> Transition" where
  "emit e t \<equiv> t\<lparr>tn_Events := tn_Events t @ [e]\<rparr>"

section \<open>Errors\<close>

datatype go_error =
  TransitionError Phase string message
| RepairBudgetExhaustedError RepairKind string uint32
| Plain message
| Wrapped string go_error

definition illegal :: "State \<Rightarrow> Command \<Rightarrow> string \<Rightarrow> go_error" where
  "illegal s c reason = TransitionError (st_Phase s) (commandName c) (Msg reason)"

definition illegalErr :: "State \<Rightarrow> Command \<Rightarrow> message \<Rightarrow> go_error" where
  "illegalErr s c err = TransitionError (st_Phase s) (commandName c) err"

definition requirePhase :: "State \<Rightarrow> Command \<Rightarrow> Phase list \<Rightarrow> go_error option" where
  "requirePhase s c allowed =
    (if st_Phase s \<in> set allowed then None
     else Some (illegalErr s c (Fmt ''expected phase %v'' (map (ArgS \<circ> phaseName) allowed))))"

text \<open>\<open>guard\<close> is \<open>if err := check; err != nil { return err }\<close>.\<close>

definition guard :: "'e option \<Rightarrow> 'e + 'a \<Rightarrow> 'e + 'a" where
  "guard check rest = (case check of Some e \<Rightarrow> Inl e | None \<Rightarrow> rest)"

lemma guard_Inr [simp]: "guard check rest = Inr y \<longleftrightarrow> check = None \<and> rest = Inr y"
  by (simp add: guard_def split: option.split)

lemma requirePhase_None [simp]: "requirePhase s c ps = None \<longleftrightarrow> st_Phase s \<in> set ps"
  by (simp add: requirePhase_def)

definition move :: "Phase \<Rightarrow> Transition \<Rightarrow> Transition" where
  "move phase t = t\<lparr>tn_State := (tn_State t)\<lparr>st_Phase := phase\<rparr>,
     tn_Events := tn_Events t @ [(event EventTransition)
       \<lparr>ev_From := Some (st_Phase (tn_State t)), ev_To := Some phase\<rparr>]\<rparr>"

section \<open>The standard library the reducer calls\<close>

text \<open>
  \<open>Payload\<close> lists the values that are encoded as effect payloads. \<open>jsonPayload\<close> is \<open>json.Marshal\<close>
  on them (\<open>None\<close>: it failed), \<open>jsonCanonical\<close> decodes and re-encodes a tool argument string,
  \<open>jsonReadWindow\<close> decodes the path and start line of a read call, \<open>jsonToolResult\<close> a rejected tool
  result and \<open>jsonState\<close> encodes a state.
\<close>

datatype Payload =
  PayloadSample string
| PayloadToolCall ToolCallState
| PayloadApproval string string
| PayloadInput string string
| PayloadTerminal TerminalDecision

fun payloadType :: "Payload \<Rightarrow> string" where
  "payloadType (PayloadSample _) = ''turnkernel.ModelSampleRequested''"
| "payloadType (PayloadToolCall _) = ''turnkernel.ToolCallState''"
| "payloadType (PayloadApproval _ _) = ''turnkernel.ApprovalRequired''"
| "payloadType (PayloadInput _ _) = ''turnkernel.InputRequired''"
| "payloadType (PayloadTerminal _) = ''turnkernel.TerminalDecision''"

record DecodedResult =
  dr_Content :: string
  dr_IsError :: bool
  dr_WorkspaceChanges :: "ObservedChange list"

record KernelEnv = AssemblyEnv +
  jsonPayload :: "Payload \<Rightarrow> string option"
  jsonCanonical :: "string \<Rightarrow> string option"
  jsonReadWindow :: "string \<Rightarrow> (string \<times> int) option"
  jsonToolResult :: "string \<Rightarrow> DecodedResult option"
  jsonState :: "State \<Rightarrow> string option"

end
