(* ===== verification/Work_Item.thy ===== *)
theory Work_Item
  imports Kernel_State
begin

text \<open>
  \<open>work_item.go\<close>, \<open>observation_set.go\<close> and the pure parts of \<open>progress.go\<close> and
  \<open>completion_policy.go\<close>: the kernel's next-step fact for a turn, the seen-observation ledger, the
  fingerprints that drive the anti-spin clock, and the completion policy.
\<close>

section \<open>Sorted string lists\<close>

text \<open>\<open>trimmed\<close> is the loop that trims every value and drops the blank ones.\<close>

definition trimmed :: "string list \<Rightarrow> string list" where
  "trimmed vs = filter (\<lambda>v. v \<noteq> []) (map TrimSpace vs)"

definition mergeUniqueSorted :: "string list \<Rightarrow> string list \<Rightarrow> string list" where
  "mergeUniqueSorted existing extras =
     sort (rev (foldl (\<lambda>merged v. if v \<in> set merged then merged else v # merged) []
       (trimmed (existing @ extras))))"

definition subtractSorted :: "string list \<Rightarrow> string list \<Rightarrow> string list" where
  "subtractSorted vs dropped =
    (if vs = [] \<or> dropped = [] then vs else filter (\<lambda>v. v \<notin> set (trimmed dropped)) vs)"

definition removeSorted :: "string list \<Rightarrow> string \<Rightarrow> string list" where
  "removeSorted vs dropped = subtractSorted vs [dropped]"

definition joinSortedKeys :: "(string, 'a) fmap \<Rightarrow> string" where
  "joinSortedKeys m = joinWith '','' (filter (\<lambda>k. \<not> blank k) (keys m))"

section \<open>Work item\<close>

definition GoalDigest :: "'e AssemblyEnv_scheme \<Rightarrow> string \<Rightarrow> string" where
  "GoalDigest env goal = (if blank goal then [] else digestBytes env (TrimSpace goal))"

definition HasKnown :: "WorkItem \<Rightarrow> bool" where
  "HasKnown w \<longleftrightarrow> \<not> isEmpty (wi_KnownReads w) \<or> \<not> isEmpty (wi_KnownEdits w)"

definition RequiredActionOr :: "WorkItem \<Rightarrow> string \<Rightarrow> string" where
  "RequiredActionOr w fallback =
    (if blank (wi_RequiredAction w) then fallback else TrimSpace (wi_RequiredAction w))"

definition HasKnownOrOpen :: "WorkItem \<Rightarrow> bool" where
  "HasKnownOrOpen w \<longleftrightarrow> HasKnown w \<or> wo_Sessions (wi_Open w) \<noteq> []"

definition KnownRead :: "WorkItem \<Rightarrow> string \<Rightarrow> WorkItemRead option" where
  "KnownRead w path = (if blank path then None else fmlookup (wi_KnownReads w) (TrimSpace path))"

definition completionAccepted :: "State \<Rightarrow> bool" where
  "completionAccepted s = (case st_Completion s of None \<Rightarrow> False | Some c \<Rightarrow> cd_Accepted c)"

definition DeriveRequiredAction :: "State \<Rightarrow> string" where
  "DeriveRequiredAction s =
    (let item = st_WorkItem s in
     if wo_Sessions (wi_Open item) \<noteq> [] then ''write_stdin''
     else if \<not> isEmpty (wi_KnownReads item) \<and> isEmpty (wi_KnownEdits item) then ''file_edit''
     else if completionAccepted s then ''turn_complete''
     else if \<not> isEmpty (wi_KnownReads item) then ''turn_history''
     else [])"

text \<open>
  Binding keeps what the turn already knows: a read or an edit of the command is added only under
  a trimmed path that has none. Go ranges over the map in no fixed order; the keys are taken in
  sorted order here, which matters only when two keys of one command trim to the same path.
\<close>

definition bindKnown :: "(string, 'a) fmap \<Rightarrow> (string, 'a) fmap \<Rightarrow> (string, 'a) fmap" where
  "bindKnown extras known = foldl (\<lambda>m path.
     if blank path \<or> has_key m (TrimSpace path) then m
     else case fmlookup extras path of None \<Rightarrow> m | Some v \<Rightarrow> fmupd (TrimSpace path) v m)
     known (keys extras)"

definition boundItem ::
    "'e AssemblyEnv_scheme \<Rightarrow> State \<Rightarrow> BindWorkItemArgs \<Rightarrow> WorkItem \<Rightarrow> WorkItem" where
  "boundItem env next c item0 =
    (let
       item1 = (if \<not> blank (bw_GoalDigest c)
                then item0\<lparr>wi_GoalDigest := TrimSpace (bw_GoalDigest c)\<rparr>
                else if \<not> blank (bw_Goal c)
                then item0\<lparr>wi_GoalDigest := GoalDigest env (TrimSpace (bw_Goal c))\<rparr>
                else item0);
       item2 = item1\<lparr>wi_KnownReads := bindKnown (bw_KnownReads c) (wi_KnownReads item1)\<rparr>;
       item3 = item2\<lparr>wi_KnownEdits := bindKnown (bw_KnownEdits c) (wi_KnownEdits item2)\<rparr>;
       item4 = item3\<lparr>wi_Open := (wi_Open item3)\<lparr>wo_Sessions :=
                 mergeUniqueSorted (wo_Sessions (wi_Open item3)) (wo_Sessions (bw_Open c))\<rparr>\<rparr>
     in item4\<lparr>wi_RequiredAction := DeriveRequiredAction (next\<lparr>st_WorkItem := item4\<rparr>)\<rparr>)"

definition applyBindWorkItem ::
    "'e AssemblyEnv_scheme \<Rightarrow> Transition \<Rightarrow> State \<Rightarrow> BindWorkItemArgs \<Rightarrow> go_error + Transition" where
  "applyBindWorkItem env t current c =
     guard (requirePhase current (BindWorkItem c) [PhaseCreated, PhasePreparing, PhaseSampling])
    (if st_ActiveSampleID current \<noteq> []
       then Inl (illegal current (BindWorkItem c) ''model sample is active'')
     else Inr (withState (\<lambda>s. s\<lparr>st_WorkItem := boundItem env s c (st_WorkItem current)\<rparr>) t))"

definition zeroRead :: WorkItemRead where
  "zeroRead = \<lparr>wr_Window = [], wr_ContentDigest = [], wr_Turn = 0, wr_StartLine = 0,
     wr_EndLine = 0, wr_ResultHandle = [], wr_CallID = []\<rparr>"

definition ParseFileReadWindow :: "'e KernelEnv_scheme \<Rightarrow> string \<Rightarrow> string \<times> int \<times> bool" where
  "ParseFileReadWindow env raw = (case jsonReadWindow env raw of
     None \<Rightarrow> ([], 0, False)
   | Some (path, start) \<Rightarrow> (TrimSpace path, start, \<not> blank path))"

definition recordRead ::
    "WorkItemObservation \<Rightarrow> (string, WorkItemRead) fmap \<Rightarrow> (string, WorkItemRead) fmap" where
  "recordRead ob reads =
    (if blank (ob_ReadPath ob) then reads
     else let
       path = TrimSpace (ob_ReadPath ob);
       previous = fmlookup reads path;
       r0 = get_or zeroRead reads path;
       r1 = (if ob_ReadWindow ob \<noteq> [] then r0\<lparr>wr_Window := ob_ReadWindow ob\<rparr>
             else if previous = None then r0\<lparr>wr_Window := ''full''\<rparr> else r0);
       r2 = (if ob_ContentDigest ob \<noteq> [] then r1\<lparr>wr_ContentDigest := ob_ContentDigest ob\<rparr> else r1);
       r3 = r2\<lparr>wr_StartLine := ob_ReadStart ob, wr_EndLine := ob_ReadEnd ob\<rparr>;
       r4 = (if \<not> blank (ob_ResultHandle ob)
             then r3\<lparr>wr_ResultHandle := TrimSpace (ob_ResultHandle ob)\<rparr> else r3);
       r5 = (if \<not> blank (ob_CallID ob) then r4\<lparr>wr_CallID := TrimSpace (ob_CallID ob)\<rparr> else r4)
     in fmupd path r5 reads)"

definition recordEdit ::
    "uint64 \<Rightarrow> (string, WorkItemEdit) fmap \<Rightarrow> ObservedChange \<Rightarrow> (string, WorkItemEdit) fmap" where
  "recordEdit mutation edits change =
    (if blank (oc_Path change) then edits
     else let
       path = TrimSpace (oc_Path change);
       e0 = get_or \<lparr>we_MutationRevision = 0, we_ContentDigest = []\<rparr> edits path;
       e1 = e0\<lparr>we_MutationRevision := mutation\<rparr>;
       e2 = (if \<not> blank (oc_ContentDigest change)
             then e1\<lparr>we_ContentDigest := TrimSpace (oc_ContentDigest change)\<rparr> else e1)
     in fmupd path e2 edits)"

definition recordSession :: "WorkItemObservation \<Rightarrow> string list \<Rightarrow> string list" where
  "recordSession ob sessions =
    (let sessions1 = (if \<not> blank (ob_OpenSession ob)
           then mergeUniqueSorted sessions [TrimSpace (ob_OpenSession ob)] else sessions)
     in if \<not> blank (ob_CloseSession ob) then removeSorted sessions1 (TrimSpace (ob_CloseSession ob))
        else sessions1)"

definition applyWorkItemObservation ::
    "'e KernelEnv_scheme \<Rightarrow> State \<Rightarrow> ToolCallState \<Rightarrow> ObservedChange list \<Rightarrow>
     WorkItemObservation \<Rightarrow> bool \<Rightarrow> State" where
  "applyWorkItemObservation env s call changes observation isError =
    (if isError
     then s\<lparr>st_WorkItem := (st_WorkItem s)\<lparr>wi_RequiredAction := DeriveRequiredAction s\<rparr>\<rparr>
     else let
       item0 = st_WorkItem s;
       ob = (if ob_ReadPath observation = [] \<and> tc_Name call = ''file_read''
             then case ParseFileReadWindow env (tc_Arguments call) of
               (path, start, ok) \<Rightarrow>
                 (if ok then observation\<lparr>ob_ReadPath := path, ob_ReadWindow :=
                    (if ob_ReadWindow observation = [] \<and> start > 0 then Itoa start
                     else ob_ReadWindow observation)\<rparr>
                  else observation)
             else observation);
       item1 = item0\<lparr>wi_KnownReads := recordRead ob (wi_KnownReads item0)\<rparr>;
       item2 = item1\<lparr>wi_KnownEdits :=
                 foldl (recordEdit (st_MutationRevision s)) (wi_KnownEdits item1) changes\<rparr>;
       item3 = item2\<lparr>wi_Open := (wi_Open item2)
                 \<lparr>wo_Sessions := recordSession ob (wo_Sessions (wi_Open item2))\<rparr>\<rparr>
     in s\<lparr>st_WorkItem := item3\<lparr>wi_RequiredAction :=
            DeriveRequiredAction (s\<lparr>st_WorkItem := item3\<rparr>)\<rparr>\<rparr>)"

definition ReadWindowIsFull :: "WorkItemRead \<Rightarrow> bool" where
  "ReadWindowIsFull r \<longleftrightarrow> TrimSpace (wr_Window r) = ''full'' \<or>
     wr_StartLine r = 0 \<and> blank (wr_Window r)"

text \<open>\<open>strconv.Atoi\<close>: an optional sign and decimal digits that fit 64 bits.\<close>

definition digitValue :: "char \<Rightarrow> nat option" where
  "digitValue c = (let n = of_char c :: nat in if 48 \<le> n \<and> n \<le> 57 then Some (n - 48) else None)"

fun parseDigits :: "nat \<Rightarrow> string \<Rightarrow> nat option" where
  "parseDigits acc [] = Some acc"
| "parseDigits acc (c # cs) = (case digitValue c of
     None \<Rightarrow> None | Some d \<Rightarrow> parseDigits (10 * acc + d) cs)"

definition Atoi :: "string \<Rightarrow> int option" where
  "Atoi str =
    (let neg = (str \<noteq> [] \<and> hd str = CHR ''-'');
         body = (if str \<noteq> [] \<and> (hd str = CHR ''-'' \<or> hd str = CHR ''+'') then tl str else str)
     in if body = [] then None
        else case parseDigits 0 body of
          None \<Rightarrow> None
        | Some n \<Rightarrow> (let v = (if neg then - int n else int n) in
            if - (2 ^ 63) \<le> v \<and> v < 2 ^ 63 then Some v else None))"

definition ReadWindowCovers :: "WorkItemRead \<Rightarrow> int \<Rightarrow> bool" where
  "ReadWindowCovers r startLine =
    (if ReadWindowIsFull r then True
     else case (if wr_StartLine r = 0
                then (case Atoi (TrimSpace (wr_Window r)) of
                        None \<Rightarrow> None | Some p \<Rightarrow> if p \<le> 0 then None else Some p)
                else Some (wr_StartLine r)) of
       None \<Rightarrow> False
     | Some start \<Rightarrow>
         (if startLine \<le> 0 \<or> startLine < start then False
          else wr_EndLine r = 0 \<or> startLine < wr_EndLine r))"

section \<open>Fingerprints\<close>

definition EmptySampleIdentity :: string where "EmptySampleIdentity = ''none''"

definition canonicalizeToolArguments :: "'e KernelEnv_scheme \<Rightarrow> string \<Rightarrow> string" where
  "canonicalizeToolArguments env raw0 =
    (let raw = TrimSpace raw0 in
     if raw = [] then []
     else case jsonCanonical env raw of None \<Rightarrow> raw | Some encoded \<Rightarrow> encoded)"

definition unitSeparator :: string where "unitSeparator = [CHR 0x1E]"

definition FormatToolCallsIdentity :: "'e KernelEnv_scheme \<Rightarrow> ToolCallState list \<Rightarrow> string" where
  "FormatToolCallsIdentity env calls =
    (let parts = map (\<lambda>c. TrimSpace (tc_Name c) @ [CHR 0x0A] @
                        canonicalizeToolArguments env (tc_Arguments c))
                   (filter (\<lambda>c. \<not> blank (tc_Name c)) calls)
     in if calls = [] \<or> parts = [] then EmptySampleIdentity
        else digestBytes env (joinWith unitSeparator (sort parts)))"

definition FormatWorkItemSignature :: "State \<Rightarrow> int \<Rightarrow> bool \<Rightarrow> string" where
  "FormatWorkItemSignature s completedPlanSteps openImplement =
    (let w = st_WorkItem s;
         reads = (if IsResearchIntent (st_Intent s) \<and> \<not> openImplement
                  then joinSortedKeys (wi_KnownReads w) else [])
     in ''goal='' @ wi_GoalDigest w @ '';reads='' @ reads @ '';edits='' @
        joinSortedKeys (wi_KnownEdits w) @ '';plan_done='' @ Itoa completedPlanSteps @
        '';completion='' @ formatBool (completionAccepted s) @ '';sessions='' @
        formatNat (length (wo_Sessions (wi_Open w))))"

definition FormatWorkspaceContent :: "WorkItem \<Rightarrow> string" where
  "FormatWorkspaceContent w = joinWith '',''
     (map (\<lambda>p. let r = get_or zeroRead (wi_KnownReads w) p in
          ''r:'' @ p @ '':'' @ wr_Window r @ '':'' @ Itoa (wr_StartLine r) @ '':'' @
          Itoa (wr_EndLine r) @ '':'' @ wr_ContentDigest r)
        (filter (\<lambda>k. \<not> blank k) (keys (wi_KnownReads w))) @
      map (\<lambda>p. ''e:'' @ p @ '':'' @
          (case fmlookup (wi_KnownEdits w) p of None \<Rightarrow> [] | Some e \<Rightarrow> we_ContentDigest e))
        (filter (\<lambda>k. \<not> blank k) (keys (wi_KnownEdits w))))"

text \<open>\<open>slices.Sort\<close> followed by \<open>slices.Compact\<close>.\<close>

definition sortCompact :: "string list \<Rightarrow> string list" where
  "sortCompact parts = remdups_adj (sort parts)"

definition FormatResultDigest :: "string list \<Rightarrow> string" where
  "FormatResultDigest digests = joinWith unitSeparator (sortCompact (trimmed digests))"

definition FormatObservationKey ::
    "'e AssemblyEnv_scheme \<Rightarrow> string \<Rightarrow> string \<Rightarrow> string \<Rightarrow> string" where
  "FormatObservationKey env signature content resultDigest =
     digestBytes env (TrimSpace signature @ unitSeparator @ TrimSpace content @ unitSeparator @
       TrimSpace resultDigest)"

definition liveToolIdentity :: "string \<Rightarrow> bool" where
  "liveToolIdentity identity \<longleftrightarrow> \<not> blank identity \<and> TrimSpace identity \<noteq> EmptySampleIdentity"

section \<open>Seen observations\<close>

definition emptyObservations :: ObservationSet where
  "emptyObservations = \<lparr>os_order = [], os_index = {||}\<rparr>"

definition contains :: "ObservationSet option \<Rightarrow> string \<Rightarrow> bool" where
  "contains ledger k = (case ledger of None \<Rightarrow> False | Some s \<Rightarrow> k |\<in>| os_index s)"

definition add :: "string \<Rightarrow> ObservationSet \<Rightarrow> ObservationSet" where
  "add k s = (if k |\<in>| os_index s then s
     else s\<lparr>os_order := os_order s @ [k], os_index := finsert k (os_index s)\<rparr>)"

definition decodeObservations :: "string list \<Rightarrow> ObservationSet" where
  "decodeObservations ks = \<lparr>os_order = ks, os_index = fset_of_list ks\<rparr>"

definition seenObservation :: "ProgressState \<Rightarrow> string \<Rightarrow> bool" where
  "seenObservation p k \<longleftrightarrow> k \<noteq> [] \<and> contains (pg_SeenObservations p) k"

definition rememberObservation :: "string \<Rightarrow> ProgressState \<Rightarrow> ProgressState" where
  "rememberObservation k p =
    (if k = [] \<or> contains (pg_SeenObservations p) k then p
     else p\<lparr>pg_SeenObservations := Some (add k (case pg_SeenObservations p of
              None \<Rightarrow> emptyObservations | Some s \<Rightarrow> s))\<rparr>)"

section \<open>Completion policy\<close>

definition effectiveChanges :: "State \<Rightarrow> ObservedChange list" where
  "effectiveChanges s = (case st_Workspace s of
     Some w \<Rightarrow> (if ws_Mutation w = st_MutationRevision s then ws_Changes w else st_Changes s)
   | None \<Rightarrow> st_Changes s)"

definition hasEffectiveChanges :: "State \<Rightarrow> bool" where
  "hasEffectiveChanges s \<longleftrightarrow> effectiveChanges s \<noteq> []"

definition validNoChange :: "State \<Rightarrow> string \<Rightarrow> string list \<Rightarrow> bool" where
  "validNoChange s reason calls =
    (if st_Workspace s = None \<or> hasEffectiveChanges s \<or> blank reason \<or> calls = [] then False
     else list_all (\<lambda>i.
       (case fmlookup (st_ClosedCalls s) i of None \<Rightarrow> False | Some r \<Rightarrow> \<not> tr_IsError r) \<and>
       list_ex (\<lambda>p. case fmlookup (wi_KnownReads (st_WorkItem s)) p of
           None \<Rightarrow> False | Some r \<Rightarrow> wr_CallID r = i) (keys (wi_KnownReads (st_WorkItem s)))) calls)"

definition workspaceCompletionMissing :: "State \<Rightarrow> bool" where
  "workspaceCompletionMissing s \<longleftrightarrow>
     st_Intent s = TurnIntentWorkspaceChange \<and> st_MutationRevision s = 0 \<and>
     (case st_Completion s of None \<Rightarrow> True
      | Some c \<Rightarrow> \<not> cd_Accepted c \<or> \<not> validNoChange s (cd_NoChangeReason c) (cd_NoChangeEvidence c))"

definition validateCompletionPolicy :: "State \<Rightarrow> message option" where
  "validateCompletionPolicy s =
    (if workspaceCompletionMissing s
       then Some (Msg ''workspace_change requires observed changes or an evidenced no-change declaration'')
     else if RequiresCompletion s then (case st_Completion s of
         None \<Rightarrow> Some (Msg ''turn has no accepted completion decision'')
       | Some c \<Rightarrow>
           (if \<not> cd_Accepted c then Some (Msg ''turn has no accepted completion decision'')
            else fail_if (cd_Mutation c \<noteq> st_MutationRevision s)
                   (Msg ''completion decision is stale'')))
     else None)"

definition changedPaths :: "ObservedChange list \<Rightarrow> string list" where
  "changedPaths changes = sorted_list_of_set (oc_Path ` set changes)"

definition samePaths :: "string list \<Rightarrow> string list \<Rightarrow> bool" where
  "samePaths left right \<longleftrightarrow> sort left = sort right"

definition validateCompletionContract :: "State \<Rightarrow> message option" where
  "validateCompletionContract s = (case validateCompletionPolicy s of
     Some e \<Rightarrow> Some e
   | None \<Rightarrow>
      (if st_MutationRevision s = 0
       then fail_if (st_Journal s \<noteq> JournalNone) (Msg ''unchanged turn has an open journal'')
       else fail_if (st_Journal s \<noteq> JournalOpen) (Msg ''mutation journal is not open'')))"

definition validateCompletionReadiness :: "State \<Rightarrow> message option" where
  "validateCompletionReadiness s =
    (if \<not> st_OutputEligibility s then Some (Msg ''final output is not eligible'')
     else validateCompletionContract s)"

end
