(* ===== verification/Invariants.thy ===== *)
theory Invariants
  imports Work_Item
begin

text \<open>
  \<open>src/internal/runtime/agent/turnkernel/invariants.go\<close>: the validator every published state
  passes, check by check in the order of the source, and \<open>cloneState\<close>. Each group of checks is a
  definition of its own, so that a proof about the reducer can open the one group it needs.
\<close>

section \<open>Shared predicates\<close>

definition validRepairKind :: "RepairKind \<Rightarrow> bool" where
  "validRepairKind k \<longleftrightarrow> k = RepairCompletion \<or> k = RepairWorkspace \<or> k = RepairDeclaration"

fun repairName :: "RepairKind \<Rightarrow> string" where
  "repairName RepairUnset = []"
| "repairName RepairCompletion = ''completion''"
| "repairName RepairWorkspace = ''workspace''"
| "repairName RepairDeclaration = ''declaration''"
| "repairName RepairVerification = ''verification''"

fun phaseForTerminal :: "TerminalKind \<Rightarrow> Phase" where
  "phaseForTerminal TerminalCompleted = PhaseCompleted"
| "phaseForTerminal TerminalFailed = PhaseFailed"
| "phaseForTerminal TerminalCanceled = PhaseCanceled"

definition CancelSuspendsDraft :: "string \<Rightarrow> bool" where
  "CancelSuspendsDraft reason \<longleftrightarrow> reason = CancelReasonUserInterrupted"

definition recoverableTerminalFault :: "FaultMetadata option \<Rightarrow> bool" where
  "recoverableTerminalFault fault = (case fault of None \<Rightarrow> False
   | Some f \<Rightarrow> fm_Disposition f \<in> {''retry_step'', ''retry_turn'', ''resume_turn''})"

definition terminalJournalOutcome :: "State \<Rightarrow> TerminalDecision \<Rightarrow> EffectKind \<times> JournalStatus" where
  "terminalJournalOutcome s d =
    (if td_Kind d = TerminalCompleted then (EffectCommitJournal, JournalCommitted)
     else if td_Kind d = TerminalCanceled \<and> CancelSuspendsDraft (td_Message d)
       then (EffectSuspendJournal, JournalSuspended)
     else if td_Kind d = TerminalFailed \<and>
             (td_Convergence d \<noteq> None \<or> recoverableTerminalFault (td_Fault d) \<or>
              (case st_RecoveryRelation s of None \<Rightarrow> False | Some r \<Rightarrow> rr_DraftResumed r))
       then (EffectSuspendJournal, JournalSuspended)
     else (EffectRollbackJournal, JournalRolledBack))"

section \<open>Samples and effects\<close>

definition invalidCommentary :: message where
  "invalidCommentary = Msg ''invalid commentary sample''"

definition callIDsError :: "string list \<Rightarrow> message option" where
  "callIDsError ids = fail_if (\<not> (list_all (\<lambda>i. \<not> blank i) ids \<and> distinct ids))
     (Msg ''invalid commentary call identity'')"

fun commentaryError :: "State \<Rightarrow> string list \<Rightarrow> Commentary list \<Rightarrow> message option" where
  "commentaryError s seen [] = None"
| "commentaryError s seen (m # rest) =
    (if cm_SampleID m \<in> set seen \<or>
        ms_Status (get_or zeroSample (st_SampleLedger s) (cm_SampleID m)) \<noteq> SampleCompleted \<or>
        blank (cm_Text m) \<or> cm_CallIDs m = []
     then Some invalidCommentary
     else case callIDsError (cm_CallIDs m) of
       Some e \<Rightarrow> Some e
     | None \<Rightarrow> commentaryError s (cm_SampleID m # seen) rest)"

definition retryScheduleInvalid :: "State \<Rightarrow> string \<Rightarrow> ModelSampleState \<Rightarrow> bool" where
  "retryScheduleInvalid s sampleID sample = (case ms_Retry sample of
     None \<Rightarrow> False
   | Some r \<Rightarrow>
       ms_Status sample \<noteq> SampleRequested \<or> pr_Attempt r \<noteq> ms_Attempt sample \<or>
       pr_Retry r \<noteq> ms_ProviderRetries sample \<or> pr_RetryAt r = 0 \<or>
       (ms_RetryBudget sample \<noteq> zeroRetryBudget \<and>
          pb_WaitUntil (ms_RetryBudget sample) < pr_RetryAt r) \<or>
       blank (pr_PolicyRevision r) \<or>
       (case fmlookup (st_PendingEffects s) (pr_EffectID r) of
          None \<Rightarrow> True
        | Some e \<Rightarrow> ef_Kind e \<noteq> EffectSampleProvider \<or> ef_CallID e \<noteq> sampleID \<or>
            ef_Status e \<noteq> EffectRequested))"

definition retryBudgetInvalid :: "ModelSampleState \<Rightarrow> bool" where
  "retryBudgetInvalid sample \<longleftrightarrow> ms_RetryBudget sample \<noteq> zeroRetryBudget \<and>
     ((ucast (pb_TransientRetries (ms_RetryBudget sample)) :: uint64) +
        ucast (pb_RateLimitRetries (ms_RetryBudget sample)) \<noteq> ucast (ms_ProviderRetries sample) \<or>
      sint (pb_RateLimitWaited (ms_RetryBudget sample)) < 0)"

definition sampleError :: "State \<Rightarrow> string \<Rightarrow> ModelSampleState \<Rightarrow> message option" where
  "sampleError s sampleID sample = first_error
     [fail_if (blank sampleID \<or> ms_ID sample \<noteq> sampleID)
        (Fmt ''invalid model sample %q'' [ArgS sampleID]),
      fail_if (ms_Status sample = SampleUnset)
        (Fmt ''invalid model sample status %q'' [ArgS []]),
      fail_if (ms_Status sample \<noteq> SampleRequested \<and> ms_Attempt sample = 0)
        (Fmt ''model sample %q has no attempt'' [ArgS sampleID]),
      fail_if (ms_Status sample = SampleFailed \<and> blank (ms_Error sample))
        (Fmt ''failed model sample %q has no error'' [ArgS sampleID]),
      fail_if (ms_Status sample \<noteq> SampleFailed \<and> ms_Error sample \<noteq> [] \<and>
               ms_Status sample \<noteq> SampleRunning)
        (Fmt ''successful model sample %q has an error'' [ArgS sampleID]),
      fail_if (ms_ProviderRetries sample = 0 \<and> ms_Retry sample \<noteq> None)
        (Fmt ''model sample %q has retry facts without a retry'' [ArgS sampleID]),
      fail_if (retryBudgetInvalid sample)
        (Fmt ''model sample %q has an invalid retry budget'' [ArgS sampleID]),
      fail_if (case ms_LastFailure sample of None \<Rightarrow> False
               | Some f \<Rightarrow> fl_Code f = FailureUnset \<or> blank (fl_Message f))
        (Fmt ''model sample %q has an invalid failure'' [ArgS sampleID]),
      (case ms_Assembly sample of None \<Rightarrow> None
       | Some a \<Rightarrow>
          (if ra_LogicalRequestID a \<noteq> sampleID
           then Some (Fmt ''model sample %q has mismatched response assembly identity''
                        [ArgS sampleID])
           else map_option (\<lambda>e. Fmt ''model sample %q response assembly: %w'' [ArgS sampleID, ArgM e])
                  (Assembly_Validate a))),
      fail_if (retryScheduleInvalid s sampleID sample)
        (Fmt ''model sample %q has an invalid retry schedule'' [ArgS sampleID])]"

definition validateEffect ::
    "'e AssemblyEnv_scheme \<Rightarrow> string \<Rightarrow> Effect \<Rightarrow> bool \<Rightarrow> message option" where
  "validateEffect env effectID e completed =
    (if blank effectID \<or> ef_ID e \<noteq> effectID \<or> ef_Payload e = [] \<or>
        \<not> prefix ''sha256:'' (ef_PayloadDigest e) \<or> blank (ef_IdempotencyKey e)
       then Some (Fmt ''invalid effect %q'' [ArgS effectID])
     else if ef_PayloadDigest e \<noteq> digestBytes env (ef_Payload e)
       then Some (Fmt ''effect %q payload digest mismatch'' [ArgS effectID])
     else if completed
       then (if ef_Status e \<noteq> EffectSucceeded \<and> ef_Status e \<noteq> EffectFailed
               then Some (Fmt ''completed effect %q has invalid status'' [ArgS effectID])
             else fail_if (ef_Status e = EffectFailed \<and> blank (ef_Error e))
                    (Fmt ''failed effect %q has no error'' [ArgS effectID]))
     else if ef_Status e \<noteq> EffectRequested \<and> ef_Status e \<noteq> EffectRunning
       then Some (Fmt ''pending effect %q has invalid status'' [ArgS effectID])
     else fail_if (ef_Status e = EffectRunning \<and> ef_Attempt e = 0)
            (Fmt ''running effect %q has no attempt'' [ArgS effectID]))"

definition activeSampleError :: "State \<Rightarrow> message option" where
  "activeSampleError s =
     fail_if (st_ActiveSampleID s \<noteq> [] \<and>
       ((case fmlookup (st_SampleLedger s) (st_ActiveSampleID s) of
           None \<Rightarrow> True | Some m \<Rightarrow> ms_Status m \<noteq> SampleRunning) \<or> st_Phase s \<noteq> PhaseSampling))
       (Msg ''active model sample is invalid'')"

definition effectsError :: "'e AssemblyEnv_scheme \<Rightarrow> State \<Rightarrow> message option" where
  "effectsError env s = first_error
     [check_map (\<lambda>i e. first_error
        [validateEffect env i e False,
         fail_if (has_key (st_CompletedEffects s) i)
           (Fmt ''effect %q is both pending and completed'' [ArgS i])]) (st_PendingEffects s),
      check_map (\<lambda>i e. validateEffect env i e True) (st_CompletedEffects s)]"

section \<open>Identity, budgets and progress\<close>

definition identityError :: "State \<Rightarrow> message option" where
  "identityError s = first_error
     [fail_if (cs_Accepted (st_Cancellation s) \<and> \<not> cs_Requested (st_Cancellation s))
        (Msg ''accepted cancellation was not requested''),
      fail_if (cs_Requested (st_Cancellation s) \<and> blank (cs_Reason (st_Cancellation s)))
        (Msg ''cancellation reason is empty''),
      fail_if (case st_RecoveryRelation s of None \<Rightarrow> False | Some r \<Rightarrow>
          blank (rr_SourceTurnID r) \<or> blank (rr_RecoveryTurnID r) \<or>
          (rr_Action r \<noteq> TurnRecoveryRetry \<and> rr_Action r \<noteq> TurnRecoveryContinue) \<or>
          (rr_DraftResumed r \<and> (rr_Action r \<noteq> TurnRecoveryContinue \<or> st_MutationRevision s = 0)) \<or>
          st_ProfileRevision s = 0)
        (Msg ''recovery relation is invalid''),
      fail_if (case st_Continuation s of None \<Rightarrow> False | Some c \<Rightarrow>
          cc_Sequence c = 0 \<or> blank (cc_Handle c) \<or> blank (cc_Digest c))
        (Msg ''continuation cursor is invalid''),
      fail_if (us_Frozen (st_Usage s) \<noteq> cx_Frozen (st_Context s))
        (Msg ''usage and context freeze state disagree'')]"

definition convergencePolicyInvalid :: "ConvergencePolicy \<Rightarrow> bool" where
  "convergencePolicyInvalid c \<longleftrightarrow> c \<noteq> noConvergencePolicy \<and>
     (cp_ProgressConverge c = 0 \<or> cp_ProgressConverge c > cp_ProgressFinishOnly c \<or>
      cp_ProgressFinishOnly c > cp_ProgressLimit c \<or> cp_ResearchConverge c = 0 \<or>
      cp_ResearchConverge c > cp_ResearchFinishOnly c \<or>
      cp_ResearchFinishOnly c > cp_ResearchLimit c)"

definition budgetsError :: "State \<Rightarrow> message option" where
  "budgetsError s = first_error
     [fail_if (convergencePolicyInvalid (pl_Convergence (st_Policy s)))
        (Msg ''convergence policy is invalid''),
      check_map (\<lambda>k b. fail_if (\<not> validRepairKind k \<or> blank (rb_ProgressKey b) \<or>
          rb_Consecutive b > rb_Steps b) (Fmt ''invalid %s repair budget'' [ArgS (repairName k)])) (st_RepairBudgets s)]"

definition progressError :: "ProgressState \<Rightarrow> message option" where
  "progressError p = first_error
     [fail_if (pg_Signature p = [] \<and> (pg_ObservedSamples p \<noteq> 0 \<or> pg_NoProgressSamples p \<noteq> 0 \<or>
        pg_Stage p \<noteq> ProgressStageNone)) (Msg ''progress state has no signature''),
      fail_if (pg_NoProgressSamples p > pg_ObservedSamples p)
        (Msg ''no-progress samples exceed observed samples'')]"

definition convergenceError :: "ConvergenceState \<Rightarrow> message option" where
  "convergenceError c = first_error
     [fail_if (cv_Cause c \<noteq> ConvergenceIncomplete \<and>
        (cv_Used c < cv_Limit c \<or>
         cv_Limit c = 0 \<and> (cv_Used c \<noteq> 0 \<or> cv_Cause c \<noteq> ConvergenceRepairBudget)))
        (Msg ''convergence budget is invalid''),
      (case cv_Cause c of
         ConvergenceRepairBudget \<Rightarrow> fail_if (\<not> validRepairKind (cv_RepairKind c))
           (Msg ''repair convergence kind is invalid'')
       | ConvergenceIncomplete \<Rightarrow> fail_if (cv_Used c \<noteq> 0 \<or> cv_Limit c \<noteq> 0 \<or>
            cv_RepairKind c \<noteq> RepairUnset \<or> \<not> cv_FinalizationAttempted c)
           (Msg ''declared incomplete convergence is invalid'')
       | _ \<Rightarrow> fail_if (cv_RepairKind c \<noteq> RepairUnset)
           (Msg ''non-repair convergence has repair kind'')),
      fail_if (blank (cv_Summary c) \<noteq> (cv_PendingActions c = []))
        (Msg ''convergence blocked outcome is incomplete''),
      fail_if (list_ex blank (cv_PendingActions c)) (Msg ''convergence pending action is empty'')]"

section \<open>Calls, interactions and the workspace\<close>

definition callsError :: "State \<Rightarrow> message option" where
  "callsError s = first_error
     [check_map (\<lambda>i c. first_error
        [fail_if (blank i \<or> i \<noteq> tc_ID c \<or> blank (tc_Name c))
           (Fmt ''invalid open tool call %q'' [ArgS i]),
         fail_if (has_key (st_ClosedCalls s) i)
           (Fmt ''tool call %q is both open and closed'' [ArgS i])]) (st_OpenCalls s),
      check_map (\<lambda>i r. fail_if (blank i \<or> i \<noteq> tr_ID r \<or> blank (tr_Name r))
        (Fmt ''invalid closed tool call %q'' [ArgS i])) (st_ClosedCalls s),
      fail_if (\<not> isEmpty (st_OpenCalls s) \<and> st_Phase s \<noteq> PhaseExecutingTools \<and>
          st_Phase s \<noteq> PhaseAwaitingApproval \<and> st_Phase s \<noteq> PhaseAwaitingInput)
        (Msg ''open tool calls exist outside tool execution''),
      fail_if (st_Phase s = PhaseExecutingTools \<and> isEmpty (st_OpenCalls s))
        (Msg ''executing_tools has no open tool calls'')]"

definition interactionsError :: "State \<Rightarrow> message option" where
  "interactionsError s = first_error
     [check_map (\<lambda>i a. first_error
        [fail_if (st_Phase s \<noteq> PhaseAwaitingApproval \<or> i = [] \<or> i \<noteq> ap_RequestID a)
           (Msg ''pending approval is invalid''),
         fail_if (\<not> has_key (st_OpenCalls s) (ap_CallID a))
           (Msg ''pending approval does not reference an open call'')]) (st_PendingApprovals s),
      fail_if (isEmpty (st_PendingApprovals s) \<and> st_Phase s = PhaseAwaitingApproval)
        (Msg ''awaiting_approval has no pending approval''),
      (case st_PendingInput s of
         Some i \<Rightarrow> first_error
           [fail_if (st_Phase s \<noteq> PhaseAwaitingInput)
              (Msg ''pending input is outside awaiting_input''),
            fail_if (blank (in_RequestID i)) (Msg ''pending input request id is empty'')]
       | None \<Rightarrow> fail_if (st_Phase s = PhaseAwaitingInput)
           (Msg ''awaiting_input has no pending input''))]"

definition journalFinal :: "JournalStatus \<Rightarrow> bool" where
  "journalFinal j \<longleftrightarrow> j = JournalCommitted \<or> j = JournalSuspended \<or> j = JournalRolledBack"

definition changesError :: "State \<Rightarrow> message option" where
  "changesError s = first_error
    ((if st_MutationRevision s = 0 then first_error
        [fail_if (st_Changes s \<noteq> []) (Msg ''changes exist without a mutation revision''),
         fail_if (st_Journal s \<noteq> JournalNone \<and>
             \<not> (pl_JournalRequired (st_Policy s) \<and>
                (st_Phase s = PhaseCommitting \<or> Phase_Terminal (st_Phase s)) \<and>
                journalFinal (st_Journal s)))
           (Msg ''unchanged turn has a journal'')]
      else first_error
        [fail_if (st_Changes s = []) (Msg ''mutation revision has no changes''),
         fail_if (st_Journal s = JournalNone) (Msg ''changed turn has no journal'')])
     # map (\<lambda>(i, c). fail_if (blank (oc_Path c) \<or> blank (oc_Kind c))
         (Fmt ''invalid observed change at index %d'' [ArgN i])) (enumerate 0 (st_Changes s)))"

fun effectiveChangesError :: "string list \<Rightarrow> ObservedChange list \<Rightarrow> message option" where
  "effectiveChangesError seen [] = None"
| "effectiveChangesError seen (c # rest) =
    (if blank (oc_Path c) \<or> oc_Path c \<in> set seen
       then Some (Msg ''invalid effective change path'')
     else if oc_Kind c \<notin> {''created'', ''modified'', ''deleted''}
       then Some (Msg ''invalid effective change kind'')
     else effectiveChangesError (oc_Path c # seen) rest)"

definition workspaceError :: "State \<Rightarrow> message option" where
  "workspaceError s = (case st_Workspace s of None \<Rightarrow> None
   | Some w \<Rightarrow> (if ws_Mutation w \<noteq> st_MutationRevision s
       then Some (Msg ''workspace observation is stale'')
       else effectiveChangesError [] (ws_Changes w)))"

definition validOutputMode :: "string \<Rightarrow> bool" where
  "validOutputMode m \<longleftrightarrow> m = [] \<or> m = ''exact'' \<or> m = ''preserve_provisional''"

definition completionError :: "State \<Rightarrow> message option" where
  "completionError s = (case st_Completion s of None \<Rightarrow> None
   | Some c \<Rightarrow> first_error
      [fail_if (\<not> validOutputMode (cd_OutputMode c)) (Msg ''completion output mode is invalid''),
       fail_if (list_ex blank (cd_PendingActions c)) (Msg ''completion pending action is empty''),
       (if cd_Accepted c then first_error
          [fail_if ((cd_NoChangeReason c \<noteq> [] \<or> cd_NoChangeEvidence c \<noteq> []) \<and>
              \<not> validNoChange s (cd_NoChangeReason c) (cd_NoChangeEvidence c))
             (Msg ''accepted no-change completion lacks evidence''),
           fail_if (cd_Mutation c \<noteq> st_MutationRevision s)
             (Msg ''accepted completion is not bound to current mutation''),
           fail_if (blank (cd_CompletionCall c)) (Msg ''accepted completion has no call id''),
           fail_if (\<not> samePaths (cd_ChangedPaths c) (changedPaths (effectiveChanges s)))
             (Msg ''accepted completion paths do not match changes'')]
        else fail_if (blank (cd_Reason c)) (Msg ''rejected completion has no reason''))])"

definition verificationError :: "State \<Rightarrow> message option" where
  "verificationError s = (let v = st_Verification s in case vs_Status v of
     VerificationNotEvaluated \<Rightarrow>
       fail_if (vs_Mutation v \<noteq> 0 \<or> vs_Action v \<noteq> VerificationActionUnset)
         (Msg ''unevaluated verification has a mutation revision'')
   | VerificationNotRequired \<Rightarrow>
       fail_if (st_Workspace s = None \<or> hasEffectiveChanges s \<or>
           vs_Mutation v \<noteq> st_MutationRevision s \<or> vs_Action v \<noteq> VerificationActionNotRequired \<or>
           vs_EvidenceCalls v \<noteq> []) (Msg ''invalid not_required verification'')
   | _ \<Rightarrow> first_error
       [fail_if (vs_Mutation v \<noteq> st_MutationRevision s)
          (Msg ''verification is not bound to current mutation''),
        fail_if (vs_Action v = VerificationActionUnset \<or> vs_Action v = VerificationActionNotRequired)
          (Msg ''verification action is invalid'')])"

section \<open>Terminal states\<close>

definition validateTerminalState :: "State \<Rightarrow> TerminalDecision \<Rightarrow> message option" where
  "validateTerminalState s d =
    (let hasChanges = (st_MutationRevision s \<noteq> 0) in
     if td_Kind d = TerminalCompleted
     then (if \<not> st_OutputEligibility s \<or> st_FinalOutput s = []
             then Some (Msg ''completed turn has no eligible final output'')
           else case validateCompletionPolicy s of
             Some e \<Rightarrow> Some e
           | None \<Rightarrow>
              (if \<not> hasChanges
               then fail_if (st_Journal s \<noteq> (if pl_JournalRequired (st_Policy s)
                                              then JournalCommitted else JournalNone))
                      (Msg ''completed unchanged turn has invalid journal state'')
               else fail_if (st_Journal s \<noteq> (if vs_Action (st_Verification s) =
                                                   VerificationActionReverted
                                              then JournalRolledBack else JournalCommitted))
                      (Msg ''completed mutation has no committed journal'')))
     else if st_FinalOutput s \<noteq> []
       then Some (Msg ''failed or canceled turn has final output'')
     else if blank (td_Message d) then Some (Msg ''non-success terminal message is empty'')
     else fail_if (st_Journal s \<noteq>
             (if hasChanges \<or> pl_JournalRequired (st_Policy s)
              then (if vs_Action (st_Verification s) = VerificationActionBlocked \<and>
                       td_Kind d = TerminalFailed
                    then JournalSuspended else snd (terminalJournalOutcome s d))
              else JournalNone))
            (Msg ''failed or canceled turn has invalid journal state''))"

definition frozen :: "State \<Rightarrow> bool" where
  "frozen s \<longleftrightarrow> us_Frozen (st_Usage s) \<and> cx_Frozen (st_Context s)"

definition committingError :: "State \<Rightarrow> message option" where
  "committingError s = first_error
     [fail_if (st_Phase s = PhaseVerifying \<and> st_MutationRevision s = 0 \<and> st_Workspace s = None)
        (Msg ''verifying phase has no mutation''),
      (if st_Phase s = PhaseCommitting then first_error
         [fail_if (st_PendingTerminal s = None \<or> st_Terminal s \<noteq> None)
            (Msg ''committing phase has invalid terminal state''),
          fail_if (\<not> frozen s) (Msg ''committing phase has no frozen snapshot'')]
       else fail_if (st_PendingTerminal s \<noteq> None)
              (Msg ''pending terminal exists outside committing'')),
      fail_if (journalFinal (st_Journal s) \<and> st_Phase s \<noteq> PhaseCommitting \<and>
          \<not> Phase_Terminal (st_Phase s))
        (Msg ''finalized journal exists outside terminal transaction'')]"

definition terminalError :: "State \<Rightarrow> message option" where
  "terminalError s =
    (if Phase_Terminal (st_Phase s) then (case st_Terminal s of
         None \<Rightarrow> Some (Msg ''terminal phase has no decision'')
       | Some d \<Rightarrow> first_error
          [fail_if (\<not> isEmpty (st_OpenCalls s) \<or> \<not> isEmpty (st_PendingApprovals s) \<or>
              st_PendingInput s \<noteq> None \<or> st_ActiveSampleID s \<noteq> [] \<or>
              \<not> isEmpty (st_PendingEffects s)) (Msg ''terminal state has unfinished work''),
           fail_if (st_ProvisionalOutput s \<noteq> []) (Msg ''terminal state retains provisional output''),
           fail_if (\<not> frozen s) (Msg ''terminal state has no frozen snapshot''),
           fail_if (phaseForTerminal (td_Kind d) \<noteq> st_Phase s)
             (Msg ''terminal phase and decision disagree''),
           validateTerminalState s d])
     else fail_if (st_Terminal s \<noteq> None) (Msg ''terminal decision exists in non-terminal phase''))"

definition Validate :: "'e AssemblyEnv_scheme \<Rightarrow> State \<Rightarrow> message option" where
  "Validate env s = first_error
     [fail_if (st_Intent s = []) (Msg ''turn intent is empty''),
      commentaryError s [] (st_Commentary s),
      check_map (sampleError s) (st_SampleLedger s),
      activeSampleError s,
      effectsError env s,
      identityError s,
      budgetsError s,
      progressError (st_Progress s),
      (case st_Convergence s of None \<Rightarrow> None | Some c \<Rightarrow> convergenceError c),
      callsError s,
      interactionsError s,
      changesError s,
      workspaceError s,
      completionError s,
      verificationError s,
      committingError s,
      terminalError s]"

definition cloneState :: "'e AssemblyEnv_scheme \<Rightarrow> State \<Rightarrow> State" where
  "cloneState env s = s\<lparr>st_SampleLedger :=
     fmmap (\<lambda>m. m\<lparr>ms_Assembly := CloneResponseAssembly env (ms_Assembly m)\<rparr>) (st_SampleLedger s)\<rparr>"

definition digestValidated ::
    "'e KernelEnv_scheme \<Rightarrow> State \<Rightarrow> message + string \<times> string" where
  "digestValidated env s = (case jsonState env s of
     None \<Rightarrow> Inl (Msg ''json: error calling Marshal'')
   | Some data \<Rightarrow> Inr (digestBytes env data, data))"

definition Digest :: "'e KernelEnv_scheme \<Rightarrow> State \<Rightarrow> message + string" where
  "Digest env s = (case Validate env s of
     Some e \<Rightarrow> Inl e
   | None \<Rightarrow> map_sum id fst (digestValidated env s))"

end
