(* ===== verification/Effects.thy ===== *)
theory Effects
  imports Invariants
begin

text \<open>
  \<open>src/internal/runtime/agent/turnkernel/reducer_effect.go\<close>: the effect ledger. \<open>requestEffect\<close>
  issues the next identifier, \<open>finishEffect\<close> moves an effect from the pending to the completed map,
  and the \<open>closeEffect\<close> family settles pending effects in identifier order.
\<close>

section \<open>Issuing effects\<close>

definition effectID :: "uint64 \<Rightarrow> string" where
  "effectID n = ''effect-'' @ hex16 n"

definition encodePayload :: "'e KernelEnv_scheme \<Rightarrow> Payload \<Rightarrow> string" where
  "encodePayload env p = (case jsonPayload env p of Some e \<Rightarrow> e | None \<Rightarrow> payloadType p)"

definition newEffect ::
    "'e KernelEnv_scheme \<Rightarrow> uint64 \<Rightarrow> EffectKind \<Rightarrow> Payload \<Rightarrow> string \<Rightarrow> string \<Rightarrow> Effect" where
  "newEffect env n kind payload key callID =
     \<lparr>ef_ID = effectID n, ef_Kind = kind, ef_Payload = encodePayload env payload,
      ef_PayloadDigest = digestBytes env (encodePayload env payload), ef_Attempt = 0,
      ef_IdempotencyKey = key, ef_Status = EffectRequested, ef_CallID = callID, ef_Error = []\<rparr>"

definition requestEffect ::
    "'e KernelEnv_scheme \<Rightarrow> EffectKind \<Rightarrow> Payload \<Rightarrow> string \<Rightarrow> string \<Rightarrow> Transition \<Rightarrow> Transition" where
  "requestEffect env kind payload key callID t =
    (let n = st_NextEffectSequence (tn_State t) + 1;
         e = newEffect env n kind payload key callID
     in t\<lparr>tn_State := (tn_State t)\<lparr>st_NextEffectSequence := n,
            st_PendingEffects := fmupd (ef_ID e) e (st_PendingEffects (tn_State t))\<rparr>,
          tn_Effects := tn_Effects t @ [e],
          tn_Events := tn_Events t @
            [(event EventEffectRequested)\<lparr>ev_EffectID := ef_ID e, ev_CallID := callID\<rparr>]\<rparr>)"

section \<open>Settling effects\<close>

definition settled :: "bool \<Rightarrow> string \<Rightarrow> Effect \<Rightarrow> Effect" where
  "settled success msg e =
    (if success then e\<lparr>ef_Status := EffectSucceeded, ef_Error := []\<rparr>
     else e\<lparr>ef_Status := EffectFailed, ef_Error := msg\<rparr>)"

definition finishEffect ::
    "string \<Rightarrow> bool \<Rightarrow> string \<Rightarrow> Transition \<Rightarrow> message + Transition" where
  "finishEffect i success msg t = (case fmlookup (st_PendingEffects (tn_State t)) i of
     None \<Rightarrow> Inl (Msg (if has_key (st_CompletedEffects (tn_State t)) i
                       then ''effect result is duplicated''
                       else ''effect result does not match a pending effect''))
   | Some e \<Rightarrow>
      (if ef_Status e \<noteq> EffectRequested \<and> ef_Status e \<noteq> EffectRunning
         then Inl (Msg ''effect is not awaiting a result'')
       else if \<not> success \<and> blank msg then Inl (Msg ''failed effect result has no error'')
       else let e' = settled success msg e in
         Inr (t\<lparr>tn_State := (tn_State t)\<lparr>
                  st_PendingEffects := fmdrop i (st_PendingEffects (tn_State t)),
                  st_CompletedEffects := fmupd i e' (st_CompletedEffects (tn_State t))\<rparr>,
                tn_Events := tn_Events t @
                  [(event EventEffectFinished)\<lparr>ev_EffectID := ef_ID e', ev_CallID := ef_CallID e'\<rparr>]\<rparr>)))"

definition sortedEffectIDs :: "(string, Effect) fmap \<Rightarrow> string list" where
  "sortedEffectIDs effects = keys effects"

definition nonEmptyEffectError :: "bool \<Rightarrow> string \<Rightarrow> string" where
  "nonEmptyEffectError success msg =
    (if success \<or> \<not> blank msg then msg else ''effect failed'')"

text \<open>The callers that ignore the error of \<open>finishEffect\<close> keep the transition they had.\<close>

definition tryFinish :: "string \<Rightarrow> bool \<Rightarrow> string \<Rightarrow> Transition \<Rightarrow> Transition" where
  "tryFinish i success msg t =
    (case finishEffect i success (nonEmptyEffectError success msg) t of Inl _ \<Rightarrow> t | Inr t' \<Rightarrow> t')"

definition closeFirst ::
    "(Effect \<Rightarrow> bool) \<Rightarrow> bool \<Rightarrow> string \<Rightarrow> Transition \<Rightarrow> Transition" where
  "closeFirst P success msg t =
    (case find (\<lambda>i. case fmlookup (st_PendingEffects (tn_State t)) i of None \<Rightarrow> False | Some e \<Rightarrow> P e)
            (sortedEffectIDs (st_PendingEffects (tn_State t))) of
       None \<Rightarrow> t
     | Some i \<Rightarrow> tryFinish i success msg t)"

definition closeEffectByCall ::
    "EffectKind \<Rightarrow> string \<Rightarrow> bool \<Rightarrow> string \<Rightarrow> Transition \<Rightarrow> Transition" where
  "closeEffectByCall kind callID = closeFirst (\<lambda>e. ef_Kind e = kind \<and> ef_CallID e = callID)"

fun identityKey :: "EffectKind \<Rightarrow> string \<Rightarrow> string" where
  "identityKey EffectAwaitApproval i = ''approval:'' @ i"
| "identityKey EffectAwaitInput i = ''input:'' @ i"
| "identityKey _ i = []"

definition closeEffectByIdentity ::
    "EffectKind \<Rightarrow> string \<Rightarrow> bool \<Rightarrow> string \<Rightarrow> Transition \<Rightarrow> Transition" where
  "closeEffectByIdentity kind i =
     closeFirst (\<lambda>e. ef_Kind e = kind \<and> ef_IdempotencyKey e = identityKey kind i)"

definition closeFirstEffectByKind ::
    "EffectKind \<Rightarrow> bool \<Rightarrow> string \<Rightarrow> Transition \<Rightarrow> Transition" where
  "closeFirstEffectByKind kind = closeFirst (\<lambda>e. ef_Kind e = kind)"

definition closeEffectsByKind ::
    "EffectKind \<Rightarrow> bool \<Rightarrow> string \<Rightarrow> Transition \<Rightarrow> Transition" where
  "closeEffectsByKind kind success msg t = foldl (\<lambda>t i.
     case fmlookup (st_PendingEffects (tn_State t)) i of
       None \<Rightarrow> t
     | Some e \<Rightarrow> (if ef_Kind e = kind then tryFinish i success msg t else t))
     t (sortedEffectIDs (st_PendingEffects (tn_State t)))"

section \<open>Handlers\<close>

definition applyEffectStarted ::
    "Transition \<Rightarrow> State \<Rightarrow> string \<Rightarrow> uint32 \<Rightarrow> go_error + Transition" where
  "applyEffectStarted t current i attempt =
    (case fmlookup (st_PendingEffects current) i of
       None \<Rightarrow> Inl (illegal current (EffectStarted i attempt) ''effect is not pending'')
     | Some e \<Rightarrow>
        (if ef_Status e \<noteq> EffectRequested \<or> attempt = 0
           then Inl (illegal current (EffectStarted i attempt) ''effect cannot start'')
         else let
           e' = e\<lparr>ef_Status := EffectRunning, ef_Attempt := attempt, ef_Error := []\<rparr>;
           t1 = withState (\<lambda>s. s\<lparr>st_PendingEffects := fmupd i e' (st_PendingEffects s)\<rparr>) t;
           ev = (event EventEffectStarted)\<lparr>ev_EffectID := i\<rparr>
         in if ef_Kind e = EffectSampleProvider
            then (case fmlookup (st_SampleLedger current) (ef_CallID e) of
                None \<Rightarrow> Inl (illegal current (EffectStarted i attempt) ''sample effect is not requested'')
              | Some m \<Rightarrow>
                 (if ms_Status m \<noteq> SampleRequested
                    then Inl (illegal current (EffectStarted i attempt)
                                ''sample effect is not requested'')
                  else let m' = m\<lparr>ms_Status := SampleRunning, ms_Attempt := attempt, ms_Retry := None,
                                   ms_RetryBudget := (ms_RetryBudget m)\<lparr>pb_WaitUntil := 0\<rparr>,
                                   ms_Error := []\<rparr>
                    in Inr (emit ev (withState (\<lambda>s. s\<lparr>
                         st_SampleLedger := fmupd (ef_CallID e) m' (st_SampleLedger s),
                         st_ActiveSampleID := ef_CallID e\<rparr>) t1))))
            else Inr (emit ev t1)))"

definition applyEffectRequeued ::
    "Transition \<Rightarrow> State \<Rightarrow> string \<Rightarrow> go_error + Transition" where
  "applyEffectRequeued t current i =
    (case fmlookup (st_PendingEffects current) i of
       None \<Rightarrow> Inl (illegal current (EffectRequeued i) ''effect is not pending'')
     | Some e \<Rightarrow>
        (if ef_Status e \<noteq> EffectRunning
           then Inl (illegal current (EffectRequeued i) ''only a running effect can be requeued'')
         else let
           e' = e\<lparr>ef_Status := EffectRequested\<rparr>;
           t1 = withState (\<lambda>s. s\<lparr>st_PendingEffects := fmupd i e' (st_PendingEffects s)\<rparr>) t;
           ev = (event EventEffectRequeued)\<lparr>ev_EffectID := i\<rparr>
         in if ef_Kind e = EffectSampleProvider
            then (case fmlookup (st_SampleLedger current) (ef_CallID e) of
                None \<Rightarrow> Inl (illegal current (EffectRequeued i) ''running sample effect has no sample'')
              | Some m \<Rightarrow>
                 (if ms_Status m \<noteq> SampleRunning
                    then Inl (illegal current (EffectRequeued i)
                                ''running sample effect has no sample'')
                  else let m' = m\<lparr>ms_Status := SampleRequested\<rparr>
                    in Inr (emit ev (withState (\<lambda>s. s\<lparr>
                         st_SampleLedger := fmupd (ef_CallID e) m' (st_SampleLedger s),
                         st_ActiveSampleID := []\<rparr>) t1))))
            else Inr (emit ev t1)))"

definition applyEffectResult ::
    "Transition \<Rightarrow> State \<Rightarrow> string \<Rightarrow> bool \<Rightarrow> string \<Rightarrow> go_error + Transition" where
  "applyEffectResult t current i success msg =
     map_sum (illegalErr current (EffectResultReceived i success msg)) id
       (finishEffect i success msg t)"

definition applyPersistenceResult ::
    "Transition \<Rightarrow> State \<Rightarrow> string \<Rightarrow> bool \<Rightarrow> string \<Rightarrow> go_error + Transition" where
  "applyPersistenceResult t current i success msg =
     map_sum (illegalErr current (PersistenceResultReceived i success msg)) id
       (finishEffect i success msg t)"

end
