(* ===== verification/Reducer_Tools.thy ===== *)
theory Reducer_Tools
  imports Effects
begin

text \<open>
  The tool and interaction handlers of the reducer:
  \<open>reducer_tool.go\<close>, \<open>reducer_interaction.go\<close>, \<open>tool_admission.go\<close> and
  \<open>reducer_continuation.go\<close> under \<open>src/internal/runtime/agent/turnkernel/\<close>. A handler takes the
  transition built so far and the state it started from, and returns the error of the source or
  the extended transition. A Go loop over a map is run in key order; the order only shows in the
  order of the events.
\<close>

section \<open>Cancellation, recovery and continuation\<close>

definition applyCancelRequested ::
    "Transition \<Rightarrow> State \<Rightarrow> string \<Rightarrow> go_error + Transition" where
  "applyCancelRequested t current reason =
    (if blank reason then Inl (illegal current (CancelRequested reason) ''cancel reason is empty'')
     else if cs_Accepted (st_Cancellation current)
       then Inl (illegal current (CancelRequested reason) ''cancellation was already accepted'')
     else Inr (emit (event EventCancelAccepted) (withState (\<lambda>s. s\<lparr>st_Cancellation :=
            \<lparr>cs_Requested = True, cs_Accepted = True, cs_Reason = reason\<rparr>\<rparr>) t)))"

definition applyRecoveryRequested ::
    "Transition \<Rightarrow> State \<Rightarrow> RecoveryArgs \<Rightarrow> go_error + Transition" where
  "applyRecoveryRequested t current c =
     guard (requirePhase current (RecoveryRequested c) [PhaseCreated])
    (if blank (rq_SourceTurnID c) \<or> blank (rq_RecoveryTurnID c) \<or> rq_CurrentProfileRevision c = 0 \<or>
        (rq_Action c \<noteq> TurnRecoveryRetry \<and> rq_Action c \<noteq> TurnRecoveryContinue) \<or>
        (rq_DraftResumed c \<and> rq_Changes c = [])
       then Inl (illegal current (RecoveryRequested c) ''recovery relation is incomplete'')
     else let
       t1 = withState (\<lambda>s. s\<lparr>st_ProfileRevision := rq_CurrentProfileRevision c,
              st_RecoveryRelation := Some \<lparr>rr_SourceTurnID = rq_SourceTurnID c,
                rr_RecoveryTurnID = rq_RecoveryTurnID c, rr_Action = rq_Action c,
                rr_DraftResumed = rq_DraftResumed c\<rparr>\<rparr>) t;
       t2 = (if rq_Changes c \<noteq> []
             then emit ((event EventMutationObserved)\<lparr>ev_Mutation := 1\<rparr>)
                    (withState (\<lambda>s. s\<lparr>st_MutationRevision := 1, st_Changes := rq_Changes c,
                       st_Journal := JournalOpen\<rparr>) t1)
             else t1)
     in Inr (emit (event EventRecoveryBound) t2))"

definition applyContinuationRecorded ::
    "Transition \<Rightarrow> State \<Rightarrow> ContinuationCursor \<Rightarrow> go_error + Transition" where
  "applyContinuationRecorded t current cursor =
    (if cc_Sequence cursor = 0 \<or> blank (cc_Handle cursor) \<or> blank (cc_Digest cursor)
       then Inl (illegal current (ContinuationRecorded cursor) ''continuation cursor is incomplete'')
     else let expected = (case st_Continuation current of
                None \<Rightarrow> 1 | Some c \<Rightarrow> cc_Sequence c + 1)
       in if cc_Sequence cursor \<noteq> expected
          then Inl (illegalErr current (ContinuationRecorded cursor)
                 (Fmt ''continuation sequence %d does not extend cursor %d''
                    [ArgN (unat (cc_Sequence cursor)), ArgN (unat (expected - 1))]))
          else Inr (withState (\<lambda>s. s\<lparr>st_Continuation := Some cursor\<rparr>) t))"

section \<open>Approvals and user input\<close>

definition applyApprovalRequired ::
    "'e KernelEnv_scheme \<Rightarrow> Transition \<Rightarrow> State \<Rightarrow> string \<Rightarrow> string \<Rightarrow> go_error + Transition" where
  "applyApprovalRequired env t current requestID callID =
    (let c = ApprovalRequired requestID callID in
     guard (requirePhase current c [PhaseExecutingTools, PhaseAwaitingApproval])
    (if blank requestID then Inl (illegal current c ''approval request id is empty'')
     else if \<not> has_key (st_OpenCalls current) callID
       then Inl (illegal current c ''approval does not reference an open call'')
     else if has_key (st_PendingApprovals current) requestID
       then Inl (illegal current c ''approval request id is duplicated'')
     else let
       t1 = withState (\<lambda>s. s\<lparr>st_PendingApprovals := fmupd requestID
              \<lparr>ap_RequestID = requestID, ap_CallID = callID\<rparr> (st_PendingApprovals s)\<rparr>) t;
       t2 = requestEffect env EffectAwaitApproval (PayloadApproval requestID callID)
              (''approval:'' @ requestID) callID t1
     in Inr (if st_Phase current = PhaseExecutingTools then move PhaseAwaitingApproval t2 else t2)))"

definition applyApprovalResolved ::
    "Transition \<Rightarrow> State \<Rightarrow> string \<Rightarrow> go_error + Transition" where
  "applyApprovalResolved t current requestID =
     guard (requirePhase current (ApprovalResolved requestID) [PhaseAwaitingApproval])
    (if \<not> has_key (st_PendingApprovals current) requestID
       then Inl (illegal current (ApprovalResolved requestID) ''approval request does not match'')
     else let
       t1 = withState (\<lambda>s. s\<lparr>st_PendingApprovals := fmdrop requestID (st_PendingApprovals s)\<rparr>) t;
       t2 = closeEffectByIdentity EffectAwaitApproval requestID True [] t1
     in Inr (if isEmpty (st_PendingApprovals (tn_State t2)) then move PhaseExecutingTools t2 else t2))"

definition effectRunning :: "State \<Rightarrow> string \<Rightarrow> EffectKind \<Rightarrow> bool" where
  "effectRunning s i kind = (case fmlookup (st_PendingEffects s) i of
     None \<Rightarrow> False | Some e \<Rightarrow> ef_Kind e = kind \<and> ef_Status e = EffectRunning)"

definition applyApprovalResult ::
    "Transition \<Rightarrow> State \<Rightarrow> ApprovalResultArgs \<Rightarrow> go_error + Transition" where
  "applyApprovalResult t current c =
    (let cmd = ApprovalResultReceived c in
     if blank (aq_EffectID c) then Inl (illegal current cmd ''approval effect id is empty'')
     else if \<not> effectRunning current (aq_EffectID c) EffectAwaitApproval
       then Inl (illegal current cmd ''approval effect is not running'')
     else bindR (map_sum (illegalErr current cmd) id
                   (finishEffect (aq_EffectID c) (aq_Accepted c) (aq_Error c) t)) (\<lambda>t1.
       bindR (applyApprovalResolved t1 (tn_State t1) (aq_RequestID c)) (\<lambda>t2.
         if aq_Canceled c
         then applyCancelRequested t2 (tn_State t2) CancelReasonApprovalCanceled
         else Inr t2)))"

definition applyInputRequired ::
    "'e KernelEnv_scheme \<Rightarrow> Transition \<Rightarrow> State \<Rightarrow> string \<Rightarrow> string \<Rightarrow> go_error + Transition" where
  "applyInputRequired env t current requestID callID =
    (let c = InputRequired requestID callID in
     guard (requirePhase current c [PhaseSampling, PhaseExecutingTools])
    (if blank requestID then Inl (illegal current c ''input request id is empty'')
     else let
       t1 = withState (\<lambda>s. s\<lparr>st_PendingInput :=
              Some \<lparr>in_RequestID = requestID, in_CallID = callID\<rparr>\<rparr>) t;
       t2 = requestEffect env EffectAwaitInput (PayloadInput requestID callID)
              (''input:'' @ requestID) callID t1
     in Inr (move PhaseAwaitingInput t2)))"

definition reopenConvergence :: "ConvergenceState \<Rightarrow> ConvergenceState" where
  "reopenConvergence c =
     c\<lparr>cv_FinalizationAttempted := False, cv_Summary := [], cv_PendingActions := []\<rparr>"

definition applyInputResolved ::
    "Transition \<Rightarrow> State \<Rightarrow> string \<Rightarrow> go_error + Transition" where
  "applyInputResolved t current requestID =
     guard (requirePhase current (InputResolved requestID) [PhaseAwaitingInput])
    (if (case st_PendingInput current of None \<Rightarrow> True | Some i \<Rightarrow> in_RequestID i \<noteq> requestID)
       then Inl (illegal current (InputResolved requestID) ''input request does not match'')
     else let
       t1 = withState (\<lambda>s. s\<lparr>st_PendingInput := None,
              st_Convergence := map_option reopenConvergence (st_Convergence s)\<rparr>) t;
       t2 = closeEffectByIdentity EffectAwaitInput requestID True [] t1
     in Inr (if \<not> isEmpty (st_OpenCalls current) then move PhaseExecutingTools t2
             else move PhaseSampling t2))"

definition applyInputResult ::
    "Transition \<Rightarrow> State \<Rightarrow> InputResultArgs \<Rightarrow> go_error + Transition" where
  "applyInputResult t current c =
    (let cmd = InputResultReceived c in
     if blank (iq_EffectID c) then Inl (illegal current cmd ''input effect id is empty'')
     else if \<not> effectRunning current (iq_EffectID c) EffectAwaitInput
       then Inl (illegal current cmd ''input effect is not running'')
     else bindR (map_sum (illegalErr current cmd) id
                   (finishEffect (iq_EffectID c) (iq_Accepted c) (iq_Error c) t)) (\<lambda>t1.
       applyInputResolved t1 (tn_State t1) (iq_RequestID c)))"

section \<open>Tool calls\<close>

definition openCall ::
    "'e KernelEnv_scheme \<Rightarrow> ToolCallState \<Rightarrow> Transition \<Rightarrow> Transition" where
  "openCall env call t =
     requestEffect env EffectExecuteTool (PayloadToolCall call) (''tool:'' @ tc_ID call) (tc_ID call)
       (emit ((event EventToolStarted)\<lparr>ev_CallID := tc_ID call\<rparr>)
         (withState (\<lambda>s. s\<lparr>st_OpenCalls := fmupd (tc_ID call) call (st_OpenCalls s)\<rparr>) t))"

fun proposeCalls ::
    "'e KernelEnv_scheme \<Rightarrow> State \<Rightarrow> Command \<Rightarrow> string list \<Rightarrow> ToolCallState list \<Rightarrow> Transition \<Rightarrow>
     go_error + Transition" where
  "proposeCalls env current c seen [] t = Inr t"
| "proposeCalls env current c seen (call # rest) t =
    (if blank (tc_ID call) \<or> blank (tc_Name call)
       then Inl (illegal current c ''tool call identity is incomplete'')
     else if tc_ID call \<in> set seen then Inl (illegal current c ''tool call id is duplicated'')
     else if has_key (st_OpenCalls current) (tc_ID call)
       then Inl (illegal current c ''tool call id is already open'')
     else if has_key (st_ClosedCalls current) (tc_ID call)
       then Inl (illegal current c ''tool call id was already closed'')
     else proposeCalls env current c (tc_ID call # seen) rest (openCall env call t))"

definition applyToolCalls ::
    "'e KernelEnv_scheme \<Rightarrow> Transition \<Rightarrow> State \<Rightarrow> ToolCallState list \<Rightarrow> go_error + Transition" where
  "applyToolCalls env t current calls =
    (let c = ToolCallsProposed calls in
     guard (requirePhase current c [PhaseSampling, PhaseExecutingTools])
    (if calls = [] then Inl (illegal current c ''tool batch is empty'')
     else if cs_Accepted (st_Cancellation current)
       then Inl (illegal current c ''cancellation was accepted'')
     else bindR (proposeCalls env current c [] calls
              (withState (\<lambda>s. s\<lparr>st_Completion := None, st_OutputEligibility := False\<rparr>) t)) (\<lambda>t1.
       let t2 = (if st_Phase current = PhaseSampling then move PhaseExecutingTools t1 else t1)
       in Inr (withState (\<lambda>s. s\<lparr>st_Progress := (st_Progress s)\<lparr>
                 pg_PendingIdentity := FormatToolCallsIdentity env calls,
                 pg_PendingResultDigests := []\<rparr>\<rparr>) t2))))"

definition approvalsFor :: "State \<Rightarrow> string \<Rightarrow> string list" where
  "approvalsFor s callID =
     filter (\<lambda>i. case fmlookup (st_PendingApprovals s) i of
                   None \<Rightarrow> False | Some a \<Rightarrow> ap_CallID a = callID) (keys (st_PendingApprovals s))"

text \<open>
  The approvals of a call are withdrawn in the order of their identifiers, where the Go code ranges
  over the map: the order shows only in the order of the emitted events.
\<close>

definition retireApprovals :: "string \<Rightarrow> string list \<Rightarrow> Transition \<Rightarrow> Transition" where
  "retireApprovals reason ids t = foldl (\<lambda>t i.
     closeEffectByIdentity EffectAwaitApproval i False reason
       (withState (\<lambda>s. s\<lparr>st_PendingApprovals := fmdrop i (st_PendingApprovals s)\<rparr>) t)) t ids"

definition inputBoundTo :: "State \<Rightarrow> string \<Rightarrow> bool" where
  "inputBoundTo s callID = (case st_PendingInput s of
     None \<Rightarrow> False | Some i \<Rightarrow> in_CallID i = callID)"

definition observeMutation :: "ObservedChange list \<Rightarrow> Transition \<Rightarrow> Transition" where
  "observeMutation changes t =
    (if changes = [] then t
     else let t1 = withState (\<lambda>s. s\<lparr>st_MutationRevision := st_MutationRevision s + 1,
            st_Workspace := None, st_Changes := st_Changes s @ changes, st_Completion := None,
            st_Verification := notEvaluated, st_Journal := JournalOpen\<rparr>) t
       in emit ((event EventMutationObserved)
            \<lparr>ev_Mutation := st_MutationRevision (tn_State t1)\<rparr>) t1)"

text \<open>
  What follows the guards of \<open>applyToolResult\<close> on the transition that settled the effect, stage by
  stage: a user input the call was waiting for is released, the call is closed, approvals of a
  canceled call are withdrawn, the failure flags are set, the mutation is observed, the work item
  updated and the phase chosen.
\<close>

definition releaseInput :: "State \<Rightarrow> string \<Rightarrow> Transition \<Rightarrow> Transition" where
  "releaseInput current callID t =
    (if inputBoundTo current callID
     then closeEffectByIdentity EffectAwaitInput
            (in_RequestID (the (st_PendingInput current))) True []
            (withState (\<lambda>s. s\<lparr>st_PendingInput := None,
               st_Convergence := map_option reopenConvergence (st_Convergence s)\<rparr>) t)
     else t)"

definition recordClosed :: "ToolResultArgs \<Rightarrow> ToolCallState \<Rightarrow> Transition \<Rightarrow> Transition" where
  "recordClosed c call =
     withState (\<lambda>s. s\<lparr>st_OpenCalls := fmdrop (tq_CallID c) (st_OpenCalls s),
       st_ClosedCalls := fmupd (tq_CallID c) \<lparr>tr_ID = tq_CallID c, tr_Name = tc_Name call,
         tr_IsError = tq_IsError c\<rparr> (st_ClosedCalls s)\<rparr>)"

definition releaseApprovals :: "State \<Rightarrow> string \<Rightarrow> Transition \<Rightarrow> Transition" where
  "releaseApprovals current callID t =
    (if approvalsFor current callID \<noteq> [] \<and> cs_Accepted (st_Cancellation current)
     then retireApprovals (cs_Reason (st_Cancellation current)) (approvalsFor current callID) t
     else t)"

definition markFailure :: "State \<Rightarrow> ToolResultArgs \<Rightarrow> Transition \<Rightarrow> Transition" where
  "markFailure current c t =
     emit ((event EventToolClosed)\<lparr>ev_CallID := tq_CallID c\<rparr>)
       (withState (\<lambda>s. s\<lparr>
          st_UnresolvedToolFailure := (tq_IsError c \<or> st_UnresolvedToolFailure s),
          st_RecoveryToolSucceeded := (if tq_IsError c then False
            else st_UnresolvedToolFailure current \<or> st_RecoveryToolSucceeded s)\<rparr>) t)"

definition recordDigest :: "ToolResultArgs \<Rightarrow> Transition \<Rightarrow> Transition" where
  "recordDigest c t =
    (let digest = TrimSpace (ob_ResultDigest (tq_Observation c)) in
     if digest \<noteq> []
     then withState (\<lambda>s. s\<lparr>st_Progress := (st_Progress s)\<lparr>pg_PendingResultDigests :=
            pg_PendingResultDigests (st_Progress s) @ [digest]\<rparr>\<rparr>) t
     else t)"

definition settlePhase :: "Transition \<Rightarrow> Transition" where
  "settlePhase t =
    (if \<not> isEmpty (st_PendingApprovals (tn_State t)) then move PhaseAwaitingApproval t
     else if \<not> isEmpty (st_OpenCalls (tn_State t)) then move PhaseExecutingTools t
     else move PhaseSampling t)"

definition closeCall ::
    "'e KernelEnv_scheme \<Rightarrow> State \<Rightarrow> ToolResultArgs \<Rightarrow> ToolCallState \<Rightarrow> Transition \<Rightarrow> Transition" where
  "closeCall env current c call t =
    (let
       t1 = releaseInput current (tq_CallID c) t;
       t2 = recordClosed c call t1;
       t3 = releaseApprovals current (tq_CallID c) t2;
       t4 = markFailure current c t3;
       t5 = observeMutation (tq_Changes c) t4;
       t6 = withState (\<lambda>s. applyWorkItemObservation env s call (tq_Changes c) (tq_Observation c)
              (tq_IsError c)) t5
     in settlePhase (recordDigest c t6))"

definition applyToolResult ::
    "'e KernelEnv_scheme \<Rightarrow> Transition \<Rightarrow> State \<Rightarrow> ToolResultArgs \<Rightarrow> go_error + Transition" where
  "applyToolResult env t current c =
    (let cmd = ToolResultReceived c;
         awaiting = (approvalsFor current (tq_CallID c) \<noteq> []);
         canceling = (awaiting \<and> cs_Accepted (st_Cancellation current));
         phases = [PhaseExecutingTools, PhaseAwaitingApproval] @
           (if inputBoundTo current (tq_CallID c) then [PhaseAwaitingInput] else [])
     in guard (requirePhase current cmd phases)
    (if awaiting \<and> \<not> canceling
       then Inl (illegal current cmd ''tool result cannot bypass a pending approval'')
     else if blank (tq_EffectID c) then Inl (illegal current cmd ''tool effect id is empty'')
     else case fmlookup (st_OpenCalls current) (tq_CallID c) of
       None \<Rightarrow> Inl (illegal current cmd ''tool result does not match an open call'')
     | Some call \<Rightarrow>
        (if (case fmlookup (st_PendingEffects current) (tq_EffectID c) of
               None \<Rightarrow> True
             | Some e \<Rightarrow> ef_Kind e \<noteq> EffectExecuteTool \<or> ef_CallID e \<noteq> tq_CallID c \<or>
                 ef_Status e \<noteq> EffectRunning)
           then Inl (illegal current cmd ''tool result effect does not match call'')
         else bindR (map_sum (illegalErr current cmd) id (finishEffect (tq_EffectID c) True [] t))
           (\<lambda>t1. Inr (closeCall env current c call t1)))))"

definition abortCall :: "State \<Rightarrow> string \<Rightarrow> Transition \<Rightarrow> string \<Rightarrow> Transition" where
  "abortCall current reason t callID =
     emit ((event EventToolClosed)\<lparr>ev_CallID := callID\<rparr>)
       (closeEffectByCall EffectExecuteTool callID False reason
         (withState (\<lambda>s. s\<lparr>st_OpenCalls := fmdrop callID (st_OpenCalls s),
            st_ClosedCalls := fmupd callID \<lparr>tr_ID = callID,
              tr_Name = (case fmlookup (st_OpenCalls current) callID of
                           None \<Rightarrow> [] | Some call \<Rightarrow> tc_Name call),
              tr_IsError = True\<rparr> (st_ClosedCalls s)\<rparr>) t))"

definition applyAbortOpenCalls ::
    "Transition \<Rightarrow> State \<Rightarrow> string \<Rightarrow> go_error + Transition" where
  "applyAbortOpenCalls t current reason =
    (let c = AbortOpenCalls reason in
     guard (requirePhase current c [PhaseExecutingTools, PhaseAwaitingApproval])
    (if blank reason then Inl (illegal current c ''abort reason is empty'')
     else if isEmpty (st_OpenCalls current) then Inl (illegal current c ''no tool calls are open'')
     else let
       t1 = foldl (abortCall current reason) t (keys (st_OpenCalls current));
       t2 = withState (\<lambda>s. s\<lparr>st_PendingApprovals := fmempty\<rparr>) t1;
       t3 = closeEffectsByKind EffectAwaitApproval False reason t2
     in Inr (move PhaseSampling t3)))"

section \<open>Batch admission\<close>

fun rejectCalls ::
    "State \<Rightarrow> Command \<Rightarrow> string \<Rightarrow> string list \<Rightarrow> string list \<Rightarrow> Transition \<Rightarrow> go_error + Transition" where
  "rejectCalls current c result seen [] t = Inr t"
| "rejectCalls current c result seen (i # rest) t =
    (case fmlookup (st_OpenCalls current) i of
       None \<Rightarrow> Inl (illegal current c ''admission rejection does not match open calls'')
     | Some call \<Rightarrow>
        (if i \<in> set seen \<or> tc_AdmissionRejection call \<noteq> [] \<and> tc_AdmissionRejection call \<noteq> result
           then Inl (illegal current c ''admission rejection does not match open calls'')
         else if tc_AdmissionRejection call = [] \<and>
             (\<exists>e \<in> fmran' (st_PendingEffects current).
                ef_CallID e = i \<and> ef_Status e \<noteq> EffectRequested)
           then Inl (illegal current c ''cannot reject a started effect'')
         else rejectCalls current c result (i # seen) rest
           (withState (\<lambda>s. s\<lparr>st_OpenCalls := fmupd i (call\<lparr>tc_AdmissionRejection := result\<rparr>)
              (st_OpenCalls s)\<rparr>) t)))"

definition applyToolBatchAdmissionRejection ::
    "'e KernelEnv_scheme \<Rightarrow> Transition \<Rightarrow> State \<Rightarrow> string list \<Rightarrow> string \<Rightarrow> go_error + Transition" where
  "applyToolBatchAdmissionRejection env t current callIDs result =
    (let c = ToolBatchAdmissionRejected callIDs result in
     guard (requirePhase current c [PhaseExecutingTools])
    (if callIDs = [] \<or> (case jsonToolResult env result of
          None \<Rightarrow> True
        | Some r \<Rightarrow> \<not> dr_IsError r \<or> blank (dr_Content r) \<or> dr_WorkspaceChanges r \<noteq> [])
       then Inl (illegal current c ''invalid admission rejection'')
     else rejectCalls current c result [] callIDs t))"

end
