(* ===== verification/Reducer_Sampling.thy ===== *)
theory Reducer_Sampling
  imports Reducer_Tools
begin

text \<open>
  The sampling handlers, \<open>src/internal/runtime/agent/turnkernel/reducer_sampling.go\<close>, and
  \<open>applyEvaluateTurnStep\<close> of \<open>reducer_common.go\<close>: model samples and their retries, output release,
  repair budgets, the no-progress clock and convergence.
\<close>

section \<open>Model samples\<close>

definition applyModelSampleRequested ::
    "'e KernelEnv_scheme \<Rightarrow> Transition \<Rightarrow> State \<Rightarrow> string \<Rightarrow> go_error + Transition" where
  "applyModelSampleRequested env t current sampleID =
    (let c = ModelSampleRequested sampleID in
     guard (requirePhase current c [PhaseSampling])
    (if cs_Accepted (st_Cancellation current)
       then Inl (illegal current c ''cancellation was accepted'')
     else if blank sampleID then Inl (illegal current c ''sample identity is empty'')
     else if st_ActiveSampleID current \<noteq> []
       then Inl (illegal current c ''another model sample is active'')
     else if has_key (st_SampleLedger current) sampleID
       then Inl (illegal current c ''sample identity is duplicated'')
     else Inr (requestEffect env EffectSampleProvider (PayloadSample sampleID)
            (''sample:'' @ sampleID) sampleID
            (withState (\<lambda>s. s\<lparr>st_SampleLedger := fmupd sampleID
               (zeroSample\<lparr>ms_ID := sampleID, ms_Status := SampleRequested\<rparr>) (st_SampleLedger s),
               st_NextAction := StepActionNone\<rparr>) t))))"

definition applyModelSampleStarted ::
    "Transition \<Rightarrow> State \<Rightarrow> string \<Rightarrow> uint32 \<Rightarrow> go_error + Transition" where
  "applyModelSampleStarted t current sampleID attempt =
    (let c = ModelSampleStarted sampleID attempt;
         sample = get_or zeroSample (st_SampleLedger current) sampleID
     in guard (requirePhase current c [PhaseSampling])
    (if cs_Accepted (st_Cancellation current)
       then Inl (illegal current c ''cancellation was accepted'')
     else if blank sampleID \<or> attempt = 0
       then Inl (illegal current c ''sample identity is incomplete'')
     else if st_ActiveSampleID current \<noteq> []
       then Inl (illegal current c ''another model sample is active'')
     else if has_key (st_SampleLedger current) sampleID \<and> attempt \<le> ms_Attempt sample
       then Inl (illegal current c ''sample attempt is not monotonic'')
     else let sample' = sample\<lparr>ms_ID := sampleID, ms_Attempt := attempt,
                ms_Status := SampleRunning, ms_Error := [], ms_Retry := None,
                ms_RetryBudget := (ms_RetryBudget sample)\<lparr>pb_WaitUntil := 0\<rparr>\<rparr>
       in Inr (emit ((event EventSampleStarted)\<lparr>ev_SampleID := sampleID\<rparr>)
            (withState (\<lambda>s. s\<lparr>st_SampleLedger := fmupd sampleID sample' (st_SampleLedger s),
               st_ActiveSampleID := sampleID\<rparr>) t))))"

definition mergeUsage :: "UsageState \<Rightarrow> UsageState \<Rightarrow> UsageState" where
  "mergeUsage u v =
    (let calls = (if us_Calls v = 0 then 1 else us_Calls v) in u\<lparr>
       us_CostKnown := (if us_Calls u = 0 then us_CostKnown v else us_CostKnown u \<and> us_CostKnown v),
       us_Calls := us_Calls u + calls,
       us_InputTokens := us_InputTokens u + us_InputTokens v,
       us_OutputTokens := us_OutputTokens u + us_OutputTokens v,
       us_ReasoningTokens := us_ReasoningTokens u + us_ReasoningTokens v,
       us_CachedTokens := us_CachedTokens u + us_CachedTokens v,
       us_CostMicrounits := us_CostMicrounits u + us_CostMicrounits v\<rparr>)"

definition applyModelSampleFinished ::
    "Transition \<Rightarrow> State \<Rightarrow> ModelSampleFinishedArgs \<Rightarrow> go_error + Transition" where
  "applyModelSampleFinished t current a =
    (let c = ModelSampleFinished a in
     guard (requirePhase current c [PhaseSampling])
    (if st_ActiveSampleID current = [] \<or> st_ActiveSampleID current \<noteq> mf_SampleID a
       then Inl (illegal current c ''sample result does not match active sample'')
     else let
       sample = get_or zeroSample (st_SampleLedger current) (mf_SampleID a);
       sample' = (if mf_Error a \<noteq> []
                  then sample\<lparr>ms_Status := SampleFailed, ms_Error := mf_Error a\<rparr>
                  else sample\<lparr>ms_Status := SampleCompleted, ms_Error := []\<rparr>)
     in Inr (emit ((event EventSampleFinished)\<lparr>ev_SampleID := mf_SampleID a\<rparr>)
          (withState (\<lambda>s. s\<lparr>st_SampleLedger := fmupd (mf_SampleID a) sample' (st_SampleLedger s),
             st_ActiveSampleID := [], st_Usage := mergeUsage (st_Usage s) (mf_Usage a),
             st_Context := (mf_Context a)\<lparr>cx_Frozen := False\<rparr>\<rparr>) t))))"

definition applyModelSampleProgress ::
    "'e KernelEnv_scheme \<Rightarrow> Transition \<Rightarrow> State \<Rightarrow> ModelSampleProgressArgs \<Rightarrow>
     go_error + Transition" where
  "applyModelSampleProgress env t current a =
    (let c = ModelSampleProgressRecorded a;
         mismatch = (illegal current c ''sample progress does not match the running provider effect'')
     in guard (requirePhase current c [PhaseSampling])
    (case (fmlookup (st_PendingEffects current) (mp_EffectID a),
           fmlookup (st_SampleLedger current) (mp_SampleID a)) of
       (Some e, Some sample) \<Rightarrow>
        (if blank (mp_EffectID a) \<or> blank (mp_SampleID a) \<or> mp_Attempt a = 0 \<or>
            ef_Kind e \<noteq> EffectSampleProvider \<or> ef_CallID e \<noteq> mp_SampleID a \<or>
            ef_Status e \<noteq> EffectRunning \<or> ef_Attempt e \<noteq> mp_Attempt a \<or>
            ms_Status sample \<noteq> SampleRunning \<or> ms_Attempt sample \<noteq> mp_Attempt a \<or>
            st_ActiveSampleID current \<noteq> mp_SampleID a
           then Inl mismatch
         else if ra_LogicalRequestID (mp_Assembly a) \<noteq> mp_SampleID a
           then Inl (illegal current c ''sample progress changed logical request identity'')
         else (case ValidateExtension (mp_Assembly a) (ms_Assembly sample) of
             Some err \<Rightarrow> Inl (illegalErr current c err)
           | None \<Rightarrow> Inr (withState (\<lambda>s. s\<lparr>st_SampleLedger := fmupd (mp_SampleID a)
                 (sample\<lparr>ms_Assembly := CloneResponseAssembly env (Some (mp_Assembly a))\<rparr>)
                 (st_SampleLedger s)\<rparr>) t)))
     | _ \<Rightarrow> Inl mismatch))"

text \<open>
  A sample result is accepted for the running effect of the active sample, for a scheduled retry
  that is aborted, and for a recovered sample whose assembly is already complete.
\<close>

definition resultAdmissible :: "State \<Rightarrow> ModelSampleResultArgs \<Rightarrow> bool" where
  "resultAdmissible current a = (case fmlookup (st_PendingEffects current) (mr_EffectID a) of
     None \<Rightarrow> False
   | Some e \<Rightarrow>
      (let sample = get_or zeroSample (st_SampleLedger current) (mr_SampleID a);
           idle = (ef_Status e = EffectRequested \<and> st_ActiveSampleID current = [] \<and>
                   ms_Status sample = SampleRequested);
           running = (ef_Status e = EffectRunning \<and> st_ActiveSampleID current = mr_SampleID a);
           scheduledAbort = (idle \<and> mr_Error a \<noteq> []);
           recoveredComplete = (idle \<and> mr_Error a = [] \<and>
             (case ms_Assembly sample of None \<Rightarrow> False
              | Some asm \<Rightarrow> ra_State asm = ResponseComplete))
       in ef_Kind e = EffectSampleProvider \<and> ef_CallID e = mr_SampleID a \<and>
          (running \<or> scheduledAbort \<or> recoveredComplete)))"

definition settleSample :: "ModelSampleResultArgs \<Rightarrow> ModelSampleState \<Rightarrow> ModelSampleState" where
  "settleSample a sample =
    (if mr_Error a = []
     then sample\<lparr>ms_Status := SampleCompleted, ms_Error := [], ms_Retry := None\<rparr>
     else sample\<lparr>ms_Status := SampleFailed, ms_Error := mr_Error a, ms_Retry := None,
            ms_LastFailure := mr_Failure a\<rparr>)"

definition recordSample :: "State \<Rightarrow> ModelSampleResultArgs \<Rightarrow> Transition \<Rightarrow> Transition" where
  "recordSample current a t =
    (let sample' = settleSample a (get_or zeroSample (st_SampleLedger current) (mr_SampleID a))
     in emit ((event EventSampleFinished)\<lparr>ev_SampleID := mr_SampleID a\<rparr>)
          (withState (\<lambda>s. s\<lparr>
            st_SampleLedger := fmupd (mr_SampleID a) sample' (st_SampleLedger s),
            st_ActiveSampleID := [], st_Usage := mergeUsage (st_Usage s) (mr_Usage a),
            st_Context := (mr_Context a)\<lparr>cx_Frozen := False\<rparr>,
            st_LastModelContinued := mr_Continued a, st_NextAction := StepActionNone\<rparr>) t))"

definition isCommentary :: "State \<Rightarrow> ModelSampleResultArgs \<Rightarrow> bool" where
  "isCommentary current a \<longleftrightarrow> \<not> blank (mr_Text a) \<and> mr_Calls a \<noteq> [] \<and>
     st_Convergence current = None \<and>
     \<not> (length (mr_Calls a) = 1 \<and> tc_Name (hd (mr_Calls a)) = ''turn_complete'')"

definition recordText :: "State \<Rightarrow> ModelSampleResultArgs \<Rightarrow> Transition \<Rightarrow> Transition" where
  "recordText current a t =
    (if isCommentary current a
     then withState (\<lambda>s. s\<lparr>st_Commentary := st_Commentary s @ [\<lparr>cm_SampleID = mr_SampleID a,
            cm_Text = mr_Text a, cm_CallIDs = map tc_ID (mr_Calls a)\<rparr>]\<rparr>) t
     else if \<not> blank (mr_Text a)
     then withState (\<lambda>s. s\<lparr>st_ProvisionalOutput := st_ProvisionalOutput s @ [mr_Text a],
            st_OutputEligibility := False\<rparr>) t
     else t)"

definition applyModelSampleResult ::
    "'e KernelEnv_scheme \<Rightarrow> Transition \<Rightarrow> State \<Rightarrow> ModelSampleResultArgs \<Rightarrow>
     go_error + Transition" where
  "applyModelSampleResult env t current a =
    (let c = ModelSampleResultReceived a in
     guard (requirePhase current c [PhaseSampling])
    (if blank (mr_EffectID a) \<or> blank (mr_SampleID a)
       then Inl (illegal current c ''sample result identity is incomplete'')
     else if (mr_Error a = []) \<noteq> (mr_Failure a = None)
       then Inl (illegal current c ''sample failure fact does not match result'')
     else if \<not> resultAdmissible current a
       then Inl (illegal current c ''sample result effect is not running'')
     else bindR (map_sum (illegalErr current c) id
              (finishEffect (mr_EffectID a) (mr_Error a = []) (mr_Error a) t)) (\<lambda>t1.
       let t2 = recordSample current a t1
       in if mr_Error a \<noteq> [] then Inr t2
          else let t3 = recordText current a t2 in
            if mr_Calls a \<noteq> [] then applyToolCalls env t3 (tn_State t3) (mr_Calls a)
            else Inr (withState (\<lambda>s. s\<lparr>st_Progress :=
                   (st_Progress s)\<lparr>pg_PendingIdentity := []\<rparr>\<rparr>) t3))))"

definition applySupplementalUsage ::
    "Transition \<Rightarrow> State \<Rightarrow> SupplementalUsageArgs \<Rightarrow> go_error + Transition" where
  "applySupplementalUsage t current a =
    (let c = SupplementalUsageRecorded a in
     guard (requirePhase current c [PhaseSampling])
    (if blank (su_Source a) \<or> blank (su_SampleID a)
       then Inl (illegal current c ''supplemental usage identity is incomplete'')
     else if us_Frozen (su_Usage a) then Inl (illegal current c ''supplemental usage is frozen'')
     else Inr (emit ((event EventUsageRecorded)\<lparr>ev_SampleID := su_SampleID a\<rparr>)
            (withState (\<lambda>s. s\<lparr>st_Usage := mergeUsage (st_Usage s) (su_Usage a)\<rparr>) t))))"

section \<open>Provider retries\<close>

definition maxDuration :: int where "maxDuration = 2 ^ 63 - 1"

text \<open>
  \<open>waited > time.Duration(math.MaxInt64) - delay\<close>; the subtraction is exact because the delay is
  known to be non-negative where the test is made.
\<close>

definition waitOverflows :: "Duration \<Rightarrow> Duration \<Rightarrow> bool" where
  "waitOverflows waited delay \<longleftrightarrow> sint waited > maxDuration - sint delay"

definition reserveRetry :: "ProviderRetryArgs \<Rightarrow> ModelSampleState \<Rightarrow> ModelSampleState" where
  "reserveRetry a sample =
    (let b = ms_RetryBudget sample;
         b1 = (if fl_Code (pq_Failure a) = FailureRateLimit
               then b\<lparr>pb_RateLimitRetries := pb_RateLimitRetries b + 1,
                      pb_RateLimitWaited := pb_RateLimitWaited b + pq_EffectiveDelay a\<rparr>
               else b\<lparr>pb_TransientRetries := pb_TransientRetries b + 1\<rparr>)
     in sample\<lparr>ms_ProviderRetries := pq_Retry a,
          ms_RetryBudget := b1\<lparr>pb_WaitUntil := pq_RetryAt a\<rparr>,
          ms_LastFailure := Some (pq_Failure a),
          ms_Retry := Some \<lparr>pr_EffectID = pq_EffectID a, pr_Attempt = pq_Attempt a,
            pr_Retry = pq_Retry a,
            pr_EffectiveDelayMS = word_of_int (sint (pq_EffectiveDelay a) div 1000000),
            pr_RetryAt = pq_RetryAt a, pr_PolicyRevision = pq_PolicyRevision a\<rparr>,
          ms_Status := SampleRequested, ms_Error := []\<rparr>)"

definition applyProviderRetry ::
    "Transition \<Rightarrow> State \<Rightarrow> ProviderRetryArgs \<Rightarrow> go_error + Transition" where
  "applyProviderRetry t current a =
    (let c = ProviderRetryRequested a;
         mismatch = illegal current c ''provider retry does not match active sample''
     in guard (requirePhase current c [PhaseSampling])
    (case fmlookup (st_PendingEffects current) (pq_EffectID a) of
       None \<Rightarrow> Inl mismatch
     | Some e \<Rightarrow>
        (if st_ActiveSampleID current \<noteq> pq_SampleID a \<or> ef_Kind e \<noteq> EffectSampleProvider \<or>
            ef_CallID e \<noteq> pq_SampleID a \<or> ef_Status e \<noteq> EffectRunning \<or> pq_Attempt a = 0 \<or>
            pq_Attempt a \<noteq> ef_Attempt e \<or> fl_Code (pq_Failure a) = FailureUnset \<or>
            blank (fl_Message (pq_Failure a)) \<or> pq_Retry a = 0 \<or> blank (pq_PolicyRevision a) \<or>
            pq_RetryAt a = 0
           then Inl mismatch
         else let sample = get_or zeroSample (st_SampleLedger current) (pq_SampleID a) in
           if pq_Retry a \<noteq> ms_ProviderRetries sample + 1
             then Inl (illegal current c ''provider retry number is not monotonic'')
           else if sint (pq_EffectiveDelay a) < 0
             then Inl (illegal current c ''provider retry delay is negative'')
           else if fl_Code (pq_Failure a) = FailureRateLimit \<and>
                   waitOverflows (pb_RateLimitWaited (ms_RetryBudget sample)) (pq_EffectiveDelay a)
             then Inl (illegal current c ''provider retry wait budget overflows duration'')
           else Inr (emit ((event EventProviderRetry)
                  \<lparr>ev_EffectID := pq_EffectID a, ev_SampleID := pq_SampleID a\<rparr>)
                (withState (\<lambda>s. s\<lparr>
                  st_SampleLedger := fmupd (pq_SampleID a) (reserveRetry a sample) (st_SampleLedger s),
                  st_ActiveSampleID := [],
                  st_PendingEffects := fmupd (pq_EffectID a) (e\<lparr>ef_Status := EffectRequested\<rparr>)
                    (st_PendingEffects s)\<rparr>) t)))))"

definition applyProviderWait ::
    "Transition \<Rightarrow> State \<Rightarrow> ProviderWaitArgs \<Rightarrow> go_error + Transition" where
  "applyProviderWait t current a =
    (let c = ProviderWaitReserved a;
         mismatch = illegal current c ''provider wait does not match pending sample or budget''
     in guard (requirePhase current c [PhaseSampling])
    (case fmlookup (st_SampleLedger current) (pw_SampleID a) of
       None \<Rightarrow> Inl mismatch
     | Some sample \<Rightarrow>
        (let b = ms_RetryBudget sample in
         if ms_Status sample \<noteq> SampleRequested \<or> sint (pw_Delay a) \<le> 0 \<or> pw_Until a = 0 \<or>
            pw_Until a - sint (pw_Delay a) < pb_WaitUntil b \<or>
            waitOverflows (pb_RateLimitWaited b) (pw_Delay a)
           then Inl mismatch
         else Inr (withState (\<lambda>s. s\<lparr>st_SampleLedger := fmupd (pw_SampleID a)
                (sample\<lparr>ms_RetryBudget := b\<lparr>pb_RateLimitWaited := pb_RateLimitWaited b + pw_Delay a,
                   pb_WaitUntil := pw_Until a\<rparr>\<rparr>) (st_SampleLedger s)\<rparr>) t))))"

section \<open>Output\<close>

definition applyReleaseOutput :: "Transition \<Rightarrow> State \<Rightarrow> go_error + Transition" where
  "applyReleaseOutput t current =
    (let c = ReleaseProvisionalOutput in
     guard (requirePhase current c [PhaseSampling])
    (if st_ProvisionalOutput current = []
       then Inl (illegal current c ''provisional output is empty'')
     else case validateCompletionContract current of
       Some e \<Rightarrow> Inl (illegalErr current c e)
     | None \<Rightarrow> Inr (emit (event EventOutputReleased)
         (withState (\<lambda>s. s\<lparr>st_OutputEligibility := True\<rparr>) t))))"

definition applyDiscardOutput :: "Transition \<Rightarrow> State \<Rightarrow> string \<Rightarrow> go_error + Transition" where
  "applyDiscardOutput t current reason =
    (let c = DiscardProvisionalOutput reason in
     guard (requirePhase current c [PhaseSampling, PhaseExecutingTools, PhaseAwaitingApproval,
              PhaseAwaitingInput, PhaseVerifying])
    (if blank reason then Inl (illegal current c ''discard reason is empty'')
     else Inr (emit (event EventOutputDiscarded)
            (withState (\<lambda>s. s\<lparr>st_ProvisionalOutput := [], st_OutputEligibility := False\<rparr>) t))))"

section \<open>Convergence and repair budgets\<close>

definition continueAction :: string where
  "continueAction = ''Continue the unfinished work from the retained turn context.''"

definition beginConvergence :: "ConvergenceArgs \<Rightarrow> Transition \<Rightarrow> Transition" where
  "beginConvergence a t =
    (if st_Convergence (tn_State t) \<noteq> None then t
     else let
       summary = (case st_Completion (tn_State t) of None \<Rightarrow> [] | Some c \<Rightarrow> TrimSpace (cd_Summary c));
       pending0 = (case st_Completion (tn_State t) of None \<Rightarrow> [] | Some c \<Rightarrow> cd_PendingActions c);
       pending = (if summary \<noteq> [] \<and> pending0 = [] then [continueAction] else pending0)
     in emit (event EventConvergence) (withState (\<lambda>s. s\<lparr>
          st_Convergence := Some \<lparr>cv_Cause = cr_Cause a, cv_Used = cr_Used a, cv_Limit = cr_Limit a,
            cv_RepairKind = cr_RepairKind a, cv_FinalizationAttempted = False,
            cv_Summary = summary, cv_PendingActions = pending\<rparr>,
          st_NextAction := StepActionFinalize\<rparr>) t))"

definition validConvergenceRequest :: "ConvergenceArgs \<Rightarrow> bool" where
  "validConvergenceRequest a =
    (if cr_Used a < cr_Limit a \<or> cr_Limit a = 0 \<and>
        (cr_Used a \<noteq> 0 \<or> cr_Cause a \<noteq> ConvergenceRepairBudget) then False
     else case cr_Cause a of
       ConvergenceRepairBudget \<Rightarrow> validRepairKind (cr_RepairKind a)
     | ConvergenceIncomplete \<Rightarrow> False
     | _ \<Rightarrow> cr_RepairKind a = RepairUnset)"

definition spendRepairBudget ::
    "RepairKind \<Rightarrow> string \<Rightarrow> uint32 \<Rightarrow> Transition \<Rightarrow> go_error + Transition" where
  "spendRepairBudget kind progressKey limit t =
    (if \<not> validRepairKind kind
       then Inl (Plain (Fmt ''invalid repair kind %q'' [ArgS (repairName kind)]))
     else if blank progressKey \<or> limit = 0
       then Inl (Plain (Msg ''repair budget request is incomplete''))
     else let
       b0 = get_or zeroBudget (st_RepairBudgets (tn_State t)) kind;
       b1 = (if rb_ProgressKey b0 \<noteq> progressKey
             then b0\<lparr>rb_ProgressKey := progressKey, rb_Consecutive := 0\<rparr> else b0)
     in if rb_Consecutive b1 \<ge> limit
          then Inl (RepairBudgetExhaustedError kind progressKey limit)
        else Inr (emit (event EventRepairRequested) (withState (\<lambda>s. s\<lparr>st_RepairBudgets :=
               fmupd kind (b1\<lparr>rb_Consecutive := rb_Consecutive b1 + 1, rb_Steps := rb_Steps b1 + 1\<rparr>)
                 (st_RepairBudgets s)\<rparr>) t)))"

definition applyRepairRequested ::
    "Transition \<Rightarrow> State \<Rightarrow> RepairKind \<Rightarrow> string \<Rightarrow> uint32 \<Rightarrow> go_error + Transition" where
  "applyRepairRequested t current kind progressKey limit =
    (let c = RepairRequested kind progressKey limit in
     guard (requirePhase current c [PhaseSampling])
    (if \<not> validRepairKind kind then Inl (illegal current c ''repair kind is invalid'')
     else if blank progressKey then Inl (illegal current c ''repair progress key is empty'')
     else if limit = 0 then Inl (illegal current c ''repair limit is zero'')
     else spendRepairBudget kind progressKey limit t))"

definition applyConvergenceRequested ::
    "Transition \<Rightarrow> State \<Rightarrow> ConvergenceArgs \<Rightarrow> go_error + Transition" where
  "applyConvergenceRequested t current a =
    (let c = ConvergenceRequested a in
     guard (requirePhase current c [PhaseSampling])
    (if st_ActiveSampleID current \<noteq> [] then Inl (illegal current c ''model sample is active'')
     else if \<not> validConvergenceRequest a
       then Inl (illegal current c ''convergence request is invalid'')
     else Inr (beginConvergence a t)))"

definition applyConvergenceFinalizationStarted ::
    "Transition \<Rightarrow> State \<Rightarrow> go_error + Transition" where
  "applyConvergenceFinalizationStarted t current =
    (let c = ConvergenceFinalizationStarted in
     guard (requirePhase current c [PhaseSampling])
    (if st_ActiveSampleID current \<noteq> [] then Inl (illegal current c ''model sample is active'')
     else case st_Convergence current of
       None \<Rightarrow> Inl (illegal current c ''convergence is not active'')
     | Some cv \<Rightarrow>
        (if cv_FinalizationAttempted cv
           then Inl (illegal current c ''convergence finalization already started'')
         else Inr (withState (\<lambda>s. s\<lparr>st_Convergence :=
                map_option (\<lambda>v. v\<lparr>cv_FinalizationAttempted := True\<rparr>) (st_Convergence s),
                st_NextAction := StepActionNone\<rparr>) t))))"

definition blockedConvergence :: "ConvergenceState option \<Rightarrow> ConvergenceState option" where
  "blockedConvergence = map_option (\<lambda>o'.
     if blank (cv_Summary o')
     then o'\<lparr>cv_Summary := ''Turn could not complete after the '' @ causeName (cv_Cause o') @
              '' convergence budget was exhausted.'', cv_PendingActions := [continueAction]\<rparr>
     else o')"

section \<open>The no-progress clock\<close>

text \<open>\<open>advanceProgress\<close> updates the clock for one observation; \<open>progressLease\<close> picks its bounds.\<close>

definition advanceProgress ::
    "string \<Rightarrow> string \<Rightarrow> string \<Rightarrow> uint32 \<Rightarrow> ProgressState \<Rightarrow> ProgressState" where
  "advanceProgress signature identity key completed p =
    (let p1 = (if \<not> seenObservation p key
               then rememberObservation key (p\<lparr>pg_NoProgressSamples := 0,
                      pg_Stage := ProgressStageNone, pg_StallKind := ProgressStallNone\<rparr>)
               else p\<lparr>pg_NoProgressSamples :=
                        pg_NoProgressSamples p + (completed - pg_ObservedSamples p),
                      pg_StallKind := (if liveToolIdentity identity \<and> identity = pg_SampleIdentity p
                        then ProgressStallIdenticalCall else ProgressStallCycle)\<rparr>)
     in p1\<lparr>pg_Signature := signature, pg_SampleIdentity := identity, pg_ObservationKey := key,
           pg_ObservedSamples := completed\<rparr>)"

definition progressLease :: "State \<Rightarrow> ProgressStallKind \<Rightarrow> uint32 \<times> uint32 \<times> uint32" where
  "progressLease s stall =
    (let policy = pl_Convergence (st_Policy s);
         base = (if IsResearchIntent (st_Intent s) \<and> st_MutationRevision s = 0
                 then (cp_ResearchConverge policy, cp_ResearchFinishOnly policy,
                       cp_ResearchLimit policy)
                 else (cp_ProgressConverge policy, cp_ProgressFinishOnly policy,
                       cp_ProgressLimit policy));
         lease = pl_ImplementNoProgressSamples (st_Policy s)
     in if stall = ProgressStallIdenticalCall \<and> lease > 0
        then let
          convergeAt = max 1 (lease div 2);
          reserve = pl_CompletionRepairLimit (st_Policy s) + pl_WorkspaceRepairLimit (st_Policy s) +
                    pl_DeclarationRepairLimit (st_Policy s);
          limit = max (lease + 1) (lease + reserve)
        in if cp_ProgressLimit policy > 0
           then ((if cp_ProgressConverge policy > 0 then min convergeAt (cp_ProgressConverge policy)
                  else convergeAt),
                 (if cp_ProgressFinishOnly policy > 0 then min lease (cp_ProgressFinishOnly policy)
                  else lease),
                 min limit (cp_ProgressLimit policy))
           else (convergeAt, lease, limit)
        else base)"

definition progressStage :: "uint32 \<times> uint32 \<times> uint32 \<Rightarrow> uint32 \<Rightarrow> ProgressStage" where
  "progressStage lease used = (case lease of (convergeAt, finishOnlyAt, limit) \<Rightarrow>
     if limit = 0 then ProgressStageNone
     else if used \<ge> limit then ProgressStageExhausted
     else if used \<ge> finishOnlyAt then ProgressStageFinishOnly
     else if used \<ge> convergeAt then ProgressStageConverge
     else ProgressStageNone)"

text \<open>The identity and the observation key of the reported sample, and the clock they lead to.\<close>

definition observedIdentity :: "State \<Rightarrow> ObserveProgressArgs \<Rightarrow> string" where
  "observedIdentity current a =
    (if blank (op_SampleIdentity a) then pg_PendingIdentity (st_Progress current)
     else TrimSpace (op_SampleIdentity a))"

definition observedKey ::
    "'e KernelEnv_scheme \<Rightarrow> State \<Rightarrow> ObserveProgressArgs \<Rightarrow> string" where
  "observedKey env current a =
    (let resultDigest = (if blank (op_ResultDigest a)
           then FormatResultDigest (pg_PendingResultDigests (st_Progress current))
           else TrimSpace (op_ResultDigest a))
     in FormatObservationKey env (TrimSpace (op_Signature a))
          (FormatWorkspaceContent (st_WorkItem current)) resultDigest)"

definition observedProgress ::
    "'e KernelEnv_scheme \<Rightarrow> State \<Rightarrow> ObserveProgressArgs \<Rightarrow> ProgressState" where
  "observedProgress env current a =
    (let p = advanceProgress (TrimSpace (op_Signature a)) (observedIdentity current a)
           (observedKey env current a) (op_CompletedSamples a) (st_Progress current)
     in p\<lparr>pg_Stage := progressStage (progressLease current (pg_StallKind p))
            (pg_NoProgressSamples p)\<rparr>)"

definition applyObserveProgress ::
    "'e KernelEnv_scheme \<Rightarrow> Transition \<Rightarrow> State \<Rightarrow> ObserveProgressArgs \<Rightarrow> go_error + Transition" where
  "applyObserveProgress env t current a =
    (let c = ObserveProgress a in
     guard (requirePhase current c [PhaseSampling])
    (if st_ActiveSampleID current \<noteq> [] then Inl (illegal current c ''model sample is active'')
     else if blank (op_Signature a) then Inl (illegal current c ''progress signature is empty'')
     else if op_CompletedSamples a < pg_ObservedSamples (st_Progress current)
       then Inl (illegal current c ''completed samples regressed'')
     else let
       p = observedProgress env current a;
       t1 = withState (\<lambda>s. s\<lparr>st_Progress := p\<rparr>) t
     in Inr (if pg_Stage p = ProgressStageExhausted
             then beginConvergence \<lparr>cr_Cause = ConvergenceNoProgress,
                    cr_Used = pg_NoProgressSamples p,
                    cr_Limit = snd (snd (progressLease current (pg_StallKind p))),
                    cr_RepairKind = RepairUnset\<rparr> t1
             else t1)))"

section \<open>Step selection\<close>

definition spendStep ::
    "string \<Rightarrow> RepairKind \<Rightarrow> uint32 \<Rightarrow> StepAction \<Rightarrow> Transition \<Rightarrow> go_error + Transition" where
  "spendStep progressKey kind limit action t =
    (if limit = 0
     then Inr (beginConvergence \<lparr>cr_Cause = ConvergenceRepairBudget, cr_Used = 0, cr_Limit = 0,
                 cr_RepairKind = kind\<rparr> t)
     else case spendRepairBudget kind progressKey limit t of
       Inr t1 \<Rightarrow> Inr (withState (\<lambda>s. s\<lparr>st_NextAction := action\<rparr>) t1)
     | Inl (RepairBudgetExhaustedError k p l) \<Rightarrow>
         Inr (beginConvergence \<lparr>cr_Cause = ConvergenceRepairBudget, cr_Used = limit,
                cr_Limit = limit, cr_RepairKind = kind\<rparr> t)
     | Inl e \<Rightarrow> Inl e)"

text \<open>
  A recovered tool failure is cleared before the step is chosen. With a convergence outcome the turn
  is finalized, retried once more for its declaration, or blocked; without one the first missing
  piece picks a repair.
\<close>

definition clearRecovered :: "State \<Rightarrow> State \<Rightarrow> State" where
  "clearRecovered current s =
    (if st_UnresolvedToolFailure current \<and> st_RecoveryToolSucceeded current
     then s\<lparr>st_UnresolvedToolFailure := False, st_RecoveryToolSucceeded := False\<rparr> else s)"

definition pickStep :: "StepAction \<Rightarrow> Transition \<Rightarrow> go_error + Transition" where
  "pickStep a t = Inr (withState (\<lambda>s. s\<lparr>st_NextAction := a\<rparr>) t)"

definition declarationRetryable :: "State \<Rightarrow> bool" where
  "declarationRetryable current = (case st_Completion current of
     None \<Rightarrow> False
   | Some d \<Rightarrow>
       (cd_Reason d = ''invalid_declaration'' \<or> cd_Reason d = ''incomplete_declaration'') \<and>
       rb_Steps (get_or zeroBudget (st_RepairBudgets current) RepairDeclaration) <
         pl_DeclarationRepairLimit (st_Policy current))"

definition convergenceStep ::
    "ConvergenceState \<Rightarrow> Transition \<Rightarrow> State \<Rightarrow> go_error + Transition" where
  "convergenceStep cv t current =
    (if \<not> cv_FinalizationAttempted cv then pickStep StepActionFinalize t
     else if declarationRetryable current
     then bindR (spendRepairBudget RepairDeclaration ''convergence_declaration''
            (pl_DeclarationRepairLimit (st_Policy current))
            (withState (\<lambda>s. s\<lparr>st_NextAction := StepActionBlock\<rparr>) t)) (\<lambda>t2.
          Inr (withState (\<lambda>s. s\<lparr>st_Convergence :=
            map_option (\<lambda>v. v\<lparr>cv_FinalizationAttempted := False\<rparr>) (st_Convergence s),
            st_NextAction := StepActionFinalize\<rparr>) t2))
     else pickStep StepActionBlock t)"

definition repairStep :: "string \<Rightarrow> Transition \<Rightarrow> State \<Rightarrow> go_error + Transition" where
  "repairStep progressKey t current =
    (let policy = st_Policy current in
     if st_UnresolvedToolFailure current
     then bindR (spendStep progressKey RepairCompletion (pl_CompletionRepairLimit policy)
            StepActionRepairToolFailure t) (\<lambda>t2.
          Inr (if st_RecoveryToolSucceeded current \<or> IsResearchIntent (st_Intent current)
               then withState (\<lambda>s. s\<lparr>st_UnresolvedToolFailure := False,
                      st_RecoveryToolSucceeded := False\<rparr>) t2
               else t2))
     else if st_LastModelContinued current \<and> \<not> isEmpty (st_ClosedCalls current)
     then spendStep progressKey RepairCompletion (pl_CompletionRepairLimit policy)
            StepActionRepairCompletion t
     else if st_ProvisionalOutput current = []
     then spendStep progressKey RepairCompletion (pl_CompletionRepairLimit policy)
            StepActionRepairCompletion t
     else if workspaceCompletionMissing current
     then spendStep progressKey RepairWorkspace (pl_WorkspaceRepairLimit policy)
            StepActionRepairWorkspace t
     else if RequiresCompletion current
     then spendStep progressKey RepairDeclaration (pl_DeclarationRepairLimit policy)
            StepActionRepairDeclaration t
     else pickStep StepActionComplete t)"

definition applyEvaluateTurnStep ::
    "Transition \<Rightarrow> State \<Rightarrow> string \<Rightarrow> go_error + Transition" where
  "applyEvaluateTurnStep t current0 progressKey =
    (let c = EvaluateTurnStep progressKey in
     guard (requirePhase current0 c [PhaseSampling])
    (if blank progressKey then Inl (illegal current0 c ''turn step progress key is empty'')
     else let
       current = clearRecovered current0 current0;
       t1 = withState (\<lambda>s. clearRecovered current0 (s\<lparr>st_NextAction := StepActionNone\<rparr>)) t
     in if completionAccepted current then pickStep StepActionComplete t1
        else case st_Convergence current of
          Some cv \<Rightarrow> convergenceStep cv t1 current
        | None \<Rightarrow> repairStep progressKey t1 current))"

end
