(* ===== verification/Reducer.thy ===== *)
theory Reducer
  imports Reducer_Sampling
begin

text \<open>
  The completion, verification and terminal handlers
  (\<open>reducer_verification.go\<close>, \<open>completion_policy.go\<close>, \<open>reducer_terminal.go\<close>) and
  \<open>Reducer.Apply\<close> (\<open>reducer.go\<close>) under \<open>src/internal/runtime/agent/turnkernel/\<close>.
\<close>

section \<open>Workspace reconciliation and completion\<close>

definition applyWorkspaceReconciled ::
    "Transition \<Rightarrow> State \<Rightarrow> uint64 \<Rightarrow> ObservedChange list \<Rightarrow> go_error + Transition" where
  "applyWorkspaceReconciled t current mutation changes =
    (let c = WorkspaceReconciled mutation changes in
     guard (requirePhase current c [PhaseSampling])
    (if \<not> isEmpty (st_OpenCalls current) \<or> st_ActiveSampleID current \<noteq> [] \<or>
        mutation \<noteq> st_MutationRevision current
       then Inl (illegal current c ''workspace observation is stale or work is still running'')
     else if changes \<noteq> [] \<and> st_MutationRevision current = 0
       then Inl (illegal current c ''workspace changes have no observed mutation'')
     else if (case st_Workspace current of None \<Rightarrow> False | Some w \<Rightarrow> ws_Changes w \<noteq> changes)
       then Inl (illegal current c ''workspace changed without a new mutation'')
     else let
       paths = changedPaths (st_Changes current);
       t1 = withState (\<lambda>s. s\<lparr>st_Workspace := Some \<lparr>ws_Mutation = mutation, ws_Changes = changes\<rparr>,
              st_Completion := map_option (\<lambda>d. d\<lparr>cd_ChangedPaths := changedPaths changes\<rparr>)
                (st_Completion s)\<rparr>) t;
       t2 = (if changes = []
             then withState (\<lambda>s. s\<lparr>st_WorkItem := (st_WorkItem s)\<lparr>wi_Open :=
                    (wi_Open (st_WorkItem s))\<lparr>wo_UnverifiedPaths :=
                      filter (\<lambda>p. p \<notin> set paths)
                        (wo_UnverifiedPaths (wi_Open (st_WorkItem s)))\<rparr>\<rparr>\<rparr>) t1
             else t1)
     in Inr (withState (\<lambda>s. s\<lparr>st_WorkItem :=
               (st_WorkItem s)\<lparr>wi_RequiredAction := DeriveRequiredAction s\<rparr>\<rparr>) t2)))"

definition completionRejectionAction :: "string \<Rightarrow> string" where
  "completionRejectionAction reason =
    (if reason = ''no_observed_changes'' then ''perform_workspace_mutation_or_explain_no_change''
     else if reason = ''pending_actions'' then ''continue_work''
     else if reason = ''convergence_blocked'' then ''finalize_blocked''
     else ''correct_and_retry_turn_complete'')"

definition declaresIncomplete :: "CompletionCandidate \<Rightarrow> bool" where
  "declaresIncomplete n \<longleftrightarrow>
     cn_Status n = ''incomplete'' \<and> \<not> blank (cn_Summary n) \<and> cn_PendingActions n \<noteq> []"

definition claimsNoChange :: "CompletionCandidate \<Rightarrow> bool" where
  "claimsNoChange n \<longleftrightarrow> cn_NoChangeReason n \<noteq> [] \<or> cn_NoChangeEvidence n \<noteq> []"

text \<open>The reason the switch of \<open>applyCompletion\<close> settles on; the empty reason accepts.\<close>

definition completionReason :: "State \<Rightarrow> CompletionCandidate \<Rightarrow> string" where
  "completionReason current n =
    (if cn_BatchMutated n then ''same_batch_mutation''
     else if cn_BatchSize n \<noteq> 1 then ''declaration_must_be_only_call''
     else if \<not> cn_DeclarationValid n then ''invalid_declaration''
     else if \<not> validOutputMode (cn_OutputMode n) then ''invalid_output_mode''
     else if declaresIncomplete n then ''convergence_blocked''
     else if cn_ToolError n \<or> cn_Status n \<noteq> ''complete'' \<or> blank (cn_Summary n) \<or>
             cn_PendingActions n \<noteq> [] then ''incomplete_declaration''
     else if claimsNoChange n \<and>
             \<not> validNoChange current (cn_NoChangeReason n) (cn_NoChangeEvidence n)
       then ''invalid_no_change_evidence''
     else if st_Intent current = TurnIntentWorkspaceChange \<and> st_MutationRevision current = 0 \<and>
             \<not> validNoChange current (cn_NoChangeReason n) (cn_NoChangeEvidence n)
       then ''no_observed_changes''
     else if cn_OutputMode n = ''preserve_provisional'' \<and> st_ProvisionalOutput current = []
       then ''provisional_output_unavailable''
     else [])"

text \<open>A declared-incomplete turn records its outcome in the convergence state.\<close>

definition declareBlocked :: "State \<Rightarrow> CompletionCandidate \<Rightarrow> State \<Rightarrow> State" where
  "declareBlocked current n s =
    (case st_Convergence current of
       Some cv \<Rightarrow>
        (if cv_FinalizationAttempted cv
         then s\<lparr>st_Convergence := map_option (\<lambda>v. v\<lparr>cv_Summary := TrimSpace (cn_Summary n),
                  cv_PendingActions := cn_PendingActions n\<rparr>) (st_Convergence s)\<rparr>
         else s\<lparr>st_Convergence := Some \<lparr>cv_Cause = ConvergenceIncomplete, cv_Used = 0, cv_Limit = 0,
                  cv_RepairKind = RepairUnset, cv_FinalizationAttempted = True,
                  cv_Summary = TrimSpace (cn_Summary n), cv_PendingActions = cn_PendingActions n\<rparr>\<rparr>)
     | None \<Rightarrow> s\<lparr>st_Convergence := Some \<lparr>cv_Cause = ConvergenceIncomplete, cv_Used = 0,
                  cv_Limit = 0, cv_RepairKind = RepairUnset, cv_FinalizationAttempted = True,
                  cv_Summary = TrimSpace (cn_Summary n), cv_PendingActions = cn_PendingActions n\<rparr>\<rparr>)"

definition applyCompletion ::
    "Transition \<Rightarrow> State \<Rightarrow> CompletionCandidate \<Rightarrow> go_error + Transition" where
  "applyCompletion t current n =
    (let c = CompletionEvaluated n in
     guard (requirePhase current c [PhaseSampling])
    (if blank (cn_CompletionCall n) then Inl (illegal current c ''completion call id is empty'')
     else let
       reason = completionReason current n;
       accepted = (reason = []);
       decision = \<lparr>cd_NoChangeReason = cn_NoChangeReason n,
         cd_NoChangeEvidence = cn_NoChangeEvidence n, cd_Accepted = accepted,
         cd_Summary = cn_Summary n, cd_Reason = reason,
         cd_RequiredAction =
           (if accepted then ''final_answer'' else completionRejectionAction reason),
         cd_OutputMode = cn_OutputMode n, cd_PendingActions = cn_PendingActions n,
         cd_Mutation = st_MutationRevision current,
         cd_ChangedPaths = changedPaths (effectiveChanges current), cd_VerificationCalls = [],
         cd_CompletionCall = cn_CompletionCall n\<rparr>;
       t1 = (if reason = ''convergence_blocked'' then withState (declareBlocked current n) t else t);
       summary = TrimSpace (cn_Summary n);
       t2 = (if accepted
             then withState (\<lambda>s. s\<lparr>st_ProvisionalOutput :=
                    (if cn_OutputMode n = ''preserve_provisional''
                     then st_ProvisionalOutput s @ [[CHR 0x0A, CHR 0x0A] @ summary]
                     else [summary]),
                    st_OutputEligibility := False\<rparr>) t1
             else t1)
     in Inr (emit ((event EventCompletionDecided)\<lparr>ev_Mutation := st_MutationRevision current\<rparr>)
          (withState (\<lambda>s. s\<lparr>st_Completion := Some decision\<rparr>) t2))))"

definition applyCompletionInvalidated ::
    "Transition \<Rightarrow> State \<Rightarrow> string \<Rightarrow> go_error + Transition" where
  "applyCompletionInvalidated t current reason =
    (let c = CompletionInvalidated reason in
     guard (requirePhase current c [PhaseSampling])
    (if blank reason then Inl (illegal current c ''completion invalidation reason is empty'')
     else if \<not> completionAccepted current
       then Inl (illegal current c ''accepted completion is unavailable'')
     else Inr (emit ((event EventCompletionDecided)\<lparr>ev_Mutation := st_MutationRevision current\<rparr>)
            (withState (\<lambda>s. s\<lparr>st_Completion := None\<rparr>) t))))"

section \<open>Retiring the verification gate\<close>

fun finishVerifications :: "string list \<Rightarrow> Transition \<Rightarrow> go_error + Transition" where
  "finishVerifications [] t = Inr t"
| "finishVerifications (i # rest) t =
    (if (case fmlookup (st_PendingEffects (tn_State t)) i of
           None \<Rightarrow> False | Some e \<Rightarrow> ef_Kind e = EffectRunVerification)
     then (case finishEffect i False ''verification gate was removed; no check was executed'' t of
             Inl e \<Rightarrow> Inl (Plain e) | Inr t1 \<Rightarrow> finishVerifications rest t1)
     else finishVerifications rest t)"

definition retireState :: "State \<Rightarrow> State" where
  "retireState s0 =
    (let
       s1 = s0\<lparr>st_Policy := (st_Policy s0)\<lparr>pl_VerificationRequired := False,
              pl_VerificationMustPass := False, pl_VerificationMode := [],
              pl_VerificationOnFailure := [], pl_VerificationRepairLimit := 0\<rparr>,
            st_Verification := notEvaluated,
            st_RepairBudgets := fmdrop RepairVerification (st_RepairBudgets s0),
            st_Convergence := (case st_Convergence s0 of
                Some c \<Rightarrow> (if cv_RepairKind c = RepairVerification then None else Some c)
              | None \<Rightarrow> None),
            st_WorkItem := (st_WorkItem s0)\<lparr>wi_Open := (wi_Open (st_WorkItem s0))
              \<lparr>wo_UnverifiedPaths := [], wo_CoveredPaths := []\<rparr>\<rparr>\<rparr>;
       s2 = s1\<lparr>st_WorkItem := (st_WorkItem s1)\<lparr>wi_RequiredAction := DeriveRequiredAction s1\<rparr>\<rparr>
     in if st_NextAction s2 = StepActionVerify then s2\<lparr>st_NextAction := StepActionNone\<rparr> else s2)"

definition retireVerification :: "Transition \<Rightarrow> go_error + Transition" where
  "retireVerification t =
     bindR (finishVerifications (sortedEffectIDs (st_PendingEffects (tn_State t))) t) (\<lambda>t1.
       let t2 = withState retireState t1
       in Inr (if st_Phase (tn_State t2) = PhaseVerifying then move PhaseSampling t2 else t2))"

definition legacyVerificationActive :: "State \<Rightarrow> bool" where
  "legacyVerificationActive s \<longleftrightarrow>
     pl_VerificationRequired (st_Policy s) \<or> pl_VerificationMode (st_Policy s) \<noteq> [] \<or>
     vs_Status (st_Verification s) \<noteq> VerificationNotEvaluated \<or> st_Phase s = PhaseVerifying \<or>
     wo_UnverifiedPaths (wi_Open (st_WorkItem s)) \<noteq> [] \<or>
     wo_CoveredPaths (wi_Open (st_WorkItem s)) \<noteq> []"

section \<open>The terminal transaction\<close>

definition terminalDecision :: "TerminalArgs \<Rightarrow> TerminalDecision" where
  "terminalDecision a =
    (if \<not> blank (ta_CancelReason a)
     then \<lparr>td_Kind = TerminalCanceled, td_Code = [], td_Message = ta_CancelReason a,
           td_Fault = None, td_Convergence = None\<rparr>
     else if ta_Convergence a \<noteq> None
     then \<lparr>td_Kind = TerminalFailed, td_Code = ta_FailureCode a, td_Message = ta_FailureMessage a,
           td_Fault = ta_Fault a, td_Convergence = ta_Convergence a\<rparr>
     else if \<not> blank (ta_FailureMessage a)
     then \<lparr>td_Kind = TerminalFailed, td_Code = ta_FailureCode a, td_Message = ta_FailureMessage a,
           td_Fault = ta_Fault a, td_Convergence = None\<rparr>
     else \<lparr>td_Kind = TerminalCompleted, td_Code = [], td_Message = [], td_Fault = None,
           td_Convergence = None\<rparr>)"

fun terminalName :: "TerminalKind \<Rightarrow> string" where
  "terminalName TerminalCompleted = ''completed''"
| "terminalName TerminalFailed = ''failed''"
| "terminalName TerminalCanceled = ''canceled''"

definition prepareTerminal ::
    "'e KernelEnv_scheme \<Rightarrow> State \<Rightarrow> TerminalDecision \<Rightarrow> Transition \<Rightarrow> Transition" where
  "prepareTerminal env current d t =
    (let
       t1 = withState (\<lambda>s. s\<lparr>st_PendingTerminal := Some d,
              st_Usage := (st_Usage s)\<lparr>us_Frozen := True\<rparr>,
              st_Context := (st_Context s)\<lparr>cx_Frozen := True\<rparr>\<rparr>) t;
       t2 = emit ((event EventTerminalPrepared)\<lparr>ev_Terminal := Some d\<rparr>) (move PhaseCommitting t1)
     in if st_Journal current = JournalOpen \<or> pl_JournalRequired (st_Policy current)
        then requestEffect env (fst (terminalJournalOutcome current d)) (PayloadTerminal d)
               (''journal:'' @ terminalName (td_Kind d)) [] t2
        else t2)"

definition applyTerminalRequested ::
    "'e KernelEnv_scheme \<Rightarrow> Transition \<Rightarrow> State \<Rightarrow> TerminalArgs \<Rightarrow> TerminalDecision \<Rightarrow>
     go_error + Transition" where
  "applyTerminalRequested env t current a d =
    (let c = TerminalRequested a in
     if st_Phase current = PhaseCommitting
       then Inl (illegal current c ''terminal transaction is already active'')
     else if \<not> isEmpty (st_OpenCalls current) then Inl (illegal current c ''tool calls remain open'')
     else if \<not> isEmpty (st_PendingApprovals current)
       then Inl (illegal current c ''approval remains pending'')
     else if st_PendingInput current \<noteq> None
       then Inl (illegal current c ''user input remains pending'')
     else if st_ActiveSampleID current \<noteq> []
       then Inl (illegal current c ''model sample remains active'')
     else if \<not> isEmpty (st_PendingEffects current)
       then Inl (illegal current c ''effects remain pending'')
     else if td_Kind d = TerminalCompleted
       then (if st_Phase current \<noteq> PhaseSampling
               then Inl (illegal current c ''completion must begin from sampling'')
             else case validateCompletionReadiness current of
               Some e \<Rightarrow> Inl (illegalErr current c e)
             | None \<Rightarrow> Inr (prepareTerminal env current d t))
     else if blank (td_Message d)
       then Inl (illegal current c ''non-success terminal message is empty'')
     else if td_Convergence d \<noteq> None
       then (if td_Kind d \<noteq> TerminalFailed \<or> (case st_Convergence current of None \<Rightarrow> True
                | Some cv \<Rightarrow> \<not> cv_FinalizationAttempted cv)
               then Inl (illegal current c ''convergence terminal is not ready'')
             else let blocked = blockedConvergence (st_Convergence current)
               in Inr (prepareTerminal env current (d\<lparr>td_Convergence := blocked\<rparr>)
                    (withState (\<lambda>s. s\<lparr>st_Convergence := blocked\<rparr>) t)))
     else Inr (prepareTerminal env current d t))"

definition applyJournalFinalized ::
    "Transition \<Rightarrow> State \<Rightarrow> JournalStatus \<Rightarrow> go_error + Transition" where
  "applyJournalFinalized t current status =
    (let c = JournalFinalized status in
     guard (requirePhase current c [PhaseCommitting])
    (case st_PendingTerminal current of
       None \<Rightarrow> Inl (illegal current c ''terminal transaction is missing'')
     | Some d \<Rightarrow>
        (if st_Journal current \<noteq> JournalOpen \<or> status \<noteq> snd (terminalJournalOutcome current d)
           then Inl (illegal current c ''journal result does not match terminal outcome'')
         else Inr (closeFirstEffectByKind (fst (terminalJournalOutcome current d)) True []
                (withState (\<lambda>s. s\<lparr>st_Journal := status\<rparr>) t)))))"

definition applyJournalResult ::
    "Transition \<Rightarrow> State \<Rightarrow> string \<Rightarrow> JournalStatus \<Rightarrow> string \<Rightarrow> go_error + Transition" where
  "applyJournalResult t current i status err =
    (let c = JournalResultReceived i status err in
     guard (requirePhase current c [PhaseCommitting])
    (case fmlookup (st_PendingEffects current) i of
       None \<Rightarrow> Inl (illegal current c ''journal effect is not running'')
     | Some e \<Rightarrow>
        (if ef_Status e \<noteq> EffectRunning
           then Inl (illegal current c ''journal effect is not running'')
         else case st_PendingTerminal current of
           None \<Rightarrow> Inl (illegal current c ''terminal transaction is missing'')
         | Some d \<Rightarrow>
            (if (ef_Kind e, status) \<noteq> terminalJournalOutcome current d
               then Inl (illegal current c ''journal result does not match terminal outcome'')
             else if st_MutationRevision current = 0 \<and>
                     (\<not> pl_JournalRequired (st_Policy current) \<or> st_Journal current \<noteq> JournalNone)
               then Inl (illegal current c ''unchanged turn has no open journal'')
             else if st_MutationRevision current \<noteq> 0 \<and> st_Journal current \<noteq> JournalOpen
               then Inl (illegal current c ''changed turn has no open journal'')
             else if err \<noteq> []
               then Inr (emit ((event EventEffectRequeued)\<lparr>ev_EffectID := i\<rparr>)
                      (withState (\<lambda>s. s\<lparr>st_PendingEffects := fmupd i
                         (e\<lparr>ef_Status := EffectRequested, ef_Error := err\<rparr>)
                         (st_PendingEffects s)\<rparr>) t))
             else bindR (map_sum (illegalErr current c) id (finishEffect i True [] t)) (\<lambda>t1.
               Inr (withState (\<lambda>s. s\<lparr>st_Journal := status\<rparr>) t1))))))"

definition applyFinishTerminal :: "Transition \<Rightarrow> State \<Rightarrow> go_error + Transition" where
  "applyFinishTerminal t current =
    (let c = FinishTerminal in
     guard (requirePhase current c [PhaseCommitting])
    (case st_PendingTerminal current of
       None \<Rightarrow> Inl (illegal current c ''terminal transaction is missing'')
     | Some d \<Rightarrow>
        (let outcome = snd (terminalJournalOutcome current d) in
         if st_Changes current \<noteq> [] \<and> st_Journal current \<noteq> outcome
           then Inl (illegal current c ''journal is not finalized'')
         else if st_Changes current = [] \<and> st_Journal current \<noteq>
                 (if pl_JournalRequired (st_Policy current) then outcome else JournalNone)
           then Inl (illegal current c ''unchanged turn journal is not finalized'')
         else Inr (emit ((event EventTerminalCommitted)\<lparr>ev_Terminal := Some d\<rparr>)
                (move (phaseForTerminal (td_Kind d))
                  (withState (\<lambda>s. s\<lparr>st_PendingTerminal := None, st_Terminal := Some d,
                     st_FinalOutput := st_ProvisionalOutput current,
                     st_ProvisionalOutput := []\<rparr>) t))))))"

section \<open>Apply\<close>

definition applyModelText :: "Transition \<Rightarrow> State \<Rightarrow> string \<Rightarrow> go_error + Transition" where
  "applyModelText t current text =
     guard (requirePhase current (ModelTextReceived text) [PhaseSampling])
    (if text = [] then Inl (illegal current (ModelTextReceived text) ''model text is empty'')
     else Inr (withState (\<lambda>s. s\<lparr>st_ProvisionalOutput := st_ProvisionalOutput s @ [text],
            st_OutputEligibility := False\<rparr>) t))"

definition applyPhaseMove ::
    "Command \<Rightarrow> Phase \<Rightarrow> Phase \<Rightarrow> Transition \<Rightarrow> State \<Rightarrow> go_error + Transition" where
  "applyPhaseMove c from to t current = guard (requirePhase current c [from]) (Inr (move to t))"

text \<open>The switch of \<open>Apply\<close>: the handler of each command on the cloned state.\<close>

definition dispatch ::
    "'e KernelEnv_scheme \<Rightarrow> Transition \<Rightarrow> State \<Rightarrow> Command \<Rightarrow> go_error + Transition" where
  "dispatch env t current command = (case command of
     StartTurn \<Rightarrow> applyPhaseMove StartTurn PhaseCreated PhasePreparing t current
   | PreparationFinished \<Rightarrow> applyPhaseMove PreparationFinished PhasePreparing PhaseSampling t current
   | ModelSampleRequested i \<Rightarrow> applyModelSampleRequested env t current i
   | ModelSampleStarted i n \<Rightarrow> applyModelSampleStarted t current i n
   | ModelSampleFinished a \<Rightarrow> applyModelSampleFinished t current a
   | ModelSampleProgressRecorded a \<Rightarrow> applyModelSampleProgress env t current a
   | ModelSampleResultReceived a \<Rightarrow> applyModelSampleResult env t current a
   | SupplementalUsageRecorded a \<Rightarrow> applySupplementalUsage t current a
   | ProviderRetryRequested a \<Rightarrow> applyProviderRetry t current a
   | ProviderWaitReserved a \<Rightarrow> applyProviderWait t current a
   | ModelTextReceived text \<Rightarrow> applyModelText t current text
   | ReleaseProvisionalOutput \<Rightarrow> applyReleaseOutput t current
   | DiscardProvisionalOutput reason \<Rightarrow> applyDiscardOutput t current reason
   | RepairRequested k p n \<Rightarrow> applyRepairRequested t current k p n
   | EvaluateTurnStep p \<Rightarrow> applyEvaluateTurnStep t current p
   | ObserveProgress a \<Rightarrow> applyObserveProgress env t current a
   | BindWorkItem a \<Rightarrow> applyBindWorkItem env t current a
   | ConvergenceRequested a \<Rightarrow> applyConvergenceRequested t current a
   | ConvergenceFinalizationStarted \<Rightarrow> applyConvergenceFinalizationStarted t current
   | ToolCallsProposed calls \<Rightarrow> applyToolCalls env t current calls
   | ApprovalRequired r i \<Rightarrow> applyApprovalRequired env t current r i
   | ApprovalResolved r \<Rightarrow> applyApprovalResolved t current r
   | ApprovalResultReceived a \<Rightarrow> applyApprovalResult t current a
   | InputRequired r i \<Rightarrow> applyInputRequired env t current r i
   | InputResolved r \<Rightarrow> applyInputResolved t current r
   | InputResultReceived a \<Rightarrow> applyInputResult t current a
   | ToolBatchAdmissionRejected ids r \<Rightarrow> applyToolBatchAdmissionRejection env t current ids r
   | ToolResultReceived a \<Rightarrow> applyToolResult env t current a
   | AbortOpenCalls reason \<Rightarrow> applyAbortOpenCalls t current reason
   | WorkspaceReconciled m cs \<Rightarrow> applyWorkspaceReconciled t current m cs
   | VerificationRetired \<Rightarrow> retireVerification t
   | CompletionEvaluated n \<Rightarrow> applyCompletion t current n
   | CompletionInvalidated reason \<Rightarrow> applyCompletionInvalidated t current reason
   | CancelRequested reason \<Rightarrow> applyCancelRequested t current reason
   | ContinuationRecorded cursor \<Rightarrow> applyContinuationRecorded t current cursor
   | RecoveryRequested a \<Rightarrow> applyRecoveryRequested t current a
   | EffectStarted i n \<Rightarrow> applyEffectStarted t current i n
   | EffectRequeued i \<Rightarrow> applyEffectRequeued t current i
   | EffectResultReceived i ok msg \<Rightarrow> applyEffectResult t current i ok msg
   | PersistenceResultReceived i ok msg \<Rightarrow> applyPersistenceResult t current i ok msg
   | TerminalRequested a \<Rightarrow> applyTerminalRequested env t current a (terminalDecision a)
   | JournalFinalized status \<Rightarrow> applyJournalFinalized t current status
   | JournalResultReceived i status err \<Rightarrow> applyJournalResult t current i status err
   | FinishTerminal \<Rightarrow> applyFinishTerminal t current)"

definition Apply :: "'e KernelEnv_scheme \<Rightarrow> State \<Rightarrow> Command \<Rightarrow> go_error + Transition" where
  "Apply env current command = (case Validate env current of
     Some e \<Rightarrow> Inl (Wrapped ''invalid current turn state: %w'' (Plain e))
   | None \<Rightarrow>
      (if Phase_Terminal (st_Phase current)
         then Inl (illegal current command ''terminal states have no outgoing transitions'')
       else bindR (dispatch env \<lparr>tn_State = cloneState env current, tn_Events = [], tn_Effects = []\<rparr>
                     current command) (\<lambda>t.
         case Validate env (tn_State t) of
           Some e \<Rightarrow> Inl (Wrapped ''command %s produced invalid turn state: %w'' (Plain e))
         | None \<Rightarrow> Inr t)))"

end
