(* ===== verification/Reducer_Frames.thy ===== *)
theory Reducer_Frames
  imports Reducer
begin

text \<open>
  What each handler may write. A \<open>_shape\<close> lemma is the modifies clause of a handler: it returns the
  transition it was given with new values for the listed fields and nothing else touched. The
  proofs about whole commands rest on these lemmas and never unfold a handler for a field it
  cannot reach.
\<close>

section \<open>The effect ledger\<close>

text \<open>Everything but the two effect maps.\<close>

definition core :: "State \<Rightarrow> State" where
  "core s = s\<lparr>st_PendingEffects := fmempty, st_CompletedEffects := fmempty\<rparr>"

lemma core_eq_shape:
  "core s' = core s \<longleftrightarrow> (\<exists>p c. s' = s\<lparr>st_PendingEffects := p, st_CompletedEffects := c\<rparr>)"
proof
  assume "core s' = core s"
  then have "s' = s\<lparr>st_PendingEffects := st_PendingEffects s',
      st_CompletedEffects := st_CompletedEffects s'\<rparr>"
    by (cases s; cases s') (simp add: core_def)
  then show "\<exists>p c. s' = s\<lparr>st_PendingEffects := p, st_CompletedEffects := c\<rparr>" by blast
qed (auto simp: core_def)

lemma finishEffect_Inr: "finishEffect i ok msg t = Inr t' \<longleftrightarrow>
    (\<exists>e. fmlookup (st_PendingEffects (tn_State t)) i = Some e \<and>
      (ef_Status e = EffectRequested \<or> ef_Status e = EffectRunning) \<and> (ok \<or> \<not> blank msg) \<and>
      t' = t\<lparr>tn_State := (tn_State t)\<lparr>
               st_PendingEffects := fmdrop i (st_PendingEffects (tn_State t)),
               st_CompletedEffects := fmupd i (settled ok msg e) (st_CompletedEffects (tn_State t))\<rparr>,
             tn_Events := tn_Events t @ [(event EventEffectFinished)
               \<lparr>ev_EffectID := ef_ID e, ev_CallID := ef_CallID e\<rparr>]\<rparr>)"
  by (auto simp: finishEffect_def settled_def Let_def split: option.splits)

text \<open>
  \<open>settles t t'\<close>: only the effect maps and the events changed, effects only left the pending map
  for the completed one, and no settled effect was touched.
\<close>

definition disjointEffects :: "State \<Rightarrow> bool" where
  "disjointEffects s \<longleftrightarrow> apart (st_PendingEffects s) (st_CompletedEffects s)"

definition settles :: "Transition \<Rightarrow> Transition \<Rightarrow> bool" where
  "settles t t' \<longleftrightarrow> core (tn_State t') = core (tn_State t) \<and> tn_Effects t' = tn_Effects t \<and>
     fmsubset (st_PendingEffects (tn_State t')) (st_PendingEffects (tn_State t)) \<and>
     (disjointEffects (tn_State t) \<longrightarrow> disjointEffects (tn_State t') \<and>
        fmsubset (st_CompletedEffects (tn_State t)) (st_CompletedEffects (tn_State t')))"

lemma settles_refl [simp]: "settles t t"
  by (simp add: settles_def)

lemma settles_trans: "settles a b \<Longrightarrow> settles b c \<Longrightarrow> settles a c"
  by (auto simp: settles_def intro: fmsubset_trans)

lemma settles_shape:
  assumes "settles t t'"
  shows "\<exists>p c. tn_State t' = (tn_State t)\<lparr>st_PendingEffects := p, st_CompletedEffects := c\<rparr>"
  using assms by (simp add: settles_def core_eq_shape)

lemma finishEffect_settles: "finishEffect i ok msg t = Inr t' \<Longrightarrow> settles t t'"
  by (auto simp: finishEffect_Inr settles_def core_def disjointEffects_def
      intro: apart_move fmsubset_move)

lemma tryFinish_settles [simp]: "settles t (tryFinish i ok msg t)"
  by (auto simp: tryFinish_def split: sum.split dest: finishEffect_settles)

lemma closeFirst_settles [simp]: "settles t (closeFirst P ok msg t)"
  by (auto simp: closeFirst_def split: option.split)

lemma closeEffects_settle [simp]:
  "settles t (closeEffectByCall k i ok msg t)"
  "settles t (closeEffectByIdentity k i ok msg t)"
  "settles t (closeFirstEffectByKind k ok msg t)"
  by (simp_all add: closeEffectByCall_def closeEffectByIdentity_def closeFirstEffectByKind_def)

lemma foldl_settles:
  assumes "\<And>t i. settles t (f t i)"
  shows "settles t (foldl f t is)"
  by (induction "is" arbitrary: t) (auto intro: settles_trans assms)

lemma closeEffectsByKind_settles [simp]: "settles t (closeEffectsByKind k ok msg t)"
  by (auto simp: closeEffectsByKind_def intro!: foldl_settles split: option.split)

lemma finishVerifications_settles: "finishVerifications is t = Inr t' \<Longrightarrow> settles t t'"
  by (induction "is" t rule: finishVerifications.induct)
     (auto split: if_splits sum.splits option.splits
       intro: settles_trans finishEffect_settles)

lemma core_eqD:
  assumes "core a = core b"
  shows "st_Phase a = st_Phase b" "st_Intent a = st_Intent b" "st_Mode a = st_Mode b"
    "st_ProfileRevision a = st_ProfileRevision b" "st_Policy a = st_Policy b"
    "st_MutationRevision a = st_MutationRevision b" "st_OpenCalls a = st_OpenCalls b"
    "st_ClosedCalls a = st_ClosedCalls b" "st_PendingApprovals a = st_PendingApprovals b"
    "st_PendingInput a = st_PendingInput b" "st_Workspace a = st_Workspace b"
    "st_Changes a = st_Changes b" "st_Completion a = st_Completion b"
    "st_Continuation a = st_Continuation b" "st_Verification a = st_Verification b"
    "st_Journal a = st_Journal b" "st_Usage a = st_Usage b" "st_Context a = st_Context b"
    "st_SampleLedger a = st_SampleLedger b" "st_ActiveSampleID a = st_ActiveSampleID b"
    "st_Cancellation a = st_Cancellation b" "st_RecoveryRelation a = st_RecoveryRelation b"
    "st_NextEffectSequence a = st_NextEffectSequence b"
    "st_ProvisionalOutput a = st_ProvisionalOutput b" "st_FinalOutput a = st_FinalOutput b"
    "st_Commentary a = st_Commentary b" "st_OutputEligibility a = st_OutputEligibility b"
    "st_RepairBudgets a = st_RepairBudgets b" "st_Progress a = st_Progress b"
    "st_WorkItem a = st_WorkItem b" "st_Convergence a = st_Convergence b"
    "st_NextAction a = st_NextAction b" "st_LastModelContinued a = st_LastModelContinued b"
    "st_UnresolvedToolFailure a = st_UnresolvedToolFailure b"
    "st_RecoveryToolSucceeded a = st_RecoveryToolSucceeded b"
    "st_PendingTerminal a = st_PendingTerminal b" "st_Terminal a = st_Terminal b"
  using assms by (auto simp: core_eq_shape)

lemma settlesD: "settles t t' \<Longrightarrow> core (tn_State t') = core (tn_State t)"
  by (simp add: settles_def)

lemmas settles_frame = core_eqD [OF settlesD]

lemmas close_frame [simp] =
  settles_frame [OF closeEffects_settle(1)] settles_frame [OF closeEffects_settle(2)]
  settles_frame [OF closeEffects_settle(3)] settles_frame [OF closeEffectsByKind_settles]

end
