(* ===== verification/Kernel_Evolution.thy ===== *)
theory Kernel_Evolution
  imports Reducer_Frames
begin

text \<open>
  How a single command may change a turn. \<open>evolves s s'\<close> collects what every accepted command
  keeps: the closed calls and settled effects are only added to, an accepted cancellation stays,
  commentary and samples are never lost, the mutation revision moves together with its changes and
  its journal, the continuation cursor is extended by one, and the terminal transaction holds its
  snapshot. Each handler has its lemma; \<open>dispatch_evolves\<close> joins them.
\<close>

section \<open>The relation\<close>

definition mutates :: "State \<Rightarrow> State \<Rightarrow> bool" where
  "mutates s s' \<longleftrightarrow>
     st_MutationRevision s' = st_MutationRevision s \<and> st_Changes s' = st_Changes s \<or>
     st_MutationRevision s' = st_MutationRevision s + 1 \<and>
       (\<exists>cs. cs \<noteq> [] \<and> st_Changes s' = st_Changes s @ cs) \<and> st_Journal s' = JournalOpen \<and>
       st_Completion s' = None \<and> st_Workspace s' = None"

definition advancesCursor :: "ContinuationCursor option \<Rightarrow> ContinuationCursor option \<Rightarrow> bool" where
  "advancesCursor a b \<longleftrightarrow> b = a \<or> (case b of None \<Rightarrow> False
     | Some c \<Rightarrow> cc_Sequence c = (case a of None \<Rightarrow> 1 | Some p \<Rightarrow> cc_Sequence p + 1))"

definition holdsTransaction :: "State \<Rightarrow> State \<Rightarrow> bool" where
  "holdsTransaction s s' \<longleftrightarrow> (st_Phase s = PhaseCommitting \<longrightarrow>
     st_Usage s' = st_Usage s \<and> st_Context s' = st_Context s \<and>
     st_MutationRevision s' = st_MutationRevision s \<and> st_Changes s' = st_Changes s \<and>
     st_ClosedCalls s' = st_ClosedCalls s \<and> st_Completion s' = st_Completion s \<and>
     st_OutputEligibility s' = st_OutputEligibility s \<and>
     (st_Phase s' = PhaseCommitting \<longrightarrow> st_PendingTerminal s' = st_PendingTerminal s \<and>
        st_ProvisionalOutput s' = st_ProvisionalOutput s) \<and>
     (st_Phase s' \<noteq> PhaseCommitting \<longrightarrow> st_PendingTerminal s \<noteq> None \<and>
        st_Terminal s' = st_PendingTerminal s \<and>
        st_Phase s' = phaseForTerminal (td_Kind (the (st_PendingTerminal s))) \<and>
        st_FinalOutput s' = st_ProvisionalOutput s))"

text \<open>A proposed call stays accounted for, and an accepted cancellation opens no further call.\<close>

definition tracksCalls :: "State \<Rightarrow> State \<Rightarrow> bool" where
  "tracksCalls s s' \<longleftrightarrow>
     fmdom' (st_OpenCalls s) \<union> fmdom' (st_ClosedCalls s) \<subseteq>
       fmdom' (st_OpenCalls s') \<union> fmdom' (st_ClosedCalls s') \<and>
     (cs_Accepted (st_Cancellation s) \<longrightarrow> fmdom' (st_OpenCalls s') \<subseteq> fmdom' (st_OpenCalls s))"

definition evolves :: "State \<Rightarrow> State \<Rightarrow> bool" where
  "evolves s s' \<longleftrightarrow>
     fmsubset (st_ClosedCalls s) (st_ClosedCalls s') \<and>
     fmsubset (st_CompletedEffects s) (st_CompletedEffects s') \<and>
     (cs_Accepted (st_Cancellation s) \<longrightarrow> st_Cancellation s' = st_Cancellation s) \<and>
     st_Intent s' = st_Intent s \<and> st_Mode s' = st_Mode s \<and>
     fmdom' (st_SampleLedger s) \<subseteq> fmdom' (st_SampleLedger s') \<and>
     prefix (st_Commentary s) (st_Commentary s') \<and>
     (st_Phase s \<noteq> PhaseCreated \<longrightarrow> mutates s s') \<and>
     advancesCursor (st_Continuation s) (st_Continuation s') \<and>
     tracksCalls s s' \<and> holdsTransaction s s'"

definition disjointCalls :: "State \<Rightarrow> bool" where
  "disjointCalls s \<longleftrightarrow> apart (st_OpenCalls s) (st_ClosedCalls s)"

text \<open>The transition starts from a copy of the state: only the sample assemblies may differ.\<close>

definition copyOf :: "State \<Rightarrow> State \<Rightarrow> bool" where
  "copyOf s s' \<longleftrightarrow> (\<exists>L. s' = s\<lparr>st_SampleLedger := L\<rparr> \<and> fmdom' L = fmdom' (st_SampleLedger s))"

lemma copyOf_refl [simp]: "copyOf s s"
  unfolding copyOf_def by (rule exI [of _ "st_SampleLedger s"]) simp

lemma cloneState_copyOf [simp]: "copyOf s (cloneState env s)"
  by (auto simp: copyOf_def cloneState_def)

lemma copyOfE:
  assumes "copyOf s (tn_State t)"
  obtains L evs effs where "t = \<lparr>tn_State = s\<lparr>st_SampleLedger := L\<rparr>, tn_Events = evs, tn_Effects = effs\<rparr>"
    "fmdom' L = fmdom' (st_SampleLedger s)"
  using assms by (cases t) (auto simp: copyOf_def)

lemma settles_completed:
  "settles t t' \<Longrightarrow> disjointEffects (tn_State t) \<Longrightarrow>
   fmsubset (st_CompletedEffects (tn_State t)) (st_CompletedEffects (tn_State t'))"
  by (simp add: settles_def)

lemma settles_grows:
  assumes "settles t t'" "disjointEffects (tn_State t)" "fmsubset m (st_CompletedEffects (tn_State t))"
  shows "fmsubset m (st_CompletedEffects (tn_State t'))"
  using fmsubset_trans [OF assms(3) settles_completed [OF assms(1,2)]] .

lemmas close_grows =
  settles_grows [OF closeEffects_settle(1)] settles_grows [OF closeEffects_settle(2)]
  settles_grows [OF closeEffects_settle(3)] settles_grows [OF closeEffectsByKind_settles]

lemma advancesCursor_refl [simp]: "advancesCursor c c"
  by (simp add: advancesCursor_def)

lemma mutates_same [simp]:
  "st_MutationRevision s' = st_MutationRevision s \<Longrightarrow> st_Changes s' = st_Changes s \<Longrightarrow> mutates s s'"
  by (simp add: mutates_def)

lemma tracksCalls_same [simp]:
  "st_OpenCalls s' = st_OpenCalls s \<Longrightarrow> st_ClosedCalls s' = st_ClosedCalls s \<Longrightarrow> tracksCalls s s'"
  by (simp add: tracksCalls_def)

section \<open>Tools and interactions\<close>

lemma requestEffect_frame [simp]:
  "tn_State (requestEffect env k p key c t) =
     (tn_State t)\<lparr>st_NextEffectSequence := st_NextEffectSequence (tn_State t) + 1,
       st_PendingEffects := fmupd (effectID (st_NextEffectSequence (tn_State t) + 1))
         (newEffect env (st_NextEffectSequence (tn_State t) + 1) k p key c)
         (st_PendingEffects (tn_State t))\<rparr>"
  by (simp add: requestEffect_def Let_def newEffect_def)

lemma move_frame [simp]: "tn_State (move p t) = (tn_State t)\<lparr>st_Phase := p\<rparr>"
  by (simp add: move_def)

lemma applyCancelRequested_evolves:
  assumes "applyCancelRequested t s r = Inr t'" "copyOf s (tn_State t)"
  shows "evolves s (tn_State t')"
  using assms(1) by (cases rule: copyOfE [OF assms(2)])
    (auto simp: applyCancelRequested_def evolves_def holdsTransaction_def)

lemma applyRecoveryRequested_evolves:
  assumes "applyRecoveryRequested t s a = Inr t'" "copyOf s (tn_State t)"
  shows "evolves s (tn_State t')"
  using assms(1) by (cases rule: copyOfE [OF assms(2)])
    (auto simp: applyRecoveryRequested_def evolves_def holdsTransaction_def Let_def)

lemma applyContinuationRecorded_evolves:
  assumes "applyContinuationRecorded t s cur = Inr t'" "copyOf s (tn_State t)"
  shows "evolves s (tn_State t')"
  using assms(1) by (cases rule: copyOfE [OF assms(2)])
    (auto simp: applyContinuationRecorded_def evolves_def holdsTransaction_def Let_def
      advancesCursor_def split: option.splits if_splits)

lemma applyApprovalRequired_evolves:
  assumes "applyApprovalRequired env t s r i = Inr t'" "copyOf s (tn_State t)"
  shows "evolves s (tn_State t')"
  using assms(1) by (cases rule: copyOfE [OF assms(2)])
    (auto simp: applyApprovalRequired_def evolves_def holdsTransaction_def Let_def)

lemma applyApprovalResolved_evolves:
  assumes "applyApprovalResolved t s r = Inr t'" "copyOf s (tn_State t)" "disjointEffects s"
  shows "evolves s (tn_State t')"
  using assms(1,3) by (cases rule: copyOfE [OF assms(2)])
    (auto simp: applyApprovalResolved_def evolves_def holdsTransaction_def Let_def disjointEffects_def
      intro!: close_grows)

lemma finishEffect_disjoint:
  "finishEffect i ok msg t = Inr t' \<Longrightarrow> disjointEffects (tn_State t) \<Longrightarrow> disjointEffects (tn_State t')"
  using finishEffect_settles by (auto simp: settles_def)

lemma finishEffect_evolves:
  assumes "finishEffect i ok msg t = Inr t'" "copyOf s (tn_State t)" "disjointEffects s"
  shows "evolves s (tn_State t')"
  using assms(1,3) by (cases rule: copyOfE [OF assms(2)])
    (auto simp: finishEffect_Inr evolves_def holdsTransaction_def disjointEffects_def
      intro: fmsubset_move)

lemma copyOfD:
  assumes "copyOf s s'"
  shows "st_Phase s' = st_Phase s" "st_Intent s' = st_Intent s" "st_Mode s' = st_Mode s"
    "st_MutationRevision s' = st_MutationRevision s" "st_Changes s' = st_Changes s"
    "st_ClosedCalls s' = st_ClosedCalls s" "st_CompletedEffects s' = st_CompletedEffects s"
    "st_PendingEffects s' = st_PendingEffects s" "st_Cancellation s' = st_Cancellation s"
    "fmdom' (st_SampleLedger s') = fmdom' (st_SampleLedger s)"
    "st_Commentary s' = st_Commentary s" "st_Continuation s' = st_Continuation s"
    "st_Usage s' = st_Usage s" "st_Context s' = st_Context s" "st_Completion s' = st_Completion s"
    "st_OutputEligibility s' = st_OutputEligibility s"
    "st_PendingTerminal s' = st_PendingTerminal s"
    "st_ProvisionalOutput s' = st_ProvisionalOutput s" "st_OpenCalls s' = st_OpenCalls s"
    "st_NextEffectSequence s' = st_NextEffectSequence s"
proof -
  obtain L where s': "s' = s\<lparr>st_SampleLedger := L\<rparr>" and d: "fmdom' L = fmdom' (st_SampleLedger s)"
    using assms unfolding copyOf_def by blast
  show "fmdom' (st_SampleLedger s') = fmdom' (st_SampleLedger s)" using s' d by simp
qed (use assms in \<open>force simp: copyOf_def\<close>)+

text \<open>A handler that first settles effects and then goes on evolves the state it started from.\<close>

lemma evolves_settled:
  assumes "copyOf s (tn_State t)" "settles t t1" "disjointEffects s" "evolves (tn_State t1) s'"
  shows "evolves s s'"
proof -
  note fr = settles_frame [OF assms(2)] copyOfD [OF assms(1)]
  have "fmsubset (st_CompletedEffects s) (st_CompletedEffects (tn_State t1))"
    using settles_completed [OF assms(2)] assms(3) by (simp add: disjointEffects_def fr)
  then have "fmsubset (st_CompletedEffects s) (st_CompletedEffects s')"
    using assms(4) by (auto simp: evolves_def intro: fmsubset_trans)
  then show ?thesis
    using assms(4) unfolding evolves_def holdsTransaction_def mutates_def tracksCalls_def by (simp add: fr)
qed

lemma settles_disjoint:
  "settles t t1 \<Longrightarrow> copyOf s (tn_State t) \<Longrightarrow> disjointEffects s \<Longrightarrow> disjointEffects (tn_State t1)"
  by (simp add: settles_def disjointEffects_def copyOfD)

lemma evolves_cancel:
  assumes "evolves s s'" "applyCancelRequested t (tn_State t) r = Inr t'" "s' = tn_State t"
  shows "evolves s (tn_State t')"
proof -
  have c: "\<not> cs_Accepted (st_Cancellation (tn_State t))"
    and t': "tn_State t' = (tn_State t)\<lparr>st_Cancellation :=
      \<lparr>cs_Requested = True, cs_Accepted = True, cs_Reason = r\<rparr>\<rparr>"
    using assms(2) by (auto simp: applyCancelRequested_def split: if_splits)
  then have "\<not> cs_Accepted (st_Cancellation s)"
    using assms(1,3) by (metis evolves_def)
  then show ?thesis
    using assms(1,3) unfolding evolves_def holdsTransaction_def mutates_def tracksCalls_def by (simp add: t')
qed

lemma applyApprovalResult_evolves:
  assumes "applyApprovalResult t s a = Inr t'" "copyOf s (tn_State t)" "disjointEffects s"
  shows "evolves s (tn_State t')"
proof -
  obtain t1 t2 where t1: "finishEffect (aq_EffectID a) (aq_Accepted a) (aq_Error a) t = Inr t1"
    and t2: "applyApprovalResolved t1 (tn_State t1) (aq_RequestID a) = Inr t2"
    and t': "aq_Canceled a \<Longrightarrow> applyCancelRequested t2 (tn_State t2) CancelReasonApprovalCanceled = Inr t'"
      "\<not> aq_Canceled a \<Longrightarrow> t' = t2"
    using assms(1) by (auto simp: applyApprovalResult_def Let_def bindR_Inr_iff split: if_splits)
  note st = finishEffect_settles [OF t1]
  have "evolves (tn_State t1) (tn_State t2)"
    by (rule applyApprovalResolved_evolves [OF t2 copyOf_refl settles_disjoint [OF st assms(2,3)]])
  then have "evolves s (tn_State t2)" by (rule evolves_settled [OF assms(2) st assms(3)])
  then show ?thesis using t' evolves_cancel by (cases "aq_Canceled a") auto
qed

lemma applyInputRequired_evolves:
  assumes "applyInputRequired env t s r i = Inr t'" "copyOf s (tn_State t)"
  shows "evolves s (tn_State t')"
  using assms(1) by (cases rule: copyOfE [OF assms(2)])
    (auto simp: applyInputRequired_def evolves_def holdsTransaction_def Let_def)

lemma applyInputResolved_evolves:
  assumes "applyInputResolved t s r = Inr t'" "copyOf s (tn_State t)" "disjointEffects s"
  shows "evolves s (tn_State t')"
  using assms(1,3) by (cases rule: copyOfE [OF assms(2)])
    (auto simp: applyInputResolved_def evolves_def holdsTransaction_def Let_def disjointEffects_def
      intro!: close_grows)

lemma applyInputResult_evolves:
  assumes "applyInputResult t s a = Inr t'" "copyOf s (tn_State t)" "disjointEffects s"
  shows "evolves s (tn_State t')"
proof -
  obtain t1 where t1: "finishEffect (iq_EffectID a) (iq_Accepted a) (iq_Error a) t = Inr t1"
    and t': "applyInputResolved t1 (tn_State t1) (iq_RequestID a) = Inr t'"
    using assms(1) by (auto simp: applyInputResult_def Let_def bindR_Inr_iff split: if_splits)
  note st = finishEffect_settles [OF t1]
  show ?thesis
    by (rule evolves_settled [OF assms(2) st assms(3)
          applyInputResolved_evolves [OF t' copyOf_refl settles_disjoint [OF st assms(2,3)]]])
qed

lemma proposeCalls_shape:
  "proposeCalls env s c seen calls t = Inr t' \<Longrightarrow>
   \<exists>oc p n. tn_State t' = (tn_State t)\<lparr>st_OpenCalls := oc, st_PendingEffects := p,
     st_NextEffectSequence := n\<rparr> \<and> fmdom' oc = tc_ID ` set calls \<union> fmdom' (st_OpenCalls (tn_State t))"
proof (induction env s c seen calls t rule: proposeCalls.induct)
  case (1 env s c seen t)
  then show ?case
    by (intro exI [of _ "st_OpenCalls (tn_State t)"] exI [of _ "st_PendingEffects (tn_State t)"]
        exI [of _ "st_NextEffectSequence (tn_State t)"]) simp
next
  case (2 env s c seen call rest t)
  then show ?case by (fastforce simp: openCall_def split: if_splits)
qed

lemma applyToolCalls_shape:
  assumes "applyToolCalls env t s calls = Inr t'"
  obtains cs p n ph pr where "tn_State t' = (tn_State t)\<lparr>st_Completion := None,
      st_OutputEligibility := False, st_OpenCalls := cs, st_PendingEffects := p,
      st_NextEffectSequence := n, st_Phase := ph, st_Progress := pr\<rparr>"
    "st_Phase s \<in> {PhaseSampling, PhaseExecutingTools}" "\<not> cs_Accepted (st_Cancellation s)"
    "fmdom' cs = tc_ID ` set calls \<union> fmdom' (st_OpenCalls (tn_State t))"
proof -
  let ?t0 = "withState (\<lambda>s. s\<lparr>st_Completion := None, st_OutputEligibility := False\<rparr>) t"
  obtain t1 where t1: "proposeCalls env s (ToolCallsProposed calls) [] calls ?t0 = Inr t1"
    and g: "st_Phase s \<in> {PhaseSampling, PhaseExecutingTools}" "\<not> cs_Accepted (st_Cancellation s)"
    and t': "t' = withState (\<lambda>s. s\<lparr>st_Progress := (st_Progress s)\<lparr>
        pg_PendingIdentity := FormatToolCallsIdentity env calls, pg_PendingResultDigests := []\<rparr>\<rparr>)
        (if st_Phase s = PhaseSampling then move PhaseExecutingTools t1 else t1)"
    using assms by (auto simp: applyToolCalls_def Let_def bindR_Inr_iff split: if_splits)
  obtain cs p n where "tn_State t1 = (tn_State ?t0)\<lparr>st_OpenCalls := cs, st_PendingEffects := p,
      st_NextEffectSequence := n\<rparr>" and d: "fmdom' cs = tc_ID ` set calls \<union> fmdom' (st_OpenCalls (tn_State t))"
    using proposeCalls_shape [OF t1] by auto
  then have "tn_State t' = (tn_State t)\<lparr>st_Completion := None,
      st_OutputEligibility := False, st_OpenCalls := cs, st_PendingEffects := p,
      st_NextEffectSequence := n, st_Phase := st_Phase (tn_State t'),
      st_Progress := st_Progress (tn_State t')\<rparr>"
    using t' by simp
  then show thesis using g d that by blast
qed

lemma applyToolCalls_evolves:
  assumes "applyToolCalls env t s calls = Inr t'" "copyOf s (tn_State t)"
  shows "evolves s (tn_State t')"
  using assms(1)
  by (cases rule: applyToolCalls_shape)
     (auto simp: evolves_def holdsTransaction_def mutates_def tracksCalls_def copyOfD [OF assms(2)])

lemma rejectCalls_shape:
  "rejectCalls s c r seen is t = Inr t' \<Longrightarrow> fmdom' (st_OpenCalls s) \<subseteq> fmdom' (st_OpenCalls (tn_State t)) \<Longrightarrow>
   \<exists>oc. tn_State t' = (tn_State t)\<lparr>st_OpenCalls := oc\<rparr> \<and> fmdom' oc = fmdom' (st_OpenCalls (tn_State t))"
proof (induction s c r seen "is" t rule: rejectCalls.induct)
  case (1 s c r seen t)
  then show ?case by (intro exI [of _ "st_OpenCalls (tn_State t)"]) simp
next
  case (2 s c r seen i rest t)
  then obtain call where call: "fmlookup (st_OpenCalls s) i = Some call" by (auto split: option.splits)
  then have "i \<in> fmdom' (st_OpenCalls s)" by (rule fmdom'I)
  with 2(3) have "i \<in> fmdom' (st_OpenCalls (tn_State t))" by blast
  then show ?case using 2 call by (fastforce split: if_splits simp: insert_absorb)
qed

lemma applyToolBatchAdmissionRejection_evolves:
  assumes "applyToolBatchAdmissionRejection env t s is r = Inr t'" "copyOf s (tn_State t)"
  shows "evolves s (tn_State t')"
proof -
  have r: "rejectCalls s (ToolBatchAdmissionRejected is r) r [] is t = Inr t'" "st_Phase s = PhaseExecutingTools"
    using assms(1) by (auto simp: applyToolBatchAdmissionRejection_def Let_def)
  obtain oc where "tn_State t' = (tn_State t)\<lparr>st_OpenCalls := oc\<rparr>"
    "fmdom' oc = fmdom' (st_OpenCalls (tn_State t))"
    using rejectCalls_shape [OF r(1)] by (auto simp: copyOfD [OF assms(2)])
  then show ?thesis
    by (simp add: evolves_def holdsTransaction_def tracksCalls_def copyOfD [OF assms(2)] r(2))
qed

subsection \<open>Tool results\<close>

lemma applyWorkItemObservation_shape:
  "\<exists>w. applyWorkItemObservation env s call cs ob e = s\<lparr>st_WorkItem := w\<rparr>"
  by (auto simp: applyWorkItemObservation_def Let_def)

lemma applyWorkItemObservation_frame [simp]:
  "st_ClosedCalls (applyWorkItemObservation env s call cs ob e) = st_ClosedCalls s"
  "st_CompletedEffects (applyWorkItemObservation env s call cs ob e) = st_CompletedEffects s"
  "st_PendingEffects (applyWorkItemObservation env s call cs ob e) = st_PendingEffects s"
  "st_Cancellation (applyWorkItemObservation env s call cs ob e) = st_Cancellation s"
  "st_Intent (applyWorkItemObservation env s call cs ob e) = st_Intent s"
  "st_Mode (applyWorkItemObservation env s call cs ob e) = st_Mode s"
  "st_SampleLedger (applyWorkItemObservation env s call cs ob e) = st_SampleLedger s"
  "st_Commentary (applyWorkItemObservation env s call cs ob e) = st_Commentary s"
  "st_Continuation (applyWorkItemObservation env s call cs ob e) = st_Continuation s"
  "st_MutationRevision (applyWorkItemObservation env s call cs ob e) = st_MutationRevision s"
  "st_Changes (applyWorkItemObservation env s call cs ob e) = st_Changes s"
  "st_Journal (applyWorkItemObservation env s call cs ob e) = st_Journal s"
  "st_Completion (applyWorkItemObservation env s call cs ob e) = st_Completion s"
  "st_Workspace (applyWorkItemObservation env s call cs ob e) = st_Workspace s"
  "st_NextEffectSequence (applyWorkItemObservation env s call cs ob e) = st_NextEffectSequence s"
  "st_OpenCalls (applyWorkItemObservation env s call cs ob e) = st_OpenCalls s"
  using applyWorkItemObservation_shape [of env s call cs ob e] by auto

text \<open>\<open>retires t t'\<close>: \<open>settles\<close>, with pending approvals withdrawn as well.\<close>

definition retires :: "Transition \<Rightarrow> Transition \<Rightarrow> bool" where
  "retires t t' \<longleftrightarrow>
     (\<exists>ap. settles (withState (\<lambda>s. s\<lparr>st_PendingApprovals := ap\<rparr>) t) t')"

lemma retires_refl [simp]: "retires t t"
  unfolding retires_def by (rule exI [of _ "st_PendingApprovals (tn_State t)"]) simp

lemma settles_withApprovals:
  "settles t t' \<Longrightarrow> settles (withState (\<lambda>s. s\<lparr>st_PendingApprovals := ap\<rparr>) t)
     (withState (\<lambda>s. s\<lparr>st_PendingApprovals := ap\<rparr>) t')"
proof -
  have "core (s\<lparr>st_PendingApprovals := ap\<rparr>) = (core s)\<lparr>st_PendingApprovals := ap\<rparr>" for s
    by (rule State.equality) (simp_all add: core_def)
  then show "settles t t' \<Longrightarrow> ?thesis" by (simp add: settles_def disjointEffects_def)
qed

lemma retires_trans:
  assumes "retires a b" "retires b c"
  shows "retires a c"
proof -
  obtain p q where 1: "settles (withState (\<lambda>s. s\<lparr>st_PendingApprovals := p\<rparr>) a) b"
    and 2: "settles (withState (\<lambda>s. s\<lparr>st_PendingApprovals := q\<rparr>) b) c"
    using assms by (auto simp: retires_def)
  from settles_trans [OF settles_withApprovals [OF 1, of q] 2] show ?thesis
    by (auto simp: retires_def)
qed

lemma retireApprovals_retires [simp]: "retires t (retireApprovals reason ids t)"
proof -
  let ?f = "\<lambda>t i. closeEffectByIdentity EffectAwaitApproval i False reason
       (withState (\<lambda>s. s\<lparr>st_PendingApprovals := fmdrop i (st_PendingApprovals s)\<rparr>) t)"
  have "retires t (?f t i)" for t i
    unfolding retires_def
    by (rule exI [of _ "fmdrop i (st_PendingApprovals (tn_State t))"]) simp
  then have "retires t (foldl ?f t ids)"
    by (induction ids arbitrary: t) (auto intro: retires_trans)
  then show ?thesis by (simp add: retireApprovals_def)
qed

lemma retires_frame:
  assumes "retires t t'"
  shows "st_ClosedCalls (tn_State t') = st_ClosedCalls (tn_State t)"
    "st_Cancellation (tn_State t') = st_Cancellation (tn_State t)"
    "st_Intent (tn_State t') = st_Intent (tn_State t)" "st_Mode (tn_State t') = st_Mode (tn_State t)"
    "st_SampleLedger (tn_State t') = st_SampleLedger (tn_State t)"
    "st_Commentary (tn_State t') = st_Commentary (tn_State t)"
    "st_Continuation (tn_State t') = st_Continuation (tn_State t)"
    "st_MutationRevision (tn_State t') = st_MutationRevision (tn_State t)"
    "st_Changes (tn_State t') = st_Changes (tn_State t)"
    "st_Journal (tn_State t') = st_Journal (tn_State t)"
    "st_Completion (tn_State t') = st_Completion (tn_State t)"
    "st_Workspace (tn_State t') = st_Workspace (tn_State t)"
    "st_NextEffectSequence (tn_State t') = st_NextEffectSequence (tn_State t)"
    "st_OpenCalls (tn_State t') = st_OpenCalls (tn_State t)"
proof -
  obtain ap where "settles (withState (\<lambda>s. s\<lparr>st_PendingApprovals := ap\<rparr>) t) t'"
    using assms by (auto simp: retires_def)
  note settles_frame [OF this, simp]
  show "st_ClosedCalls (tn_State t') = st_ClosedCalls (tn_State t)"
    "st_Cancellation (tn_State t') = st_Cancellation (tn_State t)"
    "st_Intent (tn_State t') = st_Intent (tn_State t)" "st_Mode (tn_State t') = st_Mode (tn_State t)"
    "st_SampleLedger (tn_State t') = st_SampleLedger (tn_State t)"
    "st_Commentary (tn_State t') = st_Commentary (tn_State t)"
    "st_Continuation (tn_State t') = st_Continuation (tn_State t)"
    "st_MutationRevision (tn_State t') = st_MutationRevision (tn_State t)"
    "st_Changes (tn_State t') = st_Changes (tn_State t)"
    "st_Journal (tn_State t') = st_Journal (tn_State t)"
    "st_Completion (tn_State t') = st_Completion (tn_State t)"
    "st_Workspace (tn_State t') = st_Workspace (tn_State t)"
    "st_NextEffectSequence (tn_State t') = st_NextEffectSequence (tn_State t)"
    "st_OpenCalls (tn_State t') = st_OpenCalls (tn_State t)" by simp_all
qed

lemma retires_grows:
  assumes "retires t t'" "disjointEffects (tn_State t)"
  shows "fmsubset (st_CompletedEffects (tn_State t)) (st_CompletedEffects (tn_State t'))"
    "disjointEffects (tn_State t')"
  using assms by (auto simp: retires_def settles_def disjointEffects_def)

lemma releaseInput_frame [simp]:
  "st_ClosedCalls (tn_State (releaseInput s i t)) = st_ClosedCalls (tn_State t)"
  "st_Cancellation (tn_State (releaseInput s i t)) = st_Cancellation (tn_State t)"
  "st_Intent (tn_State (releaseInput s i t)) = st_Intent (tn_State t)"
  "st_Mode (tn_State (releaseInput s i t)) = st_Mode (tn_State t)"
  "st_SampleLedger (tn_State (releaseInput s i t)) = st_SampleLedger (tn_State t)"
  "st_Commentary (tn_State (releaseInput s i t)) = st_Commentary (tn_State t)"
  "st_Continuation (tn_State (releaseInput s i t)) = st_Continuation (tn_State t)"
  "st_MutationRevision (tn_State (releaseInput s i t)) = st_MutationRevision (tn_State t)"
  "st_Changes (tn_State (releaseInput s i t)) = st_Changes (tn_State t)"
  "st_OpenCalls (tn_State (releaseInput s i t)) = st_OpenCalls (tn_State t)"
  "st_NextEffectSequence (tn_State (releaseInput s i t)) = st_NextEffectSequence (tn_State t)"
  by (simp_all add: releaseInput_def)

lemma releaseInput_grows:
  assumes "disjointEffects (tn_State t)"
  shows "fmsubset (st_CompletedEffects (tn_State t)) (st_CompletedEffects (tn_State (releaseInput s i t)))"
    "disjointEffects (tn_State (releaseInput s i t))"
proof -
  let ?t = "withState (\<lambda>s. s\<lparr>st_PendingInput := None,
      st_Convergence := map_option reopenConvergence (st_Convergence s)\<rparr>) t"
  have "settles ?t (closeEffectByIdentity k j ok m ?t)" for k j ok m by simp
  then show "fmsubset (st_CompletedEffects (tn_State t)) (st_CompletedEffects (tn_State (releaseInput s i t)))"
    "disjointEffects (tn_State (releaseInput s i t))"
    using assms by (simp_all add: releaseInput_def settles_def disjointEffects_def)
qed

lemma releaseApprovals_retires [simp]: "retires t (releaseApprovals s i t)"
  by (simp add: releaseApprovals_def)

lemmas releaseApprovals_frame [simp] = retires_frame [OF releaseApprovals_retires]

lemma observeMutation_frame [simp]:
  "st_ClosedCalls (tn_State (observeMutation cs t)) = st_ClosedCalls (tn_State t)"
  "st_CompletedEffects (tn_State (observeMutation cs t)) = st_CompletedEffects (tn_State t)"
  "st_PendingEffects (tn_State (observeMutation cs t)) = st_PendingEffects (tn_State t)"
  "st_Cancellation (tn_State (observeMutation cs t)) = st_Cancellation (tn_State t)"
  "st_Intent (tn_State (observeMutation cs t)) = st_Intent (tn_State t)"
  "st_Mode (tn_State (observeMutation cs t)) = st_Mode (tn_State t)"
  "st_SampleLedger (tn_State (observeMutation cs t)) = st_SampleLedger (tn_State t)"
  "st_Commentary (tn_State (observeMutation cs t)) = st_Commentary (tn_State t)"
  "st_Continuation (tn_State (observeMutation cs t)) = st_Continuation (tn_State t)"
  "st_NextEffectSequence (tn_State (observeMutation cs t)) = st_NextEffectSequence (tn_State t)"
  "st_OpenCalls (tn_State (observeMutation cs t)) = st_OpenCalls (tn_State t)"
  by (simp_all add: observeMutation_def Let_def)

lemma observeMutation_mutates: "mutates (tn_State t) (tn_State (observeMutation cs t))"
  by (simp add: observeMutation_def mutates_def Let_def)

lemma mutates_cong:
  assumes "mutates a b" "st_MutationRevision a' = st_MutationRevision a"
    "st_Changes a' = st_Changes a" "st_MutationRevision b' = st_MutationRevision b"
    "st_Changes b' = st_Changes b" "st_Journal b' = st_Journal b"
    "st_Completion b' = st_Completion b" "st_Workspace b' = st_Workspace b"
  shows "mutates a' b'"
  using assms by (simp add: mutates_def)

lemma late_frame [simp]:
  "tn_State (markFailure s c t) = (tn_State t)\<lparr>
     st_UnresolvedToolFailure := (tq_IsError c \<or> st_UnresolvedToolFailure (tn_State t)),
     st_RecoveryToolSucceeded := (if tq_IsError c then False
       else st_UnresolvedToolFailure s \<or> st_RecoveryToolSucceeded (tn_State t))\<rparr>"
  by (simp add: markFailure_def)

lemma recordDigest_shape: "\<exists>p. tn_State (recordDigest c t) = (tn_State t)\<lparr>st_Progress := p\<rparr>"
  by (auto simp: recordDigest_def Let_def intro: exI [of _ "st_Progress (tn_State t)"])

lemma settlePhase_shape: "\<exists>p. tn_State (settlePhase t) = (tn_State t)\<lparr>st_Phase := p\<rparr>"
  by (auto simp: settlePhase_def)

lemma closeCall_tail:
  "\<exists>p q w. tn_State (closeCall env s c call t) =
     (tn_State (observeMutation (tq_Changes c) (markFailure s c (releaseApprovals s (tq_CallID c)
        (recordClosed c call (releaseInput s (tq_CallID c) t))))))
       \<lparr>st_WorkItem := w, st_Progress := p, st_Phase := q\<rparr>"
proof -
  let ?t5 = "observeMutation (tq_Changes c) (markFailure s c (releaseApprovals s (tq_CallID c)
        (recordClosed c call (releaseInput s (tq_CallID c) t))))"
  let ?t6 = "withState (\<lambda>s. applyWorkItemObservation env s call (tq_Changes c) (tq_Observation c)
              (tq_IsError c)) ?t5"
  obtain w where w: "tn_State ?t6 = (tn_State ?t5)\<lparr>st_WorkItem := w\<rparr>"
    using applyWorkItemObservation_shape by (metis Transition.select_convs(1)
        Transition.surjective Transition.update_convs(1))
  obtain p where p: "tn_State (recordDigest c ?t6) = (tn_State ?t6)\<lparr>st_Progress := p\<rparr>"
    using recordDigest_shape by blast
  obtain q where q: "tn_State (settlePhase (recordDigest c ?t6)) =
      (tn_State (recordDigest c ?t6))\<lparr>st_Phase := q\<rparr>" using settlePhase_shape by blast
  show ?thesis using w p q unfolding closeCall_def Let_def by metis
qed

lemma applyToolResult_Inr:
  assumes "applyToolResult env t s c = Inr t'"
  obtains call e t1 where "fmlookup (st_OpenCalls s) (tq_CallID c) = Some call"
    "fmlookup (st_PendingEffects s) (tq_EffectID c) = Some e" "ef_Kind e = EffectExecuteTool"
    "ef_CallID e = tq_CallID c" "ef_Status e = EffectRunning"
    "finishEffect (tq_EffectID c) True [] t = Inr t1" "t' = closeCall env s c call t1"
    "st_Phase s \<in> {PhaseExecutingTools, PhaseAwaitingApproval, PhaseAwaitingInput}"
    "approvalsFor s (tq_CallID c) = [] \<or> cs_Accepted (st_Cancellation s)"
  using assms by (auto simp: applyToolResult_def Let_def split: if_splits option.splits)


lemma closeCall_evolves:
  assumes "copyOf s (tn_State t0)" "settles t0 t" "disjointEffects s" "disjointCalls s"
    "fmlookup (st_OpenCalls s) (tq_CallID c) = Some call" "st_Phase s \<noteq> PhaseCommitting"
  shows "evolves s (tn_State (closeCall env s c call t))"
proof -
  let ?a = "releaseInput s (tq_CallID c) t"
  let ?b = "recordClosed c call ?a"
  let ?d = "markFailure s c (releaseApprovals s (tq_CallID c) ?b)"
  let ?e = "observeMutation (tq_Changes c) ?d"
  obtain p q w where tail: "tn_State (closeCall env s c call t) =
      (tn_State ?e)\<lparr>st_WorkItem := w, st_Progress := p, st_Phase := q\<rparr>"
    using closeCall_tail by blast
  note copy = settles_frame [OF assms(2)] copyOfD [OF assms(1)]
  have dt: "disjointEffects (tn_State t)" by (rule settles_disjoint [OF assms(2,1,3)])
  have b: "st_ClosedCalls (tn_State ?b) = fmupd (tq_CallID c) \<lparr>tr_ID = tq_CallID c,
       tr_Name = tc_Name call, tr_IsError = tq_IsError c\<rparr> (st_ClosedCalls s)"
    by (simp add: recordClosed_def copy)
  have closed: "fmsubset (st_ClosedCalls s) (st_ClosedCalls (tn_State ?b))"
    using fmsubset_move assms(4,5) by (metis b disjointCalls_def)
  have disj: "disjointEffects (tn_State ?b)"
    "st_CompletedEffects (tn_State ?b) = st_CompletedEffects (tn_State ?a)"
    using releaseInput_grows(2) [OF dt] by (simp_all add: recordClosed_def disjointEffects_def)
  have "fmsubset (st_CompletedEffects s) (st_CompletedEffects (tn_State ?a))"
    by (rule fmsubset_trans [OF _ releaseInput_grows(1) [OF dt]])
       (rule settles_grows [OF assms(2)], use assms(3) in \<open>simp_all add: disjointEffects_def copyOfD [OF assms(1)]\<close>)
  then have effects: "fmsubset (st_CompletedEffects s)
      (st_CompletedEffects (tn_State (releaseApprovals s (tq_CallID c) ?b)))"
    using retires_grows(1) [OF releaseApprovals_retires disj(1)] disj(2) fmsubset_trans by fastforce
  have mut: "mutates s (tn_State (closeCall env s c call t))"
    by (rule mutates_cong [OF observeMutation_mutates [of ?d "tq_Changes c"]])
       (simp_all add: tail recordClosed_def copy)
  have calls: "tracksCalls s (tn_State (closeCall env s c call t))"
    by (auto simp: tracksCalls_def tail recordClosed_def copy)
  show ?thesis
    using mut closed effects assms(6) calls
    by (simp add: evolves_def holdsTransaction_def tail recordClosed_def copy)
qed

lemma applyToolResult_evolves:
  assumes "applyToolResult env t s c = Inr t'" "copyOf s (tn_State t)" "disjointEffects s" "disjointCalls s"
  shows "evolves s (tn_State t')"
proof -
  obtain call e t1 where call: "fmlookup (st_OpenCalls s) (tq_CallID c) = Some call"
    and fin: "finishEffect (tq_EffectID c) True [] t = Inr t1" and t': "t' = closeCall env s c call t1"
    and ph: "st_Phase s \<in> {PhaseExecutingTools, PhaseAwaitingApproval, PhaseAwaitingInput}"
    by (rule applyToolResult_Inr [OF assms(1)])
  show ?thesis unfolding t'
    by (rule closeCall_evolves [OF assms(2) finishEffect_settles [OF fin] assms(3,4) call]) (use ph in auto)
qed

end
