(* ===== verification/Turn_Evolution.thy ===== *)
theory Turn_Evolution
  imports Kernel_Evolution
begin

text \<open>
  The remaining handlers and the whole command: \<open>dispatch_evolves\<close> joins the handler lemmas, and
  \<open>Apply\<close> keeps the invariants that \<open>evolves\<close> needs, so they hold along every run of a turn.
\<close>

section \<open>Aborting open calls\<close>

text \<open>\<open>aborts t t'\<close>: calls moved from open to closed and effects settled, nothing else.\<close>

definition aborts :: "Transition \<Rightarrow> Transition \<Rightarrow> bool" where
  "aborts t t' \<longleftrightarrow> (\<exists>oc cc p c. tn_State t' = (tn_State t)\<lparr>st_OpenCalls := oc, st_ClosedCalls := cc,
       st_PendingEffects := p, st_CompletedEffects := c\<rparr>) \<and>
     (disjointEffects (tn_State t) \<longrightarrow> disjointEffects (tn_State t') \<and>
        fmsubset (st_CompletedEffects (tn_State t)) (st_CompletedEffects (tn_State t')))"

lemma aborts_refl [simp]: "aborts t t"
  unfolding aborts_def
  by (rule conjI, intro exI [of _ "st_OpenCalls (tn_State t)"] exI [of _ "st_ClosedCalls (tn_State t)"]
      exI [of _ "st_PendingEffects (tn_State t)"] exI [of _ "st_CompletedEffects (tn_State t)"]) simp_all

lemma aborts_trans: "aborts a b \<Longrightarrow> aborts b c \<Longrightarrow> aborts a c"
  unfolding aborts_def by (elim conjE exE, rule conjI, force) (blast intro: fmsubset_trans)

lemma abortCall_aborts [simp]: "aborts t (abortCall s reason t i)"
proof -
  let ?u = "withState (\<lambda>u. u\<lparr>st_OpenCalls := fmdrop i (st_OpenCalls u),
            st_ClosedCalls := fmupd i \<lparr>tr_ID = i, tr_Name = (case fmlookup (st_OpenCalls s) i of
                           None \<Rightarrow> [] | Some call \<Rightarrow> tc_Name call),
              tr_IsError = True\<rparr> (st_ClosedCalls u)\<rparr>) t"
  let ?v = "closeEffectByCall EffectExecuteTool i False reason ?u"
  have st: "settles ?u ?v" by simp
  obtain p c where "tn_State ?v = (tn_State ?u)\<lparr>st_PendingEffects := p, st_CompletedEffects := c\<rparr>"
    using settles_shape [OF st] by blast
  then have shape: "tn_State ?v = (tn_State t)\<lparr>st_OpenCalls := st_OpenCalls (tn_State ?u),
     st_ClosedCalls := st_ClosedCalls (tn_State ?u), st_PendingEffects := p, st_CompletedEffects := c\<rparr>"
    by simp
  have "aborts t ?v"
    unfolding aborts_def
  proof (intro conjI exI impI)
    show "tn_State ?v = (tn_State t)\<lparr>st_OpenCalls := st_OpenCalls (tn_State ?u),
       st_ClosedCalls := st_ClosedCalls (tn_State ?u), st_PendingEffects := p, st_CompletedEffects := c\<rparr>"
      by (fact shape)
  qed (use st in \<open>simp_all add: settles_def disjointEffects_def\<close>)
  then show ?thesis by (simp add: abortCall_def aborts_def)
qed

lemma abortCalls_aborts: "aborts t (foldl (abortCall s reason) t is)"
  by (induction "is" arbitrary: t) (simp, metis aborts_trans abortCall_aborts foldl.simps(2))

lemma abortCall_calls [simp]:
  "st_OpenCalls (tn_State (abortCall s reason t i)) = fmdrop i (st_OpenCalls (tn_State t))"
  "st_ClosedCalls (tn_State (abortCall s reason t i)) = fmupd i \<lparr>tr_ID = i,
     tr_Name = (case fmlookup (st_OpenCalls s) i of None \<Rightarrow> [] | Some call \<Rightarrow> tc_Name call),
     tr_IsError = True\<rparr> (st_ClosedCalls (tn_State t))"
  by (simp_all add: abortCall_def)

lemma abortCalls_open:
  "st_OpenCalls (tn_State (foldl (abortCall s reason) t is)) =
     fmdrop_set (set is) (st_OpenCalls (tn_State t))"
  by (induction "is" arbitrary: t) (auto intro!: fmap_ext)

lemma abortCalls_closed:
  "fmlookup (st_ClosedCalls (tn_State (foldl (abortCall s reason) t is))) k =
     (if k \<in> set is then Some \<lparr>tr_ID = k,
        tr_Name = (case fmlookup (st_OpenCalls s) k of None \<Rightarrow> [] | Some call \<Rightarrow> tc_Name call),
        tr_IsError = True\<rparr>
      else fmlookup (st_ClosedCalls (tn_State t)) k)"
  by (induction "is" arbitrary: t) auto


lemma aborts_frame:
  assumes "aborts t t'"
  shows "st_Phase (tn_State t') = st_Phase (tn_State t)"
    "st_Cancellation (tn_State t') = st_Cancellation (tn_State t)"
    "st_Intent (tn_State t') = st_Intent (tn_State t)" "st_Mode (tn_State t') = st_Mode (tn_State t)"
    "st_SampleLedger (tn_State t') = st_SampleLedger (tn_State t)"
    "st_Commentary (tn_State t') = st_Commentary (tn_State t)"
    "st_Continuation (tn_State t') = st_Continuation (tn_State t)"
    "st_MutationRevision (tn_State t') = st_MutationRevision (tn_State t)"
    "st_Changes (tn_State t') = st_Changes (tn_State t)"
    "st_NextEffectSequence (tn_State t') = st_NextEffectSequence (tn_State t)"
  using assms by (auto simp: aborts_def)

lemma applyAbortOpenCalls_Inr:
  assumes "applyAbortOpenCalls t s reason = Inr t'"
  obtains t1 where "t1 = foldl (abortCall s reason) t (keys (st_OpenCalls s))" "\<not> blank reason"
    "st_Phase s = PhaseExecutingTools \<or> st_Phase s = PhaseAwaitingApproval"
    "t' = move PhaseSampling (closeEffectsByKind EffectAwaitApproval False reason
       (withState (\<lambda>s. s\<lparr>st_PendingApprovals := fmempty\<rparr>) t1))"
  using assms by (auto simp: applyAbortOpenCalls_def Let_def split: if_splits)

lemma applyAbortOpenCalls_evolves:
  assumes "applyAbortOpenCalls t s reason = Inr t'" "copyOf s (tn_State t)" "disjointEffects s" "disjointCalls s"
  shows "evolves s (tn_State t')"
proof -
  obtain t1 where t1: "t1 = foldl (abortCall s reason) t (keys (st_OpenCalls s))"
    and ph: "st_Phase s = PhaseExecutingTools \<or> st_Phase s = PhaseAwaitingApproval"
    and t': "t' = move PhaseSampling (closeEffectsByKind EffectAwaitApproval False reason
       (withState (\<lambda>s. s\<lparr>st_PendingApprovals := fmempty\<rparr>) t1))"
    by (rule applyAbortOpenCalls_Inr [OF assms(1)])
  let ?u = "withState (\<lambda>s. s\<lparr>st_PendingApprovals := fmempty\<rparr>) t1"
  have ab: "aborts t t1" using abortCalls_aborts by (simp add: t1)
  note copy = copyOfD [OF assms(2)] aborts_frame [OF ab]
  have dt: "disjointEffects (tn_State t)" using assms(3) by (simp add: disjointEffects_def copy)
  have grow: "fmsubset (st_CompletedEffects s) (st_CompletedEffects (tn_State t1))"
    and d1: "disjointEffects (tn_State ?u)"
    using ab dt by (simp_all add: aborts_def disjointEffects_def copyOfD [OF assms(2)])
  have effects: "fmsubset (st_CompletedEffects s) (st_CompletedEffects (tn_State t'))"
    unfolding t' using settles_grows [OF closeEffectsByKind_settles d1] grow by simp
  have closed: "fmsubset (st_ClosedCalls s) (st_ClosedCalls (tn_State t1))"
    using assms(4)
    by (auto simp: fmsubset_alt_def fmpred_iff t1 abortCalls_closed copy disjointCalls_def
        fmlookup_dom'_iff dest: apartD)
  have calls: "tracksCalls s (tn_State t')"
    by (auto simp: tracksCalls_def t' t1 abortCalls_open abortCalls_closed copyOfD [OF assms(2)]
        fmlookup_dom'_iff)
  show ?thesis
    using effects closed ph calls
    by (auto simp: evolves_def holdsTransaction_def t' copy)
qed

section \<open>Samples\<close>

lemma applyModelSampleRequested_evolves:
  assumes "applyModelSampleRequested env t s i = Inr t'" "copyOf s (tn_State t)"
  shows "evolves s (tn_State t')"
  using assms(1) by (cases rule: copyOfE [OF assms(2)])
    (auto simp: applyModelSampleRequested_def evolves_def holdsTransaction_def Let_def)

lemma applyModelSampleStarted_evolves:
  assumes "applyModelSampleStarted t s i n = Inr t'" "copyOf s (tn_State t)"
  shows "evolves s (tn_State t')"
  using assms(1) by (cases rule: copyOfE [OF assms(2)])
    (auto simp: applyModelSampleStarted_def evolves_def holdsTransaction_def Let_def)

lemma applyModelSampleFinished_evolves:
  assumes "applyModelSampleFinished t s a = Inr t'" "copyOf s (tn_State t)"
  shows "evolves s (tn_State t')"
  using assms(1) by (cases rule: copyOfE [OF assms(2)])
    (auto simp: applyModelSampleFinished_def evolves_def holdsTransaction_def Let_def split: if_splits)

lemma applyModelSampleProgress_evolves:
  assumes "applyModelSampleProgress env t s a = Inr t'" "copyOf s (tn_State t)"
  shows "evolves s (tn_State t')"
  using assms(1) by (cases rule: copyOfE [OF assms(2)])
    (auto simp: applyModelSampleProgress_def evolves_def holdsTransaction_def Let_def
      split: if_splits option.splits)

lemma recordText_frame [simp]:
  "st_ClosedCalls (tn_State (recordText s a t)) = st_ClosedCalls (tn_State t)"
  "st_CompletedEffects (tn_State (recordText s a t)) = st_CompletedEffects (tn_State t)"
  "st_PendingEffects (tn_State (recordText s a t)) = st_PendingEffects (tn_State t)"
  "st_Cancellation (tn_State (recordText s a t)) = st_Cancellation (tn_State t)"
  "st_Intent (tn_State (recordText s a t)) = st_Intent (tn_State t)"
  "st_Mode (tn_State (recordText s a t)) = st_Mode (tn_State t)"
  "st_Phase (tn_State (recordText s a t)) = st_Phase (tn_State t)"
  "st_SampleLedger (tn_State (recordText s a t)) = st_SampleLedger (tn_State t)"
  "st_Continuation (tn_State (recordText s a t)) = st_Continuation (tn_State t)"
  "st_MutationRevision (tn_State (recordText s a t)) = st_MutationRevision (tn_State t)"
  "st_Changes (tn_State (recordText s a t)) = st_Changes (tn_State t)"
  "st_OpenCalls (tn_State (recordText s a t)) = st_OpenCalls (tn_State t)"
  "st_NextEffectSequence (tn_State (recordText s a t)) = st_NextEffectSequence (tn_State t)"
  by (simp_all add: recordText_def)

lemma recordText_prefix: "prefix (st_Commentary (tn_State t)) (st_Commentary (tn_State (recordText s a t)))"
  by (simp add: recordText_def)

text \<open>
  A settled sample result: the effect is finished, the ledger entry settled and the text recorded;
  the calls of the answer are proposed on top of that.
\<close>

lemma applyModelSampleResult_Inr:
  assumes "applyModelSampleResult env t s a = Inr t'"
  obtains t1 where "finishEffect (mr_EffectID a) (mr_Error a = []) (mr_Error a) t = Inr t1"
    "st_Phase s = PhaseSampling" "resultAdmissible s a"
    "mr_Error a \<noteq> [] \<Longrightarrow> t' = recordSample s a t1"
    "mr_Error a = [] \<Longrightarrow> mr_Calls a = [] \<Longrightarrow> t' = withState (\<lambda>u. u\<lparr>st_Progress :=
        (st_Progress u)\<lparr>pg_PendingIdentity := []\<rparr>\<rparr>) (recordText s a (recordSample s a t1))"
    "mr_Error a = [] \<Longrightarrow> mr_Calls a \<noteq> [] \<Longrightarrow>
      (let t3 = recordText s a (recordSample s a t1)
       in applyToolCalls env t3 (tn_State t3) (mr_Calls a)) = Inr t'"
proof -
  have g: "st_Phase s = PhaseSampling" "resultAdmissible s a"
    using assms unfolding applyModelSampleResult_def Let_def guard_Inr if_Inl_eq_Inr by simp_all
  have b: "bindR (map_sum (illegalErr s (ModelSampleResultReceived a)) id
       (finishEffect (mr_EffectID a) (mr_Error a = []) (mr_Error a) t)) (\<lambda>t1.
       let t2 = recordSample s a t1
       in if mr_Error a \<noteq> [] then Inr t2
          else let t3 = recordText s a t2 in
            if mr_Calls a \<noteq> [] then applyToolCalls env t3 (tn_State t3) (mr_Calls a)
            else Inr (withState (\<lambda>s. s\<lparr>st_Progress :=
                   (st_Progress s)\<lparr>pg_PendingIdentity := []\<rparr>\<rparr>) t3)) = Inr t'"
    using assms unfolding applyModelSampleResult_def Let_def guard_Inr if_Inl_eq_Inr by (elim conjE)
  from b obtain t1 where "finishEffect (mr_EffectID a) (mr_Error a = []) (mr_Error a) t = Inr t1"
    and "(let t2 = recordSample s a t1
       in if mr_Error a \<noteq> [] then Inr t2
          else let t3 = recordText s a t2 in
            if mr_Calls a \<noteq> [] then applyToolCalls env t3 (tn_State t3) (mr_Calls a)
            else Inr (withState (\<lambda>s. s\<lparr>st_Progress :=
                   (st_Progress s)\<lparr>pg_PendingIdentity := []\<rparr>\<rparr>) t3)) = Inr t'"
    by (simp only: bindR_Inr_iff map_sum_Inr id_apply) blast
  with g show thesis by (intro that [of t1]) (simp_all add: Let_def)
qed

lemma recordSample_frame [simp]:
  "st_ClosedCalls (tn_State (recordSample s a t)) = st_ClosedCalls (tn_State t)"
  "st_CompletedEffects (tn_State (recordSample s a t)) = st_CompletedEffects (tn_State t)"
  "st_PendingEffects (tn_State (recordSample s a t)) = st_PendingEffects (tn_State t)"
  "st_Cancellation (tn_State (recordSample s a t)) = st_Cancellation (tn_State t)"
  "st_Intent (tn_State (recordSample s a t)) = st_Intent (tn_State t)"
  "st_Mode (tn_State (recordSample s a t)) = st_Mode (tn_State t)"
  "st_Phase (tn_State (recordSample s a t)) = st_Phase (tn_State t)"
  "st_Commentary (tn_State (recordSample s a t)) = st_Commentary (tn_State t)"
  "st_Continuation (tn_State (recordSample s a t)) = st_Continuation (tn_State t)"
  "st_MutationRevision (tn_State (recordSample s a t)) = st_MutationRevision (tn_State t)"
  "st_Changes (tn_State (recordSample s a t)) = st_Changes (tn_State t)"
  "st_OpenCalls (tn_State (recordSample s a t)) = st_OpenCalls (tn_State t)"
  "st_NextEffectSequence (tn_State (recordSample s a t)) = st_NextEffectSequence (tn_State t)"
  "fmdom' (st_SampleLedger (tn_State (recordSample s a t))) =
     insert (mr_SampleID a) (fmdom' (st_SampleLedger (tn_State t)))"
  by (simp_all add: recordSample_def Let_def)

lemma applyModelSampleResult_evolves:
  assumes "applyModelSampleResult env t s a = Inr t'" "copyOf s (tn_State t)" "disjointEffects s"
  shows "evolves s (tn_State t')"
proof -
  obtain t1 where fin: "finishEffect (mr_EffectID a) (mr_Error a = []) (mr_Error a) t = Inr t1"
    and ph: "st_Phase s = PhaseSampling"
    and t': "mr_Error a \<noteq> [] \<Longrightarrow> t' = recordSample s a t1"
    "mr_Error a = [] \<Longrightarrow> mr_Calls a = [] \<Longrightarrow> t' = withState (\<lambda>u. u\<lparr>st_Progress :=
        (st_Progress u)\<lparr>pg_PendingIdentity := []\<rparr>\<rparr>) (recordText s a (recordSample s a t1))"
    "mr_Error a = [] \<Longrightarrow> mr_Calls a \<noteq> [] \<Longrightarrow>
      (let t3 = recordText s a (recordSample s a t1)
       in applyToolCalls env t3 (tn_State t3) (mr_Calls a)) = Inr t'"
    by (rule applyModelSampleResult_Inr [OF assms(1)]) blast
  note st = finishEffect_settles [OF fin]
  note copy = settles_frame [OF st] copyOfD [OF assms(2)]
  let ?t2 = "recordSample s a t1"
  let ?t3 = "recordText s a ?t2"
  have "fmsubset (st_CompletedEffects s) (st_CompletedEffects (tn_State t1))"
    by (rule settles_grows [OF st]) (use assms(3) in \<open>simp_all add: disjointEffects_def copyOfD [OF assms(2)]\<close>)
  then have base: "evolves s (tn_State ?t2)" "evolves s (tn_State ?t3)"
    using recordText_prefix [of ?t2 s a]
    by (auto simp: evolves_def holdsTransaction_def copy ph)
  consider "mr_Error a \<noteq> []" | "mr_Error a = []" "mr_Calls a = []" | "mr_Error a = []" "mr_Calls a \<noteq> []" by blast
  then show ?thesis
  proof cases
    case 1
    then show ?thesis using base(1) t'(1) by simp
  next
    case 2
    then show ?thesis using base(2) t'(2)
      by (simp add: evolves_def holdsTransaction_def mutates_def tracksCalls_def ph)
  next
    case 3
    then have "applyToolCalls env ?t3 (tn_State ?t3) (mr_Calls a) = Inr t'" using t'(3) by (simp add: Let_def)
    then show ?thesis
      by (cases rule: applyToolCalls_shape)
         (use base(2) in \<open>auto simp: evolves_def holdsTransaction_def mutates_def tracksCalls_def ph copy\<close>)
  qed
qed

lemma applySupplementalUsage_evolves:
  assumes "applySupplementalUsage t s a = Inr t'" "copyOf s (tn_State t)"
  shows "evolves s (tn_State t')"
  using assms(1) by (cases rule: copyOfE [OF assms(2)])
    (auto simp: applySupplementalUsage_def evolves_def holdsTransaction_def Let_def)

lemma applyProviderRetry_Inr:
  assumes "applyProviderRetry t s a = Inr t'"
  obtains e sample where "fmlookup (st_PendingEffects s) (pq_EffectID a) = Some e"
    "st_Phase s = PhaseSampling" "ef_Status e = EffectRunning"
    "sample = get_or zeroSample (st_SampleLedger s) (pq_SampleID a)"
    "pq_Retry a = ms_ProviderRetries sample + 1" "0 \<le> sint (pq_EffectiveDelay a)"
    "fl_Code (pq_Failure a) = FailureRateLimit \<Longrightarrow>
      \<not> waitOverflows (pb_RateLimitWaited (ms_RetryBudget sample)) (pq_EffectiveDelay a)"
    "tn_State t' = (tn_State t)\<lparr>
       st_SampleLedger := fmupd (pq_SampleID a) (reserveRetry a sample) (st_SampleLedger (tn_State t)),
       st_ActiveSampleID := [],
       st_PendingEffects := fmupd (pq_EffectID a) (e\<lparr>ef_Status := EffectRequested\<rparr>)
         (st_PendingEffects (tn_State t))\<rparr>"
proof (cases "fmlookup (st_PendingEffects s) (pq_EffectID a)")
  case None
  then show ?thesis using assms by (simp add: applyProviderRetry_def Let_def)
next
  case (Some e)
  show ?thesis
    by (rule that [OF Some _ _ refl])
       (use assms Some in \<open>clarsimp simp: applyProviderRetry_def Let_def not_less\<close>)+
qed

lemma applyProviderRetry_evolves:
  assumes "applyProviderRetry t s a = Inr t'" "copyOf s (tn_State t)"
  shows "evolves s (tn_State t')"
  using assms(1)
  by (cases rule: applyProviderRetry_Inr)
     (auto simp: evolves_def holdsTransaction_def copyOfD [OF assms(2)])

lemma applyProviderWait_evolves:
  assumes "applyProviderWait t s a = Inr t'" "copyOf s (tn_State t)"
  shows "evolves s (tn_State t')"
  using assms(1) by (cases rule: copyOfE [OF assms(2)])
    (auto simp: applyProviderWait_def evolves_def holdsTransaction_def Let_def
      split: option.splits if_splits)

lemma applyReleaseOutput_evolves:
  assumes "applyReleaseOutput t s = Inr t'" "copyOf s (tn_State t)"
  shows "evolves s (tn_State t')"
  using assms(1) by (cases rule: copyOfE [OF assms(2)])
    (auto simp: applyReleaseOutput_def evolves_def holdsTransaction_def Let_def split: option.splits)

lemma applyDiscardOutput_evolves:
  assumes "applyDiscardOutput t s reason = Inr t'" "copyOf s (tn_State t)"
  shows "evolves s (tn_State t')"
  using assms(1) by (cases rule: copyOfE [OF assms(2)])
    (auto simp: applyDiscardOutput_def evolves_def holdsTransaction_def Let_def)

lemma applyModelText_evolves:
  assumes "applyModelText t s text = Inr t'" "copyOf s (tn_State t)"
  shows "evolves s (tn_State t')"
  using assms(1) by (cases rule: copyOfE [OF assms(2)])
    (auto simp: applyModelText_def evolves_def holdsTransaction_def Let_def)

lemma applyPhaseMove_evolves:
  assumes "applyPhaseMove c a b t s = Inr t'" "copyOf s (tn_State t)" "a \<noteq> PhaseCommitting"
  shows "evolves s (tn_State t')"
  using assms(1,3) by (cases rule: copyOfE [OF assms(2)])
    (auto simp: applyPhaseMove_def evolves_def holdsTransaction_def Let_def)

section \<open>Convergence and step selection\<close>

text \<open>
  \<open>plans t t'\<close>: only the planning fields of the turn changed: repair budgets, the progress clock,
  the convergence outcome, the next action and the failure flags.
\<close>

definition plans :: "Transition \<Rightarrow> Transition \<Rightarrow> bool" where
  "plans t t' \<longleftrightarrow> (\<exists>rb pg cv na uf rs wi. tn_State t' = (tn_State t)\<lparr>st_RepairBudgets := rb,
     st_Progress := pg, st_Convergence := cv, st_NextAction := na,
     st_UnresolvedToolFailure := uf, st_RecoveryToolSucceeded := rs, st_WorkItem := wi\<rparr>)"

lemma plansI:
  assumes "tn_State t' = (tn_State t)\<lparr>st_RepairBudgets := st_RepairBudgets (tn_State t'),
     st_Progress := st_Progress (tn_State t'), st_Convergence := st_Convergence (tn_State t'),
     st_NextAction := st_NextAction (tn_State t'),
     st_UnresolvedToolFailure := st_UnresolvedToolFailure (tn_State t'),
     st_RecoveryToolSucceeded := st_RecoveryToolSucceeded (tn_State t'),
     st_WorkItem := st_WorkItem (tn_State t')\<rparr>"
  shows "plans t t'"
  using assms unfolding plans_def by blast

lemma plans_evolves:
  assumes "plans t t'" "copyOf s (tn_State t)" "st_Phase s \<noteq> PhaseCommitting"
  shows "evolves s (tn_State t')"
  using assms(1,3) unfolding plans_def
  by (auto simp: evolves_def holdsTransaction_def copyOfD [OF assms(2)])

lemma plans_trans: "plans a b \<Longrightarrow> plans b c \<Longrightarrow> plans a c"
  by (rule plansI) (auto simp: plans_def)

lemma beginConvergence_plans [simp]: "plans t (beginConvergence a t)"
  by (rule plansI) (simp add: beginConvergence_def Let_def)

lemma spendRepairBudget_plans: "spendRepairBudget k p n t = Inr t' \<Longrightarrow> plans t t'"
  by (rule plansI) (auto simp: spendRepairBudget_def Let_def)


lemma spendStep_plans: "spendStep p k n a t = Inr t' \<Longrightarrow> plans t t'"
proof (unfold spendStep_def, split if_split_asm)
  assume "n \<noteq> 0" and s: "(case spendRepairBudget k p n t of
       Inr t1 \<Rightarrow> Inr (withState (\<lambda>s. s\<lparr>st_NextAction := a\<rparr>) t1)
     | Inl (RepairBudgetExhaustedError k' p' l) \<Rightarrow>
         Inr (beginConvergence \<lparr>cr_Cause = ConvergenceRepairBudget, cr_Used = n,
                cr_Limit = n, cr_RepairKind = k\<rparr> t)
     | Inl e \<Rightarrow> Inl e) = Inr t'"
  show "plans t t'"
  proof (cases "spendRepairBudget k p n t")
    case (Inl e)
    then show ?thesis using s by (cases e) auto
  next
    case (Inr t1)
    have "plans t1 (withState (\<lambda>s. s\<lparr>st_NextAction := a\<rparr>) t1)" by (rule plansI) simp
    then show ?thesis using s Inr plans_trans [OF spendRepairBudget_plans [OF Inr]] by simp
  qed
qed auto

lemma applyRepairRequested_evolves:
  assumes "applyRepairRequested t s k p n = Inr t'" "copyOf s (tn_State t)"
  shows "evolves s (tn_State t')"
  by (rule plans_evolves [OF spendRepairBudget_plans assms(2)])
     (use assms(1) in \<open>auto simp: applyRepairRequested_def Let_def\<close>)

lemma applyConvergenceRequested_evolves:
  assumes "applyConvergenceRequested t s a = Inr t'" "copyOf s (tn_State t)"
  shows "evolves s (tn_State t')"
  by (rule plans_evolves [OF _ assms(2)])
     (use assms(1) in \<open>auto simp: applyConvergenceRequested_def Let_def\<close>)

lemma applyConvergenceFinalizationStarted_evolves:
  assumes "applyConvergenceFinalizationStarted t s = Inr t'" "copyOf s (tn_State t)"
  shows "evolves s (tn_State t')"
proof (rule plans_evolves [OF plansI assms(2)])
qed (use assms(1) in \<open>auto simp: applyConvergenceFinalizationStarted_def Let_def split: option.splits\<close>)

lemma applyObserveProgress_plans:
  assumes "applyObserveProgress env t s a = Inr t'"
  shows "plans t t'"
proof -
  obtain p c where t': "t' = withState (\<lambda>s. s\<lparr>st_Progress := p\<rparr>) t \<or>
        t' = beginConvergence c (withState (\<lambda>s. s\<lparr>st_Progress := p\<rparr>) t)"
    using assms by (auto simp: applyObserveProgress_def Let_def split: if_splits)
  have "plans t (withState (\<lambda>s. s\<lparr>st_Progress := p\<rparr>) t)" by (rule plansI) simp
  then show ?thesis using t' plans_trans beginConvergence_plans by blast
qed

lemma applyObserveProgress_evolves:
  assumes "applyObserveProgress env t s a = Inr t'" "copyOf s (tn_State t)"
  shows "evolves s (tn_State t')"
  by (rule plans_evolves [OF applyObserveProgress_plans [OF assms(1)] assms(2)])
     (use assms(1) in \<open>simp add: applyObserveProgress_def Let_def\<close>)

lemma applyBindWorkItem_evolves:
  assumes "applyBindWorkItem env t s a = Inr t'" "copyOf s (tn_State t)"
  shows "evolves s (tn_State t')"
proof -
  have "plans t t' \<and> st_Phase s \<noteq> PhaseCommitting"
    using assms(1) by (auto simp: applyBindWorkItem_def intro!: plansI)
  then show ?thesis using plans_evolves [OF _ assms(2)] by blast
qed


lemma pickStep_plans: "pickStep a t = Inr t' \<Longrightarrow> plans t t'"
  by (rule plansI) (auto simp: pickStep_def)

lemma convergenceStep_plans:
  assumes "convergenceStep cv t s = Inr t'"
  shows "plans t t'"
proof (cases "cv_FinalizationAttempted cv \<and> declarationRetryable s")
  case False
  then show ?thesis using assms pickStep_plans by (auto simp: convergenceStep_def split: if_splits)
next
  case True
  let ?t1 = "withState (\<lambda>s. s\<lparr>st_NextAction := StepActionBlock\<rparr>) t"
  obtain t2 where t2: "spendRepairBudget RepairDeclaration ''convergence_declaration''
       (pl_DeclarationRepairLimit (st_Policy s)) ?t1 = Inr t2"
    and t': "t' = withState (\<lambda>s. s\<lparr>st_Convergence :=
       map_option (\<lambda>v. v\<lparr>cv_FinalizationAttempted := False\<rparr>) (st_Convergence s),
       st_NextAction := StepActionFinalize\<rparr>) t2"
    using assms True by (auto simp: convergenceStep_def bindR_Inr_iff)
  have "plans t ?t1" "plans t2 t'" by (rule plansI, simp add: t')+
  then show ?thesis using spendRepairBudget_plans [OF t2] plans_trans by blast
qed

lemma repairStep_plans:
  assumes "repairStep p t s = Inr t'"
  shows "plans t t'"
proof (cases "st_UnresolvedToolFailure s")
  case True
  then obtain t2 where t2: "spendStep p RepairCompletion (pl_CompletionRepairLimit (st_Policy s))
       StepActionRepairToolFailure t = Inr t2"
    and t': "t' = t2 \<or> t' = withState (\<lambda>s. s\<lparr>st_UnresolvedToolFailure := False,
                      st_RecoveryToolSucceeded := False\<rparr>) t2"
    using assms by (auto simp: repairStep_def Let_def bindR_Inr_iff split: if_splits)
  have "plans t2 (withState (\<lambda>s. s\<lparr>st_UnresolvedToolFailure := False,
      st_RecoveryToolSucceeded := False\<rparr>) t2)" by (rule plansI) simp
  then show ?thesis using t' spendStep_plans [OF t2] plans_trans by blast
next
  case False
  then show ?thesis
    using assms pickStep_plans spendStep_plans
    by (simp add: repairStep_def Let_def split: if_split_asm)
qed

lemma applyEvaluateTurnStep_plans:
  assumes "applyEvaluateTurnStep t s p = Inr t'"
  shows "plans t t'"
proof -
  let ?t1 = "withState (\<lambda>u. clearRecovered s (u\<lparr>st_NextAction := StepActionNone\<rparr>)) t"
  let ?c = "clearRecovered s s"
  have t': "(if completionAccepted ?c then pickStep StepActionComplete ?t1
        else case st_Convergence ?c of Some cv \<Rightarrow> convergenceStep cv ?t1 ?c
        | None \<Rightarrow> repairStep p ?t1 ?c) = Inr t'"
    using assms by (simp add: applyEvaluateTurnStep_def Let_def)
  have "plans t ?t1" by (rule plansI) (simp add: clearRecovered_def)
  moreover have "plans ?t1 t'"
    using t' pickStep_plans convergenceStep_plans repairStep_plans
    by (simp split: if_split_asm option.split_asm)
  ultimately show ?thesis by (rule plans_trans)
qed

lemma applyEvaluateTurnStep_evolves:
  assumes "applyEvaluateTurnStep t s p = Inr t'" "copyOf s (tn_State t)"
  shows "evolves s (tn_State t')"
  by (rule plans_evolves [OF applyEvaluateTurnStep_plans [OF assms(1)] assms(2)])
     (use assms(1) in \<open>simp add: applyEvaluateTurnStep_def Let_def\<close>)

section \<open>Completion, verification and effects\<close>

lemma applyWorkspaceReconciled_evolves:
  assumes "applyWorkspaceReconciled t s m cs = Inr t'" "copyOf s (tn_State t)"
  shows "evolves s (tn_State t')"
  using assms(1) by (cases rule: copyOfE [OF assms(2)])
    (simp add: applyWorkspaceReconciled_def evolves_def holdsTransaction_def Let_def, auto)

lemma applyCompletion_shape:
  assumes "applyCompletion t s n = Inr t'"
  obtains d po oe cv where "st_Phase s = PhaseSampling" "tn_State t' = (tn_State t)\<lparr>st_Completion := d,
     st_ProvisionalOutput := po, st_OutputEligibility := oe, st_Convergence := cv\<rparr>"
proof (rule that)
  show "st_Phase s = PhaseSampling"
    using assms unfolding applyCompletion_def Let_def guard_Inr by simp
  show "tn_State t' = (tn_State t)\<lparr>st_Completion := st_Completion (tn_State t'),
     st_ProvisionalOutput := st_ProvisionalOutput (tn_State t'),
     st_OutputEligibility := st_OutputEligibility (tn_State t'),
     st_Convergence := st_Convergence (tn_State t')\<rparr>"
    using assms unfolding applyCompletion_def Let_def guard_Inr if_Inl_eq_Inr sum.inject
    by (elim conjE) (hypsubst, simp add: declareBlocked_def split: option.split)
qed

lemma applyCompletion_evolves:
  assumes "applyCompletion t s n = Inr t'" "copyOf s (tn_State t)"
  shows "evolves s (tn_State t')"
  using assms(1)
  by (cases rule: applyCompletion_shape) (auto simp: evolves_def holdsTransaction_def copyOfD [OF assms(2)])

lemma applyCompletionInvalidated_evolves:
  assumes "applyCompletionInvalidated t s r = Inr t'" "copyOf s (tn_State t)"
  shows "evolves s (tn_State t')"
  using assms(1) by (cases rule: copyOfE [OF assms(2)])
    (auto simp: applyCompletionInvalidated_def evolves_def holdsTransaction_def Let_def)


lemma retireState_frame [simp]:
  "st_Phase (retireState s) = st_Phase s" "st_Intent (retireState s) = st_Intent s"
  "st_Mode (retireState s) = st_Mode s" "st_MutationRevision (retireState s) = st_MutationRevision s"
  "st_Changes (retireState s) = st_Changes s" "st_ClosedCalls (retireState s) = st_ClosedCalls s"
  "st_CompletedEffects (retireState s) = st_CompletedEffects s"
  "st_PendingEffects (retireState s) = st_PendingEffects s"
  "st_Cancellation (retireState s) = st_Cancellation s"
  "st_SampleLedger (retireState s) = st_SampleLedger s"
  "st_Commentary (retireState s) = st_Commentary s"
  "st_Continuation (retireState s) = st_Continuation s"
  "st_Usage (retireState s) = st_Usage s" "st_Context (retireState s) = st_Context s"
  "st_Completion (retireState s) = st_Completion s"
  "st_OutputEligibility (retireState s) = st_OutputEligibility s"
  "st_PendingTerminal (retireState s) = st_PendingTerminal s"
  "st_ProvisionalOutput (retireState s) = st_ProvisionalOutput s"
  "st_OpenCalls (retireState s) = st_OpenCalls s"
  "st_NextEffectSequence (retireState s) = st_NextEffectSequence s"
  unfolding retireState_def Let_def by simp_all

lemma retireVerification_Inr:
  assumes "retireVerification t = Inr t'"
  obtains t1 where "settles t t1"
    "t' = (if st_Phase (tn_State t1) = PhaseVerifying then move PhaseSampling (withState retireState t1)
           else withState retireState t1)"
  using assms by (auto simp: retireVerification_def Let_def bindR_Inr_iff dest!: finishVerifications_settles)

lemma retireVerification_evolves:
  assumes "retireVerification t = Inr t'" "copyOf s (tn_State t)" "disjointEffects s"
  shows "evolves s (tn_State t')"
proof -
  obtain t1 where st: "settles t t1"
    and t': "t' = (if st_Phase (tn_State t1) = PhaseVerifying
        then move PhaseSampling (withState retireState t1) else withState retireState t1)"
    by (rule retireVerification_Inr [OF assms(1)])
  have "evolves (tn_State t1) (tn_State t')"
    unfolding t' by (simp add: evolves_def holdsTransaction_def)
  then show ?thesis by (rule evolves_settled [OF assms(2) st assms(3)])
qed

lemma applyEffectStarted_evolves:
  assumes "applyEffectStarted t s i n = Inr t'" "copyOf s (tn_State t)"
  shows "evolves s (tn_State t')"
proof (cases "fmlookup (st_PendingEffects s) i")
  case None
  then show ?thesis using assms(1) by (simp add: applyEffectStarted_def)
next
  case (Some e)
  then obtain L a p where "tn_State t' = (tn_State t)\<lparr>st_SampleLedger := L,
      st_ActiveSampleID := a, st_PendingEffects := p\<rparr>"
    "fmdom' (st_SampleLedger (tn_State t)) \<subseteq> fmdom' L"
  proof (atomize_elim, intro exI conjI)
    show "tn_State t' = (tn_State t)\<lparr>st_SampleLedger := st_SampleLedger (tn_State t'),
      st_ActiveSampleID := st_ActiveSampleID (tn_State t'),
      st_PendingEffects := st_PendingEffects (tn_State t')\<rparr>"
      "fmdom' (st_SampleLedger (tn_State t)) \<subseteq> fmdom' (st_SampleLedger (tn_State t'))"
      using assms(1) Some
      by (auto simp: applyEffectStarted_def Let_def split: if_split_asm option.split_asm)
  qed
  then show ?thesis by (auto simp: evolves_def holdsTransaction_def copyOfD [OF assms(2)])
qed

lemma applyEffectRequeued_evolves:
  assumes "applyEffectRequeued t s i = Inr t'" "copyOf s (tn_State t)"
  shows "evolves s (tn_State t')"
proof (cases "fmlookup (st_PendingEffects s) i")
  case None
  then show ?thesis using assms(1) by (simp add: applyEffectRequeued_def)
next
  case (Some e)
  then obtain L a p where "tn_State t' = (tn_State t)\<lparr>st_SampleLedger := L,
      st_ActiveSampleID := a, st_PendingEffects := p\<rparr>"
    "fmdom' (st_SampleLedger (tn_State t)) \<subseteq> fmdom' L"
  proof (atomize_elim, intro exI conjI)
    show "tn_State t' = (tn_State t)\<lparr>st_SampleLedger := st_SampleLedger (tn_State t'),
      st_ActiveSampleID := st_ActiveSampleID (tn_State t'),
      st_PendingEffects := st_PendingEffects (tn_State t')\<rparr>"
      "fmdom' (st_SampleLedger (tn_State t)) \<subseteq> fmdom' (st_SampleLedger (tn_State t'))"
      using assms(1) Some
      by (auto simp: applyEffectRequeued_def Let_def split: if_split_asm option.split_asm)
  qed
  then show ?thesis by (auto simp: evolves_def holdsTransaction_def copyOfD [OF assms(2)])
qed

lemma map_sum_InrD: "map_sum f id x = Inr y \<Longrightarrow> x = Inr y"
  by simp

section \<open>The terminal transaction\<close>

lemma prepareTerminal_evolves:
  assumes "copyOf s (tn_State t)" "st_Phase s \<noteq> PhaseCommitting"
  shows "evolves s (tn_State (prepareTerminal env s d t))"
  using assms(2)
  by (auto simp: prepareTerminal_def Let_def evolves_def holdsTransaction_def copyOfD [OF assms(1)])

lemma applyTerminalRequested_Inr:
  assumes "applyTerminalRequested env t s a d = Inr t'"
  shows "t' = prepareTerminal env s d t \<and>
        (td_Kind d = TerminalCompleted \<longrightarrow> st_Phase s = PhaseSampling \<and> validateCompletionReadiness s = None)
      \<or> t' = prepareTerminal env s (d\<lparr>td_Convergence := blockedConvergence (st_Convergence s)\<rparr>)
         (withState (\<lambda>u. u\<lparr>st_Convergence := blockedConvergence (st_Convergence s)\<rparr>) t) \<and>
        td_Kind d = TerminalFailed \<and> (\<exists>cv. st_Convergence s = Some cv \<and> cv_FinalizationAttempted cv)"
    "st_Phase s \<noteq> PhaseCommitting" "isEmpty (st_OpenCalls s)" "isEmpty (st_PendingApprovals s)"
    "st_PendingInput s = None" "st_ActiveSampleID s = []" "isEmpty (st_PendingEffects s)"
    "td_Kind d \<noteq> TerminalCompleted \<Longrightarrow> \<not> blank (td_Message d)"
  using assms unfolding applyTerminalRequested_def Let_def
  by (simp_all split: if_split_asm option.split_asm)

lemma applyTerminalRequested_evolves:
  assumes "applyTerminalRequested env t s a d = Inr t'" "copyOf s (tn_State t)"
  shows "evolves s (tn_State t')"
proof -
  have 1: "evolves s (tn_State (prepareTerminal env s d t))"
    by (rule prepareTerminal_evolves [OF assms(2) applyTerminalRequested_Inr(2) [OF assms(1)]])
  have "evolves s (tn_State (prepareTerminal env s d' (withState (\<lambda>u. u\<lparr>st_Convergence := b\<rparr>) t)))" for d' b
    using applyTerminalRequested_Inr(2) [OF assms(1)]
    by (auto simp: prepareTerminal_def Let_def evolves_def holdsTransaction_def copyOfD [OF assms(2)])
  then show ?thesis using 1 applyTerminalRequested_Inr(1) [OF assms(1)] by blast
qed

lemma applyJournalFinalized_evolves:
  assumes "applyJournalFinalized t s j = Inr t'" "copyOf s (tn_State t)" "disjointEffects s"
  shows "evolves s (tn_State t')"
proof -
  obtain d where t': "t' = closeFirstEffectByKind (fst (terminalJournalOutcome s d)) True []
       (withState (\<lambda>s. s\<lparr>st_Journal := j\<rparr>) t)" and ph: "st_Phase s = PhaseCommitting"
    using assms(1) by (auto simp: applyJournalFinalized_def Let_def split: option.splits)
  have "fmsubset (st_CompletedEffects s) (st_CompletedEffects (tn_State t'))"
    unfolding t' by (rule settles_grows [OF closeEffects_settle(3)])
      (use assms(3) in \<open>simp_all add: disjointEffects_def copyOfD [OF assms(2)]\<close>)
  then show ?thesis
    by (simp add: evolves_def holdsTransaction_def t' copyOfD [OF assms(2)] ph)
qed

lemma applyJournalResult_evolves:
  assumes "applyJournalResult t s i j err = Inr t'" "copyOf s (tn_State t)" "disjointEffects s"
  shows "evolves s (tn_State t')"
proof -
  obtain e t1 where "(t' = emit ((event EventEffectRequeued)\<lparr>ev_EffectID := i\<rparr>)
        (withState (\<lambda>s. s\<lparr>st_PendingEffects := fmupd i e (st_PendingEffects s)\<rparr>) t)) \<or>
     finishEffect i True [] t = Inr t1 \<and> t' = withState (\<lambda>s. s\<lparr>st_Journal := j\<rparr>) t1"
    using assms(1)
    by (auto simp: applyJournalResult_def Let_def bindR_Inr_iff split: option.splits if_splits)
  then consider "t' = emit ((event EventEffectRequeued)\<lparr>ev_EffectID := i\<rparr>)
        (withState (\<lambda>s. s\<lparr>st_PendingEffects := fmupd i e (st_PendingEffects s)\<rparr>) t)"
    | "finishEffect i True [] t = Inr t1" "t' = withState (\<lambda>s. s\<lparr>st_Journal := j\<rparr>) t1" by blast
  then show ?thesis
  proof cases
    case 1
    then show ?thesis by (simp add: evolves_def holdsTransaction_def copyOfD [OF assms(2)])
  next
    case 2
    have "evolves (tn_State t1) (tn_State t')" by (simp add: 2 evolves_def holdsTransaction_def)
    then show ?thesis by (rule evolves_settled [OF assms(2) finishEffect_settles [OF 2(1)] assms(3)])
  qed
qed

lemma applyFinishTerminal_Inr:
  assumes "applyFinishTerminal t s = Inr t'"
  obtains d where "st_Phase s = PhaseCommitting" "st_PendingTerminal s = Some d"
    "tn_State t' = (tn_State t)\<lparr>st_PendingTerminal := None, st_Terminal := Some d,
       st_FinalOutput := st_ProvisionalOutput s, st_ProvisionalOutput := [],
       st_Phase := phaseForTerminal (td_Kind d)\<rparr>"
  using assms by (auto simp: applyFinishTerminal_def Let_def split: option.splits)

lemma applyFinishTerminal_evolves:
  assumes "applyFinishTerminal t s = Inr t'" "copyOf s (tn_State t)"
  shows "evolves s (tn_State t')"
proof -
  obtain d where "st_Phase s = PhaseCommitting" "st_PendingTerminal s = Some d"
    "tn_State t' = (tn_State t)\<lparr>st_PendingTerminal := None, st_Terminal := Some d,
       st_FinalOutput := st_ProvisionalOutput s, st_ProvisionalOutput := [],
       st_Phase := phaseForTerminal (td_Kind d)\<rparr>"
    by (rule applyFinishTerminal_Inr [OF assms(1)])
  then show ?thesis
    by (cases "td_Kind d") (simp_all add: evolves_def holdsTransaction_def copyOfD [OF assms(2)])
qed


section \<open>The whole command\<close>

lemmas handler_evolves =
  applyModelSampleRequested_evolves applyModelSampleStarted_evolves applyModelSampleFinished_evolves
  applyModelSampleProgress_evolves applyModelSampleResult_evolves applySupplementalUsage_evolves
  applyProviderRetry_evolves applyProviderWait_evolves applyReleaseOutput_evolves
  applyDiscardOutput_evolves applyModelText_evolves applyRepairRequested_evolves
  applyConvergenceRequested_evolves applyConvergenceFinalizationStarted_evolves
  applyObserveProgress_evolves applyBindWorkItem_evolves applyEvaluateTurnStep_evolves
  applyWorkspaceReconciled_evolves applyCompletion_evolves applyCompletionInvalidated_evolves
  retireVerification_evolves applyEffectStarted_evolves applyEffectRequeued_evolves
  applyTerminalRequested_evolves applyJournalFinalized_evolves applyJournalResult_evolves
  applyFinishTerminal_evolves applyToolResult_evolves applyAbortOpenCalls_evolves
  applyCancelRequested_evolves applyRecoveryRequested_evolves applyContinuationRecorded_evolves
  applyApprovalRequired_evolves applyApprovalResolved_evolves applyApprovalResult_evolves
  applyInputRequired_evolves applyInputResolved_evolves applyInputResult_evolves
  applyToolCalls_evolves applyToolBatchAdmissionRejection_evolves

lemma applyEffectResult_evolves:
  assumes "copyOf s (tn_State t)" "disjointEffects s"
  shows "applyEffectResult t s i ok msg = Inr t' \<Longrightarrow> evolves s (tn_State t')"
    "applyPersistenceResult t s i ok msg = Inr t' \<Longrightarrow> evolves s (tn_State t')"
  using finishEffect_evolves [OF _ assms]
  by (auto simp: applyEffectResult_def applyPersistenceResult_def)

lemma dispatch_evolves:
  assumes "dispatch env t s c = Inr t'" "copyOf s (tn_State t)" "disjointEffects s" "disjointCalls s"
  shows "evolves s (tn_State t')"
  using assms(1) unfolding dispatch_def
  by (cases c; simp only: Command.case)
     ((erule handler_evolves applyPhaseMove_evolves applyEffectResult_evolves [OF assms(2,3)];
        (rule assms | simp))+)

lemma Validate_disjoint:
  assumes "Validate env s = None"
  shows "disjointEffects s" "disjointCalls s"
  using assms
  by (auto simp: Validate_def effectsError_def callsError_def check_map_None disjointEffects_def
      disjointCalls_def apart_def)

lemma Apply_Inr:
  assumes "Apply env s c = Inr t"
  shows "Validate env s = None" "\<not> Phase_Terminal (st_Phase s)" "Validate env (tn_State t) = None"
    "dispatch env \<lparr>tn_State = cloneState env s, tn_Events = [], tn_Effects = []\<rparr> s c = Inr t"
  using assms by (auto simp: Apply_def bindR_Inr_iff split: option.splits)

lemma Apply_evolves: "Apply env s c = Inr t \<Longrightarrow> evolves s (tn_State t)"
  by (rule dispatch_evolves [OF Apply_Inr(4)]) (simp_all add: Validate_disjoint [OF Apply_Inr(1)])

end
