(* ===== verification/Evaluation.thy ===== *)
theory Evaluation
  imports Turn_Evolution
begin

text \<open>
  Rules by which concrete turns are evaluated inside the logic. \<open>kernel_eval\<close> collects the
  equations of the reducer and of its validation; with them \<open>simp\<close> computes \<open>Apply\<close> on a concrete
  state and command. \<open>sampleEnv\<close> is a concrete instance of the encoders the kernel calls.
\<close>

section \<open>A concrete environment and run\<close>

text \<open>Encoders that satisfy what the kernel relies on: payloads are never empty.\<close>

definition sampleEnv :: KernelEnv where
  "sampleEnv = \<lparr>jsonValid = (\<lambda>x. x \<noteq> []), sha256hex = (\<lambda>x. hex16 (of_nat (length x))),
     jsonStreamEvent = (\<lambda>_. Some ''{}''), jsonBlock = id, jsonAssembly = Some, jsonString = (\<lambda>x. Some x),
     jsonPayload = (\<lambda>p. Some (payloadType p)), jsonCanonical = Some,
     jsonReadWindow = (\<lambda>_. None), jsonToolResult = (\<lambda>_. None),
     jsonState = (\<lambda>s. Some (st_Intent s))\<rparr>"

lemma check_map_upd [simp]:
  "check_map f (fmupd k v m) = None \<longleftrightarrow> f k v = None \<and> check_map f (fmdrop k m) = None"
  by (auto simp: check_map_None)

lemma effectID_eq [simp]: "effectID a = effectID b \<longleftrightarrow> a = b"
  by (simp add: effectID_def)

lemma effectID_nonempty [simp]: "effectID a \<noteq> []" "\<not> blank (effectID a)"
  by (simp_all add: effectID_def)

lemma digest_prefix [simp]: "prefix ''sha256:'' (digestBytes env x)"
  by (simp add: digestBytes_def)

lemma payloadType_nonempty [simp]: "payloadType p \<noteq> []"
  by (cases p) simp_all

lemmas validate_eval = Validate_def activeSampleError_def effectsError_def identityError_def
  budgetsError_def progressError_def callsError_def interactionsError_def changesError_def
  workspaceError_def completionError_def verificationError_def committingError_def
  terminalError_def convergencePolicyInvalid_def sampleError_def validateEffect_def
  retryBudgetInvalid_def retryScheduleInvalid_def journalFinal_def Phase_Terminal_def frozen_def
  convergenceError_def validateTerminalState_def validRepairKind_def callIDsError_def

lemmas state_eval = NewState_def NewStateWithPolicy_def NormalizeTurnIntent_def DefaultPolicy_def
  ConvergencePolicyForStepLimit_def noConvergencePolicy_def notEvaluated_def zeroSample_def
  zeroRetryBudget_def newEffect_def encodePayload_def sampleEnv_def

definition turn0 :: State where "turn0 = NewState TurnIntentAnswer ''agent'' 1"

definition turn1 :: State where "turn1 = turn0\<lparr>st_Phase := PhaseSampling\<rparr>"

definition turn2 :: State where
  "turn2 = turn1\<lparr>st_SampleLedger := fmupd ''s1'' (zeroSample\<lparr>ms_ID := ''s1'', ms_Status := SampleRequested\<rparr>) fmempty,
     st_NextEffectSequence := 1, st_PendingEffects := fmupd (effectID 1)
       (newEffect sampleEnv 1 EffectSampleProvider (PayloadSample ''s1'') ''sample:s1'' ''s1'') fmempty\<rparr>"

lemma turn0_valid: "Validate sampleEnv turn0 = None"
  by (simp add: validate_eval state_eval turn0_def)

lemma turn1_valid: "Validate sampleEnv turn1 = None"
  by (simp add: validate_eval state_eval turn0_def turn1_def)

lemma turn2_valid: "Validate sampleEnv turn2 = None"
  by (simp add: validate_eval state_eval turn0_def turn1_def turn2_def)

lemma cloneState_id:
  assumes "\<forall>m \<in> fmran' (st_SampleLedger s). ms_Assembly m = None"
  shows "cloneState env s = s"
proof -
  have "fmmap (\<lambda>m. m\<lparr>ms_Assembly := CloneResponseAssembly env (ms_Assembly m)\<rparr>) (st_SampleLedger s) =
      st_SampleLedger s"
  proof (rule fmap_ext)
    fix k
    show "fmlookup (fmmap (\<lambda>m. m\<lparr>ms_Assembly := CloneResponseAssembly env (ms_Assembly m)\<rparr>)
        (st_SampleLedger s)) k = fmlookup (st_SampleLedger s) k"
      using assms by (cases "fmlookup (st_SampleLedger s) k")
        (auto simp: CloneResponseAssembly_def fmran'I)
  qed
  then show ?thesis by (simp add: cloneState_def)
qed

lemma Apply_run:
  assumes "Validate env s = None" "\<not> Phase_Terminal (st_Phase s)"
    "\<forall>m \<in> fmran' (st_SampleLedger s). ms_Assembly m = None"
    "dispatch env \<lparr>tn_State = s, tn_Events = [], tn_Effects = []\<rparr> s c = Inr t"
    "Validate env (tn_State t) = None"
  shows "Apply env s c = Inr t"
  using assms by (simp add: Apply_def cloneState_id)

lemmas step_eval = dispatch_def guard_def requirePhase_def Let_def requestEffect_def
  Phase_Terminal_def move_def fmdrop_fmupd

definition turnCanceled :: State where
  "turnCanceled = turn2\<lparr>st_Cancellation :=
     \<lparr>cs_Requested = True, cs_Accepted = True, cs_Reason = ''stop''\<rparr>\<rparr>"

definition turnSettled :: State where
  "turnSettled = turnCanceled\<lparr>st_PendingEffects := fmempty,
     st_CompletedEffects := fmupd (effectID 1) (settled False ''stop''
       (newEffect sampleEnv 1 EffectSampleProvider (PayloadSample ''s1'') ''sample:s1'' ''s1'')) fmempty\<rparr>"

definition canceledDecision :: TerminalDecision where
  "canceledDecision = \<lparr>td_Kind = TerminalCanceled, td_Code = [], td_Message = ''stop'',
     td_Fault = None, td_Convergence = None\<rparr>"

definition turnCommitting :: State where
  "turnCommitting = turnSettled\<lparr>st_PendingTerminal := Some canceledDecision,
     st_Usage := (st_Usage turnSettled)\<lparr>us_Frozen := True\<rparr>,
     st_Context := (st_Context turnSettled)\<lparr>cx_Frozen := True\<rparr>, st_Phase := PhaseCommitting\<rparr>"

definition turnEnded :: State where
  "turnEnded = turnCommitting\<lparr>st_PendingTerminal := None, st_Terminal := Some canceledDecision,
     st_Phase := PhaseCanceled\<rparr>"

lemmas turn_eval = turn0_def turn1_def turn2_def turnCanceled_def turnSettled_def settled_def
  turnCommitting_def canceledDecision_def turnEnded_def

lemma turnCanceled_valid: "Validate sampleEnv turnCanceled = None"
  by (simp add: validate_eval state_eval turn_eval)

lemma turnCommitting_valid: "Validate sampleEnv turnCommitting = None"
  by (simp add: validate_eval state_eval turn_eval)

lemma turnEnded_valid: "Validate sampleEnv turnEnded = None"
  by (simp add: validate_eval state_eval turn_eval terminalJournalOutcome_def)

lemma turnSettled_valid: "Validate sampleEnv turnSettled = None"
  by (simp add: validate_eval state_eval turn_eval)

lemma turn_assemblies [simp]:
  "\<forall>m \<in> fmran' (st_SampleLedger turn1). ms_Assembly m = None"
  "\<forall>m \<in> fmran' (st_SampleLedger turn2). ms_Assembly m = None"
  "\<forall>m \<in> fmran' (st_SampleLedger turnCanceled). ms_Assembly m = None"
  "\<forall>m \<in> fmran' (st_SampleLedger turnSettled). ms_Assembly m = None"
  "\<forall>m \<in> fmran' (st_SampleLedger turnCommitting). ms_Assembly m = None"
  by (auto simp: turn_eval NewState_def zeroSample_def fmlookup_ran'_iff split: if_splits)

lemma turn_running [simp]:
  "\<not> Phase_Terminal (st_Phase turn1)" "\<not> Phase_Terminal (st_Phase turn2)"
  "\<not> Phase_Terminal (st_Phase turnCanceled)" "\<not> Phase_Terminal (st_Phase turnSettled)"
  "\<not> Phase_Terminal (st_Phase turnCommitting)"
  by (simp_all add: turn_eval NewState_def Phase_Terminal_def)

lemma Apply_request_sample:
  "Apply sampleEnv turn1 (ModelSampleRequested ''s1'') = Inr \<lparr>tn_State = turn2,
     tn_Events = [(event EventEffectRequested)\<lparr>ev_EffectID := effectID 1, ev_CallID := ''s1''\<rparr>],
     tn_Effects = [newEffect sampleEnv 1 EffectSampleProvider (PayloadSample ''s1'') ''sample:s1'' ''s1'']\<rparr>"
proof (rule Apply_run [OF turn1_valid turn_running(1) turn_assemblies(1)])
qed (simp add: step_eval applyModelSampleRequested_def turn_eval NewState_def newEffect_def,
     simp add: turn2_valid)

lemma Apply_cancel:
  "Apply sampleEnv turn2 (CancelRequested ''stop'') = Inr \<lparr>tn_State = turnCanceled,
     tn_Events = [event EventCancelAccepted], tn_Effects = []\<rparr>"
proof (rule Apply_run [OF turn2_valid turn_running(2) turn_assemblies(2)])
qed (simp add: step_eval applyCancelRequested_def turn_eval NewState_def, simp add: turnCanceled_valid)

lemma Apply_settle:
  "Apply sampleEnv turnCanceled (EffectResultReceived (effectID 1) False ''stop'') =
     Inr \<lparr>tn_State = turnSettled, tn_Events = [(event EventEffectFinished)
       \<lparr>ev_EffectID := effectID 1, ev_CallID := ''s1''\<rparr>], tn_Effects = []\<rparr>"
proof (rule Apply_run [OF turnCanceled_valid turn_running(3) turn_assemblies(3)])
qed (simp add: step_eval applyEffectResult_def finishEffect_def turn_eval NewState_def newEffect_def,
     simp add: turnSettled_valid)


definition cancelArgs :: TerminalArgs where
  "cancelArgs = \<lparr>ta_FailureCode = [], ta_FailureMessage = [], ta_Fault = None,
     ta_CancelReason = ''stop'', ta_Convergence = None\<rparr>"

lemma Apply_terminal:
  "Apply sampleEnv turnSettled (TerminalRequested cancelArgs) = Inr \<lparr>tn_State = turnCommitting,
     tn_Events = [(event EventTransition)\<lparr>ev_From := Some PhaseSampling, ev_To := Some PhaseCommitting\<rparr>,
       (event EventTerminalPrepared)\<lparr>ev_Terminal := Some canceledDecision\<rparr>], tn_Effects = []\<rparr>"
proof (rule Apply_run [OF turnSettled_valid turn_running(4) turn_assemblies(4)])
qed (simp add: step_eval applyTerminalRequested_def terminalDecision_def prepareTerminal_def cancelArgs_def
       turn_eval NewState_def newEffect_def DefaultPolicy_def, simp add: turnCommitting_valid)

lemma Apply_finish:
  "Apply sampleEnv turnCommitting FinishTerminal = Inr \<lparr>tn_State = turnEnded,
     tn_Events = [(event EventTransition)\<lparr>ev_From := Some PhaseCommitting, ev_To := Some PhaseCanceled\<rparr>,
       (event EventTerminalCommitted)\<lparr>ev_Terminal := Some canceledDecision\<rparr>], tn_Effects = []\<rparr>"
proof (rule Apply_run [OF turnCommitting_valid turn_running(5) turn_assemblies(5)])
qed (simp add: step_eval applyFinishTerminal_def turn_eval NewState_def newEffect_def DefaultPolicy_def
       terminalJournalOutcome_def, simp add: turnEnded_valid)

end
