(* ===== verification/Effect_Accounting.thy ===== *)
theory Effect_Accounting
  imports Turn_Evolution
begin

text \<open>
  Book-keeping of effects. \<open>accounts t t'\<close> says that a handler issued the effects it emitted, with
  consecutive identifiers, and that no identifier left the ledger: an effect is pending until it is
  completed. Every handler is shown to keep it, and \<open>dispatch_accounts\<close> joins them.
\<close>

section \<open>The relation\<close>

definition effectIDs :: "State \<Rightarrow> string set" where
  "effectIDs s = fmdom' (st_PendingEffects s) \<union> fmdom' (st_CompletedEffects s)"

definition issuedIDs :: "uint64 \<Rightarrow> nat \<Rightarrow> string list" where
  "issuedIDs n k = map (\<lambda>i. effectID (n + of_nat (Suc i))) [0..<k]"

definition accounts :: "Transition \<Rightarrow> Transition \<Rightarrow> bool" where
  "accounts t t' \<longleftrightarrow> (\<exists>es. tn_Effects t' = tn_Effects t @ es \<and>
     st_NextEffectSequence (tn_State t') = st_NextEffectSequence (tn_State t) + of_nat (length es) \<and>
     map ef_ID es = issuedIDs (st_NextEffectSequence (tn_State t)) (length es) \<and>
     effectIDs (tn_State t') = effectIDs (tn_State t) \<union> set (map ef_ID es))"

text \<open>\<open>quiet t t'\<close>: no effect was issued, though effects may have been settled.\<close>

definition quiet :: "Transition \<Rightarrow> Transition \<Rightarrow> bool" where
  "quiet t t' \<longleftrightarrow> tn_Effects t' = tn_Effects t \<and>
     st_NextEffectSequence (tn_State t') = st_NextEffectSequence (tn_State t) \<and>
     effectIDs (tn_State t') = effectIDs (tn_State t)"

lemma quiet_accounts: "quiet t t' \<Longrightarrow> accounts t t'"
  unfolding accounts_def quiet_def by (rule exI [of _ "[]"]) (simp add: issuedIDs_def)

lemma quiet_refl [simp]: "quiet t t"
  by (simp add: quiet_def)

lemma quiet_trans: "quiet a b \<Longrightarrow> quiet b c \<Longrightarrow> quiet a c"
  by (simp add: quiet_def)

lemma issuedIDs_append: "issuedIDs n j @ issuedIDs (n + of_nat j) k = issuedIDs n (j + k)"
proof -
  have "issuedIDs (n + of_nat j) k = map (\<lambda>i. effectID (n + of_nat (Suc i))) [j..<j + k]"
    by (rule nth_equalityI) (simp_all add: issuedIDs_def algebra_simps)
  moreover have "[0..<j + k] = [0..<j] @ [j..<j + k]"
    using upt_add_eq_append [of 0 j k] by simp
  ultimately show ?thesis unfolding issuedIDs_def by simp
qed

lemma accounts_trans:
  assumes "accounts a b" "accounts b c"
  shows "accounts a c"
proof -
  obtain es where 1: "tn_Effects b = tn_Effects a @ es"
    "st_NextEffectSequence (tn_State b) = st_NextEffectSequence (tn_State a) + of_nat (length es)"
    "map ef_ID es = issuedIDs (st_NextEffectSequence (tn_State a)) (length es)"
    "effectIDs (tn_State b) = effectIDs (tn_State a) \<union> set (map ef_ID es)"
    using assms(1) unfolding accounts_def by blast
  obtain fs where 2: "tn_Effects c = tn_Effects b @ fs"
    "st_NextEffectSequence (tn_State c) = st_NextEffectSequence (tn_State b) + of_nat (length fs)"
    "map ef_ID fs = issuedIDs (st_NextEffectSequence (tn_State b)) (length fs)"
    "effectIDs (tn_State c) = effectIDs (tn_State b) \<union> set (map ef_ID fs)"
    using assms(2) unfolding accounts_def by blast
  show ?thesis unfolding accounts_def
    by (rule exI [of _ "es @ fs"]) (simp add: 1 2 issuedIDs_append [symmetric] Un_assoc add.assoc)
qed

lemma accounts_refl [simp]: "accounts t t"
  by (simp add: quiet_accounts)

lemma quiet_emit [simp]:
  "quiet t (u\<lparr>tn_Events := evs\<rparr>) \<longleftrightarrow> quiet t u" "accounts t (u\<lparr>tn_Events := evs\<rparr>) \<longleftrightarrow> accounts t u"
  by (simp_all add: quiet_def accounts_def)

lemma requestEffect_accounts [simp]: "accounts t (requestEffect env k p key c t)"
  unfolding accounts_def
  by (rule exI [of _ "[newEffect env (st_NextEffectSequence (tn_State t) + 1) k p key c]"])
     (auto simp: requestEffect_def Let_def newEffect_def effectIDs_def issuedIDs_def)

section \<open>Settling\<close>

lemma finishEffect_quiet: "finishEffect i ok msg t = Inr t' \<Longrightarrow> quiet t t'"
  by (auto simp: finishEffect_Inr quiet_def effectIDs_def fmlookup_dom'_iff)

lemma tryFinish_quiet [simp]: "quiet t (tryFinish i ok msg t)"
  by (auto simp: tryFinish_def split: sum.split dest: finishEffect_quiet)

lemma closeFirst_quiet [simp]: "quiet t (closeFirst P ok msg t)"
  by (auto simp: closeFirst_def split: option.split)

lemma foldl_quiet: "(\<And>t i. quiet t (f t i)) \<Longrightarrow> quiet t (foldl f t is)"
  by (induction "is" arbitrary: t) (auto intro: quiet_trans)

lemma closeEffects_quiet [simp]:
  "quiet t (closeEffectByCall k i ok msg t)" "quiet t (closeEffectByIdentity k i ok msg t)"
  "quiet t (closeFirstEffectByKind k ok msg t)" "quiet t (closeEffectsByKind k ok msg t)"
  by (auto simp: closeEffectByCall_def closeEffectByIdentity_def closeFirstEffectByKind_def
      closeEffectsByKind_def intro!: foldl_quiet split: option.split)

lemma finishVerifications_quiet: "finishVerifications is t = Inr t' \<Longrightarrow> quiet t t'"
  by (induction "is" t rule: finishVerifications.induct)
     (auto split: if_splits sum.splits option.splits intro: quiet_trans finishEffect_quiet)

text \<open>A step that leaves both maps and the counter alone is quiet.\<close>

lemma quiet_frame [intro?]:
  assumes "tn_Effects t' = tn_Effects t" "st_PendingEffects (tn_State t') = st_PendingEffects (tn_State t)"
    "st_CompletedEffects (tn_State t') = st_CompletedEffects (tn_State t)"
    "st_NextEffectSequence (tn_State t') = st_NextEffectSequence (tn_State t)"
  shows "quiet t t'"
  using assms by (simp add: quiet_def effectIDs_def)

lemma quiet_withState [simp]:
  assumes "st_PendingEffects x = st_PendingEffects (tn_State t)"
    "st_CompletedEffects x = st_CompletedEffects (tn_State t)"
    "st_NextEffectSequence x = st_NextEffectSequence (tn_State t)"
  shows "quiet t (t\<lparr>tn_State := x\<rparr>)"
  using assms by (intro quiet_frame) simp_all

lemma quiet_move [simp]: "quiet t (move p t)"
  by (rule quiet_frame) (simp_all add: move_def)


section \<open>Handlers that issue no effect\<close>

lemma applyCancelRequested_accounts: "applyCancelRequested t s r = Inr t' \<Longrightarrow> accounts t t'"
  by (rule quiet_accounts) (auto simp: applyCancelRequested_def quiet_def effectIDs_def)

lemma applyRecoveryRequested_accounts: "applyRecoveryRequested t s a = Inr t' \<Longrightarrow> accounts t t'"
  unfolding applyRecoveryRequested_def Let_def guard_Inr if_Inl_eq_Inr sum.inject
  by (elim conjE) (hypsubst, rule quiet_accounts, rule quiet_frame; simp)

lemma applyContinuationRecorded_accounts:
  "applyContinuationRecorded t s cur = Inr t' \<Longrightarrow> accounts t t'"
  by (rule quiet_accounts)
     (auto simp: applyContinuationRecorded_def quiet_def effectIDs_def Let_def split: option.splits if_splits)

lemma rejectCalls_quiet: "rejectCalls s c r seen is t = Inr t' \<Longrightarrow> quiet t t'"
proof (induction s c r seen "is" t rule: rejectCalls.induct)
  case (2 s c r seen i rest t)
  then obtain call where call: "fmlookup (st_OpenCalls s) i = Some call" by (auto split: option.splits)
  let ?t = "withState (\<lambda>s. s\<lparr>st_OpenCalls := fmupd i (call\<lparr>tc_AdmissionRejection := r\<rparr>)
              (st_OpenCalls s)\<rparr>) t"
  have "quiet ?t t'" using 2 call by (auto split: if_splits)
  then show ?case by (rule quiet_trans [rotated]) simp
qed simp

lemma applyToolBatchAdmissionRejection_accounts:
  "applyToolBatchAdmissionRejection env t s is r = Inr t' \<Longrightarrow> accounts t t'"
  by (rule quiet_accounts, rule rejectCalls_quiet) (auto simp: applyToolBatchAdmissionRejection_def Let_def)

lemma applyModelSampleStarted_accounts: "applyModelSampleStarted t s i n = Inr t' \<Longrightarrow> accounts t t'"
  by (rule quiet_accounts) (auto simp: applyModelSampleStarted_def quiet_def effectIDs_def Let_def)

lemma applyModelSampleFinished_accounts: "applyModelSampleFinished t s a = Inr t' \<Longrightarrow> accounts t t'"
  by (rule quiet_accounts) (auto simp: applyModelSampleFinished_def quiet_def effectIDs_def Let_def)

lemma applyModelSampleProgress_accounts:
  "applyModelSampleProgress env t s a = Inr t' \<Longrightarrow> accounts t t'"
  by (rule quiet_accounts)
     (auto simp: applyModelSampleProgress_def quiet_def effectIDs_def Let_def split: option.splits if_splits)

lemma applySupplementalUsage_accounts: "applySupplementalUsage t s a = Inr t' \<Longrightarrow> accounts t t'"
  by (rule quiet_accounts) (auto simp: applySupplementalUsage_def quiet_def effectIDs_def Let_def)

lemma applyProviderWait_accounts: "applyProviderWait t s a = Inr t' \<Longrightarrow> accounts t t'"
  by (rule quiet_accounts)
     (auto simp: applyProviderWait_def quiet_def effectIDs_def Let_def split: option.splits if_splits)

lemma applyReleaseOutput_accounts: "applyReleaseOutput t s = Inr t' \<Longrightarrow> accounts t t'"
  by (rule quiet_accounts)
     (auto simp: applyReleaseOutput_def quiet_def effectIDs_def Let_def split: option.splits)

lemma applyDiscardOutput_accounts: "applyDiscardOutput t s r = Inr t' \<Longrightarrow> accounts t t'"
  by (rule quiet_accounts) (auto simp: applyDiscardOutput_def quiet_def effectIDs_def Let_def)

lemma applyModelText_accounts: "applyModelText t s text = Inr t' \<Longrightarrow> accounts t t'"
  by (rule quiet_accounts) (auto simp: applyModelText_def quiet_def effectIDs_def)

lemma applyPhaseMove_accounts: "applyPhaseMove c a b t s = Inr t' \<Longrightarrow> accounts t t'"
  by (rule quiet_accounts) (auto simp: applyPhaseMove_def)

lemma applyWorkspaceReconciled_accounts: "applyWorkspaceReconciled t s m cs = Inr t' \<Longrightarrow> accounts t t'"
  unfolding applyWorkspaceReconciled_def Let_def guard_Inr if_Inl_eq_Inr sum.inject
  by (elim conjE) (hypsubst, rule quiet_accounts, rule quiet_frame; simp)

lemma applyCompletion_accounts:
  assumes "applyCompletion t s n = Inr t'"
  shows "accounts t t'"
  using assms unfolding applyCompletion_def Let_def guard_Inr if_Inl_eq_Inr sum.inject
  by (elim conjE) (hypsubst, rule quiet_accounts, rule quiet_frame;
      simp add: declareBlocked_def split: option.split)

lemma applyCompletionInvalidated_accounts:
  "applyCompletionInvalidated t s r = Inr t' \<Longrightarrow> accounts t t'"
  by (rule quiet_accounts) (auto simp: applyCompletionInvalidated_def quiet_def effectIDs_def Let_def)

lemma applyFinishTerminal_accounts: "applyFinishTerminal t s = Inr t' \<Longrightarrow> accounts t t'"
  by (rule quiet_accounts)
     (auto simp: applyFinishTerminal_def move_def quiet_def effectIDs_def Let_def split: option.splits)


text \<open>The planning handlers write no effect at all.\<close>

lemma plans_quiet:
  assumes "plans t t'" "tn_Effects t' = tn_Effects t"
  shows "accounts t t'"
  by (rule quiet_accounts, rule quiet_frame) (use assms in \<open>auto simp: plans_def\<close>)

lemma beginConvergence_effects [simp]: "tn_Effects (beginConvergence a t) = tn_Effects t"
  by (simp add: beginConvergence_def Let_def)

lemma spendRepairBudget_effects: "spendRepairBudget k p n t = Inr t' \<Longrightarrow> tn_Effects t' = tn_Effects t"
  by (auto simp: spendRepairBudget_def Let_def)

lemma spendStep_effects:
  assumes "spendStep p k n a t = Inr t'"
  shows "tn_Effects t' = tn_Effects t"
proof (cases "n = 0")
  case True
  then show ?thesis using assms by (auto simp: spendStep_def)
next
  case False
  then show ?thesis
  proof (cases "spendRepairBudget k p n t")
    case (Inl e)
    then show ?thesis using assms False by (cases e) (auto simp: spendStep_def)
  next
    case (Inr t1)
    then show ?thesis using assms False spendRepairBudget_effects by (auto simp: spendStep_def)
  qed
qed

lemma repairStep_effects:
  assumes "repairStep p t s = Inr t'"
  shows "tn_Effects t' = tn_Effects t"
proof (cases "st_UnresolvedToolFailure s")
  case True
  then obtain t2 where t2: "spendStep p RepairCompletion (pl_CompletionRepairLimit (st_Policy s))
       StepActionRepairToolFailure t = Inr t2"
    and t': "t' = t2 \<or> t' = withState (\<lambda>s. s\<lparr>st_UnresolvedToolFailure := False,
                      st_RecoveryToolSucceeded := False\<rparr>) t2"
    using assms by (auto simp: repairStep_def Let_def bindR_Inr_iff split: if_splits)
  have "tn_Effects t' = tn_Effects t2" using t' by auto
  then show ?thesis using spendStep_effects [OF t2] by simp
next
  case False
  then show ?thesis
    using assms spendStep_effects by (auto simp: repairStep_def Let_def pickStep_def split: if_split_asm)
qed

lemma convergenceStep_effects:
  assumes "convergenceStep cv t s = Inr t'"
  shows "tn_Effects t' = tn_Effects t"
proof -
  have "tn_Effects t' = tn_Effects t \<or> (\<exists>t2. spendRepairBudget RepairDeclaration ''convergence_declaration''
       (pl_DeclarationRepairLimit (st_Policy s)) (withState (\<lambda>s. s\<lparr>st_NextAction := StepActionBlock\<rparr>) t) = Inr t2 \<and>
       tn_Effects t' = tn_Effects t2)"
    using assms by (auto simp: convergenceStep_def pickStep_def bindR_Inr_iff split: if_split_asm)
  then show ?thesis using spendRepairBudget_effects by fastforce
qed

lemma applyRepairRequested_accounts: "applyRepairRequested t s k p n = Inr t' \<Longrightarrow> accounts t t'"
  by (rule plans_quiet [OF spendRepairBudget_plans spendRepairBudget_effects])
     (auto simp: applyRepairRequested_def Let_def)

lemma applyConvergenceRequested_accounts: "applyConvergenceRequested t s a = Inr t' \<Longrightarrow> accounts t t'"
  by (auto simp: applyConvergenceRequested_def Let_def intro: plans_quiet)

lemma applyConvergenceFinalizationStarted_accounts:
  "applyConvergenceFinalizationStarted t s = Inr t' \<Longrightarrow> accounts t t'"
  by (rule quiet_accounts) (auto simp: applyConvergenceFinalizationStarted_def quiet_def effectIDs_def Let_def
      split: option.splits)

lemma applyObserveProgress_accounts:
  assumes "applyObserveProgress env t s a = Inr t'"
  shows "accounts t t'"
proof -
  obtain p c where "t' = withState (\<lambda>s. s\<lparr>st_Progress := p\<rparr>) t \<or>
        t' = beginConvergence c (withState (\<lambda>s. s\<lparr>st_Progress := p\<rparr>) t)"
    using assms by (auto simp: applyObserveProgress_def Let_def split: if_splits)
  moreover have "quiet t (withState (\<lambda>s. s\<lparr>st_Progress := p\<rparr>) t)" by simp
  ultimately show ?thesis
    using plans_quiet [OF beginConvergence_plans beginConvergence_effects] quiet_accounts accounts_trans
    by blast
qed

lemma applyBindWorkItem_accounts: "applyBindWorkItem env t s a = Inr t' \<Longrightarrow> accounts t t'"
  by (rule quiet_accounts) (auto simp: applyBindWorkItem_def quiet_def effectIDs_def)

lemma applyEvaluateTurnStep_accounts:
  assumes "applyEvaluateTurnStep t s p = Inr t'"
  shows "accounts t t'"
proof -
  let ?t1 = "withState (\<lambda>u. clearRecovered s (u\<lparr>st_NextAction := StepActionNone\<rparr>)) t"
  let ?c = "clearRecovered s s"
  have t': "(if completionAccepted ?c then pickStep StepActionComplete ?t1
        else case st_Convergence ?c of Some cv \<Rightarrow> convergenceStep cv ?t1 ?c
        | None \<Rightarrow> repairStep p ?t1 ?c) = Inr t'"
    using assms by (simp add: applyEvaluateTurnStep_def Let_def)
  have "accounts t ?t1" by (rule quiet_accounts, rule quiet_frame) (simp_all add: clearRecovered_def)
  moreover have "plans ?t1 t'"
    using t' pickStep_plans convergenceStep_plans repairStep_plans
    by (simp split: if_split_asm option.split_asm)
  moreover have "tn_Effects t' = tn_Effects ?t1"
    using t' convergenceStep_effects repairStep_effects
    by (simp add: pickStep_def split: if_split_asm option.split_asm) auto
  ultimately show ?thesis using plans_quiet accounts_trans by blast
qed


section \<open>Composed handlers\<close>

text \<open>Appending one more step to an accounted transition.\<close>

named_theorems accounting

lemma accounts_quiet: "accounts t u \<Longrightarrow> quiet u u' \<Longrightarrow> accounts t u'"
  using accounts_trans quiet_accounts by blast

lemma accounts_request [accounting]: "accounts t u \<Longrightarrow> accounts t (requestEffect env k p key c u)"
  using accounts_trans requestEffect_accounts by blast

lemma accounts_close [accounting]:
  "accounts t u \<Longrightarrow> accounts t (closeEffectByCall k i ok msg u)"
  "accounts t u \<Longrightarrow> accounts t (closeEffectByIdentity k i ok msg u)"
  "accounts t u \<Longrightarrow> accounts t (closeFirstEffectByKind k ok msg u)"
  "accounts t u \<Longrightarrow> accounts t (closeEffectsByKind k ok msg u)"
  "accounts t u \<Longrightarrow> accounts t (move p u)"
  by (auto intro: accounts_quiet)

lemma accounts_update [accounting]:
  assumes "accounts t u" "st_PendingEffects x = st_PendingEffects (tn_State u)"
    "st_CompletedEffects x = st_CompletedEffects (tn_State u)"
    "st_NextEffectSequence x = st_NextEffectSequence (tn_State u)"
  shows "accounts t (u\<lparr>tn_State := x\<rparr>)"
  by (rule accounts_quiet [OF assms(1) quiet_frame]) (use assms in simp_all)

lemma accounts_finish: "finishEffect i ok msg u = Inr u' \<Longrightarrow> accounts t u \<Longrightarrow> accounts t u'"
  by (rule accounts_quiet [OF _ finishEffect_quiet])

lemmas accounting_start [accounting] = accounts_refl

lemma applyEffectResult_accounts:
  "applyEffectResult t s i ok msg = Inr t' \<Longrightarrow> accounts t t'"
  "applyPersistenceResult t s i ok msg = Inr t' \<Longrightarrow> accounts t t'"
  by (auto simp: applyEffectResult_def applyPersistenceResult_def intro: quiet_accounts finishEffect_quiet)

lemma applyApprovalRequired_accounts: "applyApprovalRequired env t s r i = Inr t' \<Longrightarrow> accounts t t'"
  unfolding applyApprovalRequired_def Let_def guard_Inr if_Inl_eq_Inr sum.inject
  by (elim conjE) (hypsubst, split if_split, intro conjI impI accounting; simp)

lemma applyApprovalResolved_accounts: "applyApprovalResolved t s r = Inr t' \<Longrightarrow> accounts t t'"
  unfolding applyApprovalResolved_def Let_def guard_Inr if_Inl_eq_Inr sum.inject
  by (elim conjE) (hypsubst, split if_split, intro conjI impI accounting; simp)

lemma applyApprovalResult_accounts:
  assumes "applyApprovalResult t s a = Inr t'"
  shows "accounts t t'"
proof -
  obtain t1 t2 where t1: "finishEffect (aq_EffectID a) (aq_Accepted a) (aq_Error a) t = Inr t1"
    and t2: "applyApprovalResolved t1 (tn_State t1) (aq_RequestID a) = Inr t2"
    and t': "applyCancelRequested t2 (tn_State t2) CancelReasonApprovalCanceled = Inr t' \<or> t' = t2"
    using assms by (auto simp: applyApprovalResult_def Let_def bindR_Inr_iff split: if_splits)
  have "accounts t t2"
    using accounts_finish [OF t1 accounts_refl] applyApprovalResolved_accounts [OF t2] accounts_trans by blast
  then show ?thesis using t' applyCancelRequested_accounts accounts_trans by blast
qed

lemma applyInputRequired_accounts: "applyInputRequired env t s r i = Inr t' \<Longrightarrow> accounts t t'"
  unfolding applyInputRequired_def Let_def guard_Inr if_Inl_eq_Inr sum.inject
  by (elim conjE) (hypsubst, intro accounting; simp)

lemma applyInputResolved_accounts: "applyInputResolved t s r = Inr t' \<Longrightarrow> accounts t t'"
  unfolding applyInputResolved_def Let_def guard_Inr if_Inl_eq_Inr sum.inject
  by (elim conjE) (hypsubst, split if_split, intro conjI impI accounting; simp)

lemma applyInputResult_accounts:
  assumes "applyInputResult t s a = Inr t'"
  shows "accounts t t'"
proof -
  obtain t1 where t1: "finishEffect (iq_EffectID a) (iq_Accepted a) (iq_Error a) t = Inr t1"
    and t': "applyInputResolved t1 (tn_State t1) (iq_RequestID a) = Inr t'"
    using assms by (auto simp: applyInputResult_def Let_def bindR_Inr_iff split: if_splits)
  show ?thesis
    using accounts_finish [OF t1 accounts_refl] applyInputResolved_accounts [OF t'] accounts_trans by blast
qed

lemma openCall_accounts: "accounts t u \<Longrightarrow> accounts t (openCall env call u)"
  unfolding openCall_def by (rule accounts_request) (simp add: accounts_update)

lemma proposeCalls_accounts: "proposeCalls env s c seen calls u = Inr t' \<Longrightarrow> accounts t u \<Longrightarrow> accounts t t'"
  by (induction env s c seen calls u rule: proposeCalls.induct) (auto intro: openCall_accounts)

lemma applyToolCalls_accounts:
  assumes "applyToolCalls env t s calls = Inr t'"
  shows "accounts t t'"
proof -
  let ?t0 = "withState (\<lambda>s. s\<lparr>st_Completion := None, st_OutputEligibility := False\<rparr>) t"
  obtain t1 where t1: "proposeCalls env s (ToolCallsProposed calls) [] calls ?t0 = Inr t1"
    and t': "t' = withState (\<lambda>s. s\<lparr>st_Progress := (st_Progress s)\<lparr>
        pg_PendingIdentity := FormatToolCallsIdentity env calls, pg_PendingResultDigests := []\<rparr>\<rparr>)
        (if st_Phase s = PhaseSampling then move PhaseExecutingTools t1 else t1)"
    using assms by (auto simp: applyToolCalls_def Let_def bindR_Inr_iff split: if_splits)
  have "accounts t t1" by (rule proposeCalls_accounts [OF t1]) (simp add: accounts_update)
  then have "accounts t (if st_Phase s = PhaseSampling then move PhaseExecutingTools t1 else t1)"
    by (simp add: accounting)
  then show ?thesis unfolding t' by (rule accounts_update) simp_all
qed


lemma accounts_emit [accounting]: "accounts t u \<Longrightarrow> accounts t (u\<lparr>tn_Events := evs\<rparr>)"
  by simp

lemma retireApprovals_quiet [simp]: "quiet t (retireApprovals reason ids t)"
proof -
  have "quiet t (closeEffectByIdentity EffectAwaitApproval i False reason
       (withState (\<lambda>s. s\<lparr>st_PendingApprovals := fmdrop i (st_PendingApprovals s)\<rparr>) t))" for t i
    by (rule quiet_trans [OF _ closeEffects_quiet(2)]) simp
  then show ?thesis unfolding retireApprovals_def by (rule foldl_quiet)
qed

lemma releaseInput_quiet [simp]: "quiet t (releaseInput s i t)"
proof -
  have "quiet t (closeEffectByIdentity EffectAwaitInput r True []
       (withState (\<lambda>s. s\<lparr>st_PendingInput := None,
          st_Convergence := map_option reopenConvergence (st_Convergence s)\<rparr>) t))" for r
    by (rule quiet_trans [OF _ closeEffects_quiet(2)]) simp
  then show ?thesis by (simp add: releaseInput_def)
qed

lemma closeCall_quiet: "quiet t (closeCall env s c call t)"
proof -
  let ?a = "releaseInput s (tq_CallID c) t"
  let ?b = "recordClosed c call ?a"
  let ?d = "releaseApprovals s (tq_CallID c) ?b"
  let ?e = "observeMutation (tq_Changes c) (markFailure s c ?d)"
  let ?f = "withState (\<lambda>s. applyWorkItemObservation env s call (tq_Changes c) (tq_Observation c)
              (tq_IsError c)) ?e"
  have "quiet t ?a" "quiet ?a ?b" "quiet ?b ?d" by (simp_all add: recordClosed_def releaseApprovals_def)
  moreover have "quiet ?d ?e"
    by (rule quiet_frame) (simp_all add: observeMutation_def markFailure_def Let_def)
  moreover have "quiet ?e ?f" by (rule quiet_frame) simp_all
  moreover have "quiet ?f (recordDigest c ?f)"
    by (rule quiet_frame) (simp_all add: recordDigest_def Let_def)
  moreover have "quiet (recordDigest c ?f) (settlePhase (recordDigest c ?f))"
    by (simp add: settlePhase_def)
  ultimately have "quiet t (settlePhase (recordDigest c ?f))" using quiet_trans by blast
  then show ?thesis by (simp add: closeCall_def Let_def)
qed

lemma applyToolResult_accounts:
  assumes "applyToolResult env t s c = Inr t'"
  shows "accounts t t'"
proof -
  obtain call t1 where "finishEffect (tq_EffectID c) True [] t = Inr t1" "t' = closeCall env s c call t1"
    by (rule applyToolResult_Inr [OF assms])
  then show ?thesis using accounts_finish [OF _ accounts_refl] accounts_quiet closeCall_quiet by blast
qed

lemma abortCall_quiet: "quiet t (abortCall s reason t i)"
  unfolding abortCall_def by (simp, rule quiet_trans [OF _ closeEffects_quiet(1)]) simp

lemma applyAbortOpenCalls_accounts:
  assumes "applyAbortOpenCalls t s reason = Inr t'"
  shows "accounts t t'"
proof -
  obtain t1 where t1: "t1 = foldl (abortCall s reason) t (keys (st_OpenCalls s))"
    and t': "t' = move PhaseSampling (closeEffectsByKind EffectAwaitApproval False reason
       (withState (\<lambda>s. s\<lparr>st_PendingApprovals := fmempty\<rparr>) t1))"
    by (rule applyAbortOpenCalls_Inr [OF assms])
  have "accounts t t1" unfolding t1 by (rule quiet_accounts, rule foldl_quiet, rule abortCall_quiet)
  then show ?thesis unfolding t' by (intro accounting) simp_all
qed


lemma recordText_quiet [simp]: "quiet t (recordText s a t)"
  by (simp add: recordText_def)

lemma recordSample_quiet [simp]: "quiet t (recordSample s a t)"
  by (simp add: recordSample_def Let_def)

lemma applyModelSampleRequested_accounts:
  "applyModelSampleRequested env t s i = Inr t' \<Longrightarrow> accounts t t'"
  unfolding applyModelSampleRequested_def Let_def guard_Inr if_Inl_eq_Inr sum.inject
  by (elim conjE) (hypsubst, intro accounting; simp)

lemma applyModelSampleResult_accounts:
  assumes "applyModelSampleResult env t s a = Inr t'"
  shows "accounts t t'"
proof -
  obtain t1 where fin: "finishEffect (mr_EffectID a) (mr_Error a = []) (mr_Error a) t = Inr t1"
    and t': "mr_Error a \<noteq> [] \<Longrightarrow> t' = recordSample s a t1"
    "mr_Error a = [] \<Longrightarrow> mr_Calls a = [] \<Longrightarrow> t' = withState (\<lambda>u. u\<lparr>st_Progress :=
        (st_Progress u)\<lparr>pg_PendingIdentity := []\<rparr>\<rparr>) (recordText s a (recordSample s a t1))"
    "mr_Error a = [] \<Longrightarrow> mr_Calls a \<noteq> [] \<Longrightarrow>
      (let t3 = recordText s a (recordSample s a t1)
       in applyToolCalls env t3 (tn_State t3) (mr_Calls a)) = Inr t'"
    by (rule applyModelSampleResult_Inr [OF assms]) blast
  let ?t2 = "recordSample s a t1"
  let ?t3 = "recordText s a ?t2"
  have 1: "accounts t ?t2" by (rule accounts_quiet [OF accounts_finish [OF fin accounts_refl]]) simp
  have 2: "accounts t ?t3" by (rule accounts_quiet [OF 1]) simp
  consider "mr_Error a \<noteq> []" | "mr_Error a = []" "mr_Calls a = []" | "mr_Error a = []" "mr_Calls a \<noteq> []" by blast
  then show ?thesis
  proof cases
    case 2
    show ?thesis unfolding t'(2) [OF 2] by (rule accounts_update [OF \<open>accounts t ?t3\<close>]) simp_all
  next
    case 3
    then have "applyToolCalls env ?t3 (tn_State ?t3) (mr_Calls a) = Inr t'" using t'(3) by (simp add: Let_def)
    then show ?thesis using applyToolCalls_accounts accounts_trans 2 by blast
  qed (use 1 t'(1) in simp)
qed

lemma effectIDs_replace: "fmlookup m i = Some e \<Longrightarrow> fmdom' (fmupd i e' m) = fmdom' m"
  by (auto simp: fmlookup_dom'_iff)

lemma applyProviderRetry_accounts:
  assumes "applyProviderRetry t s a = Inr t'" "copyOf s (tn_State t)"
  shows "accounts t t'"
proof -
  have "tn_Effects t' = tn_Effects t"
    using assms(1) by (cases "fmlookup (st_PendingEffects s) (pq_EffectID a)")
      (auto simp: applyProviderRetry_def Let_def)
  with assms(1) show ?thesis
    by (cases rule: applyProviderRetry_Inr)
       (rule quiet_accounts, simp add: quiet_def effectIDs_def effectIDs_replace copyOfD [OF assms(2)]
          del: fmdom'_fmupd)
qed

lemma applyEffectStarted_accounts:
  assumes "applyEffectStarted t s i n = Inr t'" "copyOf s (tn_State t)"
  shows "accounts t t'"
proof (cases "fmlookup (st_PendingEffects s) i")
  case None
  then show ?thesis using assms(1) by (simp add: applyEffectStarted_def)
next
  case (Some e)
  have r: "fmdom' (fmupd i e' (st_PendingEffects s)) = fmdom' (st_PendingEffects s)" for e'
    by (rule effectIDs_replace [OF Some])
  show ?thesis
    by (rule quiet_accounts)
       (use assms(1) Some in \<open>auto simp: applyEffectStarted_def Let_def quiet_def effectIDs_def r
          copyOfD [OF assms(2)] simp del: fmdom'_fmupd split: if_split_asm option.split_asm\<close>)
qed

lemma applyEffectRequeued_accounts:
  assumes "applyEffectRequeued t s i = Inr t'" "copyOf s (tn_State t)"
  shows "accounts t t'"
proof (cases "fmlookup (st_PendingEffects s) i")
  case None
  then show ?thesis using assms(1) by (simp add: applyEffectRequeued_def)
next
  case (Some e)
  have r: "fmdom' (fmupd i e' (st_PendingEffects s)) = fmdom' (st_PendingEffects s)" for e'
    by (rule effectIDs_replace [OF Some])
  show ?thesis
    by (rule quiet_accounts)
       (use assms(1) Some in \<open>auto simp: applyEffectRequeued_def Let_def quiet_def effectIDs_def r
          copyOfD [OF assms(2)] simp del: fmdom'_fmupd split: if_split_asm option.split_asm\<close>)
qed


lemma retireVerification_accounts:
  assumes "retireVerification t = Inr t'"
  shows "accounts t t'"
proof -
  obtain t1 where "finishVerifications (sortedEffectIDs (st_PendingEffects (tn_State t))) t = Inr t1"
    and t': "t' = (if st_Phase (tn_State (withState retireState t1)) = PhaseVerifying
        then move PhaseSampling (withState retireState t1) else withState retireState t1)"
    using assms by (auto simp: retireVerification_def Let_def bindR_Inr_iff)
  then have "accounts t t1" using finishVerifications_quiet quiet_accounts by blast
  then have "accounts t (withState retireState t1)" by (rule accounts_update) simp_all
  then show ?thesis unfolding t' by (simp add: accounting)
qed

lemma prepareTerminal_accounts: "accounts t u \<Longrightarrow> accounts t (prepareTerminal env s d u)"
proof -
  let ?v = "withState (\<lambda>s. s\<lparr>st_PendingTerminal := Some d, st_Usage := (st_Usage s)\<lparr>us_Frozen := True\<rparr>,
              st_Context := (st_Context s)\<lparr>cx_Frozen := True\<rparr>\<rparr>) u"
  assume "accounts t u"
  then have "accounts t ?v" by (rule accounts_update) simp_all
  then have "accounts t (move PhaseCommitting ?v)" by (rule accounting)
  then show ?thesis by (simp add: prepareTerminal_def Let_def accounting)
qed

lemma applyTerminalRequested_accounts:
  assumes "applyTerminalRequested env t s a d = Inr t'"
  shows "accounts t t'"
proof -
  have "accounts t (prepareTerminal env s d t)" by (rule prepareTerminal_accounts) simp
  moreover have "accounts t (prepareTerminal env s d' (withState (\<lambda>u. u\<lparr>st_Convergence := b\<rparr>) t))" for d' b
    by (rule prepareTerminal_accounts, rule accounts_update) simp_all
  ultimately show ?thesis using applyTerminalRequested_Inr(1) [OF assms] by blast
qed

lemma applyJournalFinalized_accounts: "applyJournalFinalized t s j = Inr t' \<Longrightarrow> accounts t t'"
  by (auto simp: applyJournalFinalized_def Let_def split: option.splits intro!: accounts_close accounts_update)

lemma applyJournalResult_accounts:
  assumes "applyJournalResult t s i j err = Inr t'" "copyOf s (tn_State t)"
  shows "accounts t t'"
proof (cases "fmlookup (st_PendingEffects s) i")
  case None
  then show ?thesis using assms(1) by (simp add: applyJournalResult_def Let_def)
next
  case (Some e)
  then consider t1 where "finishEffect i True [] t = Inr t1" "t' = withState (\<lambda>s. s\<lparr>st_Journal := j\<rparr>) t1"
    | "t' = emit ((event EventEffectRequeued)\<lparr>ev_EffectID := i\<rparr>)
        (withState (\<lambda>s. s\<lparr>st_PendingEffects := fmupd i (e\<lparr>ef_Status := EffectRequested, ef_Error := err\<rparr>)
          (st_PendingEffects s)\<rparr>) t)"
    using assms(1)
    by (auto simp: applyJournalResult_def Let_def bindR_Inr_iff split: option.splits if_splits)
  then show ?thesis
  proof cases
    case 1
    show ?thesis unfolding 1(2) by (rule accounts_update [OF accounts_finish [OF 1(1) accounts_refl]]) simp_all
  next
    case 2
    show ?thesis unfolding 2
      by (rule quiet_accounts, simp add: quiet_def effectIDs_def effectIDs_replace [OF Some]
          copyOfD [OF assms(2)] del: fmdom'_fmupd)
  qed
qed

section \<open>The whole command\<close>

lemmas handler_accounts =
  applyModelSampleRequested_accounts applyModelSampleStarted_accounts applyModelSampleFinished_accounts
  applyModelSampleProgress_accounts applyModelSampleResult_accounts applySupplementalUsage_accounts
  applyProviderRetry_accounts applyProviderWait_accounts applyReleaseOutput_accounts
  applyDiscardOutput_accounts applyModelText_accounts applyRepairRequested_accounts
  applyConvergenceRequested_accounts applyConvergenceFinalizationStarted_accounts
  applyObserveProgress_accounts applyBindWorkItem_accounts applyEvaluateTurnStep_accounts
  applyWorkspaceReconciled_accounts applyCompletion_accounts applyCompletionInvalidated_accounts
  retireVerification_accounts applyEffectStarted_accounts applyEffectRequeued_accounts
  applyTerminalRequested_accounts applyJournalFinalized_accounts applyJournalResult_accounts
  applyFinishTerminal_accounts applyToolResult_accounts applyAbortOpenCalls_accounts
  applyCancelRequested_accounts applyRecoveryRequested_accounts applyContinuationRecorded_accounts
  applyApprovalRequired_accounts applyApprovalResolved_accounts applyApprovalResult_accounts
  applyInputRequired_accounts applyInputResolved_accounts applyInputResult_accounts
  applyToolCalls_accounts applyToolBatchAdmissionRejection_accounts applyPhaseMove_accounts
  applyEffectResult_accounts

lemma dispatch_accounts:
  assumes "dispatch env t s c = Inr t'" "copyOf s (tn_State t)"
  shows "accounts t t'"
  using assms(1) unfolding dispatch_def
  by (cases c; simp only: Command.case) ((erule handler_accounts; rule assms(2))+)

end
