(* ===== verification/Turn_Runs.thy ===== *)
theory Turn_Runs
  imports Evaluation Effect_Accounting
begin

text \<open>
  Runs of a turn: the states a sequence of accepted commands reaches. The theorems lift what one
  command keeps (\<open>Turn_Evolution\<close>) to whole runs by rule induction.
\<close>

section \<open>Runs\<close>

inductive turnRun :: "'e KernelEnv_scheme \<Rightarrow> State \<Rightarrow> State \<Rightarrow> bool" for env s where
  idle [intro, simp]: "turnRun env s s"
| command [intro]: "turnRun env s u \<Longrightarrow> Apply env u c = Inr t \<Longrightarrow> turnRun env s (tn_State t)"

fun runCommands :: "'e KernelEnv_scheme \<Rightarrow> Command list \<Rightarrow> State \<Rightarrow> go_error + State" where
  "runCommands env [] s = Inr s"
| "runCommands env (c # cs) s = bindR (Apply env s c) (\<lambda>t. runCommands env cs (tn_State t))"

lemma turnRun_trans: "turnRun env s u \<Longrightarrow> turnRun env u v \<Longrightarrow> turnRun env s v"
  by (rotate_tac, induction rule: turnRun.induct) auto

lemma runCommands_run: "runCommands env cs s = Inr s' \<Longrightarrow> turnRun env s s'"
proof (induction cs arbitrary: s)
  case (Cons c cs)
  then obtain t where "Apply env s c = Inr t" "runCommands env cs (tn_State t) = Inr s'"
    by (auto simp: bindR_Inr_iff)
  with Cons.IH show ?case by (metis command idle turnRun_trans)
qed simp

text \<open>A relation that is kept by every command of a valid turn is kept by every run.\<close>

lemma turnRun_keeps [consumes 1, case_names refl step]:
  assumes "turnRun env s s'" "\<And>u. R u u"
    and "\<And>u c t. Apply env u c = Inr t \<Longrightarrow> evolves u (tn_State t) \<Longrightarrow> R s u \<Longrightarrow> R s (tn_State t)"
  shows "R s s'"
  using assms(1) by (induction rule: turnRun.induct) (use assms(2,3) Apply_evolves in blast)+

lemma turnRun_valid: "turnRun env s s' \<Longrightarrow> Validate env s = None \<Longrightarrow> Validate env s' = None"
  by (induction rule: turnRun.induct) (auto dest: Apply_Inr(3))

section \<open>What a run keeps\<close>

definition keepsLedgers :: "State \<Rightarrow> State \<Rightarrow> bool" where
  "keepsLedgers s s' \<longleftrightarrow> fmsubset (st_ClosedCalls s) (st_ClosedCalls s') \<and>
     fmsubset (st_CompletedEffects s) (st_CompletedEffects s') \<and>
     fmdom' (st_SampleLedger s) \<subseteq> fmdom' (st_SampleLedger s') \<and>
     prefix (st_Commentary s) (st_Commentary s') \<and>
     st_Intent s' = st_Intent s \<and> st_Mode s' = st_Mode s"

text \<open>
  C1. The ledgers of a turn are append-only: along every run a closed call keeps its recorded
  result, a settled effect keeps its outcome, no sample leaves the sample ledger, commentary is only
  appended to, and the intent and mode never change.
\<close>

theorem run_keeps_ledgers:
  assumes "turnRun env s s'"
  shows "keepsLedgers s s'"
  using assms
proof (induction rule: turnRun_keeps)
  case (step u c t)
  then show ?case
    unfolding keepsLedgers_def evolves_def
    by (metis fmsubset_trans prefix_order.trans subset_trans)
qed (simp add: keepsLedgers_def)

theorem run_keeps_ledgers_witness: "turnRun sampleEnv turn1 turn2 \<and> keepsLedgers turn1 turn2"
proof -
  have "turnRun sampleEnv turn1 turn2"
    using command [OF idle Apply_request_sample] by simp
  then show ?thesis using run_keeps_ledgers by blast
qed


section \<open>Cancellation\<close>

text \<open>
  C2. An accepted cancellation is irrevocable and closes the door on new work: along every run from
  a canceled state the cancellation stays as it was accepted, with its first reason, and no tool
  call is opened that was not open when the cancellation was accepted.
\<close>

theorem cancellation_is_final:
  assumes "turnRun env s s'" "cs_Accepted (st_Cancellation s)"
  shows "st_Cancellation s' = st_Cancellation s \<and> fmdom' (st_OpenCalls s') \<subseteq> fmdom' (st_OpenCalls s)"
proof -
  have "cs_Accepted (st_Cancellation s) \<longrightarrow> st_Cancellation s' = st_Cancellation s \<and>
      fmdom' (st_OpenCalls s') \<subseteq> fmdom' (st_OpenCalls s)"
    using assms(1)
  proof (induction rule: turnRun_keeps)
    case (step u c t)
    then show ?case unfolding evolves_def tracksCalls_def by (metis subset_trans)
  qed simp
  then show ?thesis using assms(2) by blast
qed

theorem cancellation_is_final_witness:
  "turnRun sampleEnv turnCanceled turnSettled \<and> cs_Accepted (st_Cancellation turnCanceled) \<and>
   st_Cancellation turnSettled = st_Cancellation turnCanceled"
proof -
  have run: "turnRun sampleEnv turnCanceled turnSettled"
    using command [OF idle Apply_settle] by simp
  have acc: "cs_Accepted (st_Cancellation turnCanceled)" by (simp add: turnCanceled_def)
  show ?thesis using run acc cancellation_is_final [OF run acc] by blast
qed

section \<open>The terminal transaction\<close>

definition snapshot :: "State \<Rightarrow> UsageState \<times> ContextState \<times> uint64 \<times> ObservedChange list \<times>
    (string, ToolResultState) fmap \<times> CompletionDecision option" where
  "snapshot s = (st_Usage s, st_Context s, st_MutationRevision s, st_Changes s, st_ClosedCalls s,
     st_Completion s)"

lemma phaseForTerminal_terminal [simp]: "Phase_Terminal (phaseForTerminal k)"
  by (cases k) (simp_all add: Phase_Terminal_def)

lemma Apply_not_terminal: "Apply env s c = Inr t \<Longrightarrow> \<not> Phase_Terminal (st_Phase s)"
  by (rule Apply_Inr(2))

lemma run_from_terminal:
  assumes "turnRun env s s'" "Phase_Terminal (st_Phase s)"
  shows "s' = s"
  using assms(1) by (induction rule: turnRun.induct) (use assms(2) Apply_not_terminal in blast)+

text \<open>
  C3. Once a terminal transaction is prepared its outcome is fixed: along every run from a
  committing state the usage, context, mutations, closed calls and completion stay frozen, and the
  turn is either still committing with the same decision and output, or it has ended with exactly
  the prepared decision, in the phase that belongs to it and with the held output as final output.
\<close>

theorem committing_outcome_fixed:
  assumes "turnRun env s s'" "st_Phase s = PhaseCommitting"
  shows "snapshot s' = snapshot s \<and>
    (st_Phase s' = PhaseCommitting \<and> st_PendingTerminal s' = st_PendingTerminal s \<and>
       st_ProvisionalOutput s' = st_ProvisionalOutput s \<or>
     (\<exists>d. st_PendingTerminal s = Some d \<and> st_Terminal s' = Some d \<and>
       st_Phase s' = phaseForTerminal (td_Kind d) \<and> st_FinalOutput s' = st_ProvisionalOutput s))"
  using assms(1)
proof (induction rule: turnRun.induct)
  case (command u c t)
  have u: "snapshot u = snapshot s" "st_Phase u = PhaseCommitting"
    "st_PendingTerminal u = st_PendingTerminal s" "st_ProvisionalOutput u = st_ProvisionalOutput s"
    using command(3) Apply_not_terminal [OF command(2)] by auto
  have "holdsTransaction u (tn_State t)" using Apply_evolves [OF command(2)] by (simp add: evolves_def)
  then have h: "snapshot (tn_State t) = snapshot u"
    "st_Phase (tn_State t) = PhaseCommitting \<Longrightarrow> st_PendingTerminal (tn_State t) = st_PendingTerminal u \<and>
       st_ProvisionalOutput (tn_State t) = st_ProvisionalOutput u"
    "st_Phase (tn_State t) \<noteq> PhaseCommitting \<Longrightarrow> st_PendingTerminal u \<noteq> None \<and>
       st_Terminal (tn_State t) = st_PendingTerminal u \<and>
       st_Phase (tn_State t) = phaseForTerminal (td_Kind (the (st_PendingTerminal u))) \<and>
       st_FinalOutput (tn_State t) = st_ProvisionalOutput u"
    using u(2) by (simp_all add: holdsTransaction_def snapshot_def)
  show ?case using h u by (cases "st_Phase (tn_State t) = PhaseCommitting") auto
qed (simp add: assms(2))


theorem committing_outcome_fixed_witness:
  "turnRun sampleEnv turnCommitting turnEnded \<and> st_Phase turnCommitting = PhaseCommitting \<and>
   snapshot turnEnded = snapshot turnCommitting"
proof -
  have run: "turnRun sampleEnv turnCommitting turnEnded"
    using command [OF idle Apply_finish] by simp
  have ph: "st_Phase turnCommitting = PhaseCommitting" by (simp add: turnCommitting_def)
  show ?thesis using run ph committing_outcome_fixed [OF run ph] by blast
qed



section \<open>Mutations and the continuation cursor\<close>

text \<open>
  The mutation revision and the observed changes move together: one accepted command of a
  started turn either leaves both alone, or raises the revision by one, appends a non-empty list of
  changes, reopens the journal and drops the completion decision and the workspace observation that
  the new mutation made stale.
\<close>

theorem mutation_moves_together:
  assumes "Apply env s c = Inr t" "st_Phase s \<noteq> PhaseCreated"
  shows "st_MutationRevision (tn_State t) = st_MutationRevision s \<and> st_Changes (tn_State t) = st_Changes s \<or>
    st_MutationRevision (tn_State t) = st_MutationRevision s + 1 \<and>
      (\<exists>cs. cs \<noteq> [] \<and> st_Changes (tn_State t) = st_Changes s @ cs) \<and>
      st_Journal (tn_State t) = JournalOpen \<and> st_Completion (tn_State t) = None \<and>
      st_Workspace (tn_State t) = None"
  using Apply_evolves [OF assms(1)] assms(2) by (simp add: evolves_def mutates_def)

theorem mutation_moves_together_witness:
  "(\<exists>t. Apply sampleEnv turn1 (ModelSampleRequested ''s1'') = Inr t \<and>
     (st_MutationRevision (tn_State t) = 0 \<or> st_MutationRevision (tn_State t) = 1)) \<and>
   st_Phase turn1 \<noteq> PhaseCreated"
proof -
  have ph: "st_Phase turn1 \<noteq> PhaseCreated" "st_MutationRevision turn1 = 0"
    by (simp_all add: turn_eval NewState_def)
  show ?thesis
    using mutation_moves_together [OF Apply_request_sample ph(1)] Apply_request_sample ph by auto
qed

section \<open>Calls\<close>

text \<open>
  C5. No proposed call is lost: along every run of a valid turn each call that was open or closed
  is still exactly one of the two, and in a terminal state every call that was ever open has its
  recorded result.
\<close>

theorem calls_accounted_for:
  assumes "turnRun env s s'" "Validate env s = None"
  shows "fmdom' (st_OpenCalls s) \<union> fmdom' (st_ClosedCalls s) \<subseteq>
      fmdom' (st_OpenCalls s') \<union> fmdom' (st_ClosedCalls s') \<and>
    fmdom' (st_OpenCalls s') \<inter> fmdom' (st_ClosedCalls s') = {} \<and>
    (Phase_Terminal (st_Phase s') \<longrightarrow> fmdom' (st_OpenCalls s) \<subseteq> fmdom' (st_ClosedCalls s'))"
proof -
  have grow: "fmdom' (st_OpenCalls s) \<union> fmdom' (st_ClosedCalls s) \<subseteq>
      fmdom' (st_OpenCalls s') \<union> fmdom' (st_ClosedCalls s')"
    using assms(1)
  proof (induction rule: turnRun_keeps)
    case (step u c t)
    then show ?case unfolding evolves_def tracksCalls_def by blast
  qed simp
  have v: "Validate env s' = None" by (rule turnRun_valid [OF assms])
  have "fmdom' (st_OpenCalls s') \<inter> fmdom' (st_ClosedCalls s') = {}"
    using Validate_disjoint(2) [OF v]
    by (auto simp: disjointCalls_def apart_def fmlookup_dom'_iff)
  moreover have "Phase_Terminal (st_Phase s') \<longrightarrow> st_OpenCalls s' = fmempty"
    using v by (auto simp: Validate_def terminalError_def isEmpty_iff split: option.splits)
  ultimately show ?thesis using grow by auto
qed

theorem calls_accounted_for_witness:
  "turnRun sampleEnv turnCommitting turnEnded \<and> Validate sampleEnv turnCommitting = None \<and>
   Phase_Terminal (st_Phase turnEnded) \<and>
   fmdom' (st_OpenCalls turnCommitting) \<subseteq> fmdom' (st_ClosedCalls turnEnded)"
proof -
  have run: "turnRun sampleEnv turnCommitting turnEnded"
    using command [OF idle Apply_finish] by simp
  have ph: "Phase_Terminal (st_Phase turnEnded)" by (simp add: turnEnded_def Phase_Terminal_def)
  show ?thesis
    using run ph turnCommitting_valid calls_accounted_for [OF run turnCommitting_valid] by blast
qed


section \<open>Effects\<close>

lemma cloneState_frame [simp]:
  "st_PendingEffects (cloneState env s) = st_PendingEffects s"
  "st_CompletedEffects (cloneState env s) = st_CompletedEffects s"
  "st_NextEffectSequence (cloneState env s) = st_NextEffectSequence s"
  by (simp_all add: cloneState_def)

lemma Apply_accounts:
  assumes "Apply env s c = Inr t"
  shows "map ef_ID (tn_Effects t) = issuedIDs (st_NextEffectSequence s) (length (tn_Effects t))"
    "st_NextEffectSequence (tn_State t) = st_NextEffectSequence s + of_nat (length (tn_Effects t))"
    "effectIDs (tn_State t) = effectIDs s \<union> set (map ef_ID (tn_Effects t))"
proof -
  have "effectIDs (cloneState env s) = effectIDs s" by (simp add: effectIDs_def)
  then show "map ef_ID (tn_Effects t) = issuedIDs (st_NextEffectSequence s) (length (tn_Effects t))"
    "st_NextEffectSequence (tn_State t) = st_NextEffectSequence s + of_nat (length (tn_Effects t))"
    "effectIDs (tn_State t) = effectIDs s \<union> set (map ef_ID (tn_Effects t))"
    using dispatch_accounts [OF Apply_Inr(4) [OF assms]] unfolding accounts_def
    by (simp_all del: set_map)
qed

text \<open>
  The effects a command hands to the dispatcher are exactly the ones it adds to the ledger: they
  carry the next consecutive identifiers, the counter advances by their number, and every identifier
  known before is still pending or completed.
\<close>

theorem outbox_matches_ledger:
  assumes "Apply env s c = Inr t"
  shows "map ef_ID (tn_Effects t) = issuedIDs (st_NextEffectSequence s) (length (tn_Effects t)) \<and>
    st_NextEffectSequence (tn_State t) = st_NextEffectSequence s + of_nat (length (tn_Effects t)) \<and>
    effectIDs (tn_State t) = effectIDs s \<union> set (map ef_ID (tn_Effects t))"
  using Apply_accounts [OF assms] by blast

theorem outbox_matches_ledger_witness:
  "(\<exists>t. Apply sampleEnv turn1 (ModelSampleRequested ''s1'') = Inr t \<and>
     map ef_ID (tn_Effects t) = [effectID 1]) \<and> effectIDs turn2 = effectIDs turn1 \<union> {effectID 1}"
proof -
  note out = outbox_matches_ledger [OF Apply_request_sample]
  have "map ef_ID (tn_Effects \<lparr>tn_State = turn2, tn_Events = [(event EventEffectRequested)
       \<lparr>ev_EffectID := effectID 1, ev_CallID := ''s1''\<rparr>], tn_Effects = [newEffect sampleEnv 1
       EffectSampleProvider (PayloadSample ''s1'') ''sample:s1'' ''s1'']\<rparr>) = [effectID 1]"
    by (simp add: newEffect_def)
  with out show ?thesis using Apply_request_sample by auto
qed

text \<open>
  C6. No effect is lost or settled twice: along every run of a valid turn an effect that was ever
  requested is still in the ledger, pending or completed but never both, and when the turn has ended
  every effect that was pending has been settled.
\<close>

theorem effects_settle_once:
  assumes "turnRun env s s'" "Validate env s = None"
  shows "effectIDs s \<subseteq> effectIDs s' \<and>
    fmdom' (st_PendingEffects s') \<inter> fmdom' (st_CompletedEffects s') = {} \<and>
    (Phase_Terminal (st_Phase s') \<longrightarrow> effectIDs s \<subseteq> fmdom' (st_CompletedEffects s'))"
proof -
  have grow: "effectIDs s \<subseteq> effectIDs s'"
    using assms(1)
  proof (induction rule: turnRun.induct)
    case (command u c t)
    then show ?case using Apply_accounts(3) [OF command(2)] by blast
  qed simp
  have v: "Validate env s' = None" by (rule turnRun_valid [OF assms])
  have "fmdom' (st_PendingEffects s') \<inter> fmdom' (st_CompletedEffects s') = {}"
    using Validate_disjoint(1) [OF v]
    by (auto simp: disjointEffects_def apart_def fmlookup_dom'_iff)
  moreover have "Phase_Terminal (st_Phase s') \<longrightarrow> st_PendingEffects s' = fmempty"
    using v by (auto simp: Validate_def terminalError_def isEmpty_iff split: option.splits)
  ultimately show ?thesis using grow by (auto simp: effectIDs_def)
qed

theorem effects_settle_once_witness:
  "turnRun sampleEnv turn2 turnEnded \<and> Validate sampleEnv turn2 = None \<and>
   Phase_Terminal (st_Phase turnEnded) \<and> effectID 1 \<in> effectIDs turn2 \<and>
   effectIDs turn2 \<subseteq> fmdom' (st_CompletedEffects turnEnded)"
proof -
  have run: "turnRun sampleEnv turn2 turnEnded"
    using turnRun_trans [OF command [OF idle Apply_cancel, simplified]]
      turnRun_trans [OF command [OF idle Apply_settle, simplified]]
      turnRun_trans [OF command [OF idle Apply_terminal, simplified]]
      command [OF idle Apply_finish, simplified] by blast
  have ph: "Phase_Terminal (st_Phase turnEnded)" "effectID 1 \<in> effectIDs turn2"
    by (simp_all add: turnEnded_def Phase_Terminal_def turn2_def effectIDs_def)
  show ?thesis using run ph turn2_valid effects_settle_once [OF run turn2_valid] by blast
qed

text \<open>Identifiers order like the counter they are printed from.\<close>

lemma effectID_less: "effectID a < effectID b \<longleftrightarrow> a < b"
  by (simp add: effectID_def)

definition issuedUpTo :: "State \<Rightarrow> bool" where
  "issuedUpTo s \<longleftrightarrow> (\<forall>i \<in> effectIDs s. \<exists>n \<le> st_NextEffectSequence s. i = effectID n)"

lemma unat_offset:
  assumes "unat (n :: uint64) + k < 2 ^ 64"
  shows "unat (n + of_nat k) = unat n + k"
  using assms by (simp add: unat_word_ariths unat_of_nat)

text \<open>
  Effect identifiers are fresh and sort in the order of issue. If every identifier of the ledger
  comes from the counter so far and the counter does not wrap, then the identifiers a command issues
  are new, strictly increasing as strings, larger than every identifier issued before, and the
  ledger still comes from the counter.
\<close>

theorem issued_effects_fresh:
  assumes "Apply env s c = Inr t" "issuedUpTo s"
    "unat (st_NextEffectSequence s) + length (tn_Effects t) < 2 ^ 64"
  shows "sorted_wrt (<) (map ef_ID (tn_Effects t)) \<and>
    (\<forall>i \<in> effectIDs s. \<forall>e \<in> set (tn_Effects t). i < ef_ID e) \<and> issuedUpTo (tn_State t)"
proof -
  let ?n = "st_NextEffectSequence s"
  let ?k = "length (tn_Effects t)"
  note acc = Apply_accounts [OF assms(1)]
  have val: "unat (?n + of_nat (Suc j)) = unat ?n + Suc j" if "j < ?k" for j
    using assms(3) that by (intro unat_offset) simp
  have ids: "\<exists>j < ?k. ef_ID e = effectID (?n + of_nat (Suc j))" if "e \<in> set (tn_Effects t)" for e
  proof -
    from that have "ef_ID e \<in> set (issuedIDs ?n ?k)" by (metis acc(1) image_eqI set_map)
    then show ?thesis by (auto simp: issuedIDs_def)
  qed
  have "sorted_wrt (<) (issuedIDs ?n ?k)"
    by (simp add: issuedIDs_def sorted_wrt_iff_nth_less effectID_less word_less_nat_alt val del: of_nat_Suc)
  moreover have "i < ef_ID e" if i: "i \<in> effectIDs s" and e: "e \<in> set (tn_Effects t)" for i e
  proof -
    obtain m where m: "m \<le> ?n" "i = effectID m" using assms(2) i by (auto simp: issuedUpTo_def)
    obtain j where j: "j < ?k" "ef_ID e = effectID (?n + of_nat (Suc j))" using ids [OF e] by blast
    show ?thesis using m j val [OF j(1)] by (simp add: effectID_less word_less_nat_alt word_le_nat_alt)
  qed
  moreover have "issuedUpTo (tn_State t)"
    unfolding issuedUpTo_def
  proof
    fix i assume "i \<in> effectIDs (tn_State t)"
    then consider "i \<in> effectIDs s" | e where "e \<in> set (tn_Effects t)" "i = ef_ID e"
      using acc(3) by auto
    then show "\<exists>n \<le> st_NextEffectSequence (tn_State t). i = effectID n"
    proof cases
      case 1
      then obtain m where "m \<le> ?n" "i = effectID m" using assms(2) by (auto simp: issuedUpTo_def)
      moreover have "?n \<le> st_NextEffectSequence (tn_State t)"
        using assms(3) unat_offset [OF assms(3)] by (simp add: acc(2) word_le_nat_alt)
      ultimately show ?thesis using order_trans by blast
    next
      case 2
      obtain j where j: "j < ?k" "ef_ID e = effectID (?n + of_nat (Suc j))" using ids [OF 2(1)] by blast
      then have "?n + of_nat (Suc j) \<le> st_NextEffectSequence (tn_State t)"
        using val [OF j(1)] unat_offset [OF assms(3)] by (simp add: acc(2) word_le_nat_alt)
      then show ?thesis using 2(2) j(2) by blast
    qed
  qed
  ultimately show ?thesis using acc(1) by simp
qed


theorem issued_effects_fresh_witness:
  "issuedUpTo turn1 \<and> unat (st_NextEffectSequence turn1) + 1 < 2 ^ 64 \<and> issuedUpTo turn2"
proof -
  have up: "issuedUpTo turn1" by (simp add: issuedUpTo_def effectIDs_def turn_eval NewState_def)
  have seq: "st_NextEffectSequence turn1 = 0" by (simp add: turn_eval NewState_def)
  show ?thesis using issued_effects_fresh [OF Apply_request_sample up] up by (simp add: seq)
qed

end
