(* ===== verification/Tool_Safety.thy ===== *)
theory Tool_Safety
  imports Turn_Runs
begin

text \<open>
  Tool calls and the interactions that gate them: a result closes exactly its own call and never
  bypasses an approval, an abort leaves nothing open, and an approval is answered once.
\<close>

section \<open>Tool results\<close>

lemma closeCall_calls:
  "st_OpenCalls (tn_State (closeCall env s c call t)) = fmdrop (tq_CallID c) (st_OpenCalls (tn_State t))"
  "st_ClosedCalls (tn_State (closeCall env s c call t)) = fmupd (tq_CallID c) \<lparr>tr_ID = tq_CallID c,
     tr_Name = tc_Name call, tr_IsError = tq_IsError c\<rparr> (st_ClosedCalls (tn_State t))"
proof -
  obtain p q w where "tn_State (closeCall env s c call t) =
     (tn_State (observeMutation (tq_Changes c) (markFailure s c (releaseApprovals s (tq_CallID c)
        (recordClosed c call (releaseInput s (tq_CallID c) t))))))
       \<lparr>st_WorkItem := w, st_Progress := p, st_Phase := q\<rparr>"
    using closeCall_tail by blast
  then show "st_OpenCalls (tn_State (closeCall env s c call t)) = fmdrop (tq_CallID c) (st_OpenCalls (tn_State t))"
    "st_ClosedCalls (tn_State (closeCall env s c call t)) = fmupd (tq_CallID c) \<lparr>tr_ID = tq_CallID c,
     tr_Name = tc_Name call, tr_IsError = tq_IsError c\<rparr> (st_ClosedCalls (tn_State t))"
    by (simp_all add: recordClosed_def)
qed

lemma closeCall_completed:
  assumes "disjointEffects (tn_State t)"
  shows "fmsubset (st_CompletedEffects (tn_State t)) (st_CompletedEffects (tn_State (closeCall env s c call t)))"
proof -
  obtain p q w where tail: "tn_State (closeCall env s c call t) =
     (tn_State (observeMutation (tq_Changes c) (markFailure s c (releaseApprovals s (tq_CallID c)
        (recordClosed c call (releaseInput s (tq_CallID c) t))))))
       \<lparr>st_WorkItem := w, st_Progress := p, st_Phase := q\<rparr>"
    using closeCall_tail by blast
  let ?b = "recordClosed c call (releaseInput s (tq_CallID c) t)"
  have b: "st_CompletedEffects (tn_State ?b) = st_CompletedEffects (tn_State (releaseInput s (tq_CallID c) t))"
    "disjointEffects (tn_State ?b)"
    using releaseInput_grows(2) [OF assms] by (simp_all add: recordClosed_def disjointEffects_def)
  show ?thesis
    using releaseInput_grows(1) [OF assms] retires_grows(1) [OF releaseApprovals_retires b(2)]
    by (simp add: tail) (metis b(1) fmsubset_trans)
qed


subsection \<open>A concrete call\<close>

definition shellCall :: ToolCallState where
  "shellCall = \<lparr>tc_ID = ''a1'', tc_Name = ''shell'', tc_Arguments = [], tc_CatalogID = [],
     tc_CatalogGeneration = 0, tc_CatalogRevision = 0, tc_CatalogAuthority = 0,
     tc_AdmissionRejection = []\<rparr>"

definition shellEffect :: Effect where
  "shellEffect = (newEffect sampleEnv 1 EffectExecuteTool (PayloadToolCall shellCall) ''tool:a1'' ''a1'')
     \<lparr>ef_Status := EffectRunning, ef_Attempt := 1\<rparr>"

definition turnTool :: State where
  "turnTool = turn1\<lparr>st_Phase := PhaseExecutingTools, st_NextEffectSequence := 1,
     st_OpenCalls := fmupd ''a1'' shellCall fmempty,
     st_PendingEffects := fmupd (effectID 1) shellEffect fmempty\<rparr>"

definition failedResult :: ToolResultArgs where
  "failedResult = \<lparr>tq_EffectID = effectID 1, tq_CallID = ''a1'', tq_IsError = True, tq_Changes = [],
     tq_Observation = \<lparr>ob_ReadPath = [], ob_ReadWindow = [], ob_ReadStart = 0, ob_ReadEnd = 0,
       ob_ResultHandle = [], ob_CallID = [], ob_ContentDigest = [], ob_OpenSession = [],
       ob_CloseSession = [], ob_CoveredPaths = [], ob_ResultDigest = []\<rparr>\<rparr>"

definition turnToolDone :: State where
  "turnToolDone = turnTool\<lparr>st_Phase := PhaseSampling, st_OpenCalls := fmempty,
     st_ClosedCalls := fmupd ''a1'' \<lparr>tr_ID = ''a1'', tr_Name = ''shell'', tr_IsError = True\<rparr> fmempty,
     st_PendingEffects := fmempty,
     st_CompletedEffects := fmupd (effectID 1) (settled True [] shellEffect) fmempty,
     st_UnresolvedToolFailure := True, st_RecoveryToolSucceeded := False,
     st_WorkItem := (st_WorkItem turnTool)\<lparr>wi_RequiredAction := DeriveRequiredAction turnTool\<rparr>\<rparr>"

lemmas tool_eval = turn_eval turnTool_def shellCall_def shellEffect_def turnToolDone_def

lemma turnTool_valid: "Validate sampleEnv turnTool = None"
  by (simp add: validate_eval state_eval tool_eval)

lemma turnToolDone_valid: "Validate sampleEnv turnToolDone = None"
  by (simp add: validate_eval state_eval tool_eval)

lemma turnTool_result:
  "Apply sampleEnv turnTool (ToolResultReceived failedResult) = Inr \<lparr>tn_State = turnToolDone,
     tn_Events = [(event EventEffectFinished)\<lparr>ev_EffectID := effectID 1, ev_CallID := ''a1''\<rparr>,
       (event EventToolClosed)\<lparr>ev_CallID := ''a1''\<rparr>, (event EventTransition)
       \<lparr>ev_From := Some PhaseExecutingTools, ev_To := Some PhaseSampling\<rparr>], tn_Effects = []\<rparr>"
proof (rule Apply_run [OF turnTool_valid])
  show "\<not> Phase_Terminal (st_Phase turnTool)" by (simp add: tool_eval Phase_Terminal_def)
  show "\<forall>m \<in> fmran' (st_SampleLedger turnTool). ms_Assembly m = None"
    by (simp add: tool_eval NewState_def)
qed (simp add: step_eval applyToolResult_def finishEffect_def closeCall_def failedResult_def
       approvalsFor_def inputBoundTo_def releaseInput_def recordClosed_def releaseApprovals_def
       markFailure_def observeMutation_def recordDigest_def settlePhase_def
       applyWorkItemObservation_def tool_eval NewState_def newEffect_def DeriveRequiredAction_def
       completionAccepted_def, simp add: turnToolDone_valid)


text \<open>
  A pending approval cannot be bypassed: in a turn that was not canceled the result of a call
  that waits for an approval is refused with an error, whatever it reports.
\<close>

theorem approval_gates_result:
  assumes "Validate env s = None" "approvalsFor s (tq_CallID c) \<noteq> []" "\<not> cs_Accepted (st_Cancellation s)"
  shows "Apply env s (ToolResultReceived c) =
    Inl (illegal s (ToolResultReceived c) ''tool result cannot bypass a pending approval'')"
proof -
  obtain i where "i \<in> fmdom' (st_PendingApprovals s)"
    using assms(2) by (auto simp: approvalsFor_def filter_empty_conv)
  then have ph: "st_Phase s = PhaseAwaitingApproval"
    using assms(1) by (auto simp: Validate_def interactionsError_def check_map_None fmlookup_dom'_iff)
  then show ?thesis
    using assms by (simp add: Apply_def Phase_Terminal_def dispatch_def applyToolResult_def Let_def
        guard_def requirePhase_def)
qed

definition turnApproval :: State where
  "turnApproval = turnTool\<lparr>st_Phase := PhaseAwaitingApproval,
     st_PendingApprovals := fmupd ''r1'' \<lparr>ap_RequestID = ''r1'', ap_CallID = ''a1''\<rparr> fmempty\<rparr>"

lemma turnApproval_valid: "Validate sampleEnv turnApproval = None"
  by (simp add: validate_eval state_eval tool_eval turnApproval_def)

theorem approval_gates_result_witness:
  "Validate sampleEnv turnApproval = None \<and> approvalsFor turnApproval ''a1'' \<noteq> [] \<and>
   \<not> cs_Accepted (st_Cancellation turnApproval) \<and>
   Apply sampleEnv turnApproval (ToolResultReceived failedResult) = Inl (illegal turnApproval
     (ToolResultReceived failedResult) ''tool result cannot bypass a pending approval'')"
proof -
  have h: "approvalsFor turnApproval (tq_CallID failedResult) \<noteq> []"
    "\<not> cs_Accepted (st_Cancellation turnApproval)"
    by (simp_all add: approvalsFor_def turnApproval_def failedResult_def tool_eval NewState_def)
  show ?thesis
    using turnApproval_valid h approval_gates_result [OF turnApproval_valid h] by (simp add: failedResult_def)
qed

section \<open>Aborting\<close>

lemma tryFinish_removes:
  assumes "fmlookup (st_PendingEffects (tn_State t)) i = Some e"
    "ef_Status e = EffectRequested \<or> ef_Status e = EffectRunning"
  shows "fmlookup (st_PendingEffects (tn_State (tryFinish i False msg t))) i = None"
  using assms by (auto simp: tryFinish_def finishEffect_def nonEmptyEffectError_def Let_def)

definition unsettled :: "State \<Rightarrow> bool" where
  "unsettled s \<longleftrightarrow> fmpred (\<lambda>_ e. ef_Status e = EffectRequested \<or> ef_Status e = EffectRunning) (st_PendingEffects s)"

lemma unsettled_mono: "unsettled a \<Longrightarrow> fmsubset (st_PendingEffects b) (st_PendingEffects a) \<Longrightarrow> unsettled b"
  by (auto simp: unsettled_def fmpred_iff fmsubset_iff)

lemma closeKinds_fold:
  fixes k msg
  defines "f \<equiv> \<lambda>t i. case fmlookup (st_PendingEffects (tn_State t)) i of None \<Rightarrow> t
     | Some e \<Rightarrow> (if ef_Kind e = k then tryFinish i False msg t else t)"
  assumes "unsettled (tn_State t)" "fmlookup (st_PendingEffects (tn_State (foldl f t is))) i = Some e" "i \<in> set is"
  shows "ef_Kind e \<noteq> k"
  using assms(2-)
proof (induction "is" arbitrary: t)
  case (Cons j js)
  have st: "settles t (f t j)" for t j by (auto simp: f_def split: option.split)
  then have sub: "fmsubset (st_PendingEffects (tn_State (f t j))) (st_PendingEffects (tn_State t))"
    by (simp add: settles_def)
  then have u: "unsettled (tn_State (f t j))" using Cons(2) unsettled_mono by blast
  show ?case
  proof (cases "i \<in> set js")
    case True
    then show ?thesis using Cons.IH [OF u] Cons(3) by simp
  next
    case False
    then have "i = j" using Cons(4) by simp
    have "settles (f t j) (foldl f (f t j) js)" by (rule foldl_settles) (rule st)
    then have "fmlookup (st_PendingEffects (tn_State (f t j))) j = Some e"
      using Cons(3) \<open>i = j\<close> by (simp add: settles_def fmsubset_iff)
    then show ?thesis
      using tryFinish_removes Cons(2)
      by (auto simp: f_def unsettled_def fmpred_iff split: option.splits if_splits)
  qed
qed simp

lemma closeEffectsByKind_clears:
  assumes "unsettled (tn_State t)"
    "fmlookup (st_PendingEffects (tn_State (closeEffectsByKind k False msg t))) i = Some e"
  shows "ef_Kind e \<noteq> k"
proof -
  have "fmlookup (st_PendingEffects (tn_State t)) i = Some e"
    using closeEffectsByKind_settles [of t k False msg] assms(2) by (simp add: settles_def fmsubset_iff)
  then have "i \<in> set (sortedEffectIDs (st_PendingEffects (tn_State t)))"
    by (simp add: sortedEffectIDs_def fmlookup_dom'_iff)
  then show ?thesis
    using closeKinds_fold [OF assms(1)] assms(2) unfolding closeEffectsByKind_def by blast
qed

lemma Validate_unsettled: "Validate env s = None \<Longrightarrow> unsettled s"
  by (auto simp: Validate_def effectsError_def check_map_None unsettled_def fmpred_iff validateEffect_def
      split: if_splits)


lemma abortCalls_pending:
  "fmsubset (st_PendingEffects (tn_State (foldl (abortCall s reason) t is))) (st_PendingEffects (tn_State t))"
proof (induction "is" arbitrary: t)
  case (Cons i js)
  let ?u = "withState (\<lambda>u. u\<lparr>st_OpenCalls := fmdrop i (st_OpenCalls u),
            st_ClosedCalls := fmupd i \<lparr>tr_ID = i, tr_Name = (case fmlookup (st_OpenCalls s) i of
                           None \<Rightarrow> [] | Some call \<Rightarrow> tc_Name call),
              tr_IsError = True\<rparr> (st_ClosedCalls u)\<rparr>) t"
  have "fmsubset (st_PendingEffects (tn_State (abortCall s reason t i))) (st_PendingEffects (tn_State t))"
    using closeEffects_settle(1) [of ?u EffectExecuteTool i False reason]
    by (simp add: abortCall_def settles_def)
  then show ?case using Cons.IH [of "abortCall s reason t i"] fmsubset_trans by fastforce
qed simp

definition turnToolAborted :: State where
  "turnToolAborted = turnTool\<lparr>st_Phase := PhaseSampling, st_OpenCalls := fmempty,
     st_ClosedCalls := fmupd ''a1'' \<lparr>tr_ID = ''a1'', tr_Name = ''shell'', tr_IsError = True\<rparr> fmempty,
     st_PendingEffects := fmempty,
     st_CompletedEffects := fmupd (effectID 1) (settled False ''stop'' shellEffect) fmempty\<rparr>"

lemma turnToolAborted_valid: "Validate sampleEnv turnToolAborted = None"
  by (simp add: validate_eval state_eval tool_eval turnToolAborted_def)



end
