(* ===== verification/Terminal_Outcome.thy ===== *)
theory Terminal_Outcome
  imports Turn_Runs
begin

text \<open>
  How a turn ends: what a completed turn guarantees, what becomes of the journal of a failed or
  canceled one, and that an accepted terminal request can always be carried to its terminal phase.
\<close>

section \<open>Carrying validity through the terminal transaction\<close>

lemma commentaryError_cong:
  "st_SampleLedger a = st_SampleLedger b \<Longrightarrow> commentaryError a seen cs = commentaryError b seen cs"
  by (induction cs arbitrary: seen) (simp_all split: option.split)

definition noRetries :: "State \<Rightarrow> bool" where
  "noRetries s \<longleftrightarrow> fmpred (\<lambda>_ m. ms_Retry m = None) (st_SampleLedger s)"

lemma check_samples_cong:
  assumes "noRetries a" "st_SampleLedger b = st_SampleLedger a"
  shows "check_map (sampleError b) (st_SampleLedger b) = None \<longleftrightarrow>
    check_map (sampleError a) (st_SampleLedger a) = None"
proof -
  have "sampleError b k m = sampleError a k m" if "fmlookup (st_SampleLedger a) k = Some m" for k m
  proof -
    have "ms_Retry m = None" using assms(1) that by (auto simp: noRetries_def fmpred_iff)
    then show ?thesis by (simp add: sampleError_def retryScheduleInvalid_def)
  qed
  then show ?thesis using assms(2) by (auto simp: check_map_None)
qed

lemma Validate_transfer:
  assumes "Validate env a = None" "noRetries a"
    and b: "b = a\<lparr>st_Phase := p, st_PendingEffects := pe, st_CompletedEffects := ce, st_Journal := j,
      st_PendingTerminal := pt, st_Terminal := tm, st_FinalOutput := out, st_ProvisionalOutput := po\<rparr>"
    and "activeSampleError b = None" "effectsError env b = None" "callsError b = None"
    "interactionsError b = None" "changesError b = None" "committingError b = None" "terminalError b = None"
  shows "Validate env b = None"
proof -
  have f: "st_Cancellation b = st_Cancellation a" "st_RecoveryRelation b = st_RecoveryRelation a"
    "st_MutationRevision b = st_MutationRevision a" "st_ProfileRevision b = st_ProfileRevision a"
    "st_Continuation b = st_Continuation a" "st_Usage b = st_Usage a" "st_Context b = st_Context a"
    "st_Policy b = st_Policy a" "st_RepairBudgets b = st_RepairBudgets a" "st_Workspace b = st_Workspace a"
    "st_Changes b = st_Changes a" "st_Completion b = st_Completion a" "st_ClosedCalls b = st_ClosedCalls a"
    "st_WorkItem b = st_WorkItem a" "st_Verification b = st_Verification a" "st_Intent b = st_Intent a"
    "st_Commentary b = st_Commentary a" "st_Progress b = st_Progress a" "st_Convergence b = st_Convergence a"
    and same: "st_SampleLedger b = st_SampleLedger a" by (simp_all add: b)
  have e: "effectiveChanges b = effectiveChanges a" unfolding effectiveChanges_def f ..
  then have h: "hasEffectiveChanges b = hasEffectiveChanges a" by (simp add: hasEffectiveChanges_def)
  have n: "validNoChange b = validNoChange a" unfolding validNoChange_def f h ..
  have "identityError b = identityError a" unfolding identityError_def f ..
  moreover have "budgetsError b = budgetsError a" unfolding budgetsError_def f ..
  moreover have "workspaceError b = workspaceError a" unfolding workspaceError_def f ..
  moreover have "completionError b = completionError a" unfolding completionError_def f e n ..
  moreover have "verificationError b = verificationError a" unfolding verificationError_def f h ..
  ultimately show ?thesis
    using assms(1,4-) commentaryError_cong [OF same] check_samples_cong [OF assms(2) same]
    by (simp add: Validate_def f)
qed

lemma Validate_noRetries:
  assumes "Validate env s = None" "isEmpty (st_PendingEffects s)"
  shows "noRetries s"
  unfolding noRetries_def fmpred_iff
proof (intro allI impI)
  fix k m assume "fmlookup (st_SampleLedger s) k = Some m"
  then have "sampleError s k m = None" using assms(1) by (auto simp: Validate_def check_map_None)
  then have "\<not> retryScheduleInvalid s k m" by (simp add: sampleError_def)
  then show "ms_Retry m = None"
    using isEmptyD [OF assms(2)] by (auto simp: retryScheduleInvalid_def split: option.splits)
qed

section \<open>The guarantee of a completed turn\<close>



definition completedDecision :: TerminalDecision where
  "completedDecision = \<lparr>td_Kind = TerminalCompleted, td_Code = [], td_Message = [], td_Fault = None,
     td_Convergence = None\<rparr>"

definition turnAnswer :: State where
  "turnAnswer = turn1\<lparr>st_Phase := PhaseCommitting, st_PendingTerminal := Some completedDecision,
     st_ProvisionalOutput := [''answer''], st_OutputEligibility := True,
     st_Usage := (st_Usage turn1)\<lparr>us_Frozen := True\<rparr>,
     st_Context := (st_Context turn1)\<lparr>cx_Frozen := True\<rparr>\<rparr>"

definition turnAnswered :: State where
  "turnAnswered = turnAnswer\<lparr>st_Phase := PhaseCompleted, st_PendingTerminal := None,
     st_Terminal := Some completedDecision, st_FinalOutput := [''answer''], st_ProvisionalOutput := []\<rparr>"

lemmas answer_eval = turn_eval turnAnswer_def turnAnswered_def completedDecision_def

lemma turnAnswer_valid: "Validate sampleEnv turnAnswer = None"
  by (simp add: validate_eval state_eval answer_eval)

lemma turnAnswered_valid: "Validate sampleEnv turnAnswered = None"
  by (simp add: validate_eval state_eval answer_eval validateCompletionPolicy_def RequiresCompletion_def
      workspaceCompletionMissing_def)

lemma Apply_answer:
  "Apply sampleEnv turnAnswer FinishTerminal = Inr \<lparr>tn_State = turnAnswered,
     tn_Events = [(event EventTransition)\<lparr>ev_From := Some PhaseCommitting, ev_To := Some PhaseCompleted\<rparr>,
       (event EventTerminalCommitted)\<lparr>ev_Terminal := Some completedDecision\<rparr>], tn_Effects = []\<rparr>"
proof (rule Apply_run [OF turnAnswer_valid])
  show "\<not> Phase_Terminal (st_Phase turnAnswer)" by (simp add: answer_eval Phase_Terminal_def)
  show "\<forall>m \<in> fmran' (st_SampleLedger turnAnswer). ms_Assembly m = None"
    by (simp add: answer_eval NewState_def)
qed (simp add: step_eval applyFinishTerminal_def answer_eval NewState_def DefaultPolicy_def
       terminalJournalOutcome_def, simp add: turnAnswered_valid)


section \<open>Ending a turn\<close>

text \<open>
  \<open>losslessClone\<close>: the JSON copy of every recorded assembly is the assembly itself, which is what
  \<open>CloneResponseAssembly\<close> is for.
\<close>

definition losslessClone :: "'e AssemblyEnv_scheme \<Rightarrow> State \<Rightarrow> bool" where
  "losslessClone env s \<longleftrightarrow>
     fmpred (\<lambda>_ m. CloneResponseAssembly env (ms_Assembly m) = ms_Assembly m) (st_SampleLedger s)"

lemma losslessClone_id: "losslessClone env s \<Longrightarrow> cloneState env s = s"
proof -
  assume "losslessClone env s"
  then have "fmmap (\<lambda>m. m\<lparr>ms_Assembly := CloneResponseAssembly env (ms_Assembly m)\<rparr>) (st_SampleLedger s) =
      st_SampleLedger s"
    by (intro fmap_ext) (auto simp: losslessClone_def fmpred_iff option.map_id0 map_option_case split: option.split)
  then show ?thesis by (simp add: cloneState_def)
qed

text \<open>\<open>finishable\<close>: the committing state a terminal request prepares, with its journal settled.\<close>

definition idleTurn :: "State \<Rightarrow> bool" where
  "idleTurn s \<longleftrightarrow> isEmpty (st_OpenCalls s) \<and> isEmpty (st_PendingApprovals s) \<and> st_PendingInput s = None \<and>
     st_ActiveSampleID s = []"

definition outputReady :: "State \<Rightarrow> TerminalKind \<Rightarrow> bool" where
  "outputReady s k \<longleftrightarrow> (if k = TerminalCompleted
     then st_ProvisionalOutput s \<noteq> [] \<and> vs_Action (st_Verification s) \<noteq> VerificationActionReverted
     else st_ProvisionalOutput s = [] \<and>
       (k = TerminalFailed \<longrightarrow> vs_Action (st_Verification s) \<noteq> VerificationActionBlocked))"

definition decided :: "State \<Rightarrow> TerminalDecision \<Rightarrow> bool" where
  "decided s d \<longleftrightarrow> st_Phase s = PhaseCommitting \<and> st_PendingTerminal s = Some d \<and> idleTurn s \<and>
     outputReady s (td_Kind d) \<and> noRetries s \<and>
     (if td_Kind d = TerminalCompleted
      then st_OutputEligibility s \<and> validateCompletionPolicy s = None else \<not> blank (td_Message d))"

definition settledJournal :: "State \<Rightarrow> TerminalDecision \<Rightarrow> JournalStatus" where
  "settledJournal s d = (if st_MutationRevision s \<noteq> 0 \<or> pl_JournalRequired (st_Policy s)
     then snd (terminalJournalOutcome s d) else JournalNone)"

lemma validateCompletionPolicy_frame:
  assumes "st_Intent b = st_Intent a" "st_MutationRevision b = st_MutationRevision a"
    "st_Completion b = st_Completion a" "st_Workspace b = st_Workspace a" "st_Changes b = st_Changes a"
    "st_ClosedCalls b = st_ClosedCalls a" "st_WorkItem b = st_WorkItem a" "st_Policy b = st_Policy a"
  shows "validateCompletionPolicy b = validateCompletionPolicy a"
proof -
  have e: "effectiveChanges b = effectiveChanges a" unfolding effectiveChanges_def assms ..
  have n: "validNoChange b = validNoChange a"
    unfolding validNoChange_def hasEffectiveChanges_def assms e ..
  show ?thesis
    unfolding validateCompletionPolicy_def workspaceCompletionMissing_def RequiresCompletion_def assms n ..
qed

lemma phaseForTerminal_final [simp]:
  "phaseForTerminal k \<noteq> PhaseExecutingTools" "phaseForTerminal k \<noteq> PhaseAwaitingApproval"
  "phaseForTerminal k \<noteq> PhaseAwaitingInput" "phaseForTerminal k \<noteq> PhaseVerifying"
  "phaseForTerminal k \<noteq> PhaseCommitting" "phaseForTerminal k \<noteq> PhaseSampling"
  by (cases k; simp)+

lemma finish_terminal_succeeds:
  assumes "Validate env s = None" "decided s d" "isEmpty (st_PendingEffects s)"
    "st_Journal s = settledJournal s d" "losslessClone env s"
  shows "\<exists>t. Apply env s FinishTerminal = Inr t \<and> st_Phase (tn_State t) = phaseForTerminal (td_Kind d)"
proof -
  let ?b = "s\<lparr>st_PendingTerminal := None, st_Terminal := Some d, st_FinalOutput := st_ProvisionalOutput s,
      st_ProvisionalOutput := [], st_Phase := phaseForTerminal (td_Kind d)\<rparr>"
  note d = assms(2) [unfolded decided_def idleTurn_def]
  have v: "changesError s = None" "effectsError env s = None" "callsError s = None" "committingError s = None"
    using assms(1) by (simp_all add: Validate_def)
  have changes: "st_Changes s = [] \<longleftrightarrow> st_MutationRevision s = 0"
    using v(1) by (auto simp: changesError_def split: if_splits)
  have "Validate env ?b = None"
  proof (rule Validate_transfer [OF assms(1)])
    show "noRetries s" using d by simp
    show "?b = s\<lparr>st_Phase := phaseForTerminal (td_Kind d), st_PendingEffects := st_PendingEffects s,
       st_CompletedEffects := st_CompletedEffects s, st_Journal := st_Journal s, st_PendingTerminal := None,
       st_Terminal := Some d, st_FinalOutput := st_ProvisionalOutput s, st_ProvisionalOutput := []\<rparr>" by simp
    show "effectsError env ?b = None" using v(2) by (simp add: effectsError_def)
    have "\<not> Phase_Terminal PhaseCommitting" by (simp add: Phase_Terminal_def)
    show "changesError ?b = None"
      using v(1) d by (auto simp: changesError_def \<open>\<not> Phase_Terminal PhaseCommitting\<close> split: if_splits)
    have pol: "validateCompletionPolicy ?b = validateCompletionPolicy s"
      by (rule validateCompletionPolicy_frame) simp_all
    have outc: "terminalJournalOutcome ?b d = terminalJournalOutcome s d"
      by (simp add: terminalJournalOutcome_def)
    have "validateTerminalState ?b d = None"
      using d assms(4) unfolding validateTerminalState_def pol outc
      by (auto simp: outputReady_def settledJournal_def Let_def terminalJournalOutcome_def split: if_splits)
    then show "terminalError ?b = None"
      using d assms(3) v(4) by (simp add: terminalError_def committingError_def frozen_def)
  qed (use d v in \<open>auto simp: activeSampleError_def callsError_def interactionsError_def committingError_def isEmpty_iff\<close>)
  moreover have "dispatch env \<lparr>tn_State = s, tn_Events = [], tn_Effects = []\<rparr> s FinishTerminal =
    Inr (emit ((event EventTerminalCommitted)\<lparr>ev_Terminal := Some d\<rparr>) (move (phaseForTerminal (td_Kind d))
      (withState (\<lambda>s. s\<lparr>st_PendingTerminal := None, st_Terminal := Some d,
         st_FinalOutput := st_ProvisionalOutput s, st_ProvisionalOutput := []\<rparr>)
       \<lparr>tn_State = s, tn_Events = [], tn_Effects = []\<rparr>)))"
    using d assms(4) changes
    by (auto simp: dispatch_def applyFinishTerminal_def guard_def requirePhase_def Let_def settledJournal_def)
  ultimately show ?thesis
    using assms(1) d losslessClone_id [OF assms(5)] by (simp add: Apply_def Phase_Terminal_def)
qed


text \<open>The journal effect of the transaction is started and reported before the turn is finished.\<close>

lemma decided_update:
  "decided s d \<Longrightarrow> decided (s\<lparr>st_PendingEffects := pe, st_CompletedEffects := ce, st_Journal := j\<rparr>) d"
proof -
  assume "decided s d"
  moreover have "validateCompletionPolicy (s\<lparr>st_PendingEffects := pe, st_CompletedEffects := ce, st_Journal := j\<rparr>) =
      validateCompletionPolicy s" by (rule validateCompletionPolicy_frame) simp_all
  ultimately show ?thesis by (simp add: decided_def idleTurn_def outputReady_def noRetries_def)
qed

lemma start_journal_succeeds:
  assumes "Validate env s = None" "decided s d" "st_PendingEffects s = fmupd i e fmempty"
    "ef_Status e = EffectRequested" "ef_Kind e \<noteq> EffectSampleProvider" "losslessClone env s"
  shows "\<exists>t. Apply env s (EffectStarted i 1) = Inr t \<and> tn_State t = s\<lparr>st_PendingEffects :=
    fmupd i (e\<lparr>ef_Status := EffectRunning, ef_Attempt := 1, ef_Error := []\<rparr>) fmempty\<rparr>"
proof -
  let ?e = "e\<lparr>ef_Status := EffectRunning, ef_Attempt := 1, ef_Error := []\<rparr>"
  let ?b = "s\<lparr>st_PendingEffects := fmupd i ?e fmempty\<rparr>"
  note d = assms(2) [unfolded decided_def idleTurn_def]
  have v: "effectsError env s = None" "callsError s = None" "committingError s = None"
    "interactionsError s = None" "changesError s = None" "terminalError s = None"
    using assms(1) by (simp_all add: Validate_def)
  have "Validate env ?b = None"
  proof (rule Validate_transfer [OF assms(1)])
    show "noRetries s" using d by simp
    show "?b = s\<lparr>st_Phase := st_Phase s, st_PendingEffects := fmupd i ?e fmempty,
       st_CompletedEffects := st_CompletedEffects s, st_Journal := st_Journal s,
       st_PendingTerminal := st_PendingTerminal s, st_Terminal := st_Terminal s,
       st_FinalOutput := st_FinalOutput s, st_ProvisionalOutput := st_ProvisionalOutput s\<rparr>" by simp
    show "effectsError env ?b = None"
      using v(1) assms(3) by (simp add: effectsError_def validateEffect_def split: if_splits)
    show "activeSampleError ?b = None" using d by (simp add: activeSampleError_def)
    show "callsError ?b = None" "interactionsError ?b = None" "committingError ?b = None"
      using v d by (simp_all add: callsError_def interactionsError_def committingError_def frozen_def)
    show "changesError ?b = None" using v(5) by (auto simp: changesError_def split: if_splits)
    show "terminalError ?b = None" using v(6) d by (simp add: terminalError_def Phase_Terminal_def)
  qed
  then show ?thesis
    using assms(1,3,4,5) d losslessClone_id [OF assms(6)]
    by (simp add: Apply_def Phase_Terminal_def dispatch_def applyEffectStarted_def Let_def)
qed

lemma settle_journal_succeeds:
  assumes "Validate env s = None" "decided s d" "st_PendingEffects s = fmupd i e fmempty"
    "ef_Status e = EffectRunning" "ef_Kind e = fst (terminalJournalOutcome s d)" "losslessClone env s"
    "if st_MutationRevision s = 0 then pl_JournalRequired (st_Policy s) \<and> st_Journal s = JournalNone
     else st_Journal s = JournalOpen"
  shows "\<exists>t. Apply env s (JournalResultReceived i (snd (terminalJournalOutcome s d)) []) = Inr t \<and>
    tn_State t = s\<lparr>st_PendingEffects := fmempty,
      st_CompletedEffects := fmupd i (settled True [] e) (st_CompletedEffects s),
      st_Journal := snd (terminalJournalOutcome s d)\<rparr>"
proof -
  let ?j = "snd (terminalJournalOutcome s d)"
  let ?c = "fmupd i (settled True [] e) (st_CompletedEffects s)"
  let ?b = "s\<lparr>st_PendingEffects := fmempty, st_CompletedEffects := ?c, st_Journal := ?j\<rparr>"
  note d = assms(2) [unfolded decided_def idleTurn_def]
  have v: "effectsError env s = None" "callsError s = None" "committingError s = None"
    "interactionsError s = None" "changesError s = None" "terminalError s = None"
    using assms(1) by (simp_all add: Validate_def)
  have final: "journalFinal ?j" by (simp add: terminalJournalOutcome_def journalFinal_def)
  have "Validate env ?b = None"
  proof (rule Validate_transfer [OF assms(1)])
    show "noRetries s" using d by simp
    show "?b = s\<lparr>st_Phase := st_Phase s, st_PendingEffects := fmempty, st_CompletedEffects := ?c,
       st_Journal := ?j, st_PendingTerminal := st_PendingTerminal s, st_Terminal := st_Terminal s,
       st_FinalOutput := st_FinalOutput s, st_ProvisionalOutput := st_ProvisionalOutput s\<rparr>" by simp
    show "effectsError env ?b = None"
      using v(1) assms(3)
      by (auto simp: effectsError_def check_map_None validateEffect_def settled_def split: if_splits)
    show "activeSampleError ?b = None" using d by (simp add: activeSampleError_def)
    show "callsError ?b = None" "interactionsError ?b = None" "committingError ?b = None"
      using v d by (simp_all add: callsError_def interactionsError_def committingError_def frozen_def)
    show "changesError ?b = None"
      using v(5) assms(7) d final by (auto simp: changesError_def journalFinal_def split: if_splits)
    show "terminalError ?b = None" using v(6) d by (simp add: terminalError_def Phase_Terminal_def)
  qed
  moreover have "terminalJournalOutcome s d = (ef_Kind e, ?j)" by (simp add: assms(5))
  ultimately show ?thesis
    using assms(1,3,4,7) d losslessClone_id [OF assms(6)]
    by (simp add: Apply_def Phase_Terminal_def dispatch_def applyJournalResult_def Let_def guard_def
        requirePhase_def finishEffect_def fmdrop_fmupd split: if_splits)
qed


lemma journal_kind [simp]: "fst (terminalJournalOutcome s d) \<noteq> EffectSampleProvider"
  by (simp add: terminalJournalOutcome_def)

text \<open>What an accepted terminal request leaves behind.\<close>

lemma terminal_request_prepares:
  assumes "Apply env s (TerminalRequested a) = Inr t" "losslessClone env s"
    "outputReady s (td_Kind (terminalDecision a))"
  obtains d where "td_Kind d = td_Kind (terminalDecision a)" "decided (tn_State t) d"
    "st_SampleLedger (tn_State t) = st_SampleLedger s"
    "st_Journal (tn_State t) = st_Journal s" "st_MutationRevision (tn_State t) = st_MutationRevision s"
    "st_Policy (tn_State t) = st_Policy s" "Validate env s = None"
    "\<not> Phase_Terminal (st_Phase s)" "st_Phase s \<noteq> PhaseCommitting"
    "if st_Journal s = JournalOpen \<or> pl_JournalRequired (st_Policy s)
     then \<exists>i e. st_PendingEffects (tn_State t) = fmupd i e fmempty \<and> ef_Status e = EffectRequested \<and>
       ef_Kind e = fst (terminalJournalOutcome (tn_State t) d)
     else st_PendingEffects (tn_State t) = fmempty"
proof -
  let ?t0 = "\<lparr>tn_State = s, tn_Events = [], tn_Effects = []\<rparr>"
  let ?d = "terminalDecision a"
  have "applyTerminalRequested env ?t0 s a ?d = Inr t"
    using Apply_Inr(4) [OF assms(1)] by (simp add: dispatch_def losslessClone_id [OF assms(2)])
  note r = applyTerminalRequested_Inr [OF this]
  have v: "Validate env s = None" "\<not> Phase_Terminal (st_Phase s)" by (rule Apply_Inr [OF assms(1)])+
  have nr: "noRetries s" by (rule Validate_noRetries [OF v(1) r(7)])
  have pe: "st_PendingEffects s = fmempty" using r(7) by (simp add: isEmpty_iff)
  obtain d cv where t: "t = prepareTerminal env s d (withState (\<lambda>u. u\<lparr>st_Convergence := cv\<rparr>) ?t0)"
    and k: "td_Kind d = td_Kind ?d" "td_Message d = td_Message ?d"
    and ok: "td_Kind ?d = TerminalCompleted \<Longrightarrow> st_Phase s = PhaseSampling \<and> validateCompletionReadiness s = None"
    using r(1)
  proof (elim disjE conjE exE)
    assume "t = prepareTerminal env s ?d ?t0"
      "td_Kind ?d = TerminalCompleted \<longrightarrow> st_Phase s = PhaseSampling \<and> validateCompletionReadiness s = None"
    then show thesis using that [of ?d "st_Convergence s"] by simp
  next
    fix c assume "t = prepareTerminal env s (?d\<lparr>td_Convergence := blockedConvergence (st_Convergence s)\<rparr>)
         (withState (\<lambda>u. u\<lparr>st_Convergence := blockedConvergence (st_Convergence s)\<rparr>) ?t0)"
      "td_Kind ?d = TerminalFailed"
    then show thesis using that [of "?d\<lparr>td_Convergence := blockedConvergence (st_Convergence s)\<rparr>"] by simp
  qed
  have u: "tn_State t = s\<lparr>st_Convergence := cv, st_PendingTerminal := Some d,
      st_Usage := (st_Usage s)\<lparr>us_Frozen := True\<rparr>, st_Context := (st_Context s)\<lparr>cx_Frozen := True\<rparr>,
      st_Phase := PhaseCommitting, st_NextEffectSequence := st_NextEffectSequence (tn_State t),
      st_PendingEffects := st_PendingEffects (tn_State t)\<rparr>"
    by (simp add: t prepareTerminal_def Let_def)
  have pol: "validateCompletionPolicy (tn_State t) = validateCompletionPolicy s"
    by (rule validateCompletionPolicy_frame) (subst u, simp)+
  have f: "st_OpenCalls (tn_State t) = st_OpenCalls s" "st_PendingApprovals (tn_State t) = st_PendingApprovals s"
    "st_PendingInput (tn_State t) = st_PendingInput s" "st_ActiveSampleID (tn_State t) = st_ActiveSampleID s"
    "st_ProvisionalOutput (tn_State t) = st_ProvisionalOutput s" "st_Verification (tn_State t) = st_Verification s"
    "st_SampleLedger (tn_State t) = st_SampleLedger s" "st_OutputEligibility (tn_State t) = st_OutputEligibility s"
    "st_Phase (tn_State t) = PhaseCommitting" "st_PendingTerminal (tn_State t) = Some d"
    by (subst u, simp)+
  have "decided (tn_State t) d"
    unfolding decided_def idleTurn_def noRetries_def outputReady_def pol f
    using r(3-8) nr assms(3) k ok
    by (auto simp: noRetries_def outputReady_def validateCompletionReadiness_def
        validateCompletionContract_def split: if_splits option.splits)
  moreover have "terminalJournalOutcome (tn_State t) d = terminalJournalOutcome s d"
    unfolding terminalJournalOutcome_def by (subst u) simp
  moreover have "if st_Journal s = JournalOpen \<or> pl_JournalRequired (st_Policy s)
     then \<exists>i e. st_PendingEffects (tn_State t) = fmupd i e fmempty \<and> ef_Status e = EffectRequested \<and>
       ef_Kind e = fst (terminalJournalOutcome s d)
     else st_PendingEffects (tn_State t) = fmempty"
  proof (cases "st_Journal s = JournalOpen \<or> pl_JournalRequired (st_Policy s)")
    case True
    then have "st_PendingEffects (tn_State t) = fmupd (effectID (st_NextEffectSequence s + 1))
        (newEffect env (st_NextEffectSequence s + 1) (fst (terminalJournalOutcome s d))
         (PayloadTerminal d) (''journal:'' @ terminalName (td_Kind d)) []) fmempty"
      by (simp add: t prepareTerminal_def Let_def pe)
    moreover have "ef_Status (newEffect env n j q x y) = EffectRequested" "ef_Kind (newEffect env n j q x y) = j"
      for n j q x y by (simp_all add: newEffect_def)
    ultimately show ?thesis using True by fastforce
  qed (simp add: t prepareTerminal_def Let_def pe)
  moreover have "st_SampleLedger (tn_State t) = st_SampleLedger s" "st_Journal (tn_State t) = st_Journal s"
    "st_MutationRevision (tn_State t) = st_MutationRevision s" "st_Policy (tn_State t) = st_Policy s"
    by (subst u, simp)+
  ultimately show thesis
    using k v r(2) by (intro that [of d]) simp_all
qed





end
