(* ===== verification/Observation_Ledger.thy ===== *)
theory Observation_Ledger
  imports Work_Item
begin

text \<open>
  The seen-observation ledger (\<open>observation_set.go\<close>) behind an interface. The locale
  \<open>seen_ledger\<close> states what the progress clock relies on: membership after an insertion, an
  insertion order that is only appended to, and no key twice. The ledger of the kernel is shown to
  provide it, so its JSON form, the list in insertion order, determines it.
\<close>

section \<open>The interface\<close>

locale seen_ledger =
  fixes empty :: 's
    and seen :: "'s \<Rightarrow> 'k \<Rightarrow> bool"
    and insert :: "'k \<Rightarrow> 's \<Rightarrow> 's"
    and listing :: "'s \<Rightarrow> 'k list"
    and well :: "'s \<Rightarrow> bool"
  assumes listing_empty: "listing empty = []"
    and seen_listing: "well s \<Longrightarrow> seen s k \<longleftrightarrow> k \<in> set (listing s)"
    and listing_insert: "well s \<Longrightarrow> listing (insert k s) = (if seen s k then listing s else listing s @ [k])"
    and well_empty: "well empty"
    and well_insert: "well s \<Longrightarrow> well (insert k s)"
begin

lemma well_fold: "well s \<Longrightarrow> well (fold insert ks s)"
  by (induction ks arbitrary: s) (simp_all add: well_insert)

lemma seen_insert: "well s \<Longrightarrow> seen (insert k s) j \<longleftrightarrow> j = k \<or> seen s j"
  by (auto simp: seen_listing listing_insert well_insert)

lemma seen_fold: "well s \<Longrightarrow> seen (fold insert ks s) j \<longleftrightarrow> j \<in> set ks \<or> seen s j"
  by (induction ks arbitrary: s) (auto simp: seen_insert well_insert)

lemma listing_grows: "well s \<Longrightarrow> prefix (listing s) (listing (fold insert ks s))"
proof (induction ks arbitrary: s)
  case (Cons k ks)
  have "prefix (listing s) (listing (insert k s))" using Cons.prems by (simp add: listing_insert)
  then show ?case using Cons.IH [OF well_insert [OF Cons.prems]] by (auto intro: prefix_order.trans)
qed simp

lemma distinct_listing: "well s \<Longrightarrow> distinct (listing s) \<Longrightarrow> distinct (listing (fold insert ks s))"
  by (induction ks arbitrary: s) (simp_all add: listing_insert well_insert seen_listing)

lemma seen_from_empty: "seen (fold insert ks empty) j \<longleftrightarrow> j \<in> set ks"
  using seen_fold [OF well_empty] seen_listing [OF well_empty] by (simp add: listing_empty)

end

section \<open>The kernel's ledger provides it\<close>

definition wellIndexed :: "ObservationSet \<Rightarrow> bool" where
  "wellIndexed s \<longleftrightarrow> os_index s = fset_of_list (os_order s)"

interpretation obs: seen_ledger emptyObservations "\<lambda>s. contains (Some s)" add os_order wellIndexed
  by unfold_locales
     (auto simp: emptyObservations_def contains_def add_def wellIndexed_def fset_of_list_elem)

lemma decode_wellIndexed: "wellIndexed s \<Longrightarrow> decodeObservations (os_order s) = s"
  by (simp add: decodeObservations_def wellIndexed_def)


lemma seen_remember:
  assumes "k \<noteq> []" "\<forall>s. pg_SeenObservations p = Some s \<longrightarrow> wellIndexed s"
  shows "seenObservation (rememberObservation k p) j \<longleftrightarrow> seenObservation p j \<or> j = k"
proof (cases "pg_SeenObservations p")
  case None
  then show ?thesis
    using assms(1) obs.seen_insert [OF obs.well_empty, of k j] obs.seen_from_empty [of "[]" j]
    by (auto simp: seenObservation_def rememberObservation_def contains_def)
next
  case (Some s)
  then have "wellIndexed s" using assms(2) by blast
  then show ?thesis
    using assms(1) Some obs.seen_insert [of s k j]
    by (auto simp: seenObservation_def rememberObservation_def contains_def)
qed

end
