(* ===== verification/Budgets.thy ===== *)
theory Budgets
  imports Turn_Runs Observation_Ledger
begin

text \<open>
  The budgets that bound a turn: provider retries and waits, repair steps, the no-progress clock and
  the convergence outcome they lead to.
\<close>

section \<open>Provider waits\<close>

lemma sint_add_exact:
  fixes a b :: Duration
  assumes "- (2 ^ 63) \<le> sint a + sint b" "sint a + sint b < 2 ^ 63"
  shows "sint (a + b) = sint a + sint b"
  using assms by (simp add: sint_word_add signed_take_bit_int_eq_self_iff)

lemma no_overflow_add:
  fixes w d :: Duration
  assumes "\<not> waitOverflows w d" "0 \<le> sint w" "0 \<le> sint d"
  shows "sint (w + d) = sint w + sint d"
  using assms by (intro sint_add_exact) (simp_all add: waitOverflows_def maxDuration_def)

lemma Validate_budget:
  assumes "Validate env s = None" "fmlookup (st_SampleLedger s) k = Some m"
  shows "0 \<le> sint (pb_RateLimitWaited (ms_RetryBudget m))"
proof -
  have "sampleError s k m = None" using assms by (auto simp: Validate_def check_map_None)
  then have "\<not> retryBudgetInvalid m" by (simp add: sampleError_def)
  then show ?thesis by (auto simp: retryBudgetInvalid_def zeroRetryBudget_def)
qed

text \<open>
  The rate-limit wait budget never wraps: a reserved wait is added to the sample's budget as an
  exact, non-negative sum of nanoseconds, although durations are 64-bit integers, and the waiting
  window starts no earlier than the previous one ended.
\<close>

theorem provider_wait_exact:
  assumes "Apply env s (ProviderWaitReserved a) = Inr t"
  shows "\<exists>m m'. fmlookup (st_SampleLedger s) (pw_SampleID a) = Some m \<and>
    fmlookup (st_SampleLedger (tn_State t)) (pw_SampleID a) = Some m' \<and> 0 < sint (pw_Delay a) \<and>
    sint (pb_RateLimitWaited (ms_RetryBudget m')) =
      sint (pb_RateLimitWaited (ms_RetryBudget m)) + sint (pw_Delay a) \<and>
    pb_WaitUntil (ms_RetryBudget m') - sint (pw_Delay a) \<ge> pb_WaitUntil (ms_RetryBudget m)"
proof -
  have "applyProviderWait \<lparr>tn_State = cloneState env s, tn_Events = [], tn_Effects = []\<rparr> s a = Inr t"
    using Apply_Inr(4) [OF assms] by (simp add: dispatch_def)
  then obtain m where m: "fmlookup (st_SampleLedger s) (pw_SampleID a) = Some m"
    and g: "0 < sint (pw_Delay a)" "\<not> waitOverflows (pb_RateLimitWaited (ms_RetryBudget m)) (pw_Delay a)"
      "pb_WaitUntil (ms_RetryBudget m) \<le> pw_Until a - sint (pw_Delay a)"
    and t: "fmlookup (st_SampleLedger (tn_State t)) (pw_SampleID a) = Some (m\<lparr>ms_RetryBudget :=
       (ms_RetryBudget m)\<lparr>pb_RateLimitWaited := pb_RateLimitWaited (ms_RetryBudget m) + pw_Delay a,
         pb_WaitUntil := pw_Until a\<rparr>\<rparr>)"
    by (auto simp: applyProviderWait_def Let_def split: option.splits)
  have "0 \<le> sint (pb_RateLimitWaited (ms_RetryBudget m))"
    by (rule Validate_budget [OF Apply_Inr(1) [OF assms] m])
  then show ?thesis using m g t no_overflow_add by simp
qed

definition waitArgs :: ProviderWaitArgs where
  "waitArgs = \<lparr>pw_SampleID = ''s1'', pw_Delay = 5, pw_Until = 9\<rparr>"

definition turnWaiting :: State where
  "turnWaiting = turn2\<lparr>st_SampleLedger := fmupd ''s1'' (zeroSample\<lparr>ms_ID := ''s1'',
     ms_Status := SampleRequested, ms_RetryBudget := zeroRetryBudget\<lparr>pb_RateLimitWaited := 5,
       pb_WaitUntil := 9\<rparr>\<rparr>) fmempty\<rparr>"

lemma turnWaiting_valid: "Validate sampleEnv turnWaiting = None"
  by (simp add: validate_eval state_eval turn_eval turnWaiting_def)

lemma Apply_wait:
  "Apply sampleEnv turn2 (ProviderWaitReserved waitArgs) = Inr \<lparr>tn_State = turnWaiting, tn_Events = [],
     tn_Effects = []\<rparr>"
proof (rule Apply_run [OF turn2_valid turn_running(2) turn_assemblies(2)])
qed (simp add: step_eval applyProviderWait_def waitArgs_def turn_eval turnWaiting_def NewState_def
       zeroSample_def zeroRetryBudget_def waitOverflows_def maxDuration_def newEffect_def,
     simp add: turnWaiting_valid)

theorem provider_wait_exact_witness:
  "Apply sampleEnv turn2 (ProviderWaitReserved waitArgs) = Inr \<lparr>tn_State = turnWaiting, tn_Events = [],
     tn_Effects = []\<rparr> \<and>
   (\<exists>m'. fmlookup (st_SampleLedger turnWaiting) ''s1'' = Some m' \<and>
     sint (pb_RateLimitWaited (ms_RetryBudget m')) = 5)"
proof -
  have "fmlookup (st_SampleLedger turn2) ''s1'' = Some (zeroSample\<lparr>ms_ID := ''s1'', ms_Status := SampleRequested\<rparr>)"
    by (simp add: turn2_def)
  then show ?thesis using provider_wait_exact [OF Apply_wait] Apply_wait
    by (auto simp: waitArgs_def zeroSample_def zeroRetryBudget_def)
qed

text \<open>
  A provider retry is counted exactly once: the retry number is the next one, the sample is back
  to requested with its effect, no sample is active, and for a rate limit the budget grows by exactly
  the delay without wrapping.
\<close>

theorem provider_retry_counted:
  assumes "Apply env s (ProviderRetryRequested a) = Inr t"
  shows "\<exists>m m' e. fmlookup (st_SampleLedger s) (pq_SampleID a) = Some m \<and>
    fmlookup (st_SampleLedger (tn_State t)) (pq_SampleID a) = Some m' \<and>
    ms_ProviderRetries m' = ms_ProviderRetries m + 1 \<and> ms_Status m' = SampleRequested \<and>
    st_ActiveSampleID (tn_State t) = [] \<and>
    fmlookup (st_PendingEffects (tn_State t)) (pq_EffectID a) = Some e \<and> ef_Status e = EffectRequested \<and>
    sint (pb_RateLimitWaited (ms_RetryBudget m')) = sint (pb_RateLimitWaited (ms_RetryBudget m)) +
      (if fl_Code (pq_Failure a) = FailureRateLimit then sint (pq_EffectiveDelay a) else 0)"
proof -
  have ap: "applyProviderRetry \<lparr>tn_State = cloneState env s, tn_Events = [], tn_Effects = []\<rparr> s a = Inr t"
    using Apply_Inr(4) [OF assms] by (simp add: dispatch_def)
  have v: "Validate env s = None" by (rule Apply_Inr(1) [OF assms])
  from ap obtain e sample where e: "fmlookup (st_PendingEffects s) (pq_EffectID a) = Some e"
    and sample: "sample = get_or zeroSample (st_SampleLedger s) (pq_SampleID a)"
    and n: "pq_Retry a = ms_ProviderRetries sample + 1" "0 \<le> sint (pq_EffectiveDelay a)"
    and ov: "fl_Code (pq_Failure a) = FailureRateLimit \<Longrightarrow>
      \<not> waitOverflows (pb_RateLimitWaited (ms_RetryBudget sample)) (pq_EffectiveDelay a)"
    and t: "tn_State t = (cloneState env s)\<lparr>
       st_SampleLedger := fmupd (pq_SampleID a) (reserveRetry a sample) (st_SampleLedger (cloneState env s)),
       st_ActiveSampleID := [], st_PendingEffects := fmupd (pq_EffectID a) (e\<lparr>ef_Status := EffectRequested\<rparr>)
         (st_PendingEffects (cloneState env s))\<rparr>"
    by (cases rule: applyProviderRetry_Inr) auto
  have "st_ActiveSampleID s = pq_SampleID a" "ef_CallID e = pq_SampleID a"
    using ap e by (auto simp: applyProviderRetry_def Let_def)
  moreover have "sampleError (tn_State t) (pq_SampleID a) (reserveRetry a sample) = None"
    using Apply_Inr(3) [OF assms] by (auto simp: Validate_def check_map_None t)
  then have "pq_SampleID a \<noteq> []" by (auto simp: sampleError_def)
  ultimately obtain m where m: "fmlookup (st_SampleLedger s) (pq_SampleID a) = Some m"
    using v by (auto simp: Validate_def activeSampleError_def split: option.splits)
  have w: "0 \<le> sint (pb_RateLimitWaited (ms_RetryBudget m))" by (rule Validate_budget [OF v m])
  have sm: "sample = m" using m sample by simp
  show ?thesis using m w n ov
    by (auto simp: t sm reserveRetry_def Let_def no_overflow_add)
qed

definition turnStreaming :: State where
  "turnStreaming = turn1\<lparr>st_ActiveSampleID := ''s1'', st_NextEffectSequence := 1,
     st_SampleLedger := fmupd ''s1'' (zeroSample\<lparr>ms_ID := ''s1'', ms_Status := SampleRunning, ms_Attempt := 1\<rparr>) fmempty,
     st_PendingEffects := fmupd (effectID 1) ((newEffect sampleEnv 1 EffectSampleProvider (PayloadSample ''s1'')
       ''sample:s1'' ''s1'')\<lparr>ef_Status := EffectRunning, ef_Attempt := 1\<rparr>) fmempty\<rparr>"

definition retryArgs :: ProviderRetryArgs where
  "retryArgs = \<lparr>pq_EffectID = effectID 1, pq_SampleID = ''s1'', pq_Attempt = 1, pq_Retry = 1,
     pq_Failure = \<lparr>fl_Code = FailureRateLimit, fl_Message = ''slow'', fl_HTTPStatus = 429,
       fl_RetryAfterMS = 0, fl_RequestID = []\<rparr>,
     pq_EffectiveDelay = 2000000, pq_RetryAt = 7, pq_PolicyRevision = ''r1''\<rparr>"

definition turnRetrying :: State where
  "turnRetrying = turn1\<lparr>st_NextEffectSequence := 1,
     st_SampleLedger := fmupd ''s1'' (reserveRetry retryArgs (zeroSample\<lparr>ms_ID := ''s1'',
       ms_Status := SampleRunning, ms_Attempt := 1\<rparr>)) fmempty,
     st_PendingEffects := fmupd (effectID 1) ((newEffect sampleEnv 1 EffectSampleProvider (PayloadSample ''s1'')
       ''sample:s1'' ''s1'')\<lparr>ef_Status := EffectRequested, ef_Attempt := 1\<rparr>) fmempty\<rparr>"

lemma turnStreaming_valid: "Validate sampleEnv turnStreaming = None"
  by (simp add: validate_eval state_eval turn_eval turnStreaming_def)

lemma turnRetrying_valid: "Validate sampleEnv turnRetrying = None"
  by (simp add: validate_eval state_eval turn_eval turnRetrying_def reserveRetry_def retryArgs_def)

lemma turnStreaming_runs: "\<not> Phase_Terminal (st_Phase turnStreaming)"
  "\<forall>m \<in> fmran' (st_SampleLedger turnStreaming). ms_Assembly m = None"
  by (auto simp: turnStreaming_def turn_eval NewState_def Phase_Terminal_def zeroSample_def
      fmlookup_ran'_iff split: if_splits)

lemma Apply_retry:
  "Apply sampleEnv turnStreaming (ProviderRetryRequested retryArgs) = Inr \<lparr>tn_State = turnRetrying,
     tn_Events = [(event EventProviderRetry)\<lparr>ev_EffectID := effectID 1, ev_SampleID := ''s1''\<rparr>],
     tn_Effects = []\<rparr>"
proof (rule Apply_run [OF turnStreaming_valid turnStreaming_runs])
qed (simp add: step_eval applyProviderRetry_def retryArgs_def turn_eval turnStreaming_def turnRetrying_def
       NewState_def zeroSample_def zeroRetryBudget_def waitOverflows_def maxDuration_def newEffect_def,
     simp add: turnRetrying_valid)

theorem provider_retry_counted_witness:
  "Apply sampleEnv turnStreaming (ProviderRetryRequested retryArgs) = Inr \<lparr>tn_State = turnRetrying,
     tn_Events = [(event EventProviderRetry)\<lparr>ev_EffectID := effectID 1, ev_SampleID := ''s1''\<rparr>],
     tn_Effects = []\<rparr> \<and>
   (\<exists>m'. fmlookup (st_SampleLedger turnRetrying) ''s1'' = Some m' \<and> ms_ProviderRetries m' = 1 \<and>
     sint (pb_RateLimitWaited (ms_RetryBudget m')) = 2000000)"
proof -
  have "fmlookup (st_SampleLedger turnStreaming) ''s1'' =
      Some (zeroSample\<lparr>ms_ID := ''s1'', ms_Status := SampleRunning, ms_Attempt := 1\<rparr>)"
    by (simp add: turnStreaming_def)
  then show ?thesis using provider_retry_counted [OF Apply_retry] Apply_retry
    by (auto simp: retryArgs_def zeroSample_def zeroRetryBudget_def)
qed

section \<open>Repair budgets\<close>

lemma spendRepairBudget_Inr:
  assumes "spendRepairBudget k key limit t = Inr t'"
  obtains b where "fmlookup (st_RepairBudgets (tn_State t')) k = Some b" "rb_ProgressKey b = key"
    "unat (rb_Consecutive b) \<le> unat limit"
    "rb_ProgressKey (get_or zeroBudget (st_RepairBudgets (tn_State t)) k) = key \<Longrightarrow>
      unat (rb_Consecutive b) = Suc (unat (rb_Consecutive (get_or zeroBudget (st_RepairBudgets (tn_State t)) k)))"
    "rb_ProgressKey (get_or zeroBudget (st_RepairBudgets (tn_State t)) k) \<noteq> key \<Longrightarrow> unat (rb_Consecutive b) = 1"
proof -
  let ?b0 = "get_or zeroBudget (st_RepairBudgets (tn_State t)) k"
  let ?b1 = "if rb_ProgressKey ?b0 \<noteq> key then ?b0\<lparr>rb_ProgressKey := key, rb_Consecutive := 0\<rparr> else ?b0"
  let ?b = "?b1\<lparr>rb_Consecutive := rb_Consecutive ?b1 + 1, rb_Steps := rb_Steps ?b1 + 1\<rparr>"
  have lt: "rb_Consecutive ?b1 < limit"
    and b: "fmlookup (st_RepairBudgets (tn_State t')) k = Some ?b"
    using assms by (auto simp: spendRepairBudget_def Let_def not_le split: if_splits)
  have "rb_Consecutive ?b1 \<noteq> -1" using lt by (metis word_order.extremum not_le)
  then have inc: "unat (rb_Consecutive ?b1 + 1) = Suc (unat (rb_Consecutive ?b1))" by (rule unat_inc)
  show thesis
    by (rule that [OF b]) (use inc lt in \<open>auto simp: word_less_nat_alt split: if_splits\<close>)
qed

lemma Apply_repair:
  assumes "Apply env s (RepairRequested k key limit) = Inr t"
  shows "spendRepairBudget k key limit \<lparr>tn_State = cloneState env s, tn_Events = [], tn_Effects = []\<rparr> = Inr t"
  using Apply_Inr(4) [OF assms] by (simp add: dispatch_def applyRepairRequested_def Let_def)

lemma cloneState_budgets [simp]: "st_RepairBudgets (cloneState env s) = st_RepairBudgets s"
  by (simp add: cloneState_def)

lemma repair_run_counts:
  assumes "runCommands env (replicate n (RepairRequested k key limit)) s = Inr s'" "0 < n"
  shows "\<exists>b. fmlookup (st_RepairBudgets s') k = Some b \<and> rb_ProgressKey b = key \<and>
    unat (rb_Consecutive b) \<le> unat limit \<and>
    unat (rb_Consecutive b) \<ge> n + (let b0 = get_or zeroBudget (st_RepairBudgets s) k
      in if rb_ProgressKey b0 = key then unat (rb_Consecutive b0) else 0)"
  using assms
proof (induction n arbitrary: s)
  case (Suc n)
  then obtain t where ap: "Apply env s (RepairRequested k key limit) = Inr t"
    and rest: "runCommands env (replicate n (RepairRequested k key limit)) (tn_State t) = Inr s'"
    by (auto simp: bindR_Inr_iff)
  obtain b where b: "fmlookup (st_RepairBudgets (tn_State t)) k = Some b" "rb_ProgressKey b = key"
    "unat (rb_Consecutive b) \<le> unat limit"
    "rb_ProgressKey (get_or zeroBudget (st_RepairBudgets s) k) = key \<Longrightarrow>
      unat (rb_Consecutive b) = Suc (unat (rb_Consecutive (get_or zeroBudget (st_RepairBudgets s) k)))"
    "rb_ProgressKey (get_or zeroBudget (st_RepairBudgets s) k) \<noteq> key \<Longrightarrow> unat (rb_Consecutive b) = 1"
    by (rule spendRepairBudget_Inr [OF Apply_repair [OF ap]]) auto
  show ?case
  proof (cases n)
    case 0
    then show ?thesis using rest b by (auto simp: Let_def)
  next
    case (Suc m)
    then show ?thesis using Suc.IH [OF rest] b by (auto simp: Let_def)
  qed
qed simp

text \<open>
  C11. Repairing terminates: with one progress key and one limit a turn accepts at most \<open>limit\<close>
  repair requests of a kind in a row; a longer sequence of such commands is refused.
\<close>

theorem repair_requests_bounded:
  assumes "runCommands env (replicate n (RepairRequested k key limit)) s = Inr s'"
  shows "n \<le> unat limit"
proof (cases "n = 0")
  case False
  with repair_run_counts [OF assms] show ?thesis by (auto simp: Let_def split: if_splits)
qed simp

definition turnRepaired :: State where
  "turnRepaired = turn1\<lparr>st_RepairBudgets := fmupd RepairCompletion
     \<lparr>rb_ProgressKey = ''k1'', rb_Consecutive = 1, rb_Steps = 1\<rparr> fmempty\<rparr>"

lemma turnRepaired_valid: "Validate sampleEnv turnRepaired = None"
  by (simp add: validate_eval state_eval turn_eval turnRepaired_def)

lemma Apply_one_repair:
  "Apply sampleEnv turn1 (RepairRequested RepairCompletion ''k1'' 2) = Inr \<lparr>tn_State = turnRepaired,
     tn_Events = [event EventRepairRequested], tn_Effects = []\<rparr>"
proof (rule Apply_run [OF turn1_valid turn_running(1) turn_assemblies(1)])
qed (simp add: step_eval applyRepairRequested_def spendRepairBudget_def validRepairKind_def zeroBudget_def
       turn_eval turnRepaired_def NewState_def, simp add: turnRepaired_valid)

theorem repair_requests_bounded_witness:
  "runCommands sampleEnv (replicate 1 (RepairRequested RepairCompletion ''k1'' 2)) turn1 = Inr turnRepaired \<and>
   (1 :: nat) \<le> unat (2 :: uint32)"
proof -
  have run: "runCommands sampleEnv (replicate 1 (RepairRequested RepairCompletion ''k1'' 2)) turn1 = Inr turnRepaired"
    by (simp add: Apply_one_repair)
  show ?thesis using run repair_requests_bounded [OF run] by blast
qed

section \<open>Convergence policy\<close>

lemma two_thirds_unat:
  fixes n :: uint32
  shows "unat (ucast (((ucast n :: uint64) * 2) div 3) :: uint32) = unat n * 2 div 3"
proof -
  have b: "unat n < 2 ^ 32" using unsigned_less [of n] by simp
  have "unat ((ucast n :: uint64) * 2) = unat n * 2"
    using b by (simp add: unat_word_ariths unsigned_ucast_eq take_bit_nat_eq_self)
  then have "unat (((ucast n :: uint64) * 2) div 3) = unat n * 2 div 3" by (simp add: unat_div)
  moreover have "unat n * 2 div 3 < 2 ^ 32" using b by simp
  ultimately show ?thesis by (simp add: unsigned_ucast_eq take_bit_nat_eq_self)
qed

text \<open>
  Every step limit yields a valid convergence policy: the bounds are positive and ordered, so
  that a turn created with the derived policy passes the kernel's own policy check, for all
  \<open>2 ^ 32\<close> limits and in spite of the 64-bit detour of the division.
\<close>

theorem step_limit_policy_valid: "\<not> convergencePolicyInvalid (ConvergencePolicyForStepLimit limit)"
proof (cases "limit = 0")
  case True
  then show ?thesis by (simp add: ConvergencePolicyForStepLimit_def convergencePolicyInvalid_def)
next
  case False
  let ?c = "max 1 (limit div 3)"
  let ?f = "max ?c (ucast (((ucast limit :: uint64) * 2) div 3))"
  have l: "0 < unat limit" using False by (simp add: unat_gt_0)
  have "limit div 3 \<le> limit" by (simp add: word_le_nat_alt unat_div)
  moreover have "(1 :: uint32) \<le> limit" using l by (simp add: word_le_nat_alt)
  ultimately have c: "?c \<le> limit" by simp
  have "ucast (((ucast limit :: uint64) * 2) div 3) \<le> limit"
    by (simp add: word_le_nat_alt two_thirds_unat)
  then have f: "?f \<le> limit" using c by simp
  have "(1 :: uint32) \<le> ?c" by simp
  then have "?c \<noteq> 0" by (metis le_zero_eq word_le_0_iff zero_neq_one)
  then show ?thesis
    using False f by (simp add: ConvergencePolicyForStepLimit_def convergencePolicyInvalid_def Let_def not_less)
qed

end
