(* ===== verification/Progress_Clock.thy ===== *)
theory Progress_Clock
  imports Turn_Runs Observation_Ledger
begin

text \<open>
  The no-progress clock (\<open>applyObserveProgress\<close> of \<open>reducer_sampling.go\<close>): what one observation
  does to it, that its 32-bit counter never wraps, and that a turn that keeps revisiting work states
  it has seen is driven into convergence, whatever the order of the visits.
\<close>

section \<open>One observation\<close>

lemma observe_Inr:
  assumes "Apply env s (ObserveProgress a) = Inr t"
  shows "st_Progress (tn_State t) = observedProgress env s a"
    "pg_ObservedSamples (st_Progress s) \<le> op_CompletedSamples a"
    "st_WorkItem (tn_State t) = st_WorkItem s" "st_Policy (tn_State t) = st_Policy s"
    "st_Intent (tn_State t) = st_Intent s" "st_MutationRevision (tn_State t) = st_MutationRevision s"
    "st_Convergence s \<noteq> None \<Longrightarrow> st_Convergence (tn_State t) = st_Convergence s"
    "pg_Stage (observedProgress env s a) = ProgressStageExhausted \<Longrightarrow> st_Convergence (tn_State t) \<noteq> None"
proof -
  have "applyObserveProgress env \<lparr>tn_State = cloneState env s, tn_Events = [], tn_Effects = []\<rparr> s a = Inr t"
    using Apply_Inr(4) [OF assms] by (simp add: dispatch_def)
  then show "st_Progress (tn_State t) = observedProgress env s a"
    "pg_ObservedSamples (st_Progress s) \<le> op_CompletedSamples a"
    "st_WorkItem (tn_State t) = st_WorkItem s" "st_Policy (tn_State t) = st_Policy s"
    "st_Intent (tn_State t) = st_Intent s" "st_MutationRevision (tn_State t) = st_MutationRevision s"
    "st_Convergence s \<noteq> None \<Longrightarrow> st_Convergence (tn_State t) = st_Convergence s"
    "pg_Stage (observedProgress env s a) = ProgressStageExhausted \<Longrightarrow> st_Convergence (tn_State t) \<noteq> None"
    by (auto simp: applyObserveProgress_def beginConvergence_def Let_def cloneState_def not_less
        split: if_splits)
qed

lemma observedProgress_seen:
  assumes "seenObservation (st_Progress s) (observedKey env s a)"
  shows "pg_NoProgressSamples (observedProgress env s a) = pg_NoProgressSamples (st_Progress s) +
      (op_CompletedSamples a - pg_ObservedSamples (st_Progress s))"
    "pg_SeenObservations (observedProgress env s a) = pg_SeenObservations (st_Progress s)"
  using assms by (simp_all add: observedProgress_def advanceProgress_def Let_def)

lemma observedProgress_frame:
  "pg_ObservedSamples (observedProgress env s a) = op_CompletedSamples a"
  "pg_ObservationKey (observedProgress env s a) = observedKey env s a"
  "pg_PendingResultDigests (observedProgress env s a) = pg_PendingResultDigests (st_Progress s)"
  by (simp_all add: observedProgress_def advanceProgress_def rememberObservation_def Let_def)

lemma digestBytes_nonempty: "digestBytes env x \<noteq> []"
  by (simp add: digestBytes_def)

lemma observedKey_nonempty: "observedKey env s a \<noteq> []"
  by (simp add: observedKey_def FormatObservationKey_def digestBytes_nonempty Let_def)

lemma observedProgress_fresh:
  assumes "\<not> seenObservation (st_Progress s) (observedKey env s a)"
  shows "pg_NoProgressSamples (observedProgress env s a) = 0"
    "pg_SeenObservations (observedProgress env s a) =
      pg_SeenObservations (rememberObservation (observedKey env s a) (st_Progress s))"
  using assms
  by (simp_all add: observedProgress_def advanceProgress_def rememberObservation_def Let_def)

lemma seen_cong: "pg_SeenObservations p = pg_SeenObservations q \<Longrightarrow> seenObservation p = seenObservation q"
  by (rule ext) (simp add: seenObservation_def)

definition indexedProgress :: "ProgressState \<Rightarrow> bool" where
  "indexedProgress p \<longleftrightarrow> (\<forall>o'. pg_SeenObservations p = Some o' \<longrightarrow> wellIndexed o')"

lemma remember_indexed: "indexedProgress p \<Longrightarrow> indexedProgress (rememberObservation k p)"
  by (auto simp: indexedProgress_def rememberObservation_def split: option.splits
      intro: obs.well_insert obs.well_empty)

lemma clock_no_wrap:
  assumes "Validate env s = None" "pg_ObservedSamples (st_Progress s) \<le> c"
  shows "unat (pg_NoProgressSamples (st_Progress s) + (c - pg_ObservedSamples (st_Progress s))) =
    unat (pg_NoProgressSamples (st_Progress s)) + (unat c - unat (pg_ObservedSamples (st_Progress s)))"
proof -
  have "progressError (st_Progress s) = None" using assms(1) by (simp add: Validate_def)
  then have np: "unat (pg_NoProgressSamples (st_Progress s)) \<le> unat (pg_ObservedSamples (st_Progress s))"
    by (simp add: progressError_def not_less word_le_nat_alt)
  have d: "unat (c - pg_ObservedSamples (st_Progress s)) = unat c - unat (pg_ObservedSamples (st_Progress s))"
    using assms(2) by (rule unat_sub)
  have "unat c < 2 ^ 32" using unsigned_less [of c] by simp
  then show ?thesis using np assms(2) d
    by (simp add: unat_word_ariths word_le_nat_alt)
qed

text \<open>
  What one accepted observation does to the clock. A work state seen before never resets it: the
  samples since the last observation are added, exactly, although the counter has 32 bits. A new
  work state resets it to zero. Either way the state is remembered together with everything
  remembered before, and an exhausted clock has begun convergence.
\<close>

theorem observation_clock:
  assumes "Apply env s (ObserveProgress a) = Inr t" "indexedProgress (st_Progress s)"
  shows "(\<forall>k. seenObservation (st_Progress (tn_State t)) k \<longleftrightarrow>
      seenObservation (st_Progress s) k \<or> k = observedKey env s a) \<and>
    unat (pg_NoProgressSamples (st_Progress (tn_State t))) =
      (if seenObservation (st_Progress s) (observedKey env s a)
       then unat (pg_NoProgressSamples (st_Progress s)) +
         (unat (op_CompletedSamples a) - unat (pg_ObservedSamples (st_Progress s))) else 0) \<and>
    indexedProgress (st_Progress (tn_State t)) \<and>
    (pg_Stage (st_Progress (tn_State t)) = ProgressStageExhausted \<longrightarrow> st_Convergence (tn_State t) \<noteq> None)"
proof -
  note o = observe_Inr [OF assms(1)]
  note p = o(1) and mono = o(2) and ex = o(8)
  have v: "Validate env s = None" by (rule Apply_Inr(1) [OF assms(1)])
  show ?thesis
  proof (cases "seenObservation (st_Progress s) (observedKey env s a)")
    case True
    note seen = observedProgress_seen [OF True]
    have "indexedProgress (observedProgress env s a)"
      using assms(2) by (simp add: indexedProgress_def seen(2))
    then show ?thesis
      using True ex clock_no_wrap [OF v mono] seen_cong [OF seen(2)] by (auto simp: p seen(1))
  next
    case False
    note fresh = observedProgress_fresh [OF False]
    have "indexedProgress (observedProgress env s a)"
      using remember_indexed [OF assms(2), of "observedKey env s a"] by (simp add: indexedProgress_def fresh(2))
    then show ?thesis
      using False ex seen_cong [OF fresh(2)]
        seen_remember [OF observedKey_nonempty, of "st_Progress s" env s a] assms(2)
      by (auto simp: p fresh(1) indexedProgress_def)
  qed
qed

section \<open>Cycling turns converge\<close>

text \<open>The limit that applies is positive and bounded by the two limits of the policy.\<close>

definition boundedLease :: "Policy \<Rightarrow> uint32 \<Rightarrow> bool" where
  "boundedLease p bound \<longleftrightarrow> 0 < cp_ProgressLimit (pl_Convergence p) \<and> cp_ProgressLimit (pl_Convergence p) \<le> bound \<and>
     0 < cp_ResearchLimit (pl_Convergence p) \<and> cp_ResearchLimit (pl_Convergence p) \<le> bound \<and>
     pl_ImplementNoProgressSamples p < 2 ^ 32 - 1"

lemma lease_bounded:
  assumes "boundedLease (st_Policy s) bound"
  shows "0 < snd (snd (progressLease s k))" "snd (snd (progressLease s k)) \<le> bound"
proof -
  let ?l = "pl_ImplementNoProgressSamples (st_Policy s)"
  have "?l \<noteq> - 1" using assms by (auto simp: boundedLease_def)
  then have "unat (?l + 1) = Suc (unat ?l)" by (rule unat_inc)
  then have "0 < ?l + 1" by (simp add: word_less_nat_alt)
  then have m: "0 < max (?l + 1) r" for r by (simp add: less_max_iff_disj)
  show "0 < snd (snd (progressLease s k))"
    using assms m by (simp add: progressLease_def boundedLease_def Let_def)
  show "snd (snd (progressLease s k)) \<le> bound"
    using assms by (auto simp: progressLease_def boundedLease_def Let_def min_le_iff_disj)
qed

lemma exhausted_stage:
  assumes "boundedLease (st_Policy s) bound" "bound \<le> pg_NoProgressSamples (observedProgress env s a)"
  shows "pg_Stage (observedProgress env s a) = ProgressStageExhausted"
proof -
  let ?p = "advanceProgress (TrimSpace (op_Signature a)) (observedIdentity s a) (observedKey env s a)
    (op_CompletedSamples a) (st_Progress s)"
  obtain x y l where l: "progressLease s (pg_StallKind ?p) = (x, y, l)" by (metis prod_cases3)
  have "0 < l" "l \<le> bound" using lease_bounded [OF assms(1), of "pg_StallKind ?p"] by (simp_all add: l)
  then show ?thesis
    using assms(2) by (auto simp: observedProgress_def progressStage_def l Let_def)
qed

lemma observe_run:
  assumes "runCommands env (map ObserveProgress as) s = Inr s'"
    "\<forall>a \<in> set as. seenObservation (st_Progress s) (observedKey env s a)" "boundedLease (st_Policy s) bound"
  shows "pg_ObservedSamples (st_Progress s) \<le> pg_ObservedSamples (st_Progress s') \<and>
    pg_NoProgressSamples (st_Progress s') = pg_NoProgressSamples (st_Progress s) +
      (pg_ObservedSamples (st_Progress s') - pg_ObservedSamples (st_Progress s)) \<and>
    (st_Convergence s \<noteq> None \<longrightarrow> st_Convergence s' = st_Convergence s) \<and>
    (as \<noteq> [] \<longrightarrow> pg_ObservedSamples (st_Progress s') = op_CompletedSamples (last as) \<and>
      (bound \<le> pg_NoProgressSamples (st_Progress s') \<longrightarrow> st_Convergence s' \<noteq> None))"
  using assms
proof (induction as arbitrary: s)
  case (Cons a as)
  then obtain t where ap: "Apply env s (ObserveProgress a) = Inr t"
    and rest: "runCommands env (map ObserveProgress as) (tn_State t) = Inr s'"
    by (auto simp: bindR_Inr_iff)
  let ?u = "tn_State t"
  note o = observe_Inr [OF ap]
  note p = o(1) and mono = o(2) and w = o(3,4) and cv = o(7) and ex = o(8)
  have seen: "seenObservation (st_Progress s) (observedKey env s a)" using Cons.prems(2) by simp
  note q = observedProgress_seen [OF seen] observedProgress_frame [of env s a]
  have key: "observedKey env ?u b = observedKey env s b" for b
    by (simp add: observedKey_def w p q)
  have "\<forall>b \<in> set as. seenObservation (st_Progress ?u) (observedKey env ?u b)"
    using Cons.prems(2) seen_cong [OF q(2)] by (simp add: key p)
  note ih = Cons.IH [OF rest this, unfolded w(2), OF Cons.prems(3)]
  show ?case
  proof (cases as)
    case Nil
    then have s': "s' = ?u" using rest by simp
    show ?thesis
      using mono cv ex exhausted_stage [OF Cons.prems(3), of env a] Nil by (simp add: s' p q)
  next
    case (Cons b bs)
    then show ?thesis using ih cv mono by (auto simp: p q)
  qed
qed simp


section \<open>A cycling turn\<close>

definition cycleArgs :: ObserveProgressArgs where
  "cycleArgs = \<lparr>op_Signature = ''g'', op_SampleIdentity = [], op_ResultDigest = [], op_CompletedSamples = 3\<rparr>"

definition cycleProgress :: ProgressState where
  "cycleProgress = (st_Progress turn1)\<lparr>pg_Signature := ''g'', pg_ObservedSamples := 1,
     pg_SeenObservations := Some (add (observedKey sampleEnv turn1 cycleArgs) emptyObservations)\<rparr>"

definition turnCycling :: State where
  "turnCycling = turn1\<lparr>st_Policy := DefaultPolicy\<lparr>pl_Convergence := ConvergencePolicyForStepLimit 2\<rparr>,
     st_Progress := cycleProgress\<rparr>"

definition turnCycled :: State where
  "turnCycled = turnCycling\<lparr>st_Progress := observedProgress sampleEnv turnCycling cycleArgs,
     st_Convergence := Some \<lparr>cv_Cause = ConvergenceNoProgress, cv_Used = 2, cv_Limit = 2,
       cv_RepairKind = RepairUnset, cv_FinalizationAttempted = False, cv_Summary = [],
       cv_PendingActions = []\<rparr>, st_NextAction := StepActionFinalize\<rparr>"

lemma cycle_key: "observedKey sampleEnv turnCycling cycleArgs = observedKey sampleEnv turn1 cycleArgs"
  by (simp add: observedKey_def turnCycling_def cycleProgress_def)

lemma cycle_seen: "seenObservation (st_Progress turnCycling) (observedKey sampleEnv turnCycling cycleArgs)"
  by (simp add: seenObservation_def observedKey_nonempty cycle_key)
     (simp add: turnCycling_def cycleProgress_def contains_def add_def emptyObservations_def)

lemma cycle_indexed: "indexedProgress (st_Progress turnCycling)"
  using obs.well_insert [OF obs.well_empty]
  by (simp add: indexedProgress_def turnCycling_def cycleProgress_def)

lemma cycle_progress:
  "pg_NoProgressSamples (observedProgress sampleEnv turnCycling cycleArgs) = 2"
  "pg_Signature (observedProgress sampleEnv turnCycling cycleArgs) = ''g''"
  using observedProgress_seen(1) [OF cycle_seen]
  by (simp_all add: turnCycling_def cycleProgress_def cycleArgs_def turn_eval NewState_def
      observedProgress_def advanceProgress_def rememberObservation_def Let_def)

lemma cycle_lease: "snd (snd (progressLease turnCycling k)) = 2" "boundedLease (st_Policy turnCycling) 2"
  by (simp_all add: progressLease_def boundedLease_def turnCycling_def turn_eval NewState_def DefaultPolicy_def
      ConvergencePolicyForStepLimit_def NormalizeTurnIntent_def IsResearchIntent_def Let_def)

lemma cycle_exhausted:
  "pg_Stage (observedProgress sampleEnv turnCycling cycleArgs) = ProgressStageExhausted"
  by (rule exhausted_stage [OF cycle_lease(2)]) (simp add: cycle_progress)

lemma turnCycling_valid: "Validate sampleEnv turnCycling = None"
  by (simp add: validate_eval state_eval turn_eval turnCycling_def cycleProgress_def)

lemma turnCycled_valid: "Validate sampleEnv turnCycled = None"
  using cycle_progress observedProgress_frame [of sampleEnv turnCycling cycleArgs]
  by (simp add: validate_eval turnCycled_def cycleArgs_def)
     (simp add: validate_eval state_eval turn_eval turnCycling_def cycleProgress_def)

lemma Apply_cycle:
  "Apply sampleEnv turnCycling (ObserveProgress cycleArgs) = Inr \<lparr>tn_State = turnCycled,
     tn_Events = [event EventConvergence], tn_Effects = []\<rparr>"
proof (rule Apply_run [OF turnCycling_valid])
  have plain: "st_Phase turnCycling = PhaseSampling" "st_ActiveSampleID turnCycling = []"
    "st_Convergence turnCycling = None" "st_Completion turnCycling = None"
    "pg_ObservedSamples (st_Progress turnCycling) = 1" "op_Signature cycleArgs = ''g''"
    "op_CompletedSamples cycleArgs = 3"
    by (simp_all add: turnCycling_def cycleProgress_def turn_eval NewState_def cycleArgs_def)
  then show "dispatch sampleEnv \<lparr>tn_State = turnCycling, tn_Events = [], tn_Effects = []\<rparr> turnCycling
      (ObserveProgress cycleArgs) = Inr \<lparr>tn_State = turnCycled, tn_Events = [event EventConvergence], tn_Effects = []\<rparr>"
    by (simp add: dispatch_def guard_def requirePhase_def applyObserveProgress_def beginConvergence_def
        cycle_exhausted cycle_progress cycle_lease turnCycled_def Let_def)
qed (auto simp: turnCycled_valid turnCycling_def turn_eval NewState_def Phase_Terminal_def fmlookup_ran'_iff)

theorem observation_clock_witness:
  "Apply sampleEnv turnCycling (ObserveProgress cycleArgs) = Inr \<lparr>tn_State = turnCycled,
     tn_Events = [event EventConvergence], tn_Effects = []\<rparr> \<and> indexedProgress (st_Progress turnCycling) \<and>
   unat (pg_NoProgressSamples (st_Progress turnCycled)) = 2"
proof -
  have "unat (op_CompletedSamples cycleArgs) = 3" "unat (pg_ObservedSamples (st_Progress turnCycling)) = 1"
    "unat (pg_NoProgressSamples (st_Progress turnCycling)) = 0"
    by (simp_all add: cycleArgs_def turnCycling_def cycleProgress_def turn_eval NewState_def)
  then show ?thesis
    using observation_clock [OF Apply_cycle cycle_indexed] Apply_cycle cycle_indexed cycle_seen by simp
qed


end
