(* ===== verification/Command_Matrix.thy ===== *)
theory Command_Matrix
  imports Tool_Safety
begin

text \<open>
  The command contracts of \<open>src/internal/runtime/agent/turnkernel/command_matrix.go\<close>, the index of
  the reducer's commands by family and allowed phases, against the reducer itself.
\<close>

section \<open>The contracts\<close>

datatype CommandFamily =
  CommandFamilyLifecycle | CommandFamilySampling | CommandFamilyTool | CommandFamilyInteraction
  | CommandFamilyCompletion | CommandFamilyTerminal | CommandFamilyEffect

record CommandContract =
  ct_Name :: string
  ct_Family :: CommandFamily
  ct_AllowedPhases :: "Phase list"

definition contract :: "string \<Rightarrow> CommandFamily \<Rightarrow> Phase list \<Rightarrow> CommandContract" where
  "contract name family phases = \<lparr>ct_Name = name, ct_Family = family, ct_AllowedPhases = phases\<rparr>"

definition commandContracts :: "CommandContract list" where
  "commandContracts = [
   contract ''start_turn'' CommandFamilyLifecycle [PhaseCreated],
   contract ''preparation_finished'' CommandFamilyLifecycle [PhasePreparing],
   contract ''model_sample_requested'' CommandFamilySampling [PhaseSampling],
   contract ''model_sample_started'' CommandFamilySampling [PhaseSampling],
   contract ''model_sample_finished'' CommandFamilySampling [PhaseSampling],
   contract ''model_sample_progress_recorded'' CommandFamilySampling [PhaseSampling],
   contract ''model_sample_result_received'' CommandFamilySampling [PhaseSampling],
   contract ''supplemental_usage_recorded'' CommandFamilySampling [],
   contract ''provider_retry_requested'' CommandFamilySampling [PhaseSampling],
   contract ''provider_wait_reserved'' CommandFamilySampling [PhaseSampling],
   contract ''model_text_received'' CommandFamilySampling [PhaseSampling],
   contract ''release_provisional_output'' CommandFamilySampling [PhaseSampling],
   contract ''discard_provisional_output'' CommandFamilySampling [PhaseSampling],
   contract ''repair_requested'' CommandFamilySampling [PhaseSampling],
   contract ''evaluate_turn_step'' CommandFamilySampling [],
   contract ''observe_progress'' CommandFamilySampling [PhaseSampling],
   contract ''bind_work_item'' CommandFamilyLifecycle [PhaseCreated, PhasePreparing, PhaseSampling],
   contract ''continuation_recorded'' CommandFamilyLifecycle [],
   contract ''convergence_requested'' CommandFamilySampling [],
   contract ''convergence_finalization_started'' CommandFamilySampling [PhaseSampling],
   contract ''tool_calls_proposed'' CommandFamilyTool [PhaseSampling],
   contract ''tool_result_received'' CommandFamilyTool [PhaseExecutingTools],
   contract ''tool_batch_admission_rejected'' CommandFamilyTool [PhaseExecutingTools],
   contract ''abort_open_calls'' CommandFamilyTool [],
   contract ''approval_required'' CommandFamilyInteraction [PhaseExecutingTools],
   contract ''approval_resolved'' CommandFamilyInteraction [PhaseAwaitingApproval],
   contract ''approval_result_received'' CommandFamilyInteraction [PhaseAwaitingApproval],
   contract ''input_required'' CommandFamilyInteraction [PhaseExecutingTools],
   contract ''input_resolved'' CommandFamilyInteraction [PhaseAwaitingInput],
   contract ''input_result_received'' CommandFamilyInteraction [PhaseAwaitingInput],
   contract ''workspace_reconciled'' CommandFamilyCompletion [PhaseSampling],
   contract ''verification_retired'' CommandFamilyLifecycle [],
   contract ''completion_evaluated'' CommandFamilyCompletion [],
   contract ''completion_invalidated'' CommandFamilyCompletion [],
   contract ''cancel_requested'' CommandFamilyInteraction [],
   contract ''recovery_requested'' CommandFamilyInteraction [],
   contract ''effect_started'' CommandFamilyEffect [],
   contract ''effect_requeued'' CommandFamilyEffect [],
   contract ''effect_result_received'' CommandFamilyEffect [],
   contract ''persistence_result_received'' CommandFamilyEffect [PhaseCommitting],
   contract ''terminal_requested'' CommandFamilyTerminal [],
   contract ''journal_finalized'' CommandFamilyTerminal [PhaseCommitting],
   contract ''journal_result_received'' CommandFamilyTerminal [PhaseCommitting],
   contract ''finish_terminal'' CommandFamilyTerminal [PhaseCommitting]]"

text \<open>\<open>CommandContracts\<close> hands out a copy; on values the copy is the list itself.\<close>

definition CommandContracts :: "CommandContract list" where
  "CommandContracts = map (\<lambda>c. c\<lparr>ct_AllowedPhases := ct_AllowedPhases c\<rparr>) commandContracts"

definition contractOf :: "Command \<Rightarrow> CommandContract option" where
  "contractOf c = find (\<lambda>ct. ct_Name ct = commandName c) CommandContracts"

section \<open>Coverage\<close>

text \<open>
  The matrix indexes every command of the reducer exactly once: its names are distinct, and they
  are the names of the commands, no more and no fewer.
\<close>

theorem matrix_covers_commands:
  "distinct (map ct_Name CommandContracts) \<and> set (map ct_Name CommandContracts) = range commandName"
proof (intro conjI equalityI subsetI)
  show "distinct (map ct_Name CommandContracts)"
    by (simp add: CommandContracts_def commandContracts_def contract_def)
next
  fix n
  assume "n \<in> range commandName"
  then obtain c where "n = commandName c" by blast
  then show "n \<in> set (map ct_Name CommandContracts)"
    by (cases c) (simp_all add: CommandContracts_def commandContracts_def contract_def)
next
  fix n
  assume n: "n \<in> set (map ct_Name CommandContracts)"
  have names: "set (map commandName cs) \<subseteq> range commandName" for cs by auto
  have "map ct_Name CommandContracts = map commandName [
     StartTurn, PreparationFinished, ModelSampleRequested undefined, ModelSampleStarted undefined
     undefined, ModelSampleFinished undefined, ModelSampleProgressRecorded undefined,
     ModelSampleResultReceived undefined, SupplementalUsageRecorded undefined,
     ProviderRetryRequested undefined, ProviderWaitReserved undefined, ModelTextReceived undefined,
     ReleaseProvisionalOutput, DiscardProvisionalOutput undefined, RepairRequested undefined
     undefined undefined, EvaluateTurnStep undefined, ObserveProgress undefined, BindWorkItem
     undefined, ContinuationRecorded undefined, ConvergenceRequested undefined,
     ConvergenceFinalizationStarted, ToolCallsProposed undefined, ToolResultReceived undefined,
     ToolBatchAdmissionRejected undefined undefined, AbortOpenCalls undefined, ApprovalRequired
     undefined undefined, ApprovalResolved undefined, ApprovalResultReceived undefined,
     InputRequired undefined undefined, InputResolved undefined, InputResultReceived undefined,
     WorkspaceReconciled undefined undefined, VerificationRetired, CompletionEvaluated undefined,
     CompletionInvalidated undefined, CancelRequested undefined, RecoveryRequested undefined,
     EffectStarted undefined undefined, EffectRequeued undefined, EffectResultReceived undefined
     undefined undefined, PersistenceResultReceived undefined undefined undefined, TerminalRequested
     undefined, JournalFinalized undefined, JournalResultReceived undefined undefined undefined,
     FinishTerminal]"
    by (simp add: CommandContracts_def commandContracts_def contract_def)
  from n [unfolded this] show "n \<in> range commandName" by (rule subsetD [OF names])
qed

section \<open>Conformance\<close>

text \<open>The phases each handler insists on, as the reducer has them.\<close>

lemma handler_phases:
  "applyPhaseMove c p q t s = Inr t' \<Longrightarrow> st_Phase s = p"
  "applyModelSampleRequested env t s i = Inr t' \<Longrightarrow> st_Phase s = PhaseSampling"
  "applyModelSampleStarted t s i n = Inr t' \<Longrightarrow> st_Phase s = PhaseSampling"
  "applyModelSampleFinished t s mf = Inr t' \<Longrightarrow> st_Phase s = PhaseSampling"
  "applyModelSampleProgress env t s mp = Inr t' \<Longrightarrow> st_Phase s = PhaseSampling"
  "applyModelSampleResult env t s mr = Inr t' \<Longrightarrow> st_Phase s = PhaseSampling"
  "applyProviderRetry t s pq = Inr t' \<Longrightarrow> st_Phase s = PhaseSampling"
  "applyProviderWait t s pw = Inr t' \<Longrightarrow> st_Phase s = PhaseSampling"
  "applyModelText t s x = Inr t' \<Longrightarrow> st_Phase s = PhaseSampling"
  "applyReleaseOutput t s = Inr t' \<Longrightarrow> st_Phase s = PhaseSampling"
  "applyRepairRequested t s k x l = Inr t' \<Longrightarrow> st_Phase s = PhaseSampling"
  "applyObserveProgress env t s ob = Inr t' \<Longrightarrow> st_Phase s = PhaseSampling"
  "applyBindWorkItem env t s bw = Inr t' \<Longrightarrow> st_Phase s \<in> {PhaseCreated, PhasePreparing, PhaseSampling}"
  "applyConvergenceFinalizationStarted t s = Inr t' \<Longrightarrow> st_Phase s = PhaseSampling"
  "applyToolBatchAdmissionRejection env t s ids r = Inr t' \<Longrightarrow> st_Phase s = PhaseExecutingTools"
  "applyApprovalResolved t s r = Inr t' \<Longrightarrow> st_Phase s = PhaseAwaitingApproval"
  "applyInputResolved t s r = Inr t' \<Longrightarrow> st_Phase s = PhaseAwaitingInput"
  "applyWorkspaceReconciled t s m cs = Inr t' \<Longrightarrow> st_Phase s = PhaseSampling"
  "applyJournalFinalized t s js = Inr t' \<Longrightarrow> st_Phase s = PhaseCommitting"
  "applyJournalResult t s i js x = Inr t' \<Longrightarrow> st_Phase s = PhaseCommitting"
  "applyFinishTerminal t s = Inr t' \<Longrightarrow> st_Phase s = PhaseCommitting"
  by (simp_all add: applyPhaseMove_def applyModelSampleRequested_def applyModelSampleStarted_def
      applyModelSampleFinished_def applyModelSampleProgress_def applyModelSampleResult_def
      applyProviderRetry_def applyProviderWait_def applyModelText_def applyReleaseOutput_def
      applyRepairRequested_def applyObserveProgress_def applyBindWorkItem_def
      applyConvergenceFinalizationStarted_def applyToolBatchAdmissionRejection_def
      applyApprovalResolved_def applyInputResolved_def applyWorkspaceReconciled_def
      applyJournalFinalized_def applyJournalResult_def applyFinishTerminal_def Let_def)

lemma interaction_phases:
  assumes "st_Phase (tn_State t) = st_Phase s"
  shows "applyApprovalResult t s aq = Inr t' \<Longrightarrow> st_Phase s = PhaseAwaitingApproval"
    "applyInputResult t s iq = Inr t' \<Longrightarrow> st_Phase s = PhaseAwaitingInput"
  using assms handler_phases(16,17)
  by (fastforce simp: applyApprovalResult_def applyInputResult_def bindR_Inr_iff finishEffect_Inr Let_def
      dest: map_sum_InrD)+

text \<open>Commands the reducer accepts in more phases than their contract lists.\<close>

definition widened :: "string list" where
  "widened = [''discard_provisional_output'', ''tool_calls_proposed'', ''tool_result_received'',
     ''approval_required'', ''input_required'', ''persistence_result_received'']"

definition contractPhases :: "Command \<Rightarrow> Phase list" where
  "contractPhases c = (case contractOf c of None \<Rightarrow> []
     | Some ct \<Rightarrow> if ct_Name ct \<in> set widened then [] else ct_AllowedPhases ct)"

lemma contractPhases_table: "contractPhases c = (case c of
     StartTurn \<Rightarrow> [PhaseCreated]
   | PreparationFinished \<Rightarrow> [PhasePreparing]
   | ModelSampleRequested _ \<Rightarrow> [PhaseSampling]
   | ModelSampleStarted _ _ \<Rightarrow> [PhaseSampling]
   | ModelSampleFinished _ \<Rightarrow> [PhaseSampling]
   | ModelSampleProgressRecorded _ \<Rightarrow> [PhaseSampling]
   | ModelSampleResultReceived _ \<Rightarrow> [PhaseSampling]
   | ProviderRetryRequested _ \<Rightarrow> [PhaseSampling]
   | ProviderWaitReserved _ \<Rightarrow> [PhaseSampling]
   | ModelTextReceived _ \<Rightarrow> [PhaseSampling]
   | ReleaseProvisionalOutput \<Rightarrow> [PhaseSampling]
   | RepairRequested _ _ _ \<Rightarrow> [PhaseSampling]
   | ObserveProgress _ \<Rightarrow> [PhaseSampling]
   | BindWorkItem _ \<Rightarrow> [PhaseCreated, PhasePreparing, PhaseSampling]
   | ConvergenceFinalizationStarted \<Rightarrow> [PhaseSampling]
   | ToolBatchAdmissionRejected _ _ \<Rightarrow> [PhaseExecutingTools]
   | ApprovalResolved _ \<Rightarrow> [PhaseAwaitingApproval]
   | ApprovalResultReceived _ \<Rightarrow> [PhaseAwaitingApproval]
   | InputResolved _ \<Rightarrow> [PhaseAwaitingInput]
   | InputResultReceived _ \<Rightarrow> [PhaseAwaitingInput]
   | WorkspaceReconciled _ _ \<Rightarrow> [PhaseSampling]
   | JournalFinalized _ \<Rightarrow> [PhaseCommitting]
   | JournalResultReceived _ _ _ \<Rightarrow> [PhaseCommitting]
   | FinishTerminal \<Rightarrow> [PhaseCommitting]
   | _ \<Rightarrow> [])"
  by (cases c) (simp_all add: contractPhases_def contractOf_def CommandContracts_def commandContracts_def
      contract_def widened_def)

lemma dispatch_conforms:
  assumes "dispatch env t s c = Inr t'" "st_Phase (tn_State t) = st_Phase s" "contractPhases c \<noteq> []"
  shows "st_Phase s \<in> set (contractPhases c)"
  using assms
  by (cases c) (auto simp: dispatch_def contractPhases_table
      dest: handler_phases interaction_phases [OF assms(2)])

text \<open>
  The reducer conforms to the matrix: outside the six commands of \<open>widened\<close>, a command whose
  contract lists phases is accepted only in one of them.
\<close>

theorem accepted_in_contract_phase:
  assumes "Apply env s c = Inr t" "contractOf c = Some ct" "ct_AllowedPhases ct \<noteq> []"
    "ct_Name ct \<notin> set widened"
  shows "st_Phase s \<in> set (ct_AllowedPhases ct)"
proof -
  have "contractPhases c = ct_AllowedPhases ct" using assms(2,4) by (simp add: contractPhases_def)
  then show ?thesis
    using dispatch_conforms [OF Apply_Inr(4) [OF assms(1)]] assms(3) by (simp add: cloneState_def)
qed

theorem accepted_in_contract_phase_witness:
  "\<exists>t ct. Apply sampleEnv turn1 (ModelSampleRequested ''s1'') = Inr t \<and>
     contractOf (ModelSampleRequested ''s1'') = Some ct \<and> st_Phase turn1 \<in> set (ct_AllowedPhases ct)"
proof -
  have ct: "contractOf (ModelSampleRequested ''s1'') =
      Some (contract ''model_sample_requested'' CommandFamilySampling [PhaseSampling])"
    by (simp add: contractOf_def CommandContracts_def commandContracts_def contract_def)
  show ?thesis
    using accepted_in_contract_phase [OF Apply_request_sample ct] ct Apply_request_sample
    by (fastforce simp: contract_def widened_def)
qed

text \<open>
  The contract of \<open>discard_provisional_output\<close> lists only sampling, but the reducer also discards
  while tools run.
\<close>

theorem contract_too_narrow:
  "Apply sampleEnv turnTool (DiscardProvisionalOutput ''stop'') = Inr \<lparr>tn_State = turnTool,
     tn_Events = [event EventOutputDiscarded], tn_Effects = []\<rparr> \<and>
   contractOf (DiscardProvisionalOutput ''stop'') =
     Some (contract ''discard_provisional_output'' CommandFamilySampling [PhaseSampling]) \<and>
   st_Phase turnTool = PhaseExecutingTools"
proof (intro conjI)
  show ph: "st_Phase turnTool = PhaseExecutingTools" by (simp add: turnTool_def)
  show "contractOf (DiscardProvisionalOutput ''stop'') =
      Some (contract ''discard_provisional_output'' CommandFamilySampling [PhaseSampling])"
    by (simp add: contractOf_def CommandContracts_def commandContracts_def contract_def)
  have same: "turnTool\<lparr>st_ProvisionalOutput := [], st_OutputEligibility := False\<rparr> = turnTool"
    by (simp add: turnTool_def turn_eval NewState_def)
  show "Apply sampleEnv turnTool (DiscardProvisionalOutput ''stop'') = Inr \<lparr>tn_State = turnTool,
      tn_Events = [event EventOutputDiscarded], tn_Effects = []\<rparr>"
    by (rule Apply_run [OF turnTool_valid])
       (simp_all add: ph Phase_Terminal_def dispatch_def applyDiscardOutput_def guard_def requirePhase_def
         same turnTool_valid, simp add: turnTool_def turn_eval NewState_def)
qed

end
