(* ===== verification/Turn_Protocol.thy ===== *)
theory Turn_Protocol
  imports Tool_Safety
begin

text \<open>
  The contract of the turn kernel with its host, as an abstract machine. A view keeps what the host
  can see of a turn: its phase, which calls are open or closed, which approvals wait for which call,
  the pending question, whether the turn was canceled, and its outcome. Every command of the reducer
  is one action of this machine, and the reducer refines it: the view of the state after an accepted
  command is exactly the one the machine prescribes.
\<close>

section \<open>The abstract machine\<close>

record View =
  vw_phase :: Phase
  vw_open :: "string set"
  vw_closed :: "string set"
  vw_approvals :: "(string, string) fmap"
  vw_input :: "(string \<times> string) option"
  vw_canceled :: bool
  vw_outcome :: "TerminalKind option"

datatype ProtocolAction =
  Quiet | Prepare | Ready | Propose "string set" | AskApproval string string | Approve string bool
  | AskInput string string | Answer string | CloseCall string | AbortAll | Halt | Retire
  | Decide TerminalKind | Conclude

definition only :: "bool \<Rightarrow> View \<Rightarrow> View option" where
  "only b v = (if b then Some v else None)"

definition asksFor :: "View \<Rightarrow> string \<Rightarrow> bool" where
  "asksFor v i = (case vw_input v of None \<Rightarrow> False | Some (r, c) \<Rightarrow> c = i)"

definition resumePhase :: "View \<Rightarrow> Phase" where
  "resumePhase v = (if \<not> isEmpty (vw_approvals v) then PhaseAwaitingApproval
     else if vw_open v \<noteq> {} then PhaseExecutingTools else PhaseSampling)"

definition closing :: "string \<Rightarrow> View \<Rightarrow> View" where
  "closing i v = (let u = v\<lparr>vw_input := (if asksFor v i then None else vw_input v),
       vw_open := vw_open v - {i}, vw_closed := insert i (vw_closed v),
       vw_approvals := fmfilter (\<lambda>r. fmlookup (vw_approvals v) r \<noteq> Some i) (vw_approvals v)\<rparr>
     in u\<lparr>vw_phase := resumePhase u\<rparr>)"

definition protocolStep :: "ProtocolAction \<Rightarrow> View \<Rightarrow> View option" where
  "protocolStep a v = (if Phase_Terminal (vw_phase v) then None else case a of
     Quiet \<Rightarrow> Some v
   | Prepare \<Rightarrow> only (vw_phase v = PhaseCreated) (v\<lparr>vw_phase := PhasePreparing\<rparr>)
   | Ready \<Rightarrow> only (vw_phase v = PhasePreparing) (v\<lparr>vw_phase := PhaseSampling\<rparr>)
   | Propose is \<Rightarrow> only (vw_phase v \<in> {PhaseSampling, PhaseExecutingTools} \<and> \<not> vw_canceled v \<and> is \<noteq> {} \<and>
       is \<inter> (vw_open v \<union> vw_closed v) = {})
       (v\<lparr>vw_open := vw_open v \<union> is, vw_phase := PhaseExecutingTools\<rparr>)
   | AskApproval r i \<Rightarrow> only (vw_phase v \<in> {PhaseExecutingTools, PhaseAwaitingApproval} \<and> i \<in> vw_open v \<and>
       fmlookup (vw_approvals v) r = None)
       (v\<lparr>vw_approvals := fmupd r i (vw_approvals v), vw_phase := PhaseAwaitingApproval\<rparr>)
   | Approve r cancel \<Rightarrow> only (vw_phase v = PhaseAwaitingApproval \<and> fmlookup (vw_approvals v) r \<noteq> None \<and>
       (cancel \<longrightarrow> \<not> vw_canceled v))
       (v\<lparr>vw_approvals := fmdrop r (vw_approvals v), vw_canceled := vw_canceled v \<or> cancel,
          vw_phase := (if isEmpty (fmdrop r (vw_approvals v)) then PhaseExecutingTools
                       else PhaseAwaitingApproval)\<rparr>)
   | AskInput r i \<Rightarrow> only (vw_phase v \<in> {PhaseSampling, PhaseExecutingTools})
       (v\<lparr>vw_input := Some (r, i), vw_phase := PhaseAwaitingInput\<rparr>)
   | Answer r \<Rightarrow> only (vw_phase v = PhaseAwaitingInput \<and> map_option fst (vw_input v) = Some r)
       (v\<lparr>vw_input := None,
          vw_phase := (if vw_open v \<noteq> {} then PhaseExecutingTools else PhaseSampling)\<rparr>)
   | CloseCall i \<Rightarrow> only (i \<in> vw_open v \<and> (vw_phase v \<in> {PhaseExecutingTools, PhaseAwaitingApproval} \<or>
       vw_phase v = PhaseAwaitingInput \<and> asksFor v i) \<and> (i \<in> fmran' (vw_approvals v) \<longrightarrow> vw_canceled v))
       (closing i v)
   | AbortAll \<Rightarrow> only (vw_phase v \<in> {PhaseExecutingTools, PhaseAwaitingApproval} \<and> vw_open v \<noteq> {})
       (v\<lparr>vw_open := {}, vw_closed := vw_closed v \<union> vw_open v, vw_approvals := fmempty,
          vw_phase := PhaseSampling\<rparr>)
   | Halt \<Rightarrow> only (\<not> vw_canceled v) (v\<lparr>vw_canceled := True\<rparr>)
   | Retire \<Rightarrow> Some (if vw_phase v = PhaseVerifying then v\<lparr>vw_phase := PhaseSampling\<rparr> else v)
   | Decide k \<Rightarrow> only (vw_phase v \<noteq> PhaseCommitting \<and> vw_open v = {} \<and> isEmpty (vw_approvals v) \<and>
       vw_input v = None \<and> (k = TerminalCompleted \<longrightarrow> vw_phase v = PhaseSampling))
       (v\<lparr>vw_phase := PhaseCommitting, vw_outcome := Some k\<rparr>)
   | Conclude \<Rightarrow> (case vw_outcome v of None \<Rightarrow> None
       | Some k \<Rightarrow> only (vw_phase v = PhaseCommitting) (v\<lparr>vw_phase := phaseForTerminal k\<rparr>)))"

section \<open>The view of a turn and the action of a command\<close>

definition outcomeOf :: "TerminalDecision option \<Rightarrow> TerminalDecision option \<Rightarrow> TerminalKind option" where
  "outcomeOf pending terminal =
     map_option td_Kind (case pending of Some d \<Rightarrow> Some d | None \<Rightarrow> terminal)"

definition view :: "State \<Rightarrow> View" where
  "view s = \<lparr>vw_phase = st_Phase s, vw_open = fmdom' (st_OpenCalls s), vw_closed = fmdom' (st_ClosedCalls s),
     vw_approvals = fmmap ap_CallID (st_PendingApprovals s),
     vw_input = map_option (\<lambda>i. (in_RequestID i, in_CallID i)) (st_PendingInput s),
     vw_canceled = cs_Accepted (st_Cancellation s),
     vw_outcome = outcomeOf (st_PendingTerminal s) (st_Terminal s)\<rparr>"

definition actionOf :: "Command \<Rightarrow> ProtocolAction" where
  "actionOf c = (case c of
     StartTurn \<Rightarrow> Prepare
   | PreparationFinished \<Rightarrow> Ready
   | ModelSampleResultReceived a \<Rightarrow>
       if mr_Error a = [] \<and> mr_Calls a \<noteq> [] then Propose (tc_ID ` set (mr_Calls a)) else Quiet
   | ToolCallsProposed calls \<Rightarrow> Propose (tc_ID ` set calls)
   | ApprovalRequired r i \<Rightarrow> AskApproval r i
   | ApprovalResolved r \<Rightarrow> Approve r False
   | ApprovalResultReceived a \<Rightarrow> Approve (aq_RequestID a) (aq_Canceled a)
   | InputRequired r i \<Rightarrow> AskInput r i
   | InputResolved r \<Rightarrow> Answer r
   | InputResultReceived a \<Rightarrow> Answer (iq_RequestID a)
   | ToolResultReceived a \<Rightarrow> CloseCall (tq_CallID a)
   | AbortOpenCalls reason \<Rightarrow> AbortAll
   | CancelRequested reason \<Rightarrow> Halt
   | VerificationRetired \<Rightarrow> Retire
   | TerminalRequested a \<Rightarrow> Decide (td_Kind (terminalDecision a))
   | FinishTerminal \<Rightarrow> Conclude
   | _ \<Rightarrow> Quiet)"

lemma cloneState_view [simp]: "view (cloneState env s) = view s"
  by (simp add: view_def cloneState_def)

lemma copyOf_view: "copyOf s s' \<Longrightarrow> view s' = view s"
  by (auto simp: copyOf_def view_def)

lemma settles_view: "settles t t' \<Longrightarrow> view (tn_State t') = view (tn_State t)"
  by (simp add: view_def settles_frame)

lemma plans_view: "plans t t' \<Longrightarrow> view (tn_State t') = view (tn_State t)"
  by (auto simp: plans_def view_def)

section \<open>Commands that only the kernel sees\<close>

lemma sampling_quiet:
  "applyModelSampleRequested env t s i = Inr t' \<Longrightarrow> view (tn_State t') = view (tn_State t)"
  "applyModelSampleStarted t s i n = Inr t' \<Longrightarrow> view (tn_State t') = view (tn_State t)"
  "applyModelSampleFinished t s mf = Inr t' \<Longrightarrow> view (tn_State t') = view (tn_State t)"
  "applyModelSampleProgress env t s mp = Inr t' \<Longrightarrow> view (tn_State t') = view (tn_State t)"
  "applySupplementalUsage t s su = Inr t' \<Longrightarrow> view (tn_State t') = view (tn_State t)"
  "applyProviderWait t s pw = Inr t' \<Longrightarrow> view (tn_State t') = view (tn_State t)"
  "applyModelText t s x = Inr t' \<Longrightarrow> view (tn_State t') = view (tn_State t)"
  "applyReleaseOutput t s = Inr t' \<Longrightarrow> view (tn_State t') = view (tn_State t)"
  "applyDiscardOutput t s x = Inr t' \<Longrightarrow> view (tn_State t') = view (tn_State t)"
  by (auto simp: applyModelSampleRequested_def applyModelSampleStarted_def applyModelSampleFinished_def
      applyModelSampleProgress_def applySupplementalUsage_def applyProviderWait_def applyModelText_def
      applyReleaseOutput_def applyDiscardOutput_def view_def Let_def split: option.splits)

lemma provider_retry_quiet: "applyProviderRetry t s pq = Inr t' \<Longrightarrow> view (tn_State t') = view (tn_State t)"
  by (cases rule: applyProviderRetry_Inr) (auto simp: view_def)

lemma planning_quiet:
  "applyRepairRequested t s k x l = Inr t' \<Longrightarrow> view (tn_State t') = view (tn_State t)"
  "applyConvergenceRequested t s cr = Inr t' \<Longrightarrow> view (tn_State t') = view (tn_State t)"
  "applyConvergenceFinalizationStarted t s = Inr t' \<Longrightarrow> view (tn_State t') = view (tn_State t)"
  "applyBindWorkItem env t s bw = Inr t' \<Longrightarrow> view (tn_State t') = view (tn_State t)"
  using plans_view [OF beginConvergence_plans, of cr t]
  by (auto simp: applyRepairRequested_def applyConvergenceRequested_def
      applyConvergenceFinalizationStarted_def applyBindWorkItem_def Let_def
      split: option.splits dest!: spendRepairBudget_plans [THEN plans_view])
     (simp_all add: view_def)

lemmas step_quiet = applyEvaluateTurnStep_plans [THEN plans_view] applyObserveProgress_plans [THEN plans_view]

lemma effect_quiet:
  "applyEffectStarted t s i n = Inr t' \<Longrightarrow> view (tn_State t') = view (tn_State t)"
  "applyEffectRequeued t s i = Inr t' \<Longrightarrow> view (tn_State t') = view (tn_State t)"
  by (auto simp: applyEffectStarted_def applyEffectRequeued_def view_def Let_def
      split: option.splits if_splits)

lemma result_quiet:
  "applyEffectResult t s i ok x = Inr t' \<Longrightarrow> view (tn_State t') = view (tn_State t)"
  "applyPersistenceResult t s i ok x = Inr t' \<Longrightarrow> view (tn_State t') = view (tn_State t)"
  by (auto simp: applyEffectResult_def applyPersistenceResult_def intro!: settles_view finishEffect_settles)

lemma journal_quiet:
  "applyJournalFinalized t s js = Inr t' \<Longrightarrow> view (tn_State t') = view (tn_State t)"
  "applyJournalResult t s i js x = Inr t' \<Longrightarrow> view (tn_State t') = view (tn_State t)"
  by (auto simp: applyJournalFinalized_def applyJournalResult_def bindR_Inr_iff finishEffect_Inr view_def Let_def
      split: option.splits if_splits)

lemma completion_quiet:
  "applyWorkspaceReconciled t s m cs = Inr t' \<Longrightarrow> view (tn_State t') = view (tn_State t)"
  "applyCompletionInvalidated t s x = Inr t' \<Longrightarrow> view (tn_State t') = view (tn_State t)"
  "applyContinuationRecorded t s cc = Inr t' \<Longrightarrow> view (tn_State t') = view (tn_State t)"
  "applyRecoveryRequested t s rq = Inr t' \<Longrightarrow> view (tn_State t') = view (tn_State t)"
  by (auto simp: applyWorkspaceReconciled_def applyCompletionInvalidated_def applyContinuationRecorded_def
      applyRecoveryRequested_def view_def Let_def split: option.splits if_splits)

lemma decision_quiet: "applyCompletion t s n = Inr t' \<Longrightarrow> view (tn_State t') = view (tn_State t)"
  by (erule applyCompletion_shape) (simp add: view_def)

lemma admission_quiet:
  assumes "applyToolBatchAdmissionRejection env t s is r = Inr t'" "copyOf s (tn_State t)"
  shows "view (tn_State t') = view (tn_State t)"
proof -
  have r: "rejectCalls s (ToolBatchAdmissionRejected is r) r [] is t = Inr t'"
    using assms(1) by (simp add: applyToolBatchAdmissionRejection_def Let_def)
  obtain oc where "tn_State t' = (tn_State t)\<lparr>st_OpenCalls := oc\<rparr>"
    "fmdom' oc = fmdom' (st_OpenCalls (tn_State t))"
    using rejectCalls_shape [OF r] by (auto simp: copyOfD [OF assms(2)])
  then show ?thesis by (simp add: view_def)
qed

section \<open>Commands the host sees\<close>

lemma proposeCalls_fresh:
  "proposeCalls env s c seen calls t = Inr t' \<Longrightarrow>
   tc_ID ` set calls \<inter> (fmdom' (st_OpenCalls s) \<union> fmdom' (st_ClosedCalls s)) = {}"
  by (induction env s c seen calls t rule: proposeCalls.induct)
     (auto simp: fmlookup_dom'_iff split: if_splits)

lemma propose_step:
  assumes "applyToolCalls env t s calls = Inr t'" "copyOf s (tn_State t)"
  shows "protocolStep (Propose (tc_ID ` set calls)) (view s) = Some (view (tn_State t'))"
proof -
  let ?t0 = "withState (\<lambda>s. s\<lparr>st_Completion := None, st_OutputEligibility := False\<rparr>) t"
  obtain t1 where g: "st_Phase s \<in> {PhaseSampling, PhaseExecutingTools}" "calls \<noteq> []"
      "\<not> cs_Accepted (st_Cancellation s)"
    and t1: "proposeCalls env s (ToolCallsProposed calls) [] calls ?t0 = Inr t1"
    and t': "t' = withState (\<lambda>s. s\<lparr>st_Progress := (st_Progress s)\<lparr>
                 pg_PendingIdentity := FormatToolCallsIdentity env calls,
                 pg_PendingResultDigests := []\<rparr>\<rparr>)
        (if st_Phase s = PhaseSampling then move PhaseExecutingTools t1 else t1)"
    using assms(1) by (auto simp: applyToolCalls_def bindR_Inr_iff Let_def)
  obtain oc p n where s1: "tn_State t1 = (tn_State ?t0)\<lparr>st_OpenCalls := oc, st_PendingEffects := p,
      st_NextEffectSequence := n\<rparr>"
    and oc: "fmdom' oc = tc_ID ` set calls \<union> fmdom' (st_OpenCalls (tn_State t))"
    using proposeCalls_shape [OF t1] by auto
  have "view (tn_State t') = (view s)\<lparr>vw_open := vw_open (view s) \<union> tc_ID ` set calls,
      vw_phase := PhaseExecutingTools\<rparr>"
    using g(1) copyOf_view [OF assms(2)] by (auto simp: t' s1 oc view_def copyOfD [OF assms(2)])
  then show ?thesis
    using g proposeCalls_fresh [OF t1]
    by (auto simp: protocolStep_def only_def view_def Phase_Terminal_def)
qed

lemma view_phase [simp]: "vw_phase (view s) = st_Phase s"
  by (simp add: view_def)

lemma fmdom'_isEmpty: "fmdom' m = {} \<longleftrightarrow> isEmpty m"
  by (auto simp: isEmpty_iff fmlookup_dom'_iff intro!: fmap_ext)

lemma approval_steps:
  assumes "copyOf s (tn_State t)"
  shows "applyApprovalRequired env t s r i = Inr t' \<Longrightarrow>
      protocolStep (AskApproval r i) (view s) = Some (view (tn_State t'))"
    "applyApprovalResolved t s r = Inr t' \<Longrightarrow>
      protocolStep (Approve r False) (view s) = Some (view (tn_State t'))"
  by (cases rule: copyOfE [OF assms];
      auto simp: applyApprovalRequired_def applyApprovalResolved_def protocolStep_def only_def view_def
        Phase_Terminal_def fmmap_fmupd fmlookup_dom'_iff Let_def split: if_splits)+

lemma input_steps:
  assumes "copyOf s (tn_State t)"
  shows "applyInputRequired env t s r i = Inr t' \<Longrightarrow>
      protocolStep (AskInput r i) (view s) = Some (view (tn_State t'))"
    "applyInputResolved t s r = Inr t' \<Longrightarrow> protocolStep (Answer r) (view s) = Some (view (tn_State t'))"
  by (cases rule: copyOfE [OF assms];
      auto simp: applyInputRequired_def applyInputResolved_def protocolStep_def only_def view_def
        Phase_Terminal_def fmdom'_isEmpty Let_def split: if_splits option.splits)+

lemma cancel_step:
  assumes "copyOf s (tn_State t)" "applyCancelRequested t s reason = Inr t'" "\<not> Phase_Terminal (st_Phase s)"
  shows "protocolStep Halt (view s) = Some (view (tn_State t'))"
  using assms(2,3) by (cases rule: copyOfE [OF assms(1)])
    (auto simp: applyCancelRequested_def protocolStep_def only_def view_def Let_def)

lemma finishEffect_view:
  "finishEffect i ok x t = Inr t1 \<Longrightarrow> copyOf s (tn_State t) \<Longrightarrow> view (tn_State t1) = view s"
  using settles_view [OF finishEffect_settles] copyOf_view by fastforce

lemma Approve_runs: "protocolStep (Approve r b) v = Some u \<Longrightarrow> \<not> Phase_Terminal (vw_phase u)"
  by (auto simp: protocolStep_def only_def Phase_Terminal_def split: if_splits)

lemma Approve_then_Halt:
  assumes "protocolStep (Approve r False) v = Some u" "protocolStep Halt u = Some w"
  shows "protocolStep (Approve r True) v = Some w"
  using assms by (auto simp: protocolStep_def only_def split: if_splits)

lemma approval_result_step:
  assumes "copyOf s (tn_State t)" "applyApprovalResult t s a = Inr t'"
  shows "protocolStep (Approve (aq_RequestID a) (aq_Canceled a)) (view s) = Some (view (tn_State t'))"
proof -
  obtain t1 t2 where fin: "finishEffect (aq_EffectID a) (aq_Accepted a) (aq_Error a) t = Inr t1"
    and res: "applyApprovalResolved t1 (tn_State t1) (aq_RequestID a) = Inr t2"
    and t': "(if aq_Canceled a then applyCancelRequested t2 (tn_State t2) CancelReasonApprovalCanceled
        else Inr t2) = Inr t'"
    using assms(2) by (auto simp: applyApprovalResult_def bindR_Inr_iff Let_def)
  note step = approval_steps(2) [OF copyOf_refl res, unfolded finishEffect_view [OF fin assms(1)]]
  show ?thesis
  proof (cases "aq_Canceled a")
    case True
    have "\<not> Phase_Terminal (st_Phase (tn_State t2))" using Approve_runs [OF step] by simp
    then have "protocolStep Halt (view (tn_State t2)) = Some (view (tn_State t'))"
      using cancel_step [OF copyOf_refl] t' True by simp
    then show ?thesis using Approve_then_Halt [OF step] True by simp
  qed (use step t' in simp)
qed

lemma input_result_step:
  assumes "copyOf s (tn_State t)" "applyInputResult t s a = Inr t'"
  shows "protocolStep (Answer (iq_RequestID a)) (view s) = Some (view (tn_State t'))"
proof -
  obtain t1 where fin: "finishEffect (iq_EffectID a) (iq_Accepted a) (iq_Error a) t = Inr t1"
    and res: "applyInputResolved t1 (tn_State t1) (iq_RequestID a) = Inr t'"
    using assms(2) by (auto simp: applyInputResult_def bindR_Inr_iff Let_def)
  show ?thesis using input_steps(2) [OF copyOf_refl res] by (simp add: finishEffect_view [OF fin assms(1)])
qed

lemma sample_result_step:
  assumes "copyOf s (tn_State t)" "applyModelSampleResult env t s a = Inr t'"
  shows "protocolStep (actionOf (ModelSampleResultReceived a)) (view s) = Some (view (tn_State t'))"
proof -
  obtain t1 where fin: "finishEffect (mr_EffectID a) (mr_Error a = []) (mr_Error a) t = Inr t1"
    and ph: "st_Phase s = PhaseSampling" "resultAdmissible s a"
    and t': "mr_Error a \<noteq> [] \<Longrightarrow> t' = recordSample s a t1"
    "mr_Error a = [] \<Longrightarrow> mr_Calls a = [] \<Longrightarrow> t' = withState (\<lambda>u. u\<lparr>st_Progress :=
        (st_Progress u)\<lparr>pg_PendingIdentity := []\<rparr>\<rparr>) (recordText s a (recordSample s a t1))"
    "mr_Error a = [] \<Longrightarrow> mr_Calls a \<noteq> [] \<Longrightarrow>
      (let t3 = recordText s a (recordSample s a t1)
       in applyToolCalls env t3 (tn_State t3) (mr_Calls a)) = Inr t'"
    by (rule applyModelSampleResult_Inr [OF assms(2)]) blast
  have v: "view (tn_State (recordSample s a u)) = view (tn_State u)"
    "view (tn_State (recordText s a u)) = view (tn_State u)" for u
    by (simp_all add: recordSample_def recordText_def view_def Let_def)
  note same = finishEffect_view [OF fin assms(1)]
  show ?thesis
  proof (cases "mr_Error a = [] \<and> mr_Calls a \<noteq> []")
    case True
    then have "applyToolCalls env (recordText s a (recordSample s a t1))
        (tn_State (recordText s a (recordSample s a t1))) (mr_Calls a) = Inr t'"
      using t'(3) by (simp add: Let_def)
    from propose_step [OF this copyOf_refl] True show ?thesis by (simp add: actionOf_def v same)
  next
    case False
    have progress: "view (u\<lparr>st_Progress := p\<rparr>) = view u" for u p by (simp add: view_def)
    have "view (tn_State t') = view s"
      using False t'(1,2) by (cases "mr_Error a = []") (simp_all add: v same progress)
    then show ?thesis using False ph by (auto simp: actionOf_def protocolStep_def Phase_Terminal_def)
  qed
qed

section \<open>Closing calls\<close>

lemma stage_views:
  "view (tn_State (settlePhase t)) = (view (tn_State t))\<lparr>vw_phase := resumePhase (view (tn_State t))\<rparr>"
  "view (tn_State (markFailure s c t)) = view (tn_State t)"
  "view (tn_State (recordClosed c call t)) = (view (tn_State t))\<lparr>vw_open := vw_open (view (tn_State t)) - {tq_CallID c},
     vw_closed := insert (tq_CallID c) (vw_closed (view (tn_State t)))\<rparr>"
  "view (tn_State (observeMutation cs t)) = view (tn_State t)"
  "view (tn_State (recordDigest c t)) = view (tn_State t)"
  "view (applyWorkItemObservation env u call cs ob e) = view u"
  by (simp_all add: settlePhase_def recordClosed_def observeMutation_def recordDigest_def
      applyWorkItemObservation_def resumePhase_def view_def fmdom'_isEmpty Let_def)

lemma releaseInput_view:
  assumes "vw_input (view (tn_State t)) = vw_input (view s)"
  shows "view (tn_State (releaseInput s i t)) = (view (tn_State t))\<lparr>vw_input :=
     (if asksFor (view s) i then None else vw_input (view s))\<rparr>"
  using assms by (auto simp: releaseInput_def inputBoundTo_def asksFor_def view_def split: option.splits)

lemma retireApprovals_pending:
  "st_PendingApprovals (tn_State (retireApprovals reason is t)) = fmdrop_set (set is) (st_PendingApprovals (tn_State t))"
  unfolding retireApprovals_def by (induction "is" arbitrary: t) (auto intro!: fmap_ext)

lemma retires_view:
  assumes "retires t t'"
  shows "view (tn_State t') = (view (tn_State t))\<lparr>vw_approvals := vw_approvals (view (tn_State t'))\<rparr>"
proof -
  obtain ap where "settles (withState (\<lambda>s. s\<lparr>st_PendingApprovals := ap\<rparr>) t) t'"
    using assms by (auto simp: retires_def)
  note settles_frame [OF this, simp]
  show ?thesis by (simp add: view_def)
qed

lemma releaseApprovals_view:
  assumes "st_PendingApprovals (tn_State t) = st_PendingApprovals s"
    "i \<in> fmran' (vw_approvals (view s)) \<longrightarrow> cs_Accepted (st_Cancellation s)"
  shows "view (tn_State (releaseApprovals s i t)) = (view (tn_State t))\<lparr>vw_approvals :=
    fmfilter (\<lambda>r. fmlookup (vw_approvals (view s)) r \<noteq> Some i) (vw_approvals (view s))\<rparr>"
proof -
  have ids: "r \<in> set (approvalsFor s i) \<longleftrightarrow> fmlookup (vw_approvals (view s)) r = Some i" for r
    by (auto simp: approvalsFor_def view_def fmlookup_dom'_iff split: option.splits)
  have "fmlookup (st_PendingApprovals (tn_State (releaseApprovals s i t))) r =
      (if fmlookup (vw_approvals (view s)) r = Some i then None else fmlookup (st_PendingApprovals s) r)" for r
  proof (cases "approvalsFor s i \<noteq> [] \<and> cs_Accepted (st_Cancellation s)")
    case True
    then show ?thesis using ids by (auto simp: releaseApprovals_def retireApprovals_pending assms(1))
  next
    case False
    have none: "approvalsFor s i = []"
    proof (rule ccontr)
      assume "approvalsFor s i \<noteq> []"
      then have "hd (approvalsFor s i) \<in> set (approvalsFor s i)" by simp
      then have "i \<in> fmran' (vw_approvals (view s))" using ids by (auto intro: fmran'I)
      then show False using False assms(2) \<open>approvalsFor s i \<noteq> []\<close> by blast
    qed
    then have "fmlookup (vw_approvals (view s)) r \<noteq> Some i" using ids [of r] by simp
    then show ?thesis using none by (simp add: releaseApprovals_def assms(1))
  qed
  then have "vw_approvals (view (tn_State (releaseApprovals s i t))) =
      fmfilter (\<lambda>r. fmlookup (vw_approvals (view s)) r \<noteq> Some i) (vw_approvals (view s))"
    by (intro fmap_ext) (auto simp: view_def)
  then show ?thesis using retires_view [OF releaseApprovals_retires, of s i t] by simp
qed

lemma close_step:
  assumes "copyOf s (tn_State t)" "applyToolResult env t s c = Inr t'"
  shows "protocolStep (CloseCall (tq_CallID c)) (view s) = Some (view (tn_State t'))"
proof -
  let ?i = "tq_CallID c"
  from assms(2) obtain call e t1 where call: "fmlookup (st_OpenCalls s) ?i = Some call"
    and fin: "finishEffect (tq_EffectID c) True [] t = Inr t1" and t': "t' = closeCall env s c call t1"
    by (rule applyToolResult_Inr)
  have g: "st_Phase s \<in> {PhaseExecutingTools, PhaseAwaitingApproval} \<or>
      st_Phase s = PhaseAwaitingInput \<and> asksFor (view s) ?i"
    "approvalsFor s ?i = [] \<or> cs_Accepted (st_Cancellation s)"
    using assms(2)
    by (auto simp: applyToolResult_def asksFor_def inputBoundTo_def view_def Let_def split: if_splits option.splits)
  have v1: "view (tn_State t1) = view s" by (rule finishEffect_view [OF fin assms(1)])
  let ?t2 = "releaseInput s ?i t1"
  have v2: "view (tn_State ?t2) = (view s)\<lparr>vw_input := (if asksFor (view s) ?i then None else vw_input (view s))\<rparr>"
    using releaseInput_view [of t1 s ?i] by (simp add: v1)
  have ap: "st_PendingApprovals (tn_State (recordClosed c call ?t2)) = st_PendingApprovals s"
    using fin by (cases rule: copyOfE [OF assms(1)])
      (auto simp: recordClosed_def releaseInput_def finishEffect_Inr)
  have guard: "?i \<in> fmran' (vw_approvals (view s)) \<longrightarrow> cs_Accepted (st_Cancellation s)"
    using g(2) by (auto simp: approvalsFor_def view_def fmlookup_ran'_iff filter_empty_conv split: option.splits)
      (metis fmdom'I option.simps(5) set_keys)
  have "view (tn_State t') = closing ?i (view s)"
    unfolding t' closeCall_def Let_def stage_views releaseApprovals_view [OF ap guard] v2
    by (simp add: stage_views releaseApprovals_view [OF ap guard] v2 closing_def Let_def del: late_frame)
  moreover have "?i \<in> vw_open (view s)" using call by (auto simp: view_def fmlookup_dom'_iff)
  ultimately show ?thesis
    using g(1) guard by (auto simp: protocolStep_def only_def Phase_Terminal_def) (simp_all add: view_def)
qed

lemma abort_step:
  assumes "copyOf s (tn_State t)" "applyAbortOpenCalls t s reason = Inr t'"
  shows "protocolStep AbortAll (view s) = Some (view (tn_State t'))"
proof -
  from assms(2) obtain t1 where t1: "t1 = foldl (abortCall s reason) t (keys (st_OpenCalls s))"
    and ph: "st_Phase s = PhaseExecutingTools \<or> st_Phase s = PhaseAwaitingApproval"
    and t': "t' = move PhaseSampling (closeEffectsByKind EffectAwaitApproval False reason
       (withState (\<lambda>s. s\<lparr>st_PendingApprovals := fmempty\<rparr>) t1))"
    by (rule applyAbortOpenCalls_Inr)
  have ne: "\<not> isEmpty (st_OpenCalls s)" using assms(2) by (auto simp: applyAbortOpenCalls_def Let_def)
  have "aborts t t1" unfolding t1 by (rule abortCalls_aborts)
  then obtain oc cc p c where u: "tn_State t1 = (tn_State t)\<lparr>st_OpenCalls := oc, st_ClosedCalls := cc,
       st_PendingEffects := p, st_CompletedEffects := c\<rparr>" by (auto simp: aborts_def)
  have "fmdom' oc = {}"
    using abortCalls_open [of s reason t "keys (st_OpenCalls s)"]
    by (auto simp: t1 [symmetric] u copyOfD [OF assms(1)] fmlookup_dom'_iff)
  moreover have "fmdom' cc = fmdom' (st_ClosedCalls s) \<union> fmdom' (st_OpenCalls s)"
    using abortCalls_closed [of s reason t "keys (st_OpenCalls s)"]
    by (auto simp: t1 [symmetric] u copyOfD [OF assms(1)] fmlookup_dom'_iff split: if_splits)
  moreover have "view (tn_State t') = (view s)\<lparr>vw_open := fmdom' oc, vw_closed := fmdom' cc,
      vw_approvals := fmempty, vw_phase := PhaseSampling\<rparr>"
    using u by (cases rule: copyOfE [OF assms(1)]) (simp add: t' view_def)
  ultimately show ?thesis
    using ph ne by (auto simp: protocolStep_def only_def Phase_Terminal_def) (auto simp: view_def fmdom'_isEmpty)
qed

section \<open>Ending a turn\<close>

lemma retire_step:
  assumes "copyOf s (tn_State t)" "retireVerification t = Inr t'" "\<not> Phase_Terminal (st_Phase s)"
  shows "protocolStep Retire (view s) = Some (view (tn_State t'))"
proof -
  from assms(2) obtain t1 where st: "settles t t1"
    and t': "t' = (if st_Phase (tn_State t1) = PhaseVerifying
        then move PhaseSampling (withState retireState t1) else withState retireState t1)"
    by (rule retireVerification_Inr)
  have v: "view (tn_State t1) = view s" using settles_view [OF st] copyOf_view [OF assms(1)] by simp
  have r: "view (retireState u) = view u" for u by (simp add: view_def retireState_def Let_def)
  have ph: "st_Phase (tn_State t1) = st_Phase s" using v view_phase by metis
  show ?thesis
  proof (cases "st_Phase s = PhaseVerifying")
    case True
    have "view (tn_State t') = (view (retireState (tn_State t1)))\<lparr>vw_phase := PhaseSampling\<rparr>"
      by (simp add: t' ph True) (simp add: view_def)
    then show ?thesis using True by (simp add: protocolStep_def r v Phase_Terminal_def)
  qed (use assms(3) in \<open>simp add: t' ph r v protocolStep_def\<close>)
qed

lemma prepareTerminal_view:
  "view (tn_State (prepareTerminal env s d t)) =
     (view (tn_State t))\<lparr>vw_phase := PhaseCommitting, vw_outcome := Some (td_Kind d)\<rparr>"
  by (simp add: prepareTerminal_def view_def outcomeOf_def Let_def)

lemma decide_step:
  assumes "copyOf s (tn_State t)" "applyTerminalRequested env t s a d = Inr t'" "\<not> Phase_Terminal (st_Phase s)"
  shows "protocolStep (Decide (td_Kind d)) (view s) = Some (view (tn_State t'))"
proof -
  note r = applyTerminalRequested_Inr [OF assms(2)]
  have "view (tn_State t') = (view s)\<lparr>vw_phase := PhaseCommitting, vw_outcome := Some (td_Kind d)\<rparr>"
    using r(1) copyOf_view [OF assms(1)] by (auto simp: prepareTerminal_view) (simp_all add: view_def)
  moreover have "td_Kind d = TerminalCompleted \<longrightarrow> st_Phase s = PhaseSampling" using r(1) by auto
  moreover have "vw_open (view s) = {}" "isEmpty (vw_approvals (view s))" "vw_input (view s) = None"
    using r(3-5) by (simp_all add: view_def fmdom'_isEmpty)
  ultimately show ?thesis using r(2) assms(3) by (simp add: protocolStep_def only_def)
qed

lemma conclude_step:
  assumes "copyOf s (tn_State t)" "applyFinishTerminal t s = Inr t'"
  shows "protocolStep Conclude (view s) = Some (view (tn_State t'))"
proof -
  from assms(2) obtain d where d: "st_Phase s = PhaseCommitting" "st_PendingTerminal s = Some d"
    "tn_State t' = (tn_State t)\<lparr>st_PendingTerminal := None, st_Terminal := Some d,
       st_FinalOutput := st_ProvisionalOutput s, st_ProvisionalOutput := [],
       st_Phase := phaseForTerminal (td_Kind d)\<rparr>"
    by (rule applyFinishTerminal_Inr)
  have "vw_outcome (view s) = Some (td_Kind d)" by (simp add: view_def outcomeOf_def d(2))
  moreover have "view (tn_State t') = (view s)\<lparr>vw_phase := phaseForTerminal (td_Kind d)\<rparr>"
    using d by (cases rule: copyOfE [OF assms(1)]) (simp add: view_def outcomeOf_def)
  ultimately show ?thesis using d(1) by (simp add: protocolStep_def only_def Phase_Terminal_def)
qed

section \<open>Refinement\<close>

lemma dispatch_step:
  assumes "dispatch env t s c = Inr t'" "copyOf s (tn_State t)" "\<not> Phase_Terminal (st_Phase s)"
  shows "protocolStep (actionOf c) (view s) = Some (view (tn_State t'))"
proof -
  have quiet: "view (tn_State t') = view (tn_State t) \<Longrightarrow> protocolStep Quiet (view s) = Some (view (tn_State t'))"
    using assms(3) copyOf_view [OF assms(2)] by (simp add: protocolStep_def)
  have moves: "applyPhaseMove c' a b t s = Inr t' \<Longrightarrow>
      st_Phase s = a \<and> view (tn_State t') = (view s)\<lparr>vw_phase := b\<rparr>" for c' a b
    by (cases rule: copyOfE [OF assms(2)]) (auto simp: applyPhaseMove_def view_def)
  note quiets = quiet [OF sampling_quiet(1)] quiet [OF sampling_quiet(2)] quiet [OF sampling_quiet(3)]
    quiet [OF sampling_quiet(4)] quiet [OF sampling_quiet(5)] quiet [OF sampling_quiet(6)]
    quiet [OF sampling_quiet(7)] quiet [OF sampling_quiet(8)] quiet [OF sampling_quiet(9)]
    quiet [OF provider_retry_quiet] quiet [OF planning_quiet(1)] quiet [OF planning_quiet(2)]
    quiet [OF planning_quiet(3)] quiet [OF planning_quiet(4)] quiet [OF step_quiet(1)] quiet [OF step_quiet(2)]
    quiet [OF effect_quiet(1)] quiet [OF effect_quiet(2)] quiet [OF result_quiet(1)] quiet [OF result_quiet(2)]
    quiet [OF journal_quiet(1)] quiet [OF journal_quiet(2)] quiet [OF completion_quiet(1)]
    quiet [OF completion_quiet(2)] quiet [OF completion_quiet(3)] quiet [OF completion_quiet(4)]
    quiet [OF decision_quiet] quiet [OF admission_quiet [OF _ assms(2)]]
  note steps = propose_step [OF _ assms(2)] approval_steps [OF assms(2)] input_steps [OF assms(2)]
    cancel_step [OF assms(2) _ assms(3)] approval_result_step [OF assms(2)] input_result_step [OF assms(2)]
    close_step [OF assms(2)] abort_step [OF assms(2)] retire_step [OF assms(2) _ assms(3)]
    decide_step [OF assms(2) _ assms(3)] conclude_step [OF assms(2)]
  show ?thesis
  proof (cases c)
    case (ModelSampleResultReceived a)
    then show ?thesis using sample_result_step [OF assms(2)] assms(1) by (simp add: dispatch_def)
  next
    case StartTurn
    then show ?thesis using moves assms(1)
      by (auto simp: dispatch_def actionOf_def protocolStep_def only_def Phase_Terminal_def)
  next
    case PreparationFinished
    then show ?thesis using moves assms(1)
      by (auto simp: dispatch_def actionOf_def protocolStep_def only_def Phase_Terminal_def)
  qed (use assms(1) in \<open>simp_all add: dispatch_def actionOf_def quiets steps\<close>)
qed

lemma Apply_step:
  assumes "Apply env s c = Inr t"
  shows "protocolStep (actionOf c) (view s) = Some (view (tn_State t))"
  using dispatch_step [OF Apply_Inr(4) [OF assms]] Apply_Inr(2) [OF assms] cloneState_copyOf by simp

text \<open>
  C14. The reducer refines the protocol: whenever the kernel accepts a command, the abstract machine
  accepts the action that belongs to it, and the view of the new state is exactly the view the
  machine prescribes, for all forty-four commands.
\<close>

theorem kernel_refines_protocol:
  assumes "Apply env s c = Inr t"
  shows "protocolStep (actionOf c) (view s) = Some (view (tn_State t))"
  by (rule Apply_step [OF assms])

theorem kernel_refines_protocol_witness:
  "protocolStep Quiet (view turn1) = Some (view turn2) \<and> actionOf (ModelSampleRequested ''s1'') = Quiet"
  using kernel_refines_protocol [OF Apply_request_sample] by (simp add: actionOf_def)

section \<open>Runs of the machine\<close>

fun steps :: "('a \<Rightarrow> 's \<Rightarrow> 's option) \<Rightarrow> 'a list \<Rightarrow> 's \<Rightarrow> 's option" where
  "steps step [] s = Some s"
| "steps step (a # as) s = (case step a s of None \<Rightarrow> None | Some s' \<Rightarrow> steps step as s')"

lemma steps_invariant:
  assumes "steps step as s = Some s'" "I s" "\<And>a u u'. step a u = Some u' \<Longrightarrow> I u \<Longrightarrow> I u'"
  shows "I s'"
  using assms(1,2)
  by (induction as arbitrary: s) (auto split: option.splits intro: assms(3))

text \<open>
  A concrete machine that is simulated step by step: its runs are runs of the abstract machine, and
  what the abstract machine keeps holds of the abstraction of every state it reaches.
\<close>

locale forward_simulation =
  fixes cstep :: "'c \<Rightarrow> 's \<Rightarrow> 's option"
    and astep :: "'a \<Rightarrow> 'v \<Rightarrow> 'v option"
    and act :: "'c \<Rightarrow> 'a"
    and abs :: "'s \<Rightarrow> 'v"
  assumes simulates: "cstep c s = Some s' \<Longrightarrow> astep (act c) (abs s) = Some (abs s')"
begin

lemma runs_simulate: "steps cstep cs s = Some s' \<Longrightarrow> steps astep (map act cs) (abs s) = Some (abs s')"
proof (induction cs arbitrary: s)
  case (Cons c cs)
  then obtain u where u: "cstep c s = Some u" "steps cstep cs u = Some s'" by (auto split: option.splits)
  then show ?case using simulates [OF u(1)] Cons.IH [OF u(2)] by simp
qed simp

lemma transfers:
  assumes "steps cstep cs s = Some s'" "I (abs s)" "\<And>a v v'. astep a v = Some v' \<Longrightarrow> I v \<Longrightarrow> I v'"
  shows "I (abs s')"
  using steps_invariant [OF runs_simulate [OF assms(1)]] assms(2,3) by blast

end

definition kernelStep :: "'e KernelEnv_scheme \<Rightarrow> Command \<Rightarrow> State \<Rightarrow> State option" where
  "kernelStep env c s = (case Apply env s c of Inl _ \<Rightarrow> None | Inr t \<Rightarrow> Some (tn_State t))"

lemma kernelStep_Some: "kernelStep env c s = Some s' \<longleftrightarrow> (\<exists>t. Apply env s c = Inr t \<and> s' = tn_State t)"
  by (auto simp: kernelStep_def split: sum.split)

interpretation kernel: forward_simulation "kernelStep env" protocolStep actionOf view for env
  by unfold_locales (auto simp: kernelStep_Some dest: Apply_step)

lemma runCommands_steps: "runCommands env cs s = Inr s' \<Longrightarrow> steps (kernelStep env) cs s = Some s'"
  by (induction cs arbitrary: s) (auto simp: bindR_Inr_iff kernelStep_def)

definition orderly :: "View \<Rightarrow> bool" where
  "orderly v \<longleftrightarrow> vw_open v \<inter> vw_closed v = {} \<and> fmran' (vw_approvals v) \<subseteq> vw_open v \<and>
     (isEmpty (vw_approvals v) \<longleftrightarrow> vw_phase v \<noteq> PhaseAwaitingApproval) \<and>
     (vw_input v = None \<longleftrightarrow> vw_phase v \<noteq> PhaseAwaitingInput) \<and>
     (vw_open v \<noteq> {} \<longrightarrow> vw_phase v \<in> {PhaseExecutingTools, PhaseAwaitingApproval, PhaseAwaitingInput}) \<and>
     (vw_phase v = PhaseExecutingTools \<longrightarrow> vw_open v \<noteq> {}) \<and>
     (vw_phase v = PhaseCommitting \<longrightarrow> vw_outcome v \<noteq> None)"

lemma ran_empty: "fmran' m = {} \<Longrightarrow> isEmpty m"
  using not_isEmpty fmran'I by fastforce

lemma orderly_moves:
  assumes "orderly v"
  shows "vw_phase v = PhaseCreated \<Longrightarrow> orderly (v\<lparr>vw_phase := PhasePreparing\<rparr>)"
    "vw_phase v = PhasePreparing \<Longrightarrow> orderly (v\<lparr>vw_phase := PhaseSampling\<rparr>)"
    "vw_phase v = PhaseVerifying \<Longrightarrow> orderly (v\<lparr>vw_phase := PhaseSampling\<rparr>)"
    "vw_phase v \<in> {PhaseSampling, PhaseExecutingTools} \<Longrightarrow>
      orderly (v\<lparr>vw_input := Some (r, i), vw_phase := PhaseAwaitingInput\<rparr>)"
    "vw_phase v = PhaseAwaitingInput \<Longrightarrow> orderly (v\<lparr>vw_input := None,
      vw_phase := (if vw_open v \<noteq> {} then PhaseExecutingTools else PhaseSampling)\<rparr>)"
    "vw_phase v \<in> {PhaseExecutingTools, PhaseAwaitingApproval} \<Longrightarrow> orderly (v\<lparr>vw_open := {},
      vw_closed := vw_closed v \<union> vw_open v, vw_approvals := fmempty, vw_phase := PhaseSampling\<rparr>)"
    "orderly (v\<lparr>vw_canceled := b\<rparr>)"
  using assms by (simp_all add: orderly_def) auto

lemma orderly_quiet:
  assumes "protocolStep a v = Some v'" "orderly v"
  shows "a \<in> {Quiet, Prepare, Ready, AbortAll, Halt, Retire} \<Longrightarrow> orderly v'" "a = AskInput r i \<Longrightarrow> orderly v'"
    "a = Answer r \<Longrightarrow> orderly v'"
  using assms orderly_moves [OF assms(2)]
  by (auto simp: protocolStep_def only_def split: if_split_asm)

lemma orderly_step:
  assumes "protocolStep a v = Some v'" "orderly v"
  shows "orderly v'"
proof (cases a)
  case (CloseCall i)
  let ?ap = "fmfilter (\<lambda>r. fmlookup (vw_approvals v) r \<noteq> Some i) (vw_approvals v)"
  have v': "v' = closing i v" and g: "i \<in> vw_open v" "vw_phase v \<in> {PhaseExecutingTools, PhaseAwaitingApproval} \<or>
      vw_phase v = PhaseAwaitingInput \<and> asksFor v i"
    using assms(1) CloseCall by (auto simp: protocolStep_def only_def split: if_splits)
  have "fmran' (vw_approvals v) \<subseteq> vw_open v" using assms(2) by (simp add: orderly_def)
  then have "fmran' ?ap \<subseteq> vw_open v - {i}"
    by (auto simp: fmlookup_ran'_iff subset_iff split: if_splits)
  moreover have "isEmpty ?ap" if "vw_open v - {i} = {}"
    using \<open>fmran' ?ap \<subseteq> _\<close> unfolding that by (intro ran_empty) simp
  moreover have "asksFor v i \<or> vw_input v = None"
    using g(2) assms(2) by (auto simp: orderly_def)
  ultimately show ?thesis
    using assms(2) g(1) unfolding v' by (auto simp: orderly_def closing_def resumePhase_def asksFor_def Let_def)
next
  case (Approve r c)
  then obtain y where y: "vw_phase v = PhaseAwaitingApproval" "fmlookup (vw_approvals v) r = Some y"
    and v': "v' = v\<lparr>vw_approvals := fmdrop r (vw_approvals v), vw_canceled := vw_canceled v \<or> c,
          vw_phase := (if isEmpty (fmdrop r (vw_approvals v)) then PhaseExecutingTools
                       else PhaseAwaitingApproval)\<rparr>"
    using assms(1) by (auto simp: protocolStep_def only_def split: if_splits)
  have "fmran' (fmdrop r (vw_approvals v)) \<subseteq> fmran' (vw_approvals v)"
    by (auto simp: fmlookup_ran'_iff split: if_splits)
  then show ?thesis using assms(2) y(1) fmran'I [OF y(2)] unfolding v' by (auto simp: orderly_def)
next
  case (AskApproval r i)
  then have v': "v' = v\<lparr>vw_approvals := fmupd r i (vw_approvals v), vw_phase := PhaseAwaitingApproval\<rparr>"
    and g: "i \<in> vw_open v" "vw_phase v \<in> {PhaseExecutingTools, PhaseAwaitingApproval}"
    using assms(1) by (auto simp: protocolStep_def only_def split: if_splits)
  have "fmran' (fmupd r i (vw_approvals v)) \<subseteq> insert i (fmran' (vw_approvals v))"
    by (auto simp: fmlookup_ran'_iff split: if_splits)
  then show ?thesis using assms(2) g unfolding v' by (auto simp: orderly_def)
next
  case (Propose new)
  then have v': "v' = v\<lparr>vw_open := vw_open v \<union> new, vw_phase := PhaseExecutingTools\<rparr>"
    and g: "new \<noteq> {}" "new \<inter> (vw_open v \<union> vw_closed v) = {}" "vw_phase v \<in> {PhaseSampling, PhaseExecutingTools}"
    using assms(1) by (auto simp: protocolStep_def only_def split: if_splits)
  then show ?thesis using assms(2) unfolding v' by (auto simp: orderly_def)
next
  case (Decide k)
  then show ?thesis using assms by (auto simp: protocolStep_def only_def orderly_def split: if_splits)
next
  case Conclude
  then obtain k where "v' = v\<lparr>vw_phase := phaseForTerminal k\<rparr>" "vw_phase v = PhaseCommitting"
    using assms(1) by (auto simp: protocolStep_def only_def split: if_splits option.splits)
  then show ?thesis using assms(2) by (cases k) (auto simp: orderly_def)
qed (use orderly_quiet [OF assms] in auto)

lemma Validate_orderly:
  assumes "Validate env s = None"
  shows "orderly (view s)"
proof -
  have d: "disjointCalls s" by (rule Validate_disjoint(2) [OF assms])
  have c: "callsError s = None" and i: "interactionsError s = None" and m: "committingError s = None"
    using assms by (auto simp: Validate_def)
  have "vw_open (view s) \<inter> vw_closed (view s) = {}"
    using d by (auto simp: view_def disjointCalls_def apart_def fmlookup_dom'_iff)
  moreover have "fmran' (vw_approvals (view s)) \<subseteq> vw_open (view s)"
    using i by (auto simp: view_def interactionsError_def check_map_None fmlookup_ran'_iff fmlookup_dom'_iff)
  moreover have "isEmpty (st_PendingApprovals s) \<longleftrightarrow> st_Phase s \<noteq> PhaseAwaitingApproval"
    using i not_isEmpty [of "st_PendingApprovals s"] by (auto simp: interactionsError_def check_map_None)
  moreover have "st_PendingInput s = None \<longleftrightarrow> st_Phase s \<noteq> PhaseAwaitingInput"
    using i by (auto simp: interactionsError_def split: option.splits)
  moreover have "\<not> isEmpty (st_OpenCalls s) \<longrightarrow>
      st_Phase s \<in> {PhaseExecutingTools, PhaseAwaitingApproval, PhaseAwaitingInput}"
    "st_Phase s = PhaseExecutingTools \<longrightarrow> \<not> isEmpty (st_OpenCalls s)"
    using c by (auto simp: callsError_def)
  moreover have "st_Phase s = PhaseCommitting \<longrightarrow> st_PendingTerminal s \<noteq> None"
    using m by (auto simp: committingError_def)
  ultimately show ?thesis by (auto simp: orderly_def view_def fmdom'_isEmpty outcomeOf_def)
qed

lemma closed_grows: "protocolStep a v = Some v' \<Longrightarrow> vw_closed v \<subseteq> vw_closed v'"
  by (cases a) (auto simp: protocolStep_def only_def closing_def Let_def split: if_splits option.splits)

lemma closed_stays:
  assumes "steps protocolStep as v = Some v'" "orderly v" "i \<in> vw_closed v"
  shows "CloseCall i \<notin> set as"
  using assms
proof (induction as arbitrary: v)
  case (Cons a as)
  then obtain u where u: "protocolStep a v = Some u" "steps protocolStep as u = Some v'"
    by (auto split: option.splits)
  have "a \<noteq> CloseCall i"
    using u(1) Cons.prems(2,3) by (auto simp: protocolStep_def only_def orderly_def split: if_splits)
  moreover have "CloseCall i \<notin> set as"
    using Cons.IH [OF u(2) orderly_step [OF u(1) Cons.prems(2)]] closed_grows [OF u(1)] Cons.prems(3) by blast
  ultimately show ?case by simp
qed simp

lemma closes_once:
  assumes "steps protocolStep as v = Some v'" "orderly v"
  shows "length (filter (\<lambda>a. a = CloseCall i) as) \<le> 1"
  using assms
proof (induction as arbitrary: v)
  case (Cons a as)
  then obtain u where u: "protocolStep a v = Some u" "steps protocolStep as u = Some v'"
    by (auto split: option.splits)
  note o = orderly_step [OF u(1) Cons.prems(2)]
  show ?case
  proof (cases "a = CloseCall i")
    case True
    then have "i \<in> vw_closed u"
      using u(1) by (auto simp: protocolStep_def only_def closing_def Let_def split: if_splits)
    then have "CloseCall i \<notin> set as" by (rule closed_stays [OF u(2) o])
    then have "filter (\<lambda>a. a = CloseCall i) as = []" by (auto simp: filter_empty_conv)
    then show ?thesis using True by simp
  qed (use Cons.IH [OF u(2) o] in simp)
qed simp

text \<open>
  Tool results are delivered at most once: in every sequence of accepted commands, whatever else
  happens in between, at most one tool result is accepted for each call identifier.
\<close>

theorem tool_result_at_most_once:
  assumes "runCommands env cs s = Inr s'"
  shows "length (filter (\<lambda>c. \<exists>a. c = ToolResultReceived a \<and> tq_CallID a = i) cs) \<le> 1"
proof (cases cs)
  case (Cons c cs')
  then obtain t where "Apply env s c = Inr t" using assms by (auto simp: bindR_Inr_iff)
  then have "orderly (view s)" by (rule Validate_orderly [OF Apply_Inr(1)])
  note once = closes_once [OF kernel.runs_simulate [OF runCommands_steps [OF assms]] this, of i]
  have "(\<exists>a. c = ToolResultReceived a \<and> tq_CallID a = i) \<longleftrightarrow> actionOf c = CloseCall i" for c
    by (cases c) (auto simp: actionOf_def)
  then show ?thesis using once by (simp add: filter_map comp_def)
qed simp

theorem tool_result_at_most_once_witness:
  "runCommands sampleEnv [ToolResultReceived failedResult] turnTool = Inr turnToolDone \<and>
   length (filter (\<lambda>c. \<exists>a. c = ToolResultReceived a \<and> tq_CallID a = ''a1'')
     [ToolResultReceived failedResult]) \<le> 1"
proof -
  have run: "runCommands sampleEnv [ToolResultReceived failedResult] turnTool = Inr turnToolDone"
    by (simp add: turnTool_result)
  show ?thesis using run tool_result_at_most_once [OF run] by blast
qed

end
