(* ===== verification/Work_Ledger.thy ===== *)
theory Work_Ledger
  imports Evaluation "HOL-Library.Multiset"
begin

text \<open>
  The ledgers of the work item (\<open>work_item.go\<close>): the open process sessions, kept as a sorted list
  that stands for a set, and the read windows. The locale \<open>kept_set\<close> states what the session
  bookkeeping relies on; \<open>mergeUniqueSorted\<close> and \<open>removeSorted\<close> are shown to provide it.
\<close>

section \<open>Trimming is idempotent\<close>

lemma trimLeft_suffix: "suffix (trimLeft ps s) s"
proof (induction ps s rule: trimLeft.induct)
  case (1 ps s)
  then show ?case
  proof (cases "find (\<lambda>p. p \<noteq> [] \<and> prefix p s) ps")
    case (Some p)
    then have "suffix (trimLeft ps (drop (length p) s)) (drop (length p) s)" by (rule 1)
    then show ?thesis using Some
      by (simp add: trimLeft.simps [of ps s]) (metis suffix_drop suffix_order.trans)
  qed (simp add: trimLeft.simps [of ps s])
qed

lemma trimLeft_fixed: "trimLeft ps s = s \<longleftrightarrow> (\<forall>p \<in> set ps. p = [] \<or> \<not> prefix p s)"
proof
  assume fixed: "trimLeft ps s = s"
  show "\<forall>p \<in> set ps. p = [] \<or> \<not> prefix p s"
  proof (rule ccontr)
    assume "\<not> ?thesis"
    then obtain p where p: "find (\<lambda>p. p \<noteq> [] \<and> prefix p s) ps = Some p"
      by (cases "find (\<lambda>p. p \<noteq> [] \<and> prefix p s) ps") (auto simp: find_None_iff)
    then have ne: "p \<noteq> []" "prefix p s" by (auto simp: find_Some_iff)
    have "length (trimLeft ps (drop (length p) s)) \<le> length (drop (length p) s)"
      by (rule suffix_length_le [OF trimLeft_suffix])
    moreover have "trimLeft ps (drop (length p) s) = s"
      using fixed p by (simp add: trimLeft.simps [of ps s])
    ultimately show False using ne by (cases p) (auto dest: prefix_length_le)
  qed
qed (rule trimLeft_id)

lemma TrimSpace_idem [simp]: "TrimSpace (TrimSpace s) = TrimSpace s"
proof -
  let ?l = "trimLeft space_runes s" and ?rs = "map rev space_runes"
  have "prefix (TrimSpace s) ?l"
    using trimLeft_suffix [of ?rs "rev ?l"] by (simp add: TrimSpace_def suffix_to_prefix)
  moreover have "\<forall>p \<in> set space_runes. p = [] \<or> \<not> prefix p ?l"
    using trimLeft_stable [of space_runes s] trimLeft_fixed by blast
  ultimately have "trimLeft space_runes (TrimSpace s) = TrimSpace s"
    by (meson prefix_order.trans trimLeft_fixed)
  then show ?thesis by (simp add: TrimSpace_def [of "TrimSpace s"])
    (simp add: TrimSpace_def trimLeft_stable)
qed

lemma blank_TrimSpace [simp]: "blank (TrimSpace s) = blank s"
  by (simp add: blank_def)

section \<open>Sets kept as sorted lists\<close>

definition wellKept :: "string list \<Rightarrow> bool" where
  "wellKept xs \<longleftrightarrow> sorted xs \<and> distinct xs \<and> (\<forall>x \<in> set xs. x \<noteq> [] \<and> TrimSpace x = x)"

lemma set_trimmed: "set (trimmed xs) = TrimSpace ` {x \<in> set xs. \<not> blank x}"
  by (auto simp: trimmed_def blank_def)

lemma dedup_fold:
  "set (foldl (\<lambda>merged v. if v \<in> set merged then merged else v # merged) acc vs) = set acc \<union> set vs \<and>
   (distinct acc \<longrightarrow> distinct (foldl (\<lambda>merged v. if v \<in> set merged then merged else v # merged) acc vs))"
  by (induction vs arbitrary: acc) auto

lemma mergeUniqueSorted_set:
  "set (mergeUniqueSorted xs ys) = TrimSpace ` {x \<in> set xs \<union> set ys. \<not> blank x}"
  using dedup_fold [of "[]" "trimmed (xs @ ys)"] by (simp add: mergeUniqueSorted_def set_trimmed)

lemma mergeUniqueSorted_well: "wellKept (mergeUniqueSorted xs ys)"
proof -
  have "distinct (mergeUniqueSorted xs ys)"
    using dedup_fold [of "[]" "trimmed (xs @ ys)"] by (simp add: mergeUniqueSorted_def)
  then show ?thesis
    using mergeUniqueSorted_set [of xs ys] by (auto simp: wellKept_def blank_def) (simp add: mergeUniqueSorted_def)
qed

lemma merge_wellKept:
  "wellKept xs \<Longrightarrow> set (mergeUniqueSorted xs ys) = set xs \<union> TrimSpace ` {y \<in> set ys. \<not> blank y}"
proof -
  assume w: "wellKept xs"
  then have "TrimSpace ` {x \<in> set xs. \<not> blank x} = set xs" by (force simp: wellKept_def blank_def)
  moreover have "{x \<in> set xs \<union> set ys. \<not> blank x} = {x \<in> set xs. \<not> blank x} \<union> {y \<in> set ys. \<not> blank y}" by auto
  ultimately show ?thesis by (simp add: mergeUniqueSorted_set image_Un)
qed

lemma removeSorted_set: "set (removeSorted xs y) = set xs - (if blank y then {} else {TrimSpace y})"
  by (auto simp: removeSorted_def subtractSorted_def trimmed_def blank_def)

lemma removeSorted_well: "wellKept xs \<Longrightarrow> wellKept (removeSorted xs y)"
  by (auto simp: wellKept_def removeSorted_def subtractSorted_def sorted_wrt_filter)

text \<open>
  The interface the bookkeeping of sessions relies on: a collection of trimmed, non-blank names that
  can be merged into and removed from. An event opens one name, closes one, does both or neither.
\<close>

definition openedBy :: "string \<times> string \<Rightarrow> string set" where
  "openedBy e = (if blank (fst e) then {} else {TrimSpace (fst e)})"

definition closedBy :: "string \<times> string \<Rightarrow> string set" where
  "closedBy e = (if blank (snd e) then {} else {TrimSpace (snd e)})"

definition track :: "('l \<Rightarrow> string list \<Rightarrow> 'l) \<Rightarrow> ('l \<Rightarrow> string \<Rightarrow> 'l) \<Rightarrow> string \<times> string \<Rightarrow> 'l \<Rightarrow> 'l" where
  "track merge remove e l =
    (let l1 = (if blank (fst e) then l else merge l [TrimSpace (fst e)])
     in if blank (snd e) then l1 else remove l1 (TrimSpace (snd e)))"

locale kept_set =
  fixes members :: "'l \<Rightarrow> string set"
    and merge :: "'l \<Rightarrow> string list \<Rightarrow> 'l"
    and remove :: "'l \<Rightarrow> string \<Rightarrow> 'l"
    and well :: "'l \<Rightarrow> bool"
  assumes members_merge: "well l \<Longrightarrow> members (merge l ys) = members l \<union> TrimSpace ` {y \<in> set ys. \<not> blank y}"
    and members_remove: "well l \<Longrightarrow> members (remove l y) = members l - (if blank y then {} else {TrimSpace y})"
    and well_merge: "well l \<Longrightarrow> well (merge l ys)"
    and well_remove: "well l \<Longrightarrow> well (remove l y)"
begin

lemma well_track: "well l \<Longrightarrow> well (track merge remove e l)"
  by (simp add: track_def well_merge well_remove Let_def)

lemma members_track: "well l \<Longrightarrow> members (track merge remove e l) = members l \<union> openedBy e - closedBy e"
  by (auto simp: track_def openedBy_def closedBy_def members_merge members_remove well_merge Let_def)

lemma track_all:
  assumes "well l"
  shows "well (fold (track merge remove) es l) \<and>
    members (fold (track merge remove) es l) = fold (\<lambda>e S. S \<union> openedBy e - closedBy e) es (members l)"
  using assms by (induction es arbitrary: l) (simp_all add: well_track members_track)

end

interpretation sessions: kept_set set mergeUniqueSorted removeSorted wellKept
  by unfold_locales (simp_all add: merge_wellKept removeSorted_set mergeUniqueSorted_well removeSorted_well)

lemma wellKept_sorted: "wellKept xs \<Longrightarrow> xs = sorted_list_of_set (set xs)"
  by (simp add: wellKept_def sorted_list_of_set.idem_if_sorted_distinct)

lemma recordSession_track:
  "recordSession ob = track mergeUniqueSorted removeSorted (ob_OpenSession ob, ob_CloseSession ob)"
  by (rule ext) (simp add: recordSession_def track_def)

abbreviation openSessions :: "State \<Rightarrow> string list" where
  "openSessions s \<equiv> wo_Sessions (wi_Open (st_WorkItem s))"

lemma observation_sessions:
  "openSessions (applyWorkItemObservation env s call cs ob e) =
     (if e then openSessions s else recordSession ob (openSessions s))"
  by (simp add: applyWorkItemObservation_def recordSession_def Let_def split: prod.split)

definition sessionEvent :: "WorkItemObservation \<times> bool \<Rightarrow> string \<times> string" where
  "sessionEvent o' = (case o' of (ob, e) \<Rightarrow> if e then ([], []) else (ob_OpenSession ob, ob_CloseSession ob))"

lemma observation_track:
  "openSessions (applyWorkItemObservation env s call cs ob e) =
     track mergeUniqueSorted removeSorted (sessionEvent (ob, e)) (openSessions s)"
  by (simp add: observation_sessions recordSession_track sessionEvent_def track_def)

text \<open>
  The open-session ledger is the set of sessions that are open. Whatever sequence of tool
  observations is applied, failed ones included, the ledger is the sorted list of exactly the names
  that were opened and not closed afterwards, without duplicates or blank names.
\<close>

theorem open_sessions_exact:
  assumes "wellKept (openSessions s)"
  shows "openSessions (fold (\<lambda>(call, cs, ob, e) s. applyWorkItemObservation env s call cs ob e) os s) =
    sorted_list_of_set (fold (\<lambda>(call, cs, o') S. S \<union> openedBy (sessionEvent o') - closedBy (sessionEvent o'))
      os (set (openSessions s)))"
proof -
  have "openSessions (fold (\<lambda>(call, cs, ob, e) s. applyWorkItemObservation env s call cs ob e) os s) =
      fold (track mergeUniqueSorted removeSorted) (map (\<lambda>(call, cs, o'). sessionEvent o') os) (openSessions s)"
    by (induction os arbitrary: s) (auto simp: observation_track)
  moreover have "fold (\<lambda>(call, cs, o') S. S \<union> openedBy (sessionEvent o') - closedBy (sessionEvent o')) os S =
      fold (\<lambda>e S. S \<union> openedBy e - closedBy e) (map (\<lambda>(call, cs, o'). sessionEvent o') os) S" for S
    by (induction os arbitrary: S) auto
  ultimately show ?thesis
    using wellKept_sorted [OF conjunct1 [OF sessions.track_all [OF assms]]]
      conjunct2 [OF sessions.track_all [OF assms]] by simp
qed

definition sessionOb :: "string \<Rightarrow> string \<Rightarrow> WorkItemObservation" where
  "sessionOb o' c = \<lparr>ob_ReadPath = [], ob_ReadWindow = [], ob_ReadStart = 0, ob_ReadEnd = 0,
     ob_ResultHandle = [], ob_CallID = [], ob_ContentDigest = [], ob_OpenSession = o',
     ob_CloseSession = c, ob_CoveredPaths = [], ob_ResultDigest = []\<rparr>"

definition waitCall :: ToolCallState where
  "waitCall = \<lparr>tc_ID = ''a1'', tc_Name = ''shell'', tc_Arguments = [], tc_CatalogID = [], tc_CatalogGeneration = 0,
     tc_CatalogRevision = 0, tc_CatalogAuthority = 0, tc_AdmissionRejection = []\<rparr>"

theorem open_sessions_exact_witness:
  "wellKept (openSessions turn1) \<and>
   openSessions (fold (\<lambda>(call, cs, ob, e) s. applyWorkItemObservation sampleEnv s call cs ob e)
     [(waitCall, [], sessionOb ''p2'' [], False), (waitCall, [], sessionOb ''p1'' [], False),
      (waitCall, [], sessionOb [] ''p2'', False)] turn1) = [''p1'']"
proof -
  have w: "wellKept (openSessions turn1)" by (simp add: wellKept_def turn_eval NewState_def)
  have "set (openSessions turn1) = {}" by (simp add: turn_eval NewState_def)
  moreover have "{''p1'', ''p2''} - {''p2''} = {''p1''}" by auto
  ultimately show ?thesis
    using w open_sessions_exact [OF w, of sampleEnv "[(waitCall, [], sessionOb ''p2'' [], False),
      (waitCall, [], sessionOb ''p1'' [], False), (waitCall, [], sessionOb [] ''p2'', False)]"]
    by (simp add: sessionOb_def sessionEvent_def openedBy_def closedBy_def)
qed

section \<open>Paths\<close>

text \<open>
  Comparing paths after sorting compares them as multisets, and the changed paths of two change
  lists agree exactly if the same files changed, in whatever order and however often.
\<close>

theorem same_paths_exact:
  "(samePaths xs ys \<longleftrightarrow> mset xs = mset ys) \<and>
   (samePaths (changedPaths cs) (changedPaths ds) \<longleftrightarrow> oc_Path ` set cs = oc_Path ` set ds)"
proof
  have "sort xs = sort ys \<longleftrightarrow> mset xs = mset ys" by (metis mset_sort properties_for_sort sorted_sort)
  then show "samePaths xs ys \<longleftrightarrow> mset xs = mset ys" by (simp add: samePaths_def)
  have "samePaths (changedPaths cs) (changedPaths ds) \<longleftrightarrow> changedPaths cs = changedPaths ds"
    by (simp add: samePaths_def changedPaths_def sorted_sort_id)
  also have "\<dots> \<longleftrightarrow> oc_Path ` set cs = oc_Path ` set ds"
    by (metis List.finite_set changedPaths_def finite_imageI set_sorted_list_of_set)
  finally show "samePaths (changedPaths cs) (changedPaths ds) \<longleftrightarrow> oc_Path ` set cs = oc_Path ` set ds" .
qed

section \<open>Read windows\<close>

lemma TrimSpace_subset: "set (TrimSpace s) \<subseteq> set s"
proof -
  have "set (trimLeft ps x) \<subseteq> set x" for ps x by (rule set_mono_suffix [OF trimLeft_suffix])
  then show ?thesis unfolding TrimSpace_def set_rev by (metis set_rev subset_trans)
qed

lemma Itoa_not_full: "0 < i \<Longrightarrow> TrimSpace (Itoa i) \<noteq> ''full''"
proof
  assume i: "0 < i" and full: "TrimSpace (Itoa i) = ''full''"
  have "CHR ''f'' \<in> set (formatNat (nat i))" using TrimSpace_subset [of "Itoa i"] i full by (simp add: Itoa_def)
  moreover have "CHR ''f'' \<notin> hexDigit ` {..<10}"
    by (simp add: hexDigit_def lessThan_nat_numeral lessThan_Suc)
  ultimately show False using formatNat_digits [of "nat i"] by blast
qed

text \<open>
  A recorded window answers exactly for its lines: once the kernel has recorded a read that
  started at a positive line, the record claims a line if and only if it lies between the start and
  the recorded end, or anywhere after the start when the read reached the end of the file.
\<close>

theorem read_window_exact:
  assumes "\<not> blank (ob_ReadPath ob)" "0 < ob_ReadStart ob" "ob_ReadWindow ob = Itoa (ob_ReadStart ob)"
  shows "\<exists>r. fmlookup (recordRead ob reads) (TrimSpace (ob_ReadPath ob)) = Some r \<and>
    (\<forall>n. ReadWindowCovers r n \<longleftrightarrow> ob_ReadStart ob \<le> n \<and> (ob_ReadEnd ob = 0 \<or> n < ob_ReadEnd ob))"
proof -
  have ne: "Itoa (ob_ReadStart ob) \<noteq> []" using assms(2) by (simp add: Itoa_def)
  have "\<exists>r. fmlookup (recordRead ob reads) (TrimSpace (ob_ReadPath ob)) = Some r \<and>
      wr_Window r = Itoa (ob_ReadStart ob) \<and> wr_StartLine r = ob_ReadStart ob \<and> wr_EndLine r = ob_ReadEnd ob"
    using assms ne by (simp add: recordRead_def Let_def)
  then obtain r where r: "fmlookup (recordRead ob reads) (TrimSpace (ob_ReadPath ob)) = Some r"
    "wr_Window r = Itoa (ob_ReadStart ob)" "wr_StartLine r = ob_ReadStart ob" "wr_EndLine r = ob_ReadEnd ob"
    by blast
  have "\<not> ReadWindowIsFull r" using assms(2) Itoa_not_full by (simp add: ReadWindowIsFull_def r(2,3))
  then have "ReadWindowCovers r n \<longleftrightarrow> ob_ReadStart ob \<le> n \<and> (ob_ReadEnd ob = 0 \<or> n < ob_ReadEnd ob)" for n
    using assms(2) by (auto simp: ReadWindowCovers_def r(3,4))
  then show ?thesis using r(1) by blast
qed

definition windowOb :: WorkItemObservation where
  "windowOb = (sessionOb [] [])\<lparr>ob_ReadPath := ''a'', ob_ReadWindow := Itoa 4, ob_ReadStart := 4, ob_ReadEnd := 6\<rparr>"

theorem read_window_exact_witness:
  "\<exists>r. fmlookup (recordRead windowOb fmempty) (TrimSpace (ob_ReadPath windowOb)) = Some r \<and>
     ReadWindowCovers r 5 \<and> \<not> ReadWindowCovers r 6"
proof -
  have "\<not> blank (ob_ReadPath windowOb)" "0 < ob_ReadStart windowOb" "ob_ReadWindow windowOb = Itoa (ob_ReadStart windowOb)"
    "ob_ReadStart windowOb = 4" "ob_ReadEnd windowOb = 6" by (simp_all add: windowOb_def)
  with read_window_exact [of windowOb fmempty] show ?thesis by auto
qed

text \<open>
  A first read without a start line is recorded as the full file even when it stopped after fifty
  lines, so the record claims lines that were never read.
\<close>

theorem truncated_read_claims_full:
  "\<exists>r. fmlookup (recordRead ((sessionOb [] [])\<lparr>ob_ReadPath := ''a'', ob_ReadEnd := 50\<rparr>) fmempty) ''a'' = Some r \<and>
     wr_EndLine r = 50 \<and> ReadWindowCovers r 1000"
  by (simp add: recordRead_def sessionOb_def ReadWindowCovers_def ReadWindowIsFull_def zeroRead_def Let_def)

end
