(* ===== verification/Repetition.thy ===== *)
theory Repetition
  imports Go_Prelude
begin

text \<open>
  The detector of repeated output, \<open>src/internal/adapter/provider/assembly/repetition.go\<close>: a bounded
  window over the text of one response and a periodic search for a span that the text repeats at its end.

  Text is a list of runes, the result of the conversion \<open>[]rune(text)\<close>. The counters are mathematical
  integers: they count characters held in memory, far below the range of \<open>int\<close>.
\<close>

section \<open>The detector\<close>

type_synonym rune = int

record RepetitionProfile =
  rf_MinTotalChars :: int
  rf_WindowChars :: int
  rf_CheckEveryChars :: int
  rf_MinSpanChars :: int
  rf_RepeatCount :: int
  rf_MaxSpanChars :: int

definition DefaultRepetitionProfile :: RepetitionProfile where
  "DefaultRepetitionProfile = \<lparr>rf_MinTotalChars = 3000, rf_WindowChars = 10000, rf_CheckEveryChars = 500,
     rf_MinSpanChars = 4, rf_RepeatCount = 4, rf_MaxSpanChars = 768\<rparr>"

definition Disabled :: "RepetitionProfile \<Rightarrow> bool" where
  "Disabled p \<longleftrightarrow> rf_MinTotalChars p \<le> 0 \<or> rf_RepeatCount p < 2 \<or> rf_MinSpanChars p < 1"

record TextRepetitionDetector =
  td_profile :: RepetitionProfile
  td_window :: "rune list"
  td_totalChars :: int
  td_pendingChars :: int

definition NewTextRepetitionDetector :: "RepetitionProfile \<Rightarrow> TextRepetitionDetector" where
  "NewTextRepetitionDetector p =
     \<lparr>td_profile = (if rf_MaxSpanChars p \<le> 0 then p\<lparr>rf_MaxSpanChars := 768\<rparr> else p),
      td_window = [], td_totalChars = 0, td_pendingChars = 0\<rparr>"

definition isAlnum :: "rune \<Rightarrow> bool" where
  "isAlnum r \<longleftrightarrow> 97 \<le> r \<and> r \<le> 122 \<or> 65 \<le> r \<and> r \<le> 90 \<or> 48 \<le> r \<and> r \<le> 57"

definition toLower :: "rune \<Rightarrow> rune" where
  "toLower r = (if 65 \<le> r \<and> r \<le> 90 then r + 32 else r)"

fun meaningfulFrom :: "rune \<Rightarrow> rune list \<Rightarrow> bool" where
  "meaningfulFrom first [] = False"
| "meaningfulFrom first (r # rest) =
    (if \<not> isAlnum r then meaningfulFrom first rest
     else if first = 0 then meaningfulFrom (toLower r) rest
     else if first \<noteq> toLower r then True
     else meaningfulFrom first rest)"

definition isMeaningfulSpan :: "rune list \<Rightarrow> bool" where
  "isMeaningfulSpan span = meaningfulFrom 0 span"

definition spanAt :: "nat \<Rightarrow> nat \<Rightarrow> 'a list \<Rightarrow> 'a list" where
  "spanAt i n xs = take n (drop i xs)"

definition repeatedAt :: "rune list \<Rightarrow> nat \<Rightarrow> nat \<Rightarrow> nat \<Rightarrow> bool" where
  "repeatedAt window start spanLen count =
     list_all (\<lambda>i. spanAt (start + i * spanLen) spanLen window = spanAt start spanLen window) [1..<count]"

function searchSpan :: "rune list \<Rightarrow> nat \<Rightarrow> nat \<Rightarrow> nat \<Rightarrow> rune list option" where
  "searchSpan window count spanLen maxSpan =
    (if spanLen > maxSpan \<or> length window < spanLen * count then None
     else let start = length window - spanLen * count; span = spanAt start spanLen window
       in if isMeaningfulSpan span \<and> repeatedAt window start spanLen count then Some span
          else searchSpan window count (spanLen + 1) maxSpan)"
  by auto

termination by (relation "measure (\<lambda>(w, c, s, m). Suc m - s)") auto

declare searchSpan.simps [simp del]

definition detectRepeatedSuffix :: "rune list \<Rightarrow> RepetitionProfile \<Rightarrow> rune list option" where
  "detectRepeatedSuffix window p =
    (let fit = int (length window) div rf_RepeatCount p;
         maxSpan = (if rf_MaxSpanChars p > 0 \<and> fit > rf_MaxSpanChars p then rf_MaxSpanChars p else fit)
     in if maxSpan < rf_MinSpanChars p then None
        else searchSpan window (nat (rf_RepeatCount p)) (nat (rf_MinSpanChars p)) (nat maxSpan))"

definition truncateString :: "rune list \<Rightarrow> nat \<Rightarrow> rune list" where
  "truncateString s limit = (if length s \<le> limit then s else take limit s @ [0x2026])"

text \<open>\<open>ErrTextRepetition\<close> wrapped with the span, the repeat count and the window length.\<close>

datatype RepetitionError = ErrTextRepetition "rune list" int nat

definition trimWindow :: "int \<Rightarrow> rune list \<Rightarrow> rune list" where
  "trimWindow limit w =
     (if limit > 0 \<and> int (length w) > limit then drop (length w - nat limit) w else w)"

definition Observe ::
    "rune list \<Rightarrow> TextRepetitionDetector \<Rightarrow> TextRepetitionDetector \<times> RepetitionError option" where
  "Observe text d =
    (let p = td_profile d
     in if Disabled p \<or> text = [] then (d, None)
        else let d1 = d\<lparr>td_totalChars := td_totalChars d + int (length text),
                        td_pendingChars := td_pendingChars d + int (length text),
                        td_window := trimWindow (rf_WindowChars p) (td_window d @ text)\<rparr>
          in if td_totalChars d1 < rf_MinTotalChars p \<or> td_pendingChars d1 < rf_CheckEveryChars p then (d1, None)
             else let d2 = d1\<lparr>td_pendingChars := 0\<rparr>
               in (d2, map_option (\<lambda>span. ErrTextRepetition (truncateString span 80) (rf_RepeatCount p) (length (td_window d2)))
                         (detectRepeatedSuffix (td_window d2) p)))"

text \<open>
  \<open>RepetitionMonitor.Project\<close>: the detector sees the text first, and only a delta it accepts reaches the
  wrapped callback, an argument here; \<open>Inl\<close> is the detector's error, \<open>Inr\<close> what the callback returned.
\<close>

definition Monitor_Project ::
    "('v \<Rightarrow> rune list) \<Rightarrow> ('v \<Rightarrow> 'r) option \<Rightarrow> 'v \<Rightarrow> TextRepetitionDetector \<Rightarrow>
     TextRepetitionDetector \<times> (RepetitionError + 'r option)" where
  "Monitor_Project textOf project value d =
    (let (d1, err) = (if textOf value \<noteq> [] then Observe (textOf value) d else (d, None))
     in (d1, case err of Some e \<Rightarrow> Inl e | None \<Rightarrow> Inr (map_option (\<lambda>f. f value) project)))"

section \<open>What a repeated suffix is\<close>

definition meaningful :: "rune list \<Rightarrow> bool" where
  "meaningful span \<longleftrightarrow> (\<exists>r \<in> set span. \<exists>s \<in> set span. isAlnum r \<and> isAlnum s \<and> toLower r \<noteq> toLower s)"

lemma alnum_nonzero: "isAlnum r \<Longrightarrow> toLower r \<noteq> 0"
  by (auto simp: isAlnum_def toLower_def)

lemma meaningfulFrom_started:
  "first \<noteq> 0 \<Longrightarrow> meaningfulFrom first span \<longleftrightarrow> (\<exists>r \<in> set span. isAlnum r \<and> toLower r \<noteq> first)"
  by (induction span) auto

lemma isMeaningfulSpan_iff: "isMeaningfulSpan span \<longleftrightarrow> meaningful span"
  unfolding isMeaningfulSpan_def meaningful_def
proof (induction span)
  case (Cons r span)
  show ?case
  proof (cases "isAlnum r")
    case True
    then show ?thesis using meaningfulFrom_started [OF alnum_nonzero [OF True], of span]
      by simp metis
  qed (use Cons in auto)
qed simp

lemma slice_concat: "i < n \<Longrightarrow> length s = l \<Longrightarrow> spanAt (i * l) l (concat (replicate n s)) = s"
proof (induction n arbitrary: i)
  case (Suc n)
  then show ?case by (cases i) (auto simp: spanAt_def algebra_simps)
qed simp

lemma concat_slices:
  assumes "length xs = n * l"
  shows "concat (map (\<lambda>i. spanAt (i * l) l xs) [0..<n]) = xs"
  using assms
proof (induction n arbitrary: xs)
  case (Suc n)
  have "map (\<lambda>i. spanAt (i * l) l xs) [0..<Suc n] = spanAt 0 l xs # map (\<lambda>i. spanAt (i * l) l (drop l xs)) [0..<n]"
    by (simp add: upt_conv_Cons spanAt_def map_Suc_upt [symmetric] comp_def algebra_simps del: upt_Suc map_Suc_upt)
  then show ?case using Suc.IH [of "drop l xs"] Suc.prems by (simp add: spanAt_def)
qed simp

lemma repeatedAt_iff:
  assumes "l * count \<le> length w" "0 < count"
  defines "start \<equiv> length w - l * count"
  shows "repeatedAt w start l count \<longleftrightarrow> drop start w = concat (replicate count (spanAt start l w))"
proof -
  let ?t = "drop start w" and ?s = "spanAt start l w"
  have len: "length ?t = count * l" "length ?s = l" using assms
    by (auto simp: spanAt_def algebra_simps)
  have sl: "spanAt (start + i * l) l w = spanAt (i * l) l ?t" for i by (simp add: spanAt_def add.commute)
  show ?thesis
  proof
    assume "repeatedAt w start l count"
    then have "spanAt (i * l) l ?t = ?s" if "i < count" for i
      using that sl sl [of 0] by (cases "i = 0") (auto simp: repeatedAt_def list_all_iff)
    then have "map (\<lambda>i. spanAt (i * l) l ?t) [0..<count] = replicate count ?s"
      by (auto intro: nth_equalityI)
    then show "?t = concat (replicate count ?s)" using concat_slices [OF len(1)] by simp
  next
    assume "?t = concat (replicate count ?s)"
    then show "repeatedAt w start l count"
      using slice_concat [of _ count ?s l] len(2) by (auto simp: repeatedAt_def list_all_iff sl)
  qed
qed

definition repeats :: "nat \<Rightarrow> rune list \<Rightarrow> rune list \<Rightarrow> bool" where
  "repeats count w span \<longleftrightarrow> meaningful span \<and> suffix (concat (replicate count span)) w"

lemma repeats_length: "repeats count w span \<Longrightarrow> length span * count \<le> length w"
  by (auto simp: repeats_def length_concat sum_list_replicate mult.commute dest!: suffix_length_le)

lemma repeats_iff:
  assumes "l * count \<le> length w" "0 < count" "length span = l"
  defines "start \<equiv> length w - l * count"
  shows "repeats count w span \<longleftrightarrow> span = spanAt start l w \<and> isMeaningfulSpan span \<and> repeatedAt w start l count"
proof -
  have len: "length (concat (replicate count s)) = l * count" if "length s = l" for s :: "rune list"
    using that by (simp add: length_concat sum_list_replicate)
  have "suffix (concat (replicate count span)) w \<longleftrightarrow> drop start w = concat (replicate count span)"
    using assms(1) len [OF assms(3)] by (auto simp: suffix_def start_def) (metis append_take_drop_id)
  also have "\<dots> \<longleftrightarrow> span = spanAt start l w \<and> drop start w = concat (replicate count (spanAt start l w))"
  proof -
    have "spanAt start l w = take l (drop start w)" by (simp add: spanAt_def)
    moreover have "take l (concat (replicate count span)) = span" using assms(2,3) by (cases count) auto
    ultimately show ?thesis by metis
  qed
  finally show ?thesis
    using repeatedAt_iff [OF assms(1,2)] by (auto simp: repeats_def isMeaningfulSpan_iff start_def)
qed

lemma searchSpan_Some:
  assumes "0 < count"
  shows "searchSpan w count l m = Some span \<longleftrightarrow> l \<le> length span \<and> length span \<le> m \<and> repeats count w span \<and>
    (\<forall>span'. l \<le> length span' \<and> length span' < length span \<longrightarrow> \<not> repeats count w span')"
  using assms
proof (induction w count l m arbitrary: span rule: searchSpan.induct)
  case (1 w count l m)
  show ?case
  proof (cases "l > m \<or> length w < l * count")
    case True
    then have "\<not> (l \<le> length span \<and> length span \<le> m \<and> repeats count w span)"
      using repeats_length [of count w span] by (auto dest: mult_le_mono1 [of _ _ count])
    then show ?thesis using True by (subst searchSpan.simps) auto
  next
    case False
    let ?start = "length w - l * count"
    let ?hit = "isMeaningfulSpan (spanAt ?start l w) \<and> repeatedAt w ?start l count"
    have hit: "repeats count w s \<longleftrightarrow> s = spanAt ?start l w \<and> ?hit" if "length s = l" for s
    proof -
      have "l * count \<le> length w" using False by simp
      from repeats_iff [OF this 1(2) that] show ?thesis by auto
    qed
    have len: "length (spanAt ?start l w) = l" using False 1(2) by (auto simp: spanAt_def)
    show ?thesis
    proof (cases ?hit)
      case True
      have "length span = l" if "l \<le> length span" "\<forall>span'. l \<le> length span' \<and> length span' < length span \<longrightarrow> \<not> repeats count w span'"
        using that True hit [OF len] len by (metis le_antisym not_less order_refl)
      then show ?thesis using True False len hit by (subst searchSpan.simps) (auto simp: Let_def)
    next
      case miss: False
      then have none: "\<not> repeats count w s" if "length s = l" for s using hit that by blast
      have "searchSpan w count l m = searchSpan w count (l + 1) m"
        using False miss by (subst searchSpan.simps) (auto simp: Let_def)
      moreover have "l \<le> length s \<and> repeats count w s \<longleftrightarrow> l + 1 \<le> length s \<and> repeats count w s" for s
        using none [of s] by (auto simp: le_less)
      ultimately show ?thesis
        using 1(1) [OF False refl refl] 1(2) miss by (simp only:) metis
    qed
  qed
qed

definition qualifies :: "RepetitionProfile \<Rightarrow> rune list \<Rightarrow> rune list \<Rightarrow> bool" where
  "qualifies p w span \<longleftrightarrow> rf_MinSpanChars p \<le> int (length span) \<and>
     (rf_MaxSpanChars p > 0 \<longrightarrow> int (length span) \<le> rf_MaxSpanChars p) \<and> repeats (nat (rf_RepeatCount p)) w span"

lemma repeats_fit:
  assumes "repeats (nat count) w s" "0 < count"
  shows "int (length s) \<le> int (length w) div count"
proof -
  have "int (length s) * count \<le> int (length w)"
    using repeats_length [OF assms(1)] assms(2) by (metis int_nat_eq less_le of_nat_le_iff of_nat_mult)
  then have "int (length s) * count div count \<le> int (length w) div count" by (rule zdiv_mono1) (rule assms(2))
  then show ?thesis using assms(2) by simp
qed

lemma detectRepeatedSuffix_Some:
  assumes "0 < rf_RepeatCount p" "0 \<le> rf_MinSpanChars p"
  shows "detectRepeatedSuffix w p = Some span \<longleftrightarrow>
    qualifies p w span \<and> (\<forall>span'. qualifies p w span' \<longrightarrow> length span \<le> length span')"
proof -
  let ?n = "nat (rf_RepeatCount p)" and ?fit = "int (length w) div rf_RepeatCount p"
  define max where "max = (if rf_MaxSpanChars p > 0 \<and> ?fit > rf_MaxSpanChars p then rf_MaxSpanChars p else ?fit)"
  have q: "qualifies p w s \<longleftrightarrow> nat (rf_MinSpanChars p) \<le> length s \<and> int (length s) \<le> max \<and> repeats ?n w s" for s
    using repeats_fit [OF _ assms(1), of w s] assms(2) unfolding qualifies_def max_def by (auto simp: nat_le_iff)
  show ?thesis
  proof (cases "max < rf_MinSpanChars p")
    case True
    then have "\<not> qualifies p w s" for s using q [of s] assms(2) by auto
    then show ?thesis using True by (simp add: detectRepeatedSuffix_def max_def Let_def)
  next
    case False
    then have "detectRepeatedSuffix w p = searchSpan w ?n (nat (rf_MinSpanChars p)) (nat max)" "0 \<le> max"
      using assms(2) by (simp_all add: detectRepeatedSuffix_def max_def Let_def)
    then show ?thesis using searchSpan_Some [of ?n w "nat (rf_MinSpanChars p)" "nat max" span] assms(1)
      unfolding q by (auto simp: le_nat_iff not_less intro: leI)
  qed
qed



section \<open>The window over a whole response\<close>

definition feed :: "rune list list \<Rightarrow> TextRepetitionDetector \<Rightarrow> TextRepetitionDetector" where
  "feed texts d = foldl (\<lambda>d text. fst (Observe text d)) d texts"

lemma trimWindow_twice: "trimWindow l (trimWindow l w @ t) = trimWindow l (w @ t)"
  by (auto simp: trimWindow_def drop_append nat_diff_distrib)

lemma Observe_frame:
  assumes "\<not> Disabled (td_profile d)"
  shows "td_profile (fst (Observe text d)) = td_profile d"
    "td_totalChars (fst (Observe text d)) = td_totalChars d + int (length text)"
    "text \<noteq> [] \<Longrightarrow> td_window (fst (Observe text d)) = trimWindow (rf_WindowChars (td_profile d)) (td_window d @ text)"
    "text = [] \<Longrightarrow> fst (Observe text d) = d"
  using assms by (auto simp: Observe_def Let_def)

lemma feed_state:
  assumes "\<not> Disabled (td_profile d)" "td_window d = trimWindow (rf_WindowChars (td_profile d)) seen"
    "td_totalChars d = int (length seen)"
  shows "td_profile (feed texts d) = td_profile d \<and>
    td_window (feed texts d) = trimWindow (rf_WindowChars (td_profile d)) (seen @ concat texts) \<and>
    td_totalChars (feed texts d) = int (length (seen @ concat texts))"
  using assms
proof (induction texts arbitrary: d seen)
  case Nil
  then show ?case by (simp add: feed_def)
next
  case (Cons delta texts)
  let ?d = "fst (Observe delta d)"
  note fr = Observe_frame [OF Cons.prems(1), of delta]
  have "td_window ?d = trimWindow (rf_WindowChars (td_profile ?d)) (seen @ delta)"
    using fr Cons.prems(2) by (cases "delta = []") (simp_all add: trimWindow_twice)
  then have "td_profile (feed texts ?d) = td_profile ?d \<and>
      td_window (feed texts ?d) = trimWindow (rf_WindowChars (td_profile ?d)) ((seen @ delta) @ concat texts) \<and>
      td_totalChars (feed texts ?d) = int (length ((seen @ delta) @ concat texts))"
    using Cons.prems fr by (intro Cons.IH) simp_all
  then show ?case using fr(1) by (simp add: feed_def)
qed

text \<open>
  The detector judges the text of the whole response, not of one delta: however the text arrives in
  deltas, the window is its last \<open>WindowChars\<close> characters; a delta is refused exactly if a check is due
  after it and that window ends in a qualifying repetition; and once the response is long enough the next
  check is never \<open>CheckEveryChars\<close> characters or more away.
\<close>

theorem repetition_judges_whole_text:
  fixes p :: RepetitionProfile and texts :: "rune list list" and delta :: "rune list"
  assumes "\<not> Disabled p" "delta \<noteq> []"
  defines "d \<equiv> feed texts (NewTextRepetitionDetector p)"
    and "q \<equiv> td_profile (NewTextRepetitionDetector p)"
    and "whole \<equiv> concat texts @ delta"
  shows "td_window (fst (Observe delta d)) = trimWindow (rf_WindowChars p) whole \<and>
    (snd (Observe delta d) \<noteq> None \<longleftrightarrow>
       rf_MinTotalChars p \<le> int (length whole) \<and> rf_CheckEveryChars p \<le> td_pendingChars d + int (length delta) \<and>
       (\<exists>span. qualifies q (trimWindow (rf_WindowChars p) whole) span)) \<and>
    (rf_MinTotalChars p \<le> int (length whole) \<and> 0 < rf_CheckEveryChars p \<longrightarrow>
       td_pendingChars (fst (Observe delta d)) < rf_CheckEveryChars p)"
proof -
  let ?new = "NewTextRepetitionDetector p"
  have q: "rf_MinTotalChars q = rf_MinTotalChars p" "rf_WindowChars q = rf_WindowChars p" "\<not> Disabled q"
    "rf_CheckEveryChars q = rf_CheckEveryChars p" "0 < rf_RepeatCount q" "0 \<le> rf_MinSpanChars q"
    using assms(1) by (auto simp: q_def NewTextRepetitionDetector_def Disabled_def)
  have d: "td_profile d = q" "td_window d = trimWindow (rf_WindowChars p) (concat texts)"
    "td_totalChars d = int (length (concat texts))"
    using feed_state [of ?new "[]" texts] q by (simp_all add: d_def q_def NewTextRepetitionDetector_def trimWindow_def)
  let ?w = "trimWindow (rf_WindowChars p) whole"
  have w: "td_window (fst (Observe delta d)) = ?w"
    using Observe_frame(3) [of d delta] q d assms(2) by (simp add: trimWindow_twice whole_def)
  have none: "detectRepeatedSuffix ?w q \<noteq> None \<longleftrightarrow> (\<exists>span. qualifies q ?w span)"
  proof
    assume "\<exists>span. qualifies q ?w span"
    then have "\<exists>span. qualifies q ?w span \<and> (\<forall>s. qualifies q ?w s \<longrightarrow> length span \<le> length s)"
      using ex_has_least_nat [of "qualifies q ?w" _ length] by blast
    then show "detectRepeatedSuffix ?w q \<noteq> None" using detectRepeatedSuffix_Some [OF q(5,6)] by blast
  qed (use detectRepeatedSuffix_Some [OF q(5,6)] in auto)
  have tw: "trimWindow (rf_WindowChars p) (trimWindow (rf_WindowChars p) (concat texts) @ delta) = ?w"
    by (simp add: trimWindow_twice whole_def)
  have "snd (Observe delta d) \<noteq> None \<longleftrightarrow> rf_MinTotalChars p \<le> int (length whole) \<and>
      rf_CheckEveryChars p \<le> td_pendingChars d + int (length delta) \<and> detectRepeatedSuffix ?w q \<noteq> None"
    using d q assms(2) tw by (auto simp: Observe_def Let_def whole_def)
  moreover have "td_pendingChars (fst (Observe delta d)) < rf_CheckEveryChars p"
    if "rf_MinTotalChars p \<le> int (length whole)" "0 < rf_CheckEveryChars p"
    using that d q assms(2) by (auto simp: Observe_def Let_def whole_def)
  ultimately show ?thesis using w none by simp
qed

definition tightProfile :: RepetitionProfile where
  "tightProfile = \<lparr>rf_MinTotalChars = 4, rf_WindowChars = 8, rf_CheckEveryChars = 1, rf_MinSpanChars = 2,
     rf_RepeatCount = 2, rf_MaxSpanChars = 4\<rparr>"

theorem repetition_judges_whole_text_witness:
  "snd (Observe [97, 98] (feed [[97, 98]] (NewTextRepetitionDetector tightProfile))) \<noteq> None"
proof -
  have en: "\<not> Disabled tightProfile" by (simp add: Disabled_def tightProfile_def)
  have "qualifies (td_profile (NewTextRepetitionDetector tightProfile))
      (trimWindow (rf_WindowChars tightProfile) (concat [[97, 98]] @ [97, 98])) [97, 98]"
    by (simp add: qualifies_def tightProfile_def NewTextRepetitionDetector_def repeats_def meaningful_def isAlnum_def
        toLower_def trimWindow_def numeral_2_eq_2)
  moreover have "td_pendingChars (feed [[97, 98]] (NewTextRepetitionDetector tightProfile)) \<ge> 0"
    by (simp add: feed_def Observe_def Let_def tightProfile_def NewTextRepetitionDetector_def Disabled_def)
  ultimately show ?thesis
    using repetition_judges_whole_text [OF en, of "[97, 98]" "[[97, 98]]"] by (auto simp: tightProfile_def)
qed

end
