(* ===== verification/Json_Members.thy ===== *)
theory Json_Members
  imports Assembly_Operations
begin

text \<open>
  The incremental check for duplicated object members,
  \<open>src/internal/adapter/provider/assembly/json_members.go\<close>, and the selection of the tool calls a
  complete response may execute, \<open>ExecutableToolCalls\<close> of \<open>response_assembly.go\<close>.

  The tracker is compared with a specification on trees: whatever way the text of a JSON value is cut
  into fragments, the tracker reports an error exactly if some object of the value has a member name
  that does not decode or that occurs twice in it.
\<close>

section \<open>The tracker\<close>

record jsonMemberScope =
  sc_object :: bool
  sc_key :: bool
  sc_names :: "string set"

text \<open>The scopes are kept innermost first; the code keeps them innermost last.\<close>

record jsonMemberTracker =
  jt_scopes :: "jsonMemberScope list"
  jt_inString :: bool
  jt_escaped :: bool
  jt_isKey :: bool
  jt_name :: string

definition newTracker :: jsonMemberTracker where
  "newTracker = \<lparr>jt_scopes = [], jt_inString = False, jt_escaped = False, jt_isKey = False, jt_name = []\<rparr>"

text \<open>The two errors of \<open>Append\<close>, and the index panic that a key outside every scope would be.\<close>

datatype MemberError = errDuplicateJSONMember | errInvalidMemberName | panicIndex

definition closeKey ::
    "(string \<Rightarrow> string option) \<Rightarrow> jsonMemberTracker \<Rightarrow> jsonMemberTracker \<times> MemberError option" where
  "closeKey unquote v = (case unquote (jt_name v) of
     None \<Rightarrow> (v, Some errInvalidMemberName)
   | Some name \<Rightarrow> (case jt_scopes v of
       [] \<Rightarrow> (v, Some panicIndex)
     | scope # rest \<Rightarrow>
        (if name \<in> sc_names scope then (v, Some errDuplicateJSONMember)
         else (v\<lparr>jt_scopes := scope\<lparr>sc_names := insert name (sc_names scope), sc_key := False\<rparr> # rest,
                 jt_name := []\<rparr>, None))))"

definition stringByte ::
    "(string \<Rightarrow> string option) \<Rightarrow> char \<Rightarrow> jsonMemberTracker \<Rightarrow> jsonMemberTracker \<times> MemberError option" where
  "stringByte unquote c v0 =
    (let v = (if jt_isKey v0 then v0\<lparr>jt_name := jt_name v0 @ [c]\<rparr> else v0)
     in if jt_escaped v then (v\<lparr>jt_escaped := False\<rparr>, None)
        else if c = CHR 0x5C then (v\<lparr>jt_escaped := True\<rparr>, None)
        else if c = CHR 0x22 then
          (if jt_isKey v then closeKey unquote (v\<lparr>jt_inString := False\<rparr>) else (v\<lparr>jt_inString := False\<rparr>, None))
        else (v, None))"

definition structuralByte :: "char \<Rightarrow> jsonMemberTracker \<Rightarrow> jsonMemberTracker" where
  "structuralByte c v =
    (if c = CHR ''{'' then v\<lparr>jt_scopes := \<lparr>sc_object = True, sc_key = True, sc_names = {}\<rparr> # jt_scopes v\<rparr>
     else if c = CHR ''['' then v\<lparr>jt_scopes := \<lparr>sc_object = False, sc_key = False, sc_names = {}\<rparr> # jt_scopes v\<rparr>
     else if c = CHR ''}'' \<or> c = CHR '']'' then v\<lparr>jt_scopes := tl (jt_scopes v)\<rparr>
     else if c = CHR '','' then (case jt_scopes v of
         [] \<Rightarrow> v
       | scope # rest \<Rightarrow> v\<lparr>jt_scopes := scope\<lparr>sc_key := sc_object scope\<rparr> # rest\<rparr>)
     else if c = CHR 0x22 then
       (let key = (jt_scopes v \<noteq> [] \<and> sc_key (hd (jt_scopes v)))
        in v\<lparr>jt_inString := True, jt_isKey := key, jt_name := (if key then [c] else jt_name v)\<rparr>)
     else v)"

fun Append ::
    "(string \<Rightarrow> string option) \<Rightarrow> string \<Rightarrow> jsonMemberTracker \<Rightarrow> jsonMemberTracker \<times> MemberError option" where
  "Append unquote [] v = (v, None)"
| "Append unquote (c # cs) v =
    (if jt_inString v
     then (case stringByte unquote c v of
         (v', None) \<Rightarrow> Append unquote cs v'
       | (v', Some e) \<Rightarrow> (v', Some e))
     else Append unquote cs (structuralByte c v))"

text \<open>Feeding the fragments of one tool call, as the stream consumer does.\<close>

fun appendFragments ::
    "(string \<Rightarrow> string option) \<Rightarrow> string list \<Rightarrow> jsonMemberTracker \<Rightarrow> jsonMemberTracker \<times> MemberError option" where
  "appendFragments unquote [] v = (v, None)"
| "appendFragments unquote (s # ss) v = (case Append unquote s v of
     (v', None) \<Rightarrow> appendFragments unquote ss v'
   | (v', Some e) \<Rightarrow> (v', Some e))"

lemma Append_append:
  "Append u (x @ y) v = (case Append u x v of (v', None) \<Rightarrow> Append u y v' | (v', Some e) \<Rightarrow> (v', Some e))"
  by (induction u x v rule: Append.induct) (auto split: prod.splits option.splits)

lemma appendFragments_concat: "appendFragments u ss v = Append u (concat ss) v"
  by (induction u ss v rule: appendFragments.induct) (auto simp: Append_append split: prod.splits option.splits)

section \<open>JSON values as trees\<close>

text \<open>
  A literal is a number, \<open>true\<close>, \<open>false\<close> or \<open>null\<close>; a string is its body between the quotes, escapes
  included; a member has white space before and after its quoted name, and \<open>Padded\<close> is a value between
  white space.
\<close>

datatype jvalue =
  Literal string
| Quoted string
| Array "jvalue list"
| Object "((string \<times> string \<times> string) \<times> jvalue) list"
| Padded string jvalue string

definition quote :: "string \<Rightarrow> string" where "quote b = CHR 0x22 # b @ [CHR 0x22]"

definition nameText :: "string \<times> string \<times> string \<Rightarrow> string" where
  "nameText n = (case n of (before, b, after) \<Rightarrow> before @ quote b @ after @ '':'')"

fun separated :: "string list \<Rightarrow> string" where
  "separated [] = []"
| "separated [x] = x"
| "separated (x # y # xs) = x @ '','' @ separated (y # xs)"

primrec render :: "jvalue \<Rightarrow> string" where
  "render (Literal s) = s"
| "render (Quoted b) = quote b"
| "render (Array vs) = ''['' @ separated (map render vs) @ '']''"
| "render (Object ms) = ''{'' @ separated (map (\<lambda>(n, s). nameText n @ s) (map (map_prod id render) ms)) @ ''}''"
| "render (Padded a v b) = a @ render v @ b"

definition structural :: "char \<Rightarrow> bool" where
  "structural c \<longleftrightarrow> c \<in> {CHR ''{'', CHR ''}'', CHR ''['', CHR '']'', CHR '','', CHR 0x22}"

definition plainText :: "string \<Rightarrow> bool" where "plainText s \<longleftrightarrow> list_all (\<lambda>c. \<not> structural c) s"

fun bodyOK :: "bool \<Rightarrow> string \<Rightarrow> bool" where
  "bodyOK esc [] = (\<not> esc)"
| "bodyOK True (c # cs) = bodyOK False cs"
| "bodyOK False (c # cs) = (c \<noteq> CHR 0x22 \<and> bodyOK (c = CHR 0x5C) cs)"

primrec wellFormed :: "jvalue \<Rightarrow> bool" where
  "wellFormed (Literal s) = plainText s"
| "wellFormed (Quoted b) = bodyOK False b"
| "wellFormed (Array vs) = list_all wellFormed vs"
| "wellFormed (Object ms) = (list_all (\<lambda>(before, b, after). plainText before \<and> bodyOK False b \<and> plainText after) (map fst ms) \<and>
     list_all snd (map (map_prod id wellFormed) ms))"
| "wellFormed (Padded a v b) = (plainText a \<and> wellFormed v \<and> plainText b)"

definition memberName :: "(string \<Rightarrow> string option) \<Rightarrow> string \<times> string \<times> string \<Rightarrow> string option" where
  "memberName unquote n = unquote (quote (fst (snd n)))"

primrec membersUnique :: "(string \<Rightarrow> string option) \<Rightarrow> jvalue \<Rightarrow> bool" where
  "membersUnique u (Literal s) = True"
| "membersUnique u (Quoted b) = True"
| "membersUnique u (Array vs) = list_all (membersUnique u) vs"
| "membersUnique u (Object ms) = (None \<notin> set (map (memberName u \<circ> fst) ms) \<and> distinct (map (memberName u \<circ> fst) ms) \<and>
     list_all snd (map (map_prod id (membersUnique u)) ms))"
| "membersUnique u (Padded a v b) = membersUnique u v"

section \<open>Scanning a value\<close>

definition outsideString :: "jsonMemberScope list \<Rightarrow> jsonMemberTracker \<Rightarrow> bool" where
  "outsideString scs v \<longleftrightarrow> jt_scopes v = scs \<and> \<not> jt_inString v \<and> \<not> jt_escaped v"

text \<open>
  From scopes \<open>scs\<close> the text \<open>s\<close> is scanned without error exactly if \<open>P\<close> holds, and then leaves the
  scopes \<open>scs'\<close>. The tracker never indexes outside its scopes.
\<close>

definition scans ::
    "(string \<Rightarrow> string option) \<Rightarrow> string \<Rightarrow> jsonMemberScope list \<Rightarrow> jsonMemberScope list \<Rightarrow> bool \<Rightarrow> bool" where
  "scans u s scs scs' P \<longleftrightarrow> (\<forall>v. outsideString scs v \<longrightarrow> (case Append u s v of
     (v', None) \<Rightarrow> P \<and> outsideString scs' v' | (v', Some e) \<Rightarrow> \<not> P \<and> e \<noteq> panicIndex))"

lemma scansD:
  assumes "scans u s scs scs' P" "outsideString scs v"
  shows "(snd (Append u s v) = None \<longleftrightarrow> P) \<and> snd (Append u s v) \<noteq> Some panicIndex"
proof (cases "Append u s v")
  case (Pair v' err)
  then show ?thesis using assms by (cases err) (fastforce simp: scans_def)+
qed

lemma scans_Nil: "scans u [] scs scs True"
  by (simp add: scans_def)

lemma scans_eq:
  "(\<And>v. outsideString scs v \<Longrightarrow> Append u s v = Append u s' v) \<Longrightarrow> scans u s' scs scs' P \<Longrightarrow> scans u s scs scs' P"
  by (simp add: scans_def)

lemma scans_append:
  assumes "scans u s scs scs' P" "scans u s' scs' scs'' Q"
  shows "scans u (s @ s') scs scs'' (P \<and> Q)"
  unfolding scans_def
proof (intro allI impI)
  fix v assume v: "outsideString scs v"
  show "case Append u (s @ s') v of (v', None) \<Rightarrow> (P \<and> Q) \<and> outsideString scs'' v' | (v', Some e) \<Rightarrow> \<not> (P \<and> Q) \<and> e \<noteq> panicIndex"
  proof (cases "Append u s v")
    case (Pair v' err)
    then have "case err of None \<Rightarrow> P \<and> outsideString scs' v' | Some e \<Rightarrow> \<not> P \<and> e \<noteq> panicIndex"
      using assms(1) v by (force simp: scans_def split: option.splits prod.splits)
    then show ?thesis using Pair assms(2)
      by (cases err) (force simp: Append_append scans_def split: option.splits prod.splits)+
  qed
qed

lemma scans_structural:
  assumes "structural c" "c \<noteq> CHR 0x22"
  shows "scans u [c] scs (jt_scopes (structuralByte c (newTracker\<lparr>jt_scopes := scs\<rparr>))) True"
  using assms by (auto simp: scans_def outsideString_def structuralByte_def structural_def newTracker_def split: list.splits)

lemma structural_scans:
  "scans u ''['' scs (\<lparr>sc_object = False, sc_key = False, sc_names = {}\<rparr> # scs) True"
  "scans u ''{'' scs (\<lparr>sc_object = True, sc_key = True, sc_names = {}\<rparr> # scs) True"
  "scans u '']'' (sc # scs) scs True" "scans u ''}'' (sc # scs) scs True"
  "scans u '','' (sc # scs) (sc\<lparr>sc_key := sc_object sc\<rparr> # scs) True"
  using scans_structural [of "CHR ''[''" u scs] scans_structural [of "CHR ''{''" u scs]
    scans_structural [of "CHR '']''" u "sc # scs"] scans_structural [of "CHR ''}''" u "sc # scs"]
    scans_structural [of "CHR '',''" u "sc # scs"]
  by (simp_all add: structural_def structuralByte_def)

lemma scans_plain: "plainText s \<Longrightarrow> scans u s scs scs True"
proof (induction s)
  case (Cons c s)
  then have "Append u (c # s) v = Append u s v" if "outsideString scs v" for v
    using that by (simp add: outsideString_def plainText_def structural_def structuralByte_def)
  moreover have "scans u s scs scs True" using Cons by (simp add: plainText_def)
  ultimately show ?case by (rule scans_eq)
qed (rule scans_Nil)

text \<open>Inside a string only the closing quote matters.\<close>

lemma Append_body:
  assumes "bodyOK (jt_escaped v) b" "jt_inString v"
  shows "Append u (b @ [CHR 0x22]) v = (let n = jt_name v @ b @ [CHR 0x22]
    in if jt_isKey v then closeKey u (v\<lparr>jt_inString := False, jt_escaped := False, jt_name := n\<rparr>)
       else (v\<lparr>jt_inString := False, jt_escaped := False\<rparr>, None))"
  using assms
proof (induction "jt_escaped v" b arbitrary: v rule: bodyOK.induct)
  case (1 v)
  then show ?case
    by (cases v) (auto simp: stringByte_def Let_def split: prod.splits option.splits)
next
  case (2 c cs v)
  then show ?case by (cases "jt_isKey v") (simp_all add: stringByte_def Let_def)
next
  case (3 c cs v)
  then show ?case by (cases "jt_isKey v"; cases "c = CHR 0x5C") (simp_all add: stringByte_def Let_def)
qed

lemma scans_string:
  assumes "bodyOK False b" "scs = [] \<or> \<not> sc_key (hd scs)"
  shows "scans u (quote b) scs scs True"
  unfolding scans_def
proof (intro allI impI)
  fix v assume "outsideString scs v"
  then show "case Append u (quote b) v of (v', None) \<Rightarrow> True \<and> outsideString scs v' | (v', Some e) \<Rightarrow> \<not> True \<and> e \<noteq> panicIndex"
    using assms Append_body [of "structuralByte (CHR 0x22) v" b u]
    by (auto simp: quote_def outsideString_def structuralByte_def Let_def)
qed

lemma scans_key:
  assumes "bodyOK False b" "sc_key sc"
  shows "scans u (quote b) (sc # scs) (sc\<lparr>sc_names := insert (the (u (quote b))) (sc_names sc), sc_key := False\<rparr> # scs)
    (\<exists>n. u (quote b) = Some n \<and> n \<notin> sc_names sc)"
  unfolding scans_def
proof (intro allI impI)
  fix v assume "outsideString (sc # scs) v"
  then show "case Append u (quote b) v of
      (v', None) \<Rightarrow> (\<exists>n. u (quote b) = Some n \<and> n \<notin> sc_names sc) \<and>
        outsideString (sc\<lparr>sc_names := insert (the (u (quote b))) (sc_names sc), sc_key := False\<rparr> # scs) v'
    | (v', Some e) \<Rightarrow> \<not> (\<exists>n. u (quote b) = Some n \<and> n \<notin> sc_names sc) \<and> e \<noteq> panicIndex"
    using assms Append_body [of "structuralByte (CHR 0x22) v" b u]
    by (auto simp: quote_def outsideString_def structuralByte_def closeKey_def Let_def split: option.splits)
qed

lemma scans_cong: "scans u s scs scs' P \<Longrightarrow> P = Q \<Longrightarrow> scans u s scs scs' Q"
  by simp

lemma scans_elements:
  assumes "\<And>x. x \<in> set vs \<Longrightarrow> scans u (render x) (sc # scs) (sc # scs) (membersUnique u x)"
    "\<not> sc_object sc" "\<not> sc_key sc"
  shows "scans u (separated (map render vs)) (sc # scs) (sc # scs) (list_all (membersUnique u) vs)"
  using assms(1)
proof (induction vs rule: induct_list012)
  case 1
  then show ?case by (simp add: scans_Nil)
next
  case (2 x)
  then show ?case by simp
next
  case (3 x y vs)
  have "sc\<lparr>sc_key := sc_object sc\<rparr> = sc" using assms(2,3) by (cases sc) simp
  then have comma: "scans u '','' (sc # scs) (sc # scs) True" using structural_scans(5) [of u sc scs] by simp
  from scans_append [OF 3(3) scans_append [OF comma 3(2)]] 3(3) show ?case by (simp cong: conj_cong)
qed

definition memberText :: "(string \<times> string \<times> string) \<times> jvalue \<Rightarrow> string" where
  "memberText m = nameText (fst m) @ render (snd m)"

definition objectScope :: "string set \<Rightarrow> bool \<Rightarrow> jsonMemberScope" where
  "objectScope names key = \<lparr>sc_object = True, sc_key = key, sc_names = names\<rparr>"

lemma objectScope_simps [simp]:
  "sc_object (objectScope N k)" "sc_key (objectScope N k) = k" "sc_names (objectScope N k) = N"
  "(objectScope N k)\<lparr>sc_key := k'\<rparr> = objectScope N k'" "(objectScope N k)\<lparr>sc_names := N'\<rparr> = objectScope N' k"
  by (simp_all add: objectScope_def)

definition decoded :: "(string \<Rightarrow> string option) \<Rightarrow> (string \<times> string \<times> string) \<times> jvalue \<Rightarrow> string" where
  "decoded u m = the (memberName u (fst m))"

definition memberOK :: "(string \<Rightarrow> string option) \<Rightarrow> (string \<times> string \<times> string) \<times> jvalue \<Rightarrow> bool" where
  "memberOK u m \<longleftrightarrow> memberName u (fst m) \<noteq> None \<and> membersUnique u (snd m)"

definition nameOK :: "(string \<times> string \<times> string) \<times> jvalue \<Rightarrow> bool" where
  "nameOK m = (case fst m of (before, b, after) \<Rightarrow> plainText before \<and> bodyOK False b \<and> plainText after)"

lemma scans_member:
  assumes "nameOK m"
    "\<And>N. scans u (render (snd m)) (objectScope N False # scs) (objectScope N False # scs) (membersUnique u (snd m))"
  shows "scans u (memberText m) (objectScope N True # scs) (objectScope (insert (decoded u m) N) False # scs)
    (memberOK u m \<and> decoded u m \<notin> N)"
proof -
  obtain before b after x where m: "m = ((before, b, after), x)" by (metis prod.collapse)
  then have n: "plainText before" "bodyOK False b" "plainText after" using assms(1) by (simp_all add: nameOK_def)
  have colon: "scans u '':'' scs' scs' True" for scs' by (rule scans_plain) (simp add: plainText_def structural_def)
  note key = scans_key [OF n(2), of "objectScope N True" u scs, simplified]
  note all = scans_append [OF scans_plain [OF n(1)] scans_append [OF key scans_append [OF scans_plain [OF n(3)]
        scans_append [OF colon assms(2)]]]]
  have "(\<exists>n. u (quote b) = Some n \<and> n \<notin> N) \<and> membersUnique u x \<longleftrightarrow> memberOK u m \<and> decoded u m \<notin> N"
    by (auto simp: m decoded_def memberName_def memberOK_def)
  then show ?thesis using all by (simp add: m memberText_def nameText_def decoded_def memberName_def)
qed

lemma scans_members:
  assumes "\<And>m. m \<in> set ms \<Longrightarrow> nameOK m"
    "\<And>m N. m \<in> set ms \<Longrightarrow>
      scans u (render (snd m)) (objectScope N False # scs) (objectScope N False # scs) (membersUnique u (snd m))"
  shows "scans u (separated (map memberText ms)) (objectScope N True # scs)
    (objectScope (N \<union> decoded u ` set ms) (ms = []) # scs)
    (list_all (memberOK u) ms \<and> distinct (map (decoded u) ms) \<and> decoded u ` set ms \<inter> N = {})"
  using assms
proof (induction ms arbitrary: N rule: induct_list012)
  case 1
  then show ?case by (simp add: scans_Nil)
next
  case (2 m)
  then show ?case using scans_member [of m u scs N] by simp
next
  case (3 m m' ms)
  have one: "scans u (memberText m) (objectScope N True # scs) (objectScope (insert (decoded u m) N) False # scs)
      (memberOK u m \<and> decoded u m \<notin> N)"
    using 3(3,4) by (intro scans_member) simp_all
  have rest: "scans u (separated (map memberText (m' # ms))) (objectScope (insert (decoded u m) N) True # scs)
      (objectScope (insert (decoded u m) N \<union> decoded u ` set (m' # ms)) False # scs)
      (list_all (memberOK u) (m' # ms) \<and> distinct (map (decoded u) (m' # ms)) \<and>
        decoded u ` set (m' # ms) \<inter> insert (decoded u m) N = {})"
    using 3(2) [of "insert (decoded u m) N"] 3(3,4) by simp
  have comma: "scans u '','' (objectScope M False # scs) (objectScope M True # scs) True" for M
    using structural_scans(5) [of u "objectScope M False" scs] by simp
  from scans_append [OF one scans_append [OF comma rest]] show ?case
    by (rule back_subst) (auto intro!: arg_cong2 [where f = "\<lambda>S P. scans u _ _ (objectScope S False # scs) P"])
qed

text \<open>An object literal is its members between braces.\<close>

lemma render_Object: "render (Object ms) = ''{'' @ separated (map memberText ms) @ ''}''"
  by (simp add: memberText_def [abs_def] case_prod_unfold comp_def)

lemma membersUnique_Object: "membersUnique u (Object ms) \<longleftrightarrow> list_all (memberOK u) ms \<and> distinct (map (decoded u) ms)"
proof -
  have "distinct (map (memberName u \<circ> fst) ms) \<longleftrightarrow> distinct (map (decoded u) ms)"
    if "\<forall>m \<in> set ms. memberName u (fst m) \<noteq> None"
  proof -
    have "map (memberName u \<circ> fst) ms = map (Some \<circ> decoded u) ms" using that by (auto simp: decoded_def)
    then show ?thesis by (metis distinct_map inj_Some list.map_comp inj_on_subset subset_UNIV)
  qed
  moreover have "None \<notin> set (map (memberName u \<circ> fst) ms) \<longleftrightarrow> (\<forall>m \<in> set ms. memberName u (fst m) \<noteq> None)"
    by force
  ultimately show ?thesis
    by (cases "\<forall>m \<in> set ms. memberName u (fst m) \<noteq> None") (auto simp add: memberOK_def list_all_iff simp del: not_None_eq)
qed

lemma scans_value:
  "wellFormed t \<Longrightarrow> scs = [] \<or> \<not> sc_key (hd scs) \<Longrightarrow> scans u (render t) scs scs (membersUnique u t)"
proof (induction t arbitrary: scs)
  case (Literal s)
  then show ?case by (simp add: scans_plain)
next
  case (Quoted b)
  then show ?case by (simp add: scans_string)
next
  case (Array vs)
  let ?sc = "\<lparr>sc_object = False, sc_key = False, sc_names = {}\<rparr>"
  have "scans u (separated (map render vs)) (?sc # scs) (?sc # scs) (list_all (membersUnique u) vs)"
    by (rule scans_elements) (use Array in \<open>auto simp: list_all_iff\<close>)
  from scans_append [OF structural_scans(1) scans_append [OF this structural_scans(3)]] show ?case by simp
next
  case (Object ms)
  have "scans u (separated (map memberText ms)) (objectScope {} True # scs) (objectScope ({} \<union> decoded u ` set ms) (ms = []) # scs)
      (list_all (memberOK u) ms \<and> distinct (map (decoded u) ms) \<and> decoded u ` set ms \<inter> {} = {})"
    by (rule scans_members) (use Object in \<open>auto simp: nameOK_def list_all_iff intro!: Object.IH\<close>)
  from scans_append [OF structural_scans(2) [folded objectScope_def] scans_append [OF this structural_scans(4)]]
  show ?case unfolding render_Object membersUnique_Object by simp
next
  case (Padded a v b)
  then show ?case using scans_append [OF scans_plain scans_append [OF Padded.IH scans_plain]] by simp
qed

text \<open>
  C16. Members are checked while they are generated: however the text of a JSON value is cut into
  fragments, the tracker reports an error exactly if some object of the value, at any depth, has a
  member name that does not decode or that repeats another one of the same object; a name inside a
  string value never counts, and the scope index is never out of range.
\<close>

theorem duplicate_members_detected:
  assumes "wellFormed t" "concat fragments = render t"
  shows "(snd (appendFragments unquote fragments newTracker) = None \<longleftrightarrow> membersUnique unquote t) \<and>
    snd (appendFragments unquote fragments newTracker) \<noteq> Some panicIndex"
proof -
  have "outsideString [] newTracker" by (simp add: outsideString_def newTracker_def)
  with scans_value [OF assms(1), of "[]" unquote] show ?thesis
    unfolding appendFragments_concat assms(2) using scansD by blast
qed

theorem duplicate_members_detected_witness:
  "snd (appendFragments Some [''{'' @ quote ''a'' @ '':[1,{'' @ quote ''a'', '':'' @ quote ''b:b'' @ ''}], '' @ quote ''a'', '':1}'']
     newTracker) \<noteq> None"
proof -
  let ?t = "Object [(([], ''a'', []), Array [Literal ''1'', Object [(([], ''a'', []), Quoted ''b:b'')]]), (('' '', ''a'', []), Literal ''1'')]"
  have w: "wellFormed ?t" and u: "\<not> membersUnique Some ?t"
    by (simp_all add: plainText_def structural_def memberName_def)
  have c: "concat [''{'' @ quote ''a'' @ '':[1,{'' @ quote ''a'', '':'' @ quote ''b:b'' @ ''}], '' @ quote ''a'', '':1}''] = render ?t"
    by (simp add: nameText_def)
  show ?thesis using duplicate_members_detected [OF w c, of Some] u by blast
qed

section \<open>Executable calls\<close>

text \<open>
  \<open>ExecutableToolCalls\<close>. The fragments of a segment have pairwise different indices, so the unstable
  \<open>sort.Slice\<close> of the code has one possible result, which \<open>sort_key\<close> computes.
\<close>

definition plainCall :: "string \<Rightarrow> string \<Rightarrow> string \<Rightarrow> ToolCall" where
  "plainCall i n args = \<lparr>tl_ID = i, tl_Name = n, tl_Arguments = args, tl_CatalogID = [], tl_CatalogGeneration = 0,
     tl_CatalogRevision = 0, tl_CatalogAuthority = 0\<rparr>"

definition memberErrorMessage :: "MemberError \<Rightarrow> message" where
  "memberErrorMessage e = (case e of
     errDuplicateJSONMember \<Rightarrow> Msg ''tool arguments contain a duplicate JSON object member''
   | errInvalidMemberName \<Rightarrow> Msg ''tool arguments contain an invalid JSON object member name''
   | panicIndex \<Rightarrow> Msg ''index out of range'')"

definition fragmentArguments :: "ToolCallFragment \<Rightarrow> string" where
  "fragmentArguments f = (if blank (tf_Arguments f) then ''{}'' else tf_Arguments f)"

fun executableCalls :: "'e AssemblyEnv_scheme \<Rightarrow> ToolCallFragment list \<Rightarrow> message + ToolCall list" where
  "executableCalls env [] = Inr []"
| "executableCalls env (f # fs) =
    (let arguments = fragmentArguments f
     in if tf_ID f = [] \<or> tf_Name f = [] \<or> \<not> jsonValid env arguments
          then Inl (Fmt ''tool call fragment %d is incomplete'' [ArgI (tf_Index f)])
        else case snd (Append (jsonString env) arguments newTracker) of
          Some e \<Rightarrow> Inl (Fmt ''tool call fragment %d: %w'' [ArgI (tf_Index f), ArgM (memberErrorMessage e)])
        | None \<Rightarrow> map_sum id (\<lambda>calls. plainCall (tf_ID f) (tf_Name f) arguments # calls) (executableCalls env fs))"

definition ExecutableToolCalls :: "'e AssemblyEnv_scheme \<Rightarrow> ResponseAssembly \<Rightarrow> message + ToolCall list" where
  "ExecutableToolCalls env a = (case currentOrNil a of
     None \<Rightarrow> Inl (Msg ''response is not complete'')
   | Some s \<Rightarrow> (if rg_State s \<noteq> ResponseComplete then Inl (Msg ''response is not complete'')
       else executableCalls env (sort_key tf_Index (rg_ToolFragments s))))"

definition executable :: "'e AssemblyEnv_scheme \<Rightarrow> ToolCallFragment \<Rightarrow> bool" where
  "executable env f \<longleftrightarrow> tf_ID f \<noteq> [] \<and> tf_Name f \<noteq> [] \<and> jsonValid env (fragmentArguments f) \<and>
     snd (Append (jsonString env) (fragmentArguments f) newTracker) = None"

definition callOf :: "ToolCallFragment \<Rightarrow> ToolCall" where
  "callOf f = plainCall (tf_ID f) (tf_Name f) (fragmentArguments f)"

lemma executableCalls_Inr: "executableCalls env fs = Inr calls \<longleftrightarrow> list_all (executable env) fs \<and> calls = map callOf fs"
proof (induction fs arbitrary: calls)
  case (Cons f fs)
  show ?case
  proof (cases "executableCalls env fs")
    case (Inl e)
    then have "\<not> list_all (executable env) fs" using Cons [of "map callOf fs"] by simp
    then show ?thesis using Inl by (auto simp: Let_def split: option.splits)
  next
    case (Inr cs)
    then have "list_all (executable env) fs" "cs = map callOf fs" using Cons [of cs] by simp_all
    then show ?thesis using Inr
      by (auto simp: Let_def executable_def [of env f] callOf_def [of f] split: option.splits)
  qed
qed auto

text \<open>
  A response hands out its tool calls completely or not at all: it is complete, every fragment has an
  identifier, a name and valid arguments without a repeated member, and the calls are the fragments in the
  order of their indices.
\<close>

theorem executable_calls_exact:
  "ExecutableToolCalls env a = Inr calls \<longleftrightarrow> (\<exists>s. currentOrNil a = Some s \<and> rg_State s = ResponseComplete \<and>
     list_all (executable env) (rg_ToolFragments s) \<and> calls = map callOf (sort_key tf_Index (rg_ToolFragments s)))"
  by (auto simp: ExecutableToolCalls_def executableCalls_Inr list_all_iff split: option.splits)

end
