(* ===== verification/Stream_Assembly.thy ===== *)
theory Stream_Assembly
  imports Assembly_Operations
begin

text \<open>
  What the stream consumer relies on when it assembles a provider response
  (\<open>src/internal/adapter/provider/assembly/response_assembly.go\<close>): no delta is lost, a redelivered
  event changes nothing, every checkpoint extends the one before, and repairs stay within their limit.
\<close>

section \<open>Assembled content\<close>

definition textOf :: "ContentBlock list \<Rightarrow> string" where
  "textOf bs = concat (map cb_Text (filter (\<lambda>b. cb_Type b = ContentText) bs))"

definition argumentsAt :: "int \<Rightarrow> ToolCallFragment list \<Rightarrow> string" where
  "argumentsAt i fs = concat (map tf_Arguments (filter (\<lambda>f. tf_Index f = i) fs))"

definition deltaText :: "'e AssemblyEnv_scheme \<Rightarrow> StreamEvent \<Rightarrow> string" where
  "deltaText env e = (let b = responseEventBlock env e (case se_Type e of EventTextDelta \<Rightarrow> ContentText
         | EventReasoningDelta \<Rightarrow> ContentReasoning | EventSearchResult \<Rightarrow> ContentSearch | _ \<Rightarrow> ContentCitation)
     in if se_Type e \<in> {EventTextDelta, EventReasoningDelta, EventSearchResult, EventCitation} \<and>
          cb_Type b = ContentText then cb_Text b else [])"

definition deltaArguments :: "int \<Rightarrow> StreamEvent \<Rightarrow> string" where
  "deltaArguments i e = (case se_ToolCall e of
     Some f \<Rightarrow> if se_Type e = EventToolCallDelta \<and> tf_Index f = i then tf_Arguments f else []
   | None \<Rightarrow> [])"

lemma textOf_snoc: "textOf (bs @ [b]) = textOf bs @ (if cb_Type b = ContentText then cb_Text b else [])"
  by (simp add: textOf_def)

lemma textOf_append: "textOf (appendResponseBlock bs b) = textOf bs @ (if cb_Type b = ContentText then cb_Text b else [])"
  by (cases bs rule: rev_cases) (auto simp: appendResponseBlock_def textOf_def Let_def)

lemma argumentsAt_absent: "i \<notin> tf_Index ` set fs \<Longrightarrow> argumentsAt i fs = []"
  by (auto simp: argumentsAt_def filter_empty_conv)

lemma appendToolFragment_indices:
  "map tf_Index (fst (appendToolFragment f fs)) =
     (if tf_Index f \<in> tf_Index ` set fs then map tf_Index fs else map tf_Index fs @ [tf_Index f])"
proof (induction f fs rule: appendToolFragment.induct)
  case (2 f c rest)
  obtain rest' err where r: "appendToolFragment f rest = (rest', err)" by (cases "appendToolFragment f rest")
  show ?case
  proof (cases "tf_Index c = tf_Index f")
    case False
    then show ?thesis using 2(1) r by simp
  qed (simp add: Let_def)
qed simp

lemma appendToolFragment_distinct:
  "distinct (map tf_Index fs) \<Longrightarrow> distinct (map tf_Index (fst (appendToolFragment f fs)))"
  by (simp add: appendToolFragment_indices)

lemma appendToolFragment_arguments:
  assumes "snd (appendToolFragment f fs) = None" "distinct (map tf_Index fs)"
  shows "argumentsAt i (fst (appendToolFragment f fs)) =
    argumentsAt i fs @ (if tf_Index f = i then tf_Arguments f else [])"
  using assms
proof (induction f fs rule: appendToolFragment.induct)
  case (1 f)
  then show ?case by (simp add: argumentsAt_def)
next
  case (2 f c rest)
  have cons: "argumentsAt i (d # ds) = (if tf_Index d = i then tf_Arguments d else []) @ argumentsAt i ds" for d ds
    by (simp add: argumentsAt_def)
  show ?case
  proof (cases "tf_Index c = tf_Index f")
    case True
    then have "tf_Index f \<notin> tf_Index ` set rest" using 2(3) by auto
    from argumentsAt_absent [OF this] show ?thesis
      using True 2(2) by (auto simp: cons Let_def split: if_splits)
  next
    case False
    then show ?thesis using 2 by (auto simp: cons split: prod.splits)
  qed
qed

lemma applyEvent_content:
  assumes "applyEvent env e s = (s', None)" "StreamEvent_Validate v e = None"
    "distinct (map tf_Index (rg_ToolFragments s))"
  shows "textOf (rg_Blocks s') = textOf (rg_Blocks s) @ deltaText env e"
    "argumentsAt i (rg_ToolFragments s') = argumentsAt i (rg_ToolFragments s) @ deltaArguments i e"
    "distinct (map tf_Index (rg_ToolFragments s'))"
proof -
  note tool = StreamEvent_Validate_payload(1) [OF assms(2)]
  show "textOf (rg_Blocks s') = textOf (rg_Blocks s) @ deltaText env e"
    using assms(1)
    by (cases "se_Type e") (auto simp: applyEvent_def deltaText_def textOf_append textOf_snoc Let_def
        split: prod.splits if_splits)
  show "argumentsAt i (rg_ToolFragments s') = argumentsAt i (rg_ToolFragments s) @ deltaArguments i e"
  proof (cases "se_Type e = EventToolCallDelta")
    case True
    then obtain f where f: "se_ToolCall e = Some f" using tool by blast
    then have "rg_ToolFragments s' = fst (appendToolFragment f (rg_ToolFragments s))"
      "snd (appendToolFragment f (rg_ToolFragments s)) = None"
      using assms(1) True by (auto simp: applyEvent_def split: prod.splits)
    then show ?thesis
      using appendToolFragment_arguments [OF _ assms(3), of f i] True f by (simp add: deltaArguments_def)
  next
    case False
    then have "rg_ToolFragments s' = rg_ToolFragments s"
      using assms(1) by (cases "se_Type e") (auto simp: applyEvent_def Let_def split: if_splits)
    then show ?thesis using False by (simp add: deltaArguments_def split: option.split)
  qed
  show "distinct (map tf_Index (rg_ToolFragments s'))"
    using assms(1,3) appendToolFragment_distinct [OF assms(3)]
    by (cases "se_Type e") (auto simp: applyEvent_def Let_def split: if_splits prod.splits, metis fst_conv)
qed

section \<open>A concrete stream\<close>

text \<open>An instance of the encoders the assembly calls, a response of one open transport, and a delta for it.\<close>

definition plainEnv :: AssemblyEnv where
  "plainEnv = \<lparr>jsonValid = (\<lambda>x. x \<noteq> []), sha256hex = id, jsonStreamEvent = (\<lambda>e. Some (se_EventID e @ se_Text e)),
     jsonBlock = id, jsonAssembly = Some, jsonString = Some\<rparr>"

definition wireTransport :: TransportMetadata where
  "wireTransport = zeroTransport\<lparr>tm_LogicalRequestID := ''r1'', tm_TransportRequestID := ''t1'', tm_Attempt := 1\<rparr>"

definition openResponse :: ResponseAssembly where
  "openResponse = (NewResponseAssembly ''r1'')\<lparr>ra_State := ResponseStreaming, ra_Segments := [newSegment wireTransport]\<rparr>"

definition helloEvent :: StreamEvent where
  "helloEvent = \<lparr>se_Type = EventTextDelta, se_EventID = ''e1'', se_Sequenced = False, se_Sequence = 0, se_Ordinal = 0,
     se_StopReason = StopReasonUnset, se_Index = 0, se_Block = None, se_Text = ''hello'', se_Signature = [],
     se_ToolCall = None, se_Search = None, se_Citation = None, se_Usage = None, se_Replay = None,
     se_ReplayFragment = [], se_Response = None\<rparr>"

lemmas stream_eval = plainEnv_def wireTransport_def openResponse_def helloEvent_def NewResponseAssembly_def
  newSegment_def currentOrNil_def setCurrent_def Apply_event_def StreamEvent_Validate_def
  responseEventIdentity_def recordIdentity_def applyEvent_def appendResponseBlock_def responseEventBlock_def
  digestBytes_def emptyBlock_def fail_if_def

section \<open>One event\<close>

lemma currentOrNil_setCurrent [simp]: "currentOrNil (setCurrent s a) = Some s"
  by (simp add: currentOrNil_def setCurrent_def)

lemma currentOrNil_state [simp]: "currentOrNil (a\<lparr>ra_State := x\<rparr>) = currentOrNil a"
  by (simp add: currentOrNil_def)

lemma Apply_event_valid: "Apply_event env e a = (a', Inr b) \<Longrightarrow> StreamEvent_Validate (jsonValid env) e = None"
  by (auto simp: Apply_event_def split: option.splits if_splits)

lemma recordIdentity_content:
  "recordIdentity e key d s = Inr s1 \<Longrightarrow> rg_Blocks s1 = rg_Blocks s \<and> rg_ToolFragments s1 = rg_ToolFragments s"
  by (auto simp: recordIdentity_def Let_def split: if_splits)



text \<open>
  Redelivery is harmless: an event with an identity that was accepted once, other than the final
  stop, is recognized when it arrives again: nothing changes, and the caller is told that it was not applied.
\<close>

theorem redelivered_event_dropped:
  assumes "Apply_event env e a = (a', Inr True)" "se_Type e \<noteq> EventMessageStop"
    "responseEventIdentity env e = Inr (key, digest)" "key \<noteq> []"
  shows "Apply_event env e a' = (a', Inr False)"
  using assms(1)
proof (cases rule: Apply_event_Inr)
  case (2 s0 k d s1 s2)
  have kd: "recordIdentity e key digest s0 = Inr s1" using 2(5,8) assms(3) by simp
  have "rg_Seen s2 = rg_Seen s1" "rg_State s2 = rg_State s1"
    using 2(6) assms(2) by (cases "se_Type e"; auto simp: applyEvent_def Let_def split: if_splits prod.splits)+
  moreover have "fmlookup (rg_Seen s1) key = Some digest" "rg_State s1 = rg_State s0"
    using kd assms(4) by (auto simp: recordIdentity_def Let_def split: if_splits)
  ultimately show ?thesis
    using 2(3,7) assms(2-4) Apply_event_valid [OF assms(1)] by (simp add: Apply_event_def)
qed simp

theorem redelivered_event_dropped_witness:
  "\<exists>a'. Apply_event plainEnv helloEvent openResponse = (a', Inr True) \<and> a' \<noteq> openResponse \<and>
    Apply_event plainEnv helloEvent a' = (a', Inr False)"
proof -
  define a' where "a' = fst (Apply_event plainEnv helloEvent openResponse)"
  have 1: "Apply_event plainEnv helloEvent openResponse = (a', Inr True)" "a' \<noteq> openResponse"
    by (simp_all add: a'_def stream_eval)
  have 2: "responseEventIdentity plainEnv helloEvent = Inr (''e1'', ''sha256:e1hello'')" "se_Type helloEvent \<noteq> EventMessageStop"
    by (simp_all add: stream_eval)
  show ?thesis using 1 redelivered_event_dropped [OF 1(1) 2(2,1)] by blast
qed

section \<open>Repair authorizations\<close>

text \<open>
  A repair authorization is durable and bounded: it is a legal extension of the recorded response,
  asking again after a restart changes nothing whatever limit is then in force, no authorization takes the
  count past the configured limit, and only a rejected response can be authorized.
\<close>

theorem repair_authorization_durable:
  assumes "Assembly_Validate a = None" "length (ra_Segments a) < 2 ^ 32"
    "AuthorizeToolArgumentRepair limit a = (a', None)"
  shows "ToolArgumentsRejected a \<and> ValidateExtension a' (Some a) = None \<and>
    AuthorizeToolArgumentRepair limit' a' = (a', None) \<and>
    length (ra_ToolArgumentRepairs a') \<le> max (length (ra_ToolArgumentRepairs a)) (nat limit)"
  using AuthorizeToolArgumentRepair_sound [OF assms] assms(3)
  by (auto simp: AuthorizeToolArgumentRepair_def split: if_splits)

definition rejectedResponse :: ResponseAssembly where
  "rejectedResponse = openResponse\<lparr>ra_State := ResponseFailed, ra_Segments := [(newSegment wireTransport)
     \<lparr>rg_State := ResponseFailed, rg_RejectedToolArguments := True,
      rg_ToolFragments := [\<lparr>tf_Index = 0, tf_ID = ''c1'', tf_Name = ''shell'', tf_Arguments = ''{''\<rparr>]\<rparr>]\<rparr>"

theorem repair_authorization_durable_witness:
  "\<exists>a'. AuthorizeToolArgumentRepair 1 rejectedResponse = (a', None) \<and> ra_ToolArgumentRepairs a' = [1] \<and>
    ValidateExtension a' (Some rejectedResponse) = None \<and> AuthorizeToolArgumentRepair 0 a' = (a', None)"
proof -
  define a' where "a' = rejectedResponse\<lparr>ra_ToolArgumentRepairs := [1]\<rparr>"
  have "Assembly_Validate rejectedResponse = None"
    by (simp add: rejectedResponse_def stream_eval Assembly_Validate_None ResponseAssemblyVersion_def segmentOK_def
        repairsOK_def zeroTransport_def)
  moreover have 2: "AuthorizeToolArgumentRepair 1 rejectedResponse = (a', None)" "ra_ToolArgumentRepairs a' = [1]"
    "length (ra_Segments rejectedResponse) < 2 ^ 32"
    by (simp_all add: a'_def rejectedResponse_def stream_eval AuthorizeToolArgumentRepair_def ToolArgumentsRejected_def
        toolArgumentRepairAuthorized_def)
  ultimately show ?thesis using repair_authorization_durable [of rejectedResponse 1 a' 0] by blast
qed

end
