(* ===== verification/Delta_Stream.thy ===== *)
theory Delta_Stream
  imports Stream_Assembly
begin

text \<open>
  The buffer between a provider stream and its consumer,
  \<open>src/internal/adapter/provider/assembly/delta_stream.go\<close>: a reader goroutine offers the events of the
  source, the consumer receives them, and deltas that wait for a busy consumer are merged.

  Every critical section of the mutex is one step. An operation that waits on the condition variable is
  \<open>None\<close> in the states in which it has to wait. The history fields \<open>ds_taken\<close> and \<open>ds_delivered\<close> are not
  part of the code: they record what the reader took from the source and what \<open>Recv\<close> returned.
\<close>

section \<open>Merging deltas\<close>

datatype RecvError = EOF | Canceled | OtherError string

datatype streamResult = Received StreamEvent | Failed RecvError

definition MaxCoalescedDeltaBytes :: nat where "MaxCoalescedDeltaBytes = 1024"

definition outputBearingEvent :: "StreamEvent \<Rightarrow> bool" where
  "outputBearingEvent e \<longleftrightarrow> se_Type e = EventTextDelta \<or> se_Type e = EventReasoningDelta \<or>
     se_Type e = EventSearchResult \<or> se_Type e = EventCitation \<or> se_Type e = EventToolCallDelta"

definition coalescibleDelta :: "StreamEvent \<Rightarrow> bool" where
  "coalescibleDelta e =
    (if se_Type e = EventTextDelta \<or> se_Type e = EventReasoningDelta then se_Text e \<noteq> []
     else if se_Type e = EventToolCallDelta then se_ToolCall e \<noteq> None
     else False)"

definition deltaIndex :: "StreamEvent \<Rightarrow> int" where
  "deltaIndex e = (case se_ToolCall e of
     Some f \<Rightarrow> if se_Type e = EventToolCallDelta then tf_Index f else se_Index e
   | None \<Rightarrow> se_Index e)"

definition compatibleDelta :: "StreamEvent \<Rightarrow> StreamEvent \<Rightarrow> bool" where
  "compatibleDelta buffered next =
    (if se_Sequenced buffered \<or> se_Sequenced next \<or> se_EventID buffered \<noteq> [] \<or> se_EventID next \<noteq> [] then False
     else if se_Type buffered \<noteq> EventToolCallDelta then True
     else case (se_ToolCall buffered, se_ToolCall next) of
       (Some current, Some incoming) \<Rightarrow>
         (tf_ID current = [] \<or> tf_ID incoming = [] \<or> tf_ID current = tf_ID incoming) \<and>
         (tf_Name current = [] \<or> tf_Name incoming = [] \<or> tf_Name current = tf_Name incoming)
     | _ \<Rightarrow> False)"

definition deltaSize :: "StreamEvent \<Rightarrow> nat" where
  "deltaSize e = (case se_ToolCall e of
     Some f \<Rightarrow> if se_Type e = EventToolCallDelta then length (tf_Arguments f) else length (se_Text e)
   | None \<Rightarrow> length (se_Text e))"

definition mergeFragment :: "ToolCallFragment \<Rightarrow> ToolCallFragment \<Rightarrow> ToolCallFragment" where
  "mergeFragment current incoming = current\<lparr>
     tf_ID := (if tf_ID current = [] then tf_ID incoming else tf_ID current),
     tf_Name := (if tf_Name current = [] then tf_Name incoming else tf_Name current),
     tf_Arguments := tf_Arguments current @ tf_Arguments incoming\<rparr>"

definition mergeDelta :: "StreamEvent \<Rightarrow> StreamEvent \<Rightarrow> StreamEvent" where
  "mergeDelta buffered next =
    (if se_Type buffered = EventToolCallDelta
     then buffered\<lparr>se_ToolCall := Some (mergeFragment (the (se_ToolCall buffered)) (the (se_ToolCall next)))\<rparr>
     else buffered\<lparr>se_Text := se_Text buffered @ se_Text next,
       se_Block := (case (se_Block buffered, se_Block next) of
           (Some b, Some n) \<Rightarrow> Some (b\<lparr>cb_Text := cb_Text b @ cb_Text n\<rparr>)
         | _ \<Rightarrow> se_Block buffered)\<rparr>)"

definition mergeable :: "streamResult \<Rightarrow> streamResult \<Rightarrow> bool" where
  "mergeable pending result = (case (pending, result) of
     (Received buffered, Received next) \<Rightarrow>
       coalescibleDelta buffered \<and> coalescibleDelta next \<and> se_Type buffered = se_Type next \<and>
       deltaIndex buffered = deltaIndex next \<and> compatibleDelta buffered next \<and>
       deltaSize next \<le> MaxCoalescedDeltaBytes \<and> deltaSize buffered \<le> MaxCoalescedDeltaBytes - deltaSize next
   | _ \<Rightarrow> False)"

definition merged :: "streamResult \<Rightarrow> streamResult \<Rightarrow> streamResult" where
  "merged pending result = (case (pending, result) of
     (Received buffered, Received next) \<Rightarrow> Received (mergeDelta buffered next)
   | _ \<Rightarrow> pending)"

section \<open>The stream\<close>

datatype readerState = NotStarted | Checking | Receiving | Offering streamResult | Stopped

record DeltaCoalescingStream =
  ds_source :: "streamResult list"
  ds_reader :: readerState
  ds_pending :: "streamResult option"
  ds_closed :: bool
  ds_finished :: bool
  ds_taken :: "streamResult list"
  ds_delivered :: "streamResult list"

definition NewDeltaCoalescingStream :: "streamResult list \<Rightarrow> DeltaCoalescingStream" where
  "NewDeltaCoalescingStream source = \<lparr>ds_source = source, ds_reader = NotStarted, ds_pending = None,
     ds_closed = False, ds_finished = False, ds_taken = [], ds_delivered = []\<rparr>"

definition finishes :: "streamResult \<Rightarrow> bool" where
  "finishes r = (case r of Failed _ \<Rightarrow> True | Received e \<Rightarrow> se_Type e = EventMessageStop)"

text \<open>\<open>offer\<close>, up to the point where it waits: the flag is its result.\<close>

definition offer :: "streamResult \<Rightarrow> DeltaCoalescingStream \<Rightarrow> (DeltaCoalescingStream \<times> bool) option" where
  "offer result s =
    (if ds_closed s then Some (s, False)
     else case ds_pending s of
       None \<Rightarrow> Some (s\<lparr>ds_pending := Some result, ds_finished := finishes result\<rparr>, True)
     | Some p \<Rightarrow> (if mergeable p result then Some (s\<lparr>ds_pending := Some (merged p result)\<rparr>, True) else None))"

definition Recv :: "DeltaCoalescingStream \<Rightarrow> (DeltaCoalescingStream \<times> streamResult) option" where
  "Recv s0 =
    (let s = (if ds_reader s0 = NotStarted then s0\<lparr>ds_reader := Checking\<rparr> else s0)
     in if ds_pending s = None \<and> \<not> ds_closed s \<and> \<not> ds_finished s then None
        else case ds_pending s of
          None \<Rightarrow> Some (s, Failed EOF)
        | Some r \<Rightarrow> (if ds_closed s then Some (s, Failed EOF)
            else Some (s\<lparr>ds_pending := None, ds_delivered := ds_delivered s @ [r]\<rparr>, r)))"

text \<open>A consumer that calls \<open>Recv\<close> and has to wait has still started the reader.\<close>

definition startReader :: "DeltaCoalescingStream \<Rightarrow> DeltaCoalescingStream" where
  "startReader s = (if ds_reader s = NotStarted then s\<lparr>ds_reader := Checking\<rparr> else s)"

definition Close :: "DeltaCoalescingStream \<Rightarrow> DeltaCoalescingStream" where
  "Close s = s\<lparr>ds_closed := True, ds_pending := None\<rparr>"

text \<open>One step of the goroutine \<open>read\<close>: the closed check, the receive on the source, the offer.\<close>

definition read :: "DeltaCoalescingStream \<Rightarrow> DeltaCoalescingStream option" where
  "read s = (case ds_reader s of
     NotStarted \<Rightarrow> None
   | Stopped \<Rightarrow> None
   | Checking \<Rightarrow> Some (s\<lparr>ds_reader := (if ds_closed s then Stopped else Receiving)\<rparr>)
   | Receiving \<Rightarrow> (case ds_source s of
       [] \<Rightarrow> None
     | r # rest \<Rightarrow> Some (s\<lparr>ds_source := rest, ds_taken := ds_taken s @ [r], ds_reader := Offering r\<rparr>))
   | Offering r \<Rightarrow> map_option (\<lambda>(s', accepted).
       s'\<lparr>ds_reader := (if \<not> accepted \<or> finishes r then Stopped else Checking)\<rparr>) (offer r s))"

inductive ds_step :: "DeltaCoalescingStream \<Rightarrow> DeltaCoalescingStream \<Rightarrow> bool" where
  start: "ds_step s (startReader s)"
| read: "read s = Some s' \<Longrightarrow> ds_step s s'"
| recv: "Recv s = Some (s', r) \<Longrightarrow> ds_step s s'"
| close: "ds_step s (Close s)"

section \<open>What the consumer receives\<close>

text \<open>
  The second list delivers the first one: every result on its own or merged into the result before it, in
  order, under the guards of \<open>offer\<close>.
\<close>

inductive coalesced :: "streamResult list \<Rightarrow> streamResult list \<Rightarrow> bool" where
  empty: "coalesced [] []"
| single: "coalesced xs ys \<Longrightarrow> coalesced (xs @ [r]) (ys @ [r])"
| merge: "coalesced xs (ys @ [p]) \<Longrightarrow> mergeable p r \<Longrightarrow> coalesced (xs @ [r]) (ys @ [merged p r])"

definition offered :: "DeltaCoalescingStream \<Rightarrow> streamResult list" where
  "offered s = (case ds_reader s of Offering r \<Rightarrow> butlast (ds_taken s) | _ \<Rightarrow> ds_taken s)"

definition waiting :: "DeltaCoalescingStream \<Rightarrow> streamResult list" where
  "waiting s = (case ds_pending s of None \<Rightarrow> [] | Some p \<Rightarrow> [p])"

definition deliversFrom :: "streamResult list \<Rightarrow> streamResult list \<Rightarrow> bool" where
  "deliversFrom taken delivered \<longleftrightarrow> (\<exists>xs zs. prefix xs taken \<and> coalesced xs (delivered @ zs))"

lemma deliversFrom_more: "deliversFrom taken delivered \<Longrightarrow> deliversFrom (taken @ later) delivered"
  unfolding deliversFrom_def using prefix_prefix by blast

definition ds_inv :: "streamResult list \<Rightarrow> DeltaCoalescingStream \<Rightarrow> bool" where
  "ds_inv source s \<longleftrightarrow> ds_taken s @ ds_source s = source \<and>
     (\<forall>r. ds_reader s = Offering r \<longrightarrow> ds_taken s \<noteq> [] \<and> last (ds_taken s) = r) \<and>
     deliversFrom (ds_taken s) (ds_delivered s) \<and>
     (\<not> ds_closed s \<longrightarrow> coalesced (offered s) (ds_delivered s @ waiting s) \<and>
        (ds_finished s \<longleftrightarrow> ds_reader s = Stopped)) \<and>
     (\<forall>e. ds_pending s = Some (Received e) \<longrightarrow>
        deltaSize e \<le> MaxCoalescedDeltaBytes \<or> Received e \<in> set (ds_taken s))"

lemma ds_inv_init: "ds_inv source (NewDeltaCoalescingStream source)"
  using coalesced.empty
  by (auto simp: ds_inv_def NewDeltaCoalescingStream_def offered_def waiting_def deliversFrom_def)

lemma deltaSize_merge:
  assumes "mergeable (Received b) (Received e)"
  shows "deltaSize (mergeDelta b e) \<le> MaxCoalescedDeltaBytes"
  using assms
  by (auto simp: mergeable_def coalescibleDelta_def deltaSize_def mergeDelta_def mergeFragment_def compatibleDelta_def
      split: option.splits if_splits)

lemma mergeable_Received:
  assumes "mergeable p r"
  obtains b e where "p = Received b" "r = Received e" "merged p r = Received (mergeDelta b e)" "\<not> finishes r"
  using assms by (cases p; cases r) (auto simp: mergeable_def merged_def finishes_def coalescibleDelta_def split: if_splits)

lemma offer_inv:
  assumes "ds_inv source s" "ds_reader s = Offering r" "offer r s = Some (s', accepted)"
  shows "ds_inv source (s'\<lparr>ds_reader := (if \<not> accepted \<or> finishes r then Stopped else Checking)\<rparr>)"
proof (cases "ds_closed s")
  case True
  then show ?thesis using assms by (auto simp: offer_def ds_inv_def)
next
  case False
  obtain xs where xs: "ds_taken s = xs @ [r]"
    using assms(1,2) by (metis append_butlast_last_id ds_inv_def)
  have co: "coalesced xs (ds_delivered s @ waiting s)" "\<not> ds_finished s"
    using assms(1,2) False xs by (simp_all add: ds_inv_def offered_def)
  show ?thesis
  proof (cases "ds_pending s")
    case None
    then have s': "s' = s\<lparr>ds_pending := Some r, ds_finished := finishes r\<rparr>" "accepted"
      using assms(3) False by (auto simp: offer_def)
    have "coalesced (ds_taken s) (ds_delivered s @ [r])" using coalesced.single [OF co(1)] None xs by (simp add: waiting_def)
    then show ?thesis using assms(1,2) s' False xs by (auto simp: ds_inv_def offered_def waiting_def)
  next
    case (Some p)
    then have m: "mergeable p r" and s': "s' = s\<lparr>ds_pending := Some (merged p r)\<rparr>" "accepted"
      using assms(3) False by (auto simp: offer_def split: if_splits)
    have c: "coalesced (ds_taken s) (ds_delivered s @ [merged p r])"
      using coalesced.merge [OF _ m, of xs "ds_delivered s"] co(1) Some xs by (simp add: waiting_def)
    obtain b e where be: "p = Received b" "r = Received e" "merged p r = Received (mergeDelta b e)" "\<not> finishes r"
      using m by (rule mergeable_Received)
    then have "deltaSize (mergeDelta b e) \<le> MaxCoalescedDeltaBytes" using m deltaSize_merge by simp
    then show ?thesis using assms(1,2) s' False xs c be co(2) by (auto simp: ds_inv_def offered_def waiting_def)
  qed
qed

lemma read_inv:
  assumes "ds_inv source s" "read s = Some s'"
  shows "ds_inv source s'"
proof (cases "ds_reader s")
  case (Offering r)
  then obtain t accepted where "offer r s = Some (t, accepted)"
    "s' = t\<lparr>ds_reader := (if \<not> accepted \<or> finishes r then Stopped else Checking)\<rparr>"
    using assms(2) by (auto simp: read_def)
  then show ?thesis using offer_inv [OF assms(1) Offering] by blast
next
  case Checking
  then show ?thesis using assms by (auto simp: read_def ds_inv_def offered_def waiting_def split: if_splits)
next
  case Receiving
  then obtain r rest where "ds_source s = r # rest"
    "s' = s\<lparr>ds_source := rest, ds_taken := ds_taken s @ [r], ds_reader := Offering r\<rparr>"
    using assms(2) by (auto simp: read_def split: list.splits)
  then show ?thesis using assms(1) Receiving
    by (auto simp: ds_inv_def offered_def waiting_def deliversFrom_more)
qed (use assms in \<open>auto simp: read_def\<close>)

lemma startReader_inv: "ds_inv source s \<Longrightarrow> ds_inv source (startReader s)"
  by (auto simp: startReader_def ds_inv_def offered_def waiting_def)

lemma Recv_startReader: "Recv s = Recv (startReader s)"
  by (simp add: Recv_def startReader_def Let_def)

lemma Recv_inv:
  assumes "ds_inv source s" "Recv s = Some (s', r)"
  shows "ds_inv source s'"
proof -
  let ?s = "startReader s"
  have i: "ds_inv source ?s" by (rule startReader_inv [OF assms(1)])
  have nr: "ds_reader ?s \<noteq> NotStarted" by (simp add: startReader_def)
  from assms(2) consider "s' = ?s"
    | p where "ds_pending ?s = Some p" "\<not> ds_closed ?s" "s' = ?s\<lparr>ds_pending := None, ds_delivered := ds_delivered ?s @ [p]\<rparr>"
    by (auto simp: Recv_def startReader_def Let_def split: option.splits if_splits)
  then show ?thesis
  proof cases
    case 2
    have "prefix (offered ?s) (ds_taken ?s)" by (auto simp: offered_def prefixeq_butlast split: readerState.split)
    moreover have c: "coalesced (offered ?s) (ds_delivered ?s @ [p])" using i 2 by (simp add: ds_inv_def waiting_def)
    ultimately have "deliversFrom (ds_taken ?s) (ds_delivered ?s @ [p])"
      unfolding deliversFrom_def by (metis append_Nil2)
    moreover have "offered s' = offered ?s" using 2(3) by (simp add: offered_def split: readerState.split)
    ultimately show ?thesis using i 2 c by (simp add: ds_inv_def waiting_def)
  qed (use i in simp)
qed

lemma Close_inv: "ds_inv source s \<Longrightarrow> ds_inv source (Close s)"
  by (simp add: ds_inv_def Close_def)

lemma ds_inv_step: "ds_step s s' \<Longrightarrow> ds_inv source s \<Longrightarrow> ds_inv source s'"
proof (induction rule: ds_step.induct)
  case (start s)
  then show ?case by (rule startReader_inv)
next
  case (read s s')
  then show ?case by (rule read_inv [rotated])
next
  case (recv s s' r)
  then show ?case by (rule Recv_inv [rotated])
next
  case (close s)
  then show ?case by (rule Close_inv)
qed

lemma ds_inv_reachable: "ds_step\<^sup>*\<^sup>* (NewDeltaCoalescingStream source) s \<Longrightarrow> ds_inv source s"
  by (induction rule: rtranclp_induct) (auto simp: ds_inv_init ds_inv_step)

text \<open>A reader that has merged two waiting words before the consumer takes them.\<close>

definition wordEvent :: "string \<Rightarrow> StreamEvent" where
  "wordEvent w = helloEvent\<lparr>se_EventID := [], se_Text := w\<rparr>"

definition twoWords :: "streamResult list" where
  "twoWords = [Received (wordEvent ''ab''), Received (wordEvent ''cd'')]"

definition bufferedWords :: DeltaCoalescingStream where
  "bufferedWords = (NewDeltaCoalescingStream twoWords)\<lparr>ds_source := [], ds_reader := Checking,
     ds_pending := Some (Received (wordEvent ''abcd'')), ds_taken := twoWords\<rparr>"

lemmas buffer_eval = NewDeltaCoalescingStream_def startReader_def read_def offer_def finishes_def mergeable_def merged_def
  mergeDelta_def coalescibleDelta_def compatibleDelta_def deltaIndex_def deltaSize_def MaxCoalescedDeltaBytes_def

lemma ds_reads: "ds_step\<^sup>*\<^sup>* s0 s \<Longrightarrow> read s = Some s' \<Longrightarrow> ds_step\<^sup>*\<^sup>* s0 s'"
  by (rule rtranclp.rtrancl_into_rtrancl) (auto intro: ds_step.read)

lemma bufferedWords_reachable: "ds_step\<^sup>*\<^sup>* (NewDeltaCoalescingStream twoWords) bufferedWords"
proof -
  let ?a = "wordEvent ''ab''" and ?b = "wordEvent ''cd''" and ?s0 = "NewDeltaCoalescingStream twoWords"
  let ?s1 = "?s0\<lparr>ds_reader := Checking\<rparr>"
  let ?t1 = "?s0\<lparr>ds_source := [Received ?b], ds_taken := [Received ?a]\<rparr>"
  let ?t2 = "?t1\<lparr>ds_pending := Some (Received ?a), ds_reader := Checking\<rparr>"
  let ?t3 = "?t2\<lparr>ds_source := [], ds_taken := [Received ?a, Received ?b]\<rparr>"
  have "ds_step\<^sup>*\<^sup>* ?s0 ?s1" using ds_step.start [of ?s0] by (simp add: buffer_eval r_into_rtranclp)
  then have "ds_step\<^sup>*\<^sup>* ?s0 (?s1\<lparr>ds_reader := Receiving\<rparr>)" by (rule ds_reads) (simp add: buffer_eval)
  then have "ds_step\<^sup>*\<^sup>* ?s0 (?t1\<lparr>ds_reader := Offering (Received ?a)\<rparr>)"
    by (rule ds_reads) (simp add: buffer_eval twoWords_def)
  then have "ds_step\<^sup>*\<^sup>* ?s0 ?t2"
    by (rule ds_reads) (simp add: buffer_eval twoWords_def wordEvent_def helloEvent_def)
  then have "ds_step\<^sup>*\<^sup>* ?s0 (?t2\<lparr>ds_reader := Receiving\<rparr>)" by (rule ds_reads) (simp add: buffer_eval)
  then have "ds_step\<^sup>*\<^sup>* ?s0 (?t3\<lparr>ds_reader := Offering (Received ?b)\<rparr>)"
    by (rule ds_reads) (simp add: buffer_eval twoWords_def)
  then have "ds_step\<^sup>*\<^sup>* ?s0 bufferedWords"
    by (rule ds_reads) (simp add: buffer_eval bufferedWords_def twoWords_def wordEvent_def helloEvent_def)
  then show ?thesis .
qed

text \<open>
  C18. The buffer delivers its source: in every interleaving of reader, consumer and \<open>Close\<close>, what \<open>Recv\<close>
  has returned is a coalescing of a prefix of the source, in order and without loss or repetition, and a
  stream that finished and was drained without being closed has delivered everything the reader took, up
  to the result that ended it.
\<close>

theorem coalescing_stream_faithful:
  assumes "ds_step\<^sup>*\<^sup>* (NewDeltaCoalescingStream source) s"
  shows "prefix (ds_taken s) source \<and> deliversFrom (ds_taken s) (ds_delivered s) \<and>
    (\<not> ds_closed s \<and> ds_finished s \<and> ds_pending s = None \<longrightarrow> coalesced (ds_taken s) (ds_delivered s))"
  using ds_inv_reachable [OF assms] by (auto simp: ds_inv_def offered_def waiting_def)

definition receivedWords :: DeltaCoalescingStream where
  "receivedWords = bufferedWords\<lparr>ds_pending := None, ds_delivered := [Received (wordEvent ''abcd'')]\<rparr>"

theorem coalescing_stream_faithful_witness:
  "ds_step\<^sup>*\<^sup>* (NewDeltaCoalescingStream twoWords) receivedWords \<and> ds_taken receivedWords = twoWords \<and>
   deliversFrom twoWords [Received (wordEvent ''abcd'')]"
proof -
  have "ds_step bufferedWords receivedWords"
    by (rule ds_step.recv) (simp add: Recv_def bufferedWords_def receivedWords_def NewDeltaCoalescingStream_def)
  then have r: "ds_step\<^sup>*\<^sup>* (NewDeltaCoalescingStream twoWords) receivedWords"
    using bufferedWords_reachable by simp
  show ?thesis using r coalescing_stream_faithful [OF r] by (simp add: receivedWords_def bufferedWords_def)
qed



section \<open>Merging is invisible to the assembly\<close>

text \<open>
  The assembly counts the events it accepts; merging lowers that count and nothing else. \<open>uncounted\<close>
  forgets it.
\<close>

definition uncounted :: "ResponseAssembly \<Rightarrow> ResponseAssembly" where
  "uncounted a = a\<lparr>ra_Segments := map (rg_EventCount_update (\<lambda>_. 0)) (ra_Segments a)\<rparr>"

lemma applyEvent_count:
  "applyEvent env e (s\<lparr>rg_EventCount := n\<rparr>) = map_prod (rg_EventCount_update (\<lambda>_. n)) id (applyEvent env e s)"
  by (cases "se_Type e") (auto simp: applyEvent_def Let_def split: prod.splits option.splits)

lemma recordIdentity_count:
  "recordIdentity e key d (s\<lparr>rg_EventCount := n\<rparr>) = map_sum id (rg_EventCount_update (\<lambda>_. n)) (recordIdentity e key d s)"
  by (simp add: recordIdentity_def Let_def)

lemma currentOrNil_uncounted: "currentOrNil (uncounted a) = map_option (rg_EventCount_update (\<lambda>_. 0)) (currentOrNil a)"
  by (simp add: currentOrNil_def uncounted_def last_map)

lemma setCurrent_uncounted:
  "uncounted (setCurrent s a) = setCurrent (s\<lparr>rg_EventCount := 0\<rparr>) (uncounted a)"
  "uncounted (a\<lparr>ra_State := x\<rparr>) = (uncounted a)\<lparr>ra_State := x\<rparr>"
  by (simp_all add: setCurrent_def uncounted_def map_butlast)

lemma Apply_event_uncounted:
  "map_prod uncounted id (Apply_event env e (uncounted a)) = map_prod uncounted id (Apply_event env e a)"
proof (cases "currentOrNil a")
  case None
  then show ?thesis by (simp add: Apply_event_def currentOrNil_uncounted) (simp add: uncounted_def)
next
  case (Some s)
  have u: "uncounted (uncounted a) = uncounted a" by (simp add: uncounted_def)
  show ?thesis
  proof (cases "responseEventIdentity env e")
    case (Inr kd)
    obtain key digest where kd: "kd = (key, digest)" by (cases kd)
    show ?thesis
    proof (cases "recordIdentity e key digest s")
      case (Inl m)
      then show ?thesis using Some Inr kd
        by (cases "key = []") (simp_all add: Apply_event_def currentOrNil_uncounted recordIdentity_count u split: option.split)
    next
      case s1: (Inr s1)
      obtain s2 err where "applyEvent env e s1 = (s2, err)" by (cases "applyEvent env e s1")
      then show ?thesis using Some Inr kd s1
        by (cases "key = []") (simp_all add: Apply_event_def currentOrNil_uncounted recordIdentity_count u applyEvent_count
            setCurrent_uncounted Let_def split: option.split)
    qed
  qed (use Some u in \<open>simp add: Apply_event_def currentOrNil_uncounted split: option.split\<close>)
qed

lemma Apply_event_counts:
  assumes "uncounted a = uncounted b" "Apply_event env e a = (a', r)"
  obtains b' where "Apply_event env e b = (b', r)" "uncounted b' = uncounted a'"
proof -
  have "map_prod uncounted id (Apply_event env e b) = map_prod uncounted id (Apply_event env e a)"
    using Apply_event_uncounted [of env e a] Apply_event_uncounted [of env e b] assms(1) by simp
  then show thesis using assms(2) by (cases "Apply_event env e b") (auto intro: that)
qed

lemma appendResponseBlock_merge:
  assumes "cb_Type x = cb_Type y" "cb_Type x = ContentText \<or> cb_Type x = ContentReasoning \<and> cb_ID x = cb_ID y"
  shows "appendResponseBlock (appendResponseBlock bs x) y = appendResponseBlock bs (x\<lparr>cb_Text := cb_Text x @ cb_Text y\<rparr>)"
  using assms by (cases bs rule: rev_cases) (auto simp: appendResponseBlock_def Let_def butlast_append)

definition fragmentsAgree :: "ToolCallFragment \<Rightarrow> ToolCallFragment \<Rightarrow> bool" where
  "fragmentsAgree f g \<longleftrightarrow> tf_Index f = tf_Index g \<and> (tf_ID f = [] \<or> tf_ID g = [] \<or> tf_ID f = tf_ID g) \<and>
     (tf_Name f = [] \<or> tf_Name g = [] \<or> tf_Name f = tf_Name g)"

lemma appendToolFragment_merge:
  assumes "appendToolFragment f fs = (fs1, None)" "appendToolFragment g fs1 = (fs2, None)" "fragmentsAgree f g"
  shows "appendToolFragment (mergeFragment f g) fs = (fs2, None)"
  using assms
proof (induction f fs arbitrary: fs1 fs2 rule: appendToolFragment.induct)
  case (1 f)
  then show ?case
    by (cases f; cases g) (auto simp: mergeFragment_def fragmentsAgree_def Let_def split: if_splits)
next
  case (2 f c rest)
  have m: "tf_Index (mergeFragment f g) = tf_Index f" by (simp add: mergeFragment_def)
  show ?case
  proof (cases "tf_Index c = tf_Index f")
    case True
    then show ?thesis using 2(2-4) m
      by (cases c; cases f; cases g) (auto simp: mergeFragment_def fragmentsAgree_def Let_def split: if_splits)
  next
    case False
    obtain r1 where r1: "appendToolFragment f rest = (r1, None)" "fs1 = c # r1"
      using 2(2) False by (auto split: prod.splits)
    obtain r2 where r2: "appendToolFragment g r1 = (r2, None)" "fs2 = c # r2"
      using 2(3) False 2(4) r1 by (auto simp: fragmentsAgree_def split: prod.splits)
    show ?thesis using 2(1) [OF False r1(1) r2(1) 2(4)] False m r2 by simp
  qed
qed

text \<open>
  What the providers guarantee of their deltas: either all of them carry a content block or none does, a
  block has the type of its event, and an output index names one reasoning item.
\<close>

definition labelled :: "bool \<Rightarrow> (int \<Rightarrow> string) \<Rightarrow> StreamEvent \<Rightarrow> bool" where
  "labelled blocks ids e \<longleftrightarrow> (se_Type e = EventTextDelta \<or> se_Type e = EventReasoningDelta \<longrightarrow>
     (case se_Block e of
        None \<Rightarrow> \<not> blocks
      | Some b \<Rightarrow> blocks \<and> (se_Type e = EventTextDelta \<longrightarrow> cb_Type b = ContentText) \<and>
          (se_Type e = EventReasoningDelta \<longrightarrow> cb_Type b = ContentReasoning \<and> cb_ID b = ids (se_Index e))))"

lemma mergeable_cases:
  assumes "mergeable (Received b) (Received e)"
  obtains (tool) f g where "se_Type b = EventToolCallDelta" "se_Type e = EventToolCallDelta"
      "se_ToolCall b = Some f" "se_ToolCall e = Some g" "fragmentsAgree f g"
    | (words) "se_Type b = EventTextDelta \<or> se_Type b = EventReasoningDelta" "se_Type e = se_Type b"
      "se_Index e = se_Index b" "se_Text b \<noteq> []"
proof -
  have m: "coalescibleDelta b" "coalescibleDelta e" "se_Type e = se_Type b" "deltaIndex b = deltaIndex e" "compatibleDelta b e"
    using assms by (simp_all add: mergeable_def)
  show thesis
  proof (cases "se_Type b = EventToolCallDelta")
    case True
    then obtain f g where fg: "se_ToolCall b = Some f" "se_ToolCall e = Some g"
      using m(1-3) by (auto simp: coalescibleDelta_def)
    moreover have "fragmentsAgree f g"
      using m(4,5) True fg m(3) by (simp add: deltaIndex_def compatibleDelta_def fragmentsAgree_def split: if_splits)
    ultimately show thesis using True m(3) by (intro tool) simp_all
  next
    case False
    then have "se_Type b = EventTextDelta \<or> se_Type b = EventReasoningDelta" "se_Text b \<noteq> []"
      using m(1) by (simp_all add: coalescibleDelta_def split: if_splits)
    moreover have "se_Index e = se_Index b" using False m(3,4) by (simp add: deltaIndex_def split: option.splits)
    ultimately show thesis using m(3) by (intro words)
  qed
qed

lemma mergeBlock:
  assumes "labelled blocks ids b" "labelled blocks ids e" "\<And>x. jsonBlock env x = x"
    "se_Type b = EventTextDelta \<or> se_Type b = EventReasoningDelta" "se_Type e = se_Type b" "se_Index e = se_Index b"
  shows "appendResponseBlock (appendResponseBlock bs (responseEventBlock env b t)) (responseEventBlock env e t) =
    appendResponseBlock bs (responseEventBlock env (mergeDelta b e) t)"
proof -
  let ?x = "responseEventBlock env b t" and ?y = "responseEventBlock env e t"
  have "cb_Type ?x = cb_Type ?y" "cb_Type ?x = ContentText \<or> cb_Type ?x = ContentReasoning \<and> cb_ID ?x = cb_ID ?y"
    using assms by (cases "se_Block b"; cases "se_Block e"; auto simp: labelled_def responseEventBlock_def emptyBlock_def)+
  moreover have "responseEventBlock env (mergeDelta b e) t = ?x\<lparr>cb_Text := cb_Text ?x @ cb_Text ?y\<rparr>"
    using assms by (cases "se_Block b"; cases "se_Block e") (auto simp: labelled_def responseEventBlock_def emptyBlock_def mergeDelta_def)
  ultimately show ?thesis by (simp add: appendResponseBlock_merge)
qed

lemma applyEvent_merge:
  assumes "mergeable (Received b) (Received e)" "labelled blocks ids b" "labelled blocks ids e"
    "\<And>x. jsonBlock env x = x" "applyEvent env b s = (s1, None)" "applyEvent env e s1 = (s2, None)"
  shows "applyEvent env (mergeDelta b e) s = (s2, None)"
  using assms(1)
proof (cases rule: mergeable_cases)
  case (tool f g)
  obtain fs1 where 1: "appendToolFragment f (rg_ToolFragments s) = (fs1, None)"
    "s1 = s\<lparr>rg_Meaningful := True, rg_ToolFragments := fs1\<rparr>"
    using assms(5) tool by (auto simp: applyEvent_def split: prod.splits)
  obtain fs2 where 2: "appendToolFragment g fs1 = (fs2, None)" "s2 = s\<lparr>rg_Meaningful := True, rg_ToolFragments := fs2\<rparr>"
    using assms(6) tool 1(2) by (auto simp: applyEvent_def split: prod.splits)
  show ?thesis using appendToolFragment_merge [OF 1(1) 2(1) tool(5)] tool 2(2) by (simp add: applyEvent_def mergeDelta_def)
next
  case words
  note mb = mergeBlock [OF assms(2-4) words(1-3)]
  from words(1) show ?thesis
  proof
    assume "se_Type b = EventTextDelta"
    then show ?thesis using assms(5,6) words(2) mb by (auto simp: applyEvent_def mergeDelta_def)
  next
    assume "se_Type b = EventReasoningDelta"
    then show ?thesis using assms(5,6) words(2) mb by (auto simp: applyEvent_def mergeDelta_def)
  qed
qed

lemma mergeDelta_frame:
  "se_Type (mergeDelta b e) = se_Type b" "se_Sequenced (mergeDelta b e) = se_Sequenced b"
  "se_EventID (mergeDelta b e) = se_EventID b" "se_Index (mergeDelta b e) = se_Index b"
  by (simp_all add: mergeDelta_def)

lemma labelled_merge:
  "mergeable (Received b) (Received e) \<Longrightarrow> labelled blocks ids b \<Longrightarrow> labelled blocks ids (mergeDelta b e)"
  by (erule mergeable_cases) (auto simp: labelled_def mergeDelta_def split: option.splits)

lemma mergeDelta_valid:
  assumes "mergeable (Received b) (Received e)" "labelled blocks ids b" "StreamEvent_Validate jv b = None"
  shows "StreamEvent_Validate jv (mergeDelta b e) = None"
  using assms(1)
proof (cases rule: mergeable_cases)
  case (tool f g)
  then show ?thesis using assms(3) by (simp add: StreamEvent_Validate_def mergeDelta_def split: option.splits)
next
  case words
  then show ?thesis using assms(2,3)
    by (cases "se_Block b"; cases "se_Block e")
       (auto simp: StreamEvent_Validate_def mergeDelta_def labelled_def ContentBlock_Validate_def map_option_None)
qed

text \<open>An event without identity, other than the stop, is its effect on the current segment.\<close>

lemma Apply_event_anonymous:
  assumes "\<not> se_Sequenced e" "se_EventID e = []" "se_Type e \<noteq> EventMessageStop"
  shows "Apply_event env e a = (a', Inr r) \<longleftrightarrow> (\<exists>s s'. currentOrNil a = Some s \<and> rg_State s = ResponseStreaming \<and>
    StreamEvent_Validate (jsonValid env) e = None \<and> applyEvent env e s = (s', None) \<and>
    a' = setCurrent (s'\<lparr>rg_EventCount := rg_EventCount s + 1\<rparr>) a \<and> r)"
proof (cases "currentOrNil a")
  case (Some s)
  obtain s' err where "applyEvent env e s = (s', err)" by (cases "applyEvent env e s")
  then show ?thesis using Some assms
    by (auto simp: Apply_event_def responseEventIdentity_def recordIdentity_def applyEvent_count Let_def split: option.splits)
qed (simp add: Apply_event_def)

lemma applyEvent_streaming:
  "se_Type e \<noteq> EventMessageStop \<Longrightarrow> rg_State (fst (applyEvent env e s)) = rg_State s"
  by (cases "se_Type e") (auto simp: applyEvent_def Let_def split: prod.splits)

lemma setCurrent_twice [simp]: "setCurrent s (setCurrent t a) = setCurrent s a"
  by (simp add: setCurrent_def)

lemma Apply_event_merge:
  assumes "mergeable (Received b) (Received e)" "labelled blocks ids b" "labelled blocks ids e" "\<And>x. jsonBlock env x = x"
    "Apply_event env b a = (a1, Inr r1)" "Apply_event env e a1 = (a2, Inr r2)"
  obtains a' where "Apply_event env (mergeDelta b e) a = (a', Inr True)" "uncounted a' = uncounted a2"
proof -
  have anon: "\<not> se_Sequenced b" "se_EventID b = []" "\<not> se_Sequenced e" "se_EventID e = []"
    using assms(1) by (simp_all add: mergeable_def compatibleDelta_def split: if_splits)
  have stop: "se_Type b \<noteq> EventMessageStop" "se_Type e \<noteq> EventMessageStop"
    using assms(1) by (auto elim: mergeable_cases)
  obtain s s1 where b: "currentOrNil a = Some s" "rg_State s = ResponseStreaming"
    "StreamEvent_Validate (jsonValid env) b = None" "applyEvent env b s = (s1, None)"
    "a1 = setCurrent (s1\<lparr>rg_EventCount := rg_EventCount s + 1\<rparr>) a"
    using assms(5) unfolding Apply_event_anonymous [OF anon(1,2) stop(1)] by blast
  obtain s2 where e: "applyEvent env e s1 = (s2, None)"
    "a2 = setCurrent (s2\<lparr>rg_EventCount := rg_EventCount s + 1 + 1\<rparr>) a"
    using assms(6) unfolding Apply_event_anonymous [OF anon(3,4) stop(2)] b(5)
    by (cases "applyEvent env e s1") (auto simp: applyEvent_count)
  let ?a' = "setCurrent (s2\<lparr>rg_EventCount := rg_EventCount s + 1\<rparr>) a"
  have "Apply_event env (mergeDelta b e) a = (?a', Inr True)"
    using b(1,2) mergeDelta_valid [OF assms(1,2) b(3)] applyEvent_merge [OF assms(1-4) b(4) e(1)] anon stop
    by (subst Apply_event_anonymous) (simp_all add: mergeDelta_frame)
  moreover have "uncounted ?a' = uncounted a2" using e(2) by (simp add: setCurrent_uncounted)
  ultimately show thesis by (rule that)
qed

definition applyNext :: "'e AssemblyEnv_scheme \<Rightarrow> message + ResponseAssembly \<Rightarrow> StreamEvent \<Rightarrow> message + ResponseAssembly" where
  "applyNext env r e = (case r of
     Inl m \<Rightarrow> Inl m
   | Inr a \<Rightarrow> (case Apply_event env e a of (a', Inr accepted) \<Rightarrow> Inr a' | (a', Inl m) \<Rightarrow> Inl m))"

definition applyAll :: "'e AssemblyEnv_scheme \<Rightarrow> StreamEvent list \<Rightarrow> ResponseAssembly \<Rightarrow> message + ResponseAssembly" where
  "applyAll env es a = foldl (applyNext env) (Inr a) es"

definition events :: "streamResult list \<Rightarrow> StreamEvent list" where
  "events rs = concat (map (\<lambda>r. case r of Received e \<Rightarrow> [e] | Failed _ \<Rightarrow> []) rs)"

lemma events_simps [simp]: "events [] = []" "events (xs @ ys) = events xs @ events ys"
  "events [Received e] = [e]" "events [Failed x] = []"
  by (simp_all add: events_def)

lemma applyAll_Nil [simp]: "applyAll env [] a = Inr a"
  by (simp add: applyAll_def)

lemma applyAll_snoc: "applyAll env (es @ [e]) a = Inr a' \<longleftrightarrow>
    (\<exists>b accepted. applyAll env es a = Inr b \<and> Apply_event env e b = (a', Inr accepted))"
  by (auto simp: applyAll_def applyNext_def split: sum.splits prod.splits)

lemma coalesced_apply:
  assumes "coalesced xs ys" "list_all (labelled blocks ids) (events xs)" "\<And>x. jsonBlock env x = x"
    "applyAll env (events xs) a = Inr a1"
  shows "list_all (labelled blocks ids) (events ys) \<and>
    (\<exists>a2. applyAll env (events ys) a = Inr a2 \<and> uncounted a2 = uncounted a1)"
  using assms(1,2,4)
proof (induction arbitrary: a1 rule: coalesced.induct)
  case empty
  then show ?case by simp
next
  case (single xs ys r)
  show ?case
  proof (cases r)
    case (Received e)
    then obtain b acc where b: "applyAll env (events xs) a = Inr b" "Apply_event env e b = (a1, Inr acc)"
      using single.prems(2) by (auto simp: applyAll_snoc)
    then obtain b2 where b2: "applyAll env (events ys) a = Inr b2" "uncounted b = uncounted b2"
      and l: "list_all (labelled blocks ids) (events ys)"
      using single.IH Received single.prems(1) by fastforce
    show ?thesis using Apply_event_counts [OF b2(2) b(2)] b2(1) l single.prems(1) Received
      by (auto simp: applyAll_snoc) metis
  qed (use single in simp)
next
  case (merge xs ys p r)
  from merge.hyps(2) obtain b e where be: "p = Received b" "r = Received e" "merged p r = Received (mergeDelta b e)"
    by (rule mergeable_Received)
  obtain c acc where c: "applyAll env (events xs) a = Inr c" "Apply_event env e c = (a1, Inr acc)"
    using merge.prems(2) be by (auto simp: applyAll_snoc)
  have le: "labelled blocks ids e" and lx: "list_all (labelled blocks ids) (events xs)" using merge.prems(1) be by simp_all
  obtain c2 where c2: "applyAll env (events ys @ [b]) a = Inr c2" "uncounted c = uncounted c2"
    and ly: "list_all (labelled blocks ids) (events ys)" "labelled blocks ids b"
    using merge.IH [OF lx c(1)] be by auto
  obtain a2 where a2: "Apply_event env e c2 = (a2, Inr acc)" "uncounted a2 = uncounted a1"
    by (rule Apply_event_counts [OF c2(2) c(2)])
  obtain d acc' where d: "applyAll env (events ys) a = Inr d" "Apply_event env b d = (c2, Inr acc')"
    using c2(1) by (auto simp: applyAll_snoc)
  have m: "mergeable (Received b) (Received e)" using merge.hyps(2) be by simp
  obtain a3 where "Apply_event env (mergeDelta b e) d = (a3, Inr True)" "uncounted a3 = uncounted a2"
    by (rule Apply_event_merge [OF m ly(2) le assms(3) d(2) a2(1)])
  then show ?case using d(1) a2(2) ly be labelled_merge [OF m ly(2)] by (auto simp: applyAll_snoc)
qed



text \<open>
  The guarantee of the providers is needed: the guards of \<open>offer\<close> let a delta with a block absorb one
  without, and then the text of the second is lost to the assembly.
\<close>

lemma mixed_blocks_lose_text:
  "let b = (wordEvent ''ab'')\<lparr>se_Block := Some ((emptyBlock ContentText)\<lparr>cb_Text := ''ab''\<rparr>)\<rparr>; e = wordEvent ''cd''
   in mergeable (Received b) (Received e) \<and> deltaText plainEnv b @ deltaText plainEnv e = ''abcd'' \<and>
      deltaText plainEnv (mergeDelta b e) = ''ab''"
  by (simp add: buffer_eval wordEvent_def helloEvent_def deltaText_def responseEventBlock_def plainEnv_def emptyBlock_def)

end
