(* ===== verification/Stream_Consumer.thy ===== *)
theory Stream_Consumer
  imports Json_Members Delta_Stream
begin

text \<open>
  \<open>ConsumeStream\<close> of \<open>src/internal/adapter/provider/assembly/stream_consumer.go\<close>: it opens a transport,
  feeds every event to the assembly, checkpoints the assembly, projects output to the host and ends with
  the executable calls or an error.

  The stream is the list of results \<open>Recv\<close> returns; a list that ends stands for a stream that answers
  \<open>io.EOF\<close> from then on. The callbacks are not part of the sources: \<open>Checkpoint\<close> and \<open>Project\<close> are
  functions of all values they have been called with, the newest last, and return an error or nothing.
  \<open>cc_ErrorText\<close> is \<open>Error()\<close> on the errors that \<open>fmt.Errorf\<close> built.
\<close>

section \<open>Configuration, result and errors\<close>

record StreamProjection =
  sp_Text :: string
  sp_Block :: "ContentBlock option"
  sp_Search :: "SearchResult option"
  sp_Citation :: "Citation option"
  sp_Usage :: "Usage option"
  sp_Transport :: TransportMetadata

record ConsumeConfig =
  cc_Checkpoint :: "(ResponseAssembly list \<Rightarrow> string option) option"
  cc_Project :: "(StreamProjection list \<Rightarrow> string option) option"
  cc_ErrorText :: "message \<Rightarrow> string"

record ConsumeResult =
  cr_Blocks :: "ContentBlock list"
  cr_Calls :: "ToolCall list"
  cr_Usage :: Usage
  cr_Meaningful :: bool
  cr_Replay :: "ReplayState option"

datatype ConsumeError =
  ErrAssembly message
| ErrCheckpoint string
| ErrProject string
| ErrStream RecvError
| ErrInterrupted RecvError message
| IncompleteOutputError StopReason "ToolCallFragment list" "string option"
| ErrMalformedResponse string message
| ErrMalformedUnsaved message string
| ErrContentFilter
| ErrUnknownStopReason
| ErrToolUseWithoutCall

record ConsumeState =
  cn_assembly :: ResponseAssembly
  cn_checkpointedUnits :: uint64
  cn_pendingUnits :: uint64
  cn_argumentMembers :: "(int, jsonMemberTracker) fmap"
  cn_checkpoints :: "ResponseAssembly list"
  cn_projections :: "StreamProjection list"
  cn_outputs :: nat

type_synonym consumed = "ConsumeState \<times> ConsumeResult \<times> ConsumeError option"

section \<open>Checkpoints\<close>

text \<open>Both counters saturate at the largest \<open>uint64\<close>.\<close>

definition saturatingAdd :: "uint64 \<Rightarrow> uint64 \<Rightarrow> uint64" where
  "saturatingAdd x y = (if (- 1) - x < y then - 1 else x + y)"

definition addPendingCheckpoint :: "uint64 \<Rightarrow> ConsumeState \<Rightarrow> ConsumeState" where
  "addPendingCheckpoint units st = st\<lparr>cn_pendingUnits := saturatingAdd (cn_pendingUnits st) units\<rparr>"

definition persist :: "'c ConsumeConfig_scheme \<Rightarrow> bool \<Rightarrow> ConsumeState \<Rightarrow> ConsumeState \<times> string option" where
  "persist cfg force st = (case cc_Checkpoint cfg of
     None \<Rightarrow> (st, None)
   | Some checkpoint \<Rightarrow>
      (if \<not> force \<and> cn_pendingUnits st < max 1 (cn_checkpointedUnits st) then (st, None)
       else let saved = cn_checkpoints st @ [cn_assembly st]; st1 = st\<lparr>cn_checkpoints := saved\<rparr>
         in case checkpoint saved of
              Some err \<Rightarrow> (st1, Some err)
            | None \<Rightarrow> (st1\<lparr>cn_checkpointedUnits := saturatingAdd (cn_checkpointedUnits st) (cn_pendingUnits st),
                            cn_pendingUnits := 0\<rparr>, None)))"

section \<open>One event\<close>

definition CurrentBlocks :: "'e AssemblyEnv_scheme \<Rightarrow> ResponseAssembly \<Rightarrow> ContentBlock list" where
  "CurrentBlocks env a = (case currentOrNil a of None \<Rightarrow> [] | Some s \<Rightarrow> map (jsonBlock env) (rg_Blocks s))"

definition CurrentUsage :: "ResponseAssembly \<Rightarrow> Usage" where
  "CurrentUsage a = (case currentOrNil a of None \<Rightarrow> zeroUsage | Some s \<Rightarrow> rg_Usage s)"

definition CurrentMeaningful :: "ResponseAssembly \<Rightarrow> bool" where
  "CurrentMeaningful a = (case currentOrNil a of None \<Rightarrow> False | Some s \<Rightarrow> rg_Meaningful s)"

definition CurrentReplay :: "ResponseAssembly \<Rightarrow> ReplayState option" where
  "CurrentReplay a = Option.bind (currentOrNil a) rg_Replay"

definition CurrentStopReason :: "ResponseAssembly \<Rightarrow> StopReason" where
  "CurrentStopReason a = (case currentOrNil a of None \<Rightarrow> StopReasonUnset | Some s \<Rightarrow> rg_StopReason s)"

definition TransportCount :: "ResponseAssembly \<Rightarrow> nat" where
  "TransportCount a = length (ra_Segments a)"

definition NextTransportAttempt :: "ResponseAssembly \<Rightarrow> uint32" where
  "NextTransportAttempt a = of_nat (length (ra_Segments a) + 1)"

definition currentFragments :: "ResponseAssembly \<Rightarrow> ToolCallFragment list" where
  "currentFragments a = (case currentOrNil a of None \<Rightarrow> [] | Some s \<Rightarrow> rg_ToolFragments s)"

definition current :: "'e AssemblyEnv_scheme \<Rightarrow> ConsumeState \<Rightarrow> ConsumeResult" where
  "current env st = \<lparr>cr_Blocks = CurrentBlocks env (cn_assembly st), cr_Calls = [],
     cr_Usage = CurrentUsage (cn_assembly st), cr_Meaningful = CurrentMeaningful (cn_assembly st), cr_Replay = None\<rparr>"

definition eventContentBlock :: "StreamEvent \<Rightarrow> ContentBlock" where
  "eventContentBlock e = (case se_Block e of
     Some b \<Rightarrow> b
   | None \<Rightarrow> (case se_Type e of
       EventReasoningDelta \<Rightarrow> (emptyBlock ContentReasoning)\<lparr>cb_Text := se_Text e\<rparr>
     | EventSearchResult \<Rightarrow> (emptyBlock ContentSearch)\<lparr>cb_Search := se_Search e\<rparr>
     | EventCitation \<Rightarrow> (emptyBlock ContentCitation)\<lparr>cb_Citation := se_Citation e\<rparr>
     | _ \<Rightarrow> (emptyBlock ContentText)\<lparr>cb_Text := se_Text e\<rparr>))"

text \<open>
  What an event does to the assembly and the argument trackers: the new state, and either whether the event
  was applied or the error together with the flag \<open>rejectedArguments\<close>.
\<close>

definition trackArguments ::
    "'e AssemblyEnv_scheme \<Rightarrow> StreamEvent \<Rightarrow> ConsumeState \<Rightarrow> ConsumeState \<times> MemberError option" where
  "trackArguments env e st =
    (let f = the (se_ToolCall e);
         members = (case fmlookup (cn_argumentMembers st) (tf_Index f) of None \<Rightarrow> newTracker | Some t \<Rightarrow> t);
         (t, err) = Append (jsonString env) (tf_Arguments f) members
     in (st\<lparr>cn_argumentMembers := fmupd (tf_Index f) t (cn_argumentMembers st)\<rparr>, err))"

definition isDuplicateError :: "message \<Rightarrow> bool" where
  "isDuplicateError m = (case m of
     Msg s \<Rightarrow> m = memberErrorMessage errDuplicateJSONMember
   | Fmt f args \<Rightarrow> ArgM (memberErrorMessage errDuplicateJSONMember) \<in> set args)"

definition applyStreamEvent ::
    "'e AssemblyEnv_scheme \<Rightarrow> StreamEvent \<Rightarrow> ConsumeState \<Rightarrow> ConsumeState \<times> (message \<times> bool + bool)" where
  "applyStreamEvent env e st =
    (let (a, r) = Apply_event env e (cn_assembly st); st1 = st\<lparr>cn_assembly := a\<rparr>
     in case r of
       Inl m \<Rightarrow> (st1, Inl (m, False))
     | Inr applied \<Rightarrow>
        (if applied \<and> se_Type e = EventToolCallDelta
         then (case trackArguments env e st1 of
             (st2, None) \<Rightarrow> (st2, Inr applied)
           | (st2, Some err) \<Rightarrow> (st2, Inl (Fmt ''tool call %d: %w''
               [ArgI (tf_Index (the (se_ToolCall e))), ArgM (memberErrorMessage err)], err = errDuplicateJSONMember)))
         else if applied \<and> se_Type e = EventMessageStop \<and>
                 (CurrentStopReason a = StopReasonToolUse \<or> CurrentStopReason a = StopReasonEndTurn)
         then (case ExecutableToolCalls env a of
             Inl m \<Rightarrow> if currentFragments a \<noteq> [] then (st1, Inl (m, True)) else (st1, Inr applied)
           | Inr calls \<Rightarrow> (st1, Inr applied))
         else (st1, Inr applied)))"

definition rejectCurrent :: "bool \<Rightarrow> ResponseAssembly \<Rightarrow> ResponseAssembly" where
  "rejectCurrent rejected a = (case currentOrNil a of
     None \<Rightarrow> a | Some s \<Rightarrow> setCurrent (s\<lparr>rg_RejectedToolArguments := rejected\<rparr>) a)"

definition rejectEvent ::
    "'e AssemblyEnv_scheme \<Rightarrow> 'c ConsumeConfig_scheme \<Rightarrow> message \<Rightarrow> bool \<Rightarrow> ConsumeState \<Rightarrow> consumed" where
  "rejectEvent env cfg m rejected st =
    (let failure = (if isDuplicateError m
                    then ''provider generated tool arguments with a duplicate JSON object member''
                    else if rejected then ''provider generated an invalid tool call''
                    else ''provider stream violated the incremental response contract'');
         st1 = st\<lparr>cn_assembly := rejectCurrent rejected (fst (Fail (Some (cc_ErrorText cfg m)) (cn_assembly st)))\<rparr>;
         (st2, err) = persist cfg True st1
     in (st2, current env st2, Some (case err of
           Some c \<Rightarrow> ErrMalformedUnsaved m c
         | None \<Rightarrow> ErrMalformedResponse failure m)))"

definition project ::
    "'c ConsumeConfig_scheme \<Rightarrow> StreamProjection \<Rightarrow> ConsumeState \<Rightarrow> ConsumeState \<times> string option" where
  "project cfg v st = (case cc_Project cfg of
     None \<Rightarrow> (st, None)
   | Some f \<Rightarrow> (let shown = cn_projections st @ [v] in (st\<lparr>cn_projections := shown\<rparr>, f shown)))"

definition observeOutput :: "ConsumeState \<Rightarrow> ConsumeState" where
  "observeOutput st = st\<lparr>cn_outputs := cn_outputs st + 1\<rparr>"

definition noProjection :: StreamProjection where
  "noProjection = \<lparr>sp_Text = [], sp_Block = None, sp_Search = None, sp_Citation = None, sp_Usage = None,
     sp_Transport = zeroTransport\<rparr>"

text \<open>The part of the switch that shows an accepted event to the host; the stop event shows nothing.\<close>

definition showEvent ::
    "'c ConsumeConfig_scheme \<Rightarrow> StreamEvent \<Rightarrow> ConsumeState \<Rightarrow> ConsumeState \<times> string option" where
  "showEvent cfg e st =
    (let block = eventContentBlock e; words = block\<lparr>cb_Text := se_Text e\<rparr>
     in case se_Type e of
       EventTextDelta \<Rightarrow> project cfg (noProjection\<lparr>sp_Text := se_Text e, sp_Block := Some words\<rparr>) (observeOutput st)
     | EventReasoningDelta \<Rightarrow>
         (if se_Text e = [] then (observeOutput st, None)
          else project cfg (noProjection\<lparr>sp_Text := se_Text e, sp_Block := Some words\<rparr>) (observeOutput st))
     | EventSearchResult \<Rightarrow>
         project cfg (noProjection\<lparr>sp_Block := Some block, sp_Search := se_Search e, sp_Citation := se_Citation e\<rparr>) (observeOutput st)
     | EventCitation \<Rightarrow>
         project cfg (noProjection\<lparr>sp_Block := Some block, sp_Search := se_Search e, sp_Citation := se_Citation e\<rparr>) (observeOutput st)
     | EventUsage \<Rightarrow>
         project cfg (noProjection\<lparr>sp_Usage := Some (CurrentUsage (cn_assembly st)),
           sp_Transport := ug_Transport (the (se_Usage e))\<rparr>) st
     | EventToolCallDelta \<Rightarrow> (observeOutput st, None)
     | _ \<Rightarrow> (st, None))"

text \<open>The stop event: the whole result, or why there is none.\<close>

definition finishStream :: "'e AssemblyEnv_scheme \<Rightarrow> 'c ConsumeConfig_scheme \<Rightarrow> ConsumeState \<Rightarrow> consumed" where
  "finishStream env cfg st =
    (let a = cn_assembly st; result = (current env st)\<lparr>cr_Replay := CurrentReplay a\<rparr>;
         reason = CurrentStopReason a
     in if reason = StopReasonMaxTokens \<or> reason = StopReasonIncomplete
          then (st, result, Some (IncompleteOutputError reason (IncompleteToolFragments env a) None))
        else if reason = StopReasonContentFilter then (st, result, Some ErrContentFilter)
        else if reason = StopReasonUnknown then (st, result, Some ErrUnknownStopReason)
        else (case ExecutableToolCalls env a of
            Inl m \<Rightarrow>
              (if currentFragments a \<noteq> []
               then (st, result, Some (IncompleteOutputError StopReasonIncomplete (IncompleteToolFragments env a)
                      (Some (cc_ErrorText cfg m))))
               else if reason = StopReasonToolUse then (st, result, Some ErrToolUseWithoutCall)
               else (st, result, None))
          | Inr calls \<Rightarrow>
              (if reason = StopReasonToolUse \<and> calls = [] then (st, result, Some ErrToolUseWithoutCall)
               else (st, result\<lparr>cr_Calls := calls\<rparr>, None))))"

section \<open>The loop\<close>

definition recvText :: "RecvError \<Rightarrow> string" where
  "recvText err = (case err of
     EOF \<Rightarrow> ''model stream ended without a valid stop event''
   | Canceled \<Rightarrow> ''context canceled''
   | OtherError t \<Rightarrow> t)"

definition streamEnded ::
    "'e AssemblyEnv_scheme \<Rightarrow> 'c ConsumeConfig_scheme \<Rightarrow> RecvError \<Rightarrow> ConsumeState \<Rightarrow> consumed" where
  "streamEnded env cfg err st =
    (let result = current env st; (a, interruptErr) = Interrupt (Some (recvText err)) (cn_assembly st);
         st1 = st\<lparr>cn_assembly := a\<rparr>
     in case interruptErr of
          Some m \<Rightarrow> (st1, result, Some (ErrInterrupted err m))
        | None \<Rightarrow> (let (st2, persistErr) = persist cfg True st1
            in (st2, result, Some (case persistErr of
                 Some c \<Rightarrow> ErrCheckpoint c
               | None \<Rightarrow>
                  (if err = Canceled then ErrStream err
                   else if cr_Meaningful result
                   then IncompleteOutputError StopReasonIncomplete (IncompleteToolFragments env a) (Some (recvText err))
                   else ErrStream err)))))"

definition countEvent :: "StreamEvent \<Rightarrow> ConsumeState \<Rightarrow> ConsumeState" where
  "countEvent e st =
    (if coalescibleDelta e then addPendingCheckpoint (of_nat (max 1 (deltaSize e))) st
     else if se_Type e = EventTransportProgress then addPendingCheckpoint 1 st
     else st)"

fun consumeLoop ::
    "'e AssemblyEnv_scheme \<Rightarrow> 'c ConsumeConfig_scheme \<Rightarrow> streamResult list \<Rightarrow> ConsumeState \<Rightarrow> consumed" where
  "consumeLoop env cfg [] st = streamEnded env cfg EOF st"
| "consumeLoop env cfg (Failed err # rest) st = streamEnded env cfg err st"
| "consumeLoop env cfg (Received e # rest) st = (case applyStreamEvent env e st of
     (st1, Inl (m, rejected)) \<Rightarrow> rejectEvent env cfg m rejected st1
   | (st1, Inr applied) \<Rightarrow>
      (if \<not> applied then consumeLoop env cfg rest st1
       else let batched = coalescibleDelta e \<or> se_Type e = EventTransportProgress;
                (st2, err) = persist cfg (\<not> batched) (countEvent e st1)
         in case err of
              Some c \<Rightarrow> (st2, current env st2, Some (ErrCheckpoint c))
            | None \<Rightarrow>
               (if se_Type e = EventMessageStop then finishStream env cfg st2
                else let (st3, shown) = showEvent cfg e st2
                  in case shown of
                       Some c \<Rightarrow> (st3, current env st2, Some (ErrProject c))
                     | None \<Rightarrow> consumeLoop env cfg rest st3)))"

definition startState :: "ResponseAssembly \<Rightarrow> ConsumeState" where
  "startState a = \<lparr>cn_assembly = a, cn_checkpointedUnits = 0, cn_pendingUnits = 0, cn_argumentMembers = fmempty,
     cn_checkpoints = [], cn_projections = [], cn_outputs = 0\<rparr>"

definition emptyResult :: ConsumeResult where
  "emptyResult = \<lparr>cr_Blocks = [], cr_Calls = [], cr_Usage = zeroUsage, cr_Meaningful = False, cr_Replay = None\<rparr>"

definition ConsumeStream ::
    "'e AssemblyEnv_scheme \<Rightarrow> 'c ConsumeConfig_scheme \<Rightarrow> TransportMetadata \<Rightarrow> streamResult list \<Rightarrow>
     ResponseAssembly \<Rightarrow> consumed" where
  "ConsumeStream env cfg metadata stream a0 =
    (let m1 = (if tm_LogicalRequestID metadata = []
               then metadata\<lparr>tm_LogicalRequestID := ra_LogicalRequestID a0\<rparr> else metadata);
         m2 = (if tm_Attempt m1 = 0 then m1\<lparr>tm_Attempt := NextTransportAttempt a0\<rparr> else m1);
         (a, beginErr) = BeginTransport m2 a0
     in case beginErr of
          Some m \<Rightarrow> (startState a, emptyResult, Some (ErrAssembly m))
        | None \<Rightarrow> (case persist cfg True (startState a) of
            (st, Some c) \<Rightarrow> (st, emptyResult, Some (ErrCheckpoint c))
          | (st, None) \<Rightarrow> consumeLoop env cfg stream st))"

section \<open>Extension is transitive on recorded assemblies\<close>

definition digestsKept :: "ResponseAssembly \<Rightarrow> bool" where
  "digestsKept a \<longleftrightarrow> (\<forall>s \<in> set (ra_Segments a). digestsPresent s)"

definition extends :: "ResponseAssembly \<Rightarrow> ResponseAssembly \<Rightarrow> bool" where
  "extends p a \<longleftrightarrow> ValidateExtension a (Some p) = None"

lemma extends_refl: "Assembly_Validate a = None \<Longrightarrow> extends a a"
  by (simp add: extends_def ValidateExtension_Some segmentExtends_refl)

lemma extends_valid: "extends p a \<Longrightarrow> Assembly_Validate a = None"
  by (simp add: extends_def ValidateExtension_Some)

lemma extends_iff: "extends p a \<longleftrightarrow> Assembly_Validate a = None \<and> Assembly_Validate p = None \<and>
    ra_LogicalRequestID a = ra_LogicalRequestID p \<and> length (ra_Segments p) \<le> length (ra_Segments a) \<and>
    prefix (ra_ToolArgumentRepairs p) (ra_ToolArgumentRepairs a) \<and>
    (\<forall>i < length (ra_Segments p). segmentExtends (ra_Segments p ! i) (ra_Segments a ! i))"
  by (simp add: extends_def ValidateExtension_Some)

lemma extends_trans:
  assumes "extends x y" "extends y z" "digestsKept x"
  shows "extends x z"
proof -
  note x = assms(1) [unfolded extends_iff] and y = assms(2) [unfolded extends_iff]
  have "segmentExtends (ra_Segments x ! i) (ra_Segments z ! i)" if "i < length (ra_Segments x)" for i
  proof (rule segmentExtends_trans)
    show "segmentExtends (ra_Segments x ! i) (ra_Segments y ! i)" using x that by blast
    show "segmentExtends (ra_Segments y ! i) (ra_Segments z ! i)" using x y that by (meson less_le_trans)
    show "digestsPresent (ra_Segments x ! i)" using assms(3) that by (simp add: digestsKept_def)
  qed
  moreover have "length (ra_Segments x) \<le> length (ra_Segments z)" using x y by linarith
  moreover have "prefix (ra_ToolArgumentRepairs x) (ra_ToolArgumentRepairs z)"
    using x y by (meson prefix_order.trans)
  ultimately show ?thesis unfolding extends_iff using x y by metis
qed

section \<open>What an event leaves in a streaming segment\<close>

definition streaming :: "ResponseSegment \<Rightarrow> bool" where
  "streaming s \<longleftrightarrow> rg_State s = ResponseStreaming \<and> rg_StopReason s = StopReasonUnset \<and> rg_Error s = []"

lemma segmentExtends_settle:
  assumes "segmentExtends s t" "streaming s" "\<not> rg_RejectedToolArguments s"
  shows "segmentExtends s (t\<lparr>rg_State := x, rg_StopReason := w, rg_Error := y, rg_RejectedToolArguments := z\<rparr>)"
proof -
  note d = segmentExtendsD [OF assms(1)]
  let ?t = "t\<lparr>rg_State := x, rg_StopReason := w, rg_Error := y, rg_RejectedToolArguments := z\<rparr>"
  have "sequenceLeq s ?t" using d(10) by (simp add: sequenceLeq_def)
  then show ?thesis using assms(2,3) d(3-9,14-17) segmentExtendsD(18) [OF assms(1)]
    unfolding segmentExtends_iff streaming_def by (intro conjI allI) simp_all
qed

lemma event_digests:
  assumes "recordIdentity e key digest s = Inr s1" "responseEventIdentity env e = Inr (key, digest)" "digestsPresent s"
  shows "digestsPresent (fst (applyEvent env e (s1\<lparr>rg_EventCount := n\<rparr>)))"
proof -
  have "rg_Seen (fst (applyEvent env e (s1\<lparr>rg_EventCount := n\<rparr>))) = rg_Seen s1"
    by (cases "se_Type e") (auto simp: applyEvent_def Let_def split: prod.splits)
  moreover have "key = [] \<or> digest \<noteq> []"
    using assms(2) by (auto simp: responseEventIdentity_def Let_def digestBytes_def split: if_splits option.splits)
  ultimately show ?thesis using assms(1,3)
    by (auto simp: digestsPresent_def recordIdentity_def Let_def split: if_splits)
qed

lemma applyEvent_kept:
  "rg_Error (fst (applyEvent env e s)) = rg_Error s" "rg_EventCount (fst (applyEvent env e s)) = rg_EventCount s"
  "se_Type e \<noteq> EventMessageStop \<Longrightarrow> rg_StopReason (fst (applyEvent env e s)) = rg_StopReason s"
  by (cases "se_Type e"; auto simp: applyEvent_def Let_def split: prod.splits)+

lemma recordIdentity_kept:
  assumes "recordIdentity e key d s = Inr s1"
  shows "rg_EventCount s1 = rg_EventCount s" "rg_Error s1 = rg_Error s"
  using assms by (auto simp: recordIdentity_def Let_def split: if_splits)

lemma setCurrent_self: "currentOrNil a = Some s \<Longrightarrow> setCurrent s a = a"
  by (auto simp: currentOrNil_def setCurrent_def split: if_splits)

definition nextSegment :: "StreamEvent \<Rightarrow> bool \<Rightarrow> ResponseSegment \<Rightarrow> ResponseSegment \<Rightarrow> bool" where
  "nextSegment e ok s t \<longleftrightarrow> segmentExtends s t \<and> digestsPresent t \<and> rg_Transport t = rg_Transport s \<and>
     rg_RejectedToolArguments t = rg_RejectedToolArguments s \<and> rg_State t \<noteq> ResponseEmpty \<and>
     (ok \<and> se_Type e \<noteq> EventMessageStop \<longrightarrow> streaming t) \<and> unat (rg_EventCount t) \<le> unat (rg_EventCount s) + 1 \<and>
     (rg_Response t = rg_Response s \<or> se_Type e = EventResponseState \<and> rg_Response t = se_Response e)"

lemma Apply_event_next:
  assumes "currentOrNil a = Some s" "streaming s" "digestsPresent s" "rg_EventCount s \<noteq> -1"
    "se_Type e = EventResponseState \<longrightarrow> outputLeq (rg_Response s) (se_Response e)"
    "Apply_event env e a = (a1, r)"
  obtains t where "nextSegment e (\<exists>b. r = Inr b) s t"
    "a1 = (if se_Type e = EventMessageStop \<and> r = Inr True then (setCurrent t a)\<lparr>ra_State := rg_State t\<rparr> else setCurrent t a)"
proof -
  have self: "nextSegment e b s s" for b
    using assms(2,3) by (auto simp: nextSegment_def segmentExtends_refl streaming_def)
  show thesis
  proof (cases "a1 = a \<and> r \<noteq> Inr True")
    case True
    then show thesis using self that [of s] setCurrent_self [OF assms(1)] by auto
  next
    case False
    then obtain key digest s1 where k: "responseEventIdentity env e = Inr (key, digest)"
      "recordIdentity e key digest s = Inr s1" "key = [] \<or> fmlookup (rg_Seen s) key = None"
      and a1: "a1 = (if se_Type e = EventMessageStop \<and> r = Inr True
          then (setCurrent (fst (applyEvent env e (s1\<lparr>rg_EventCount := rg_EventCount s1 + 1\<rparr>))) a)
            \<lparr>ra_State := rg_State (fst (applyEvent env e (s1\<lparr>rg_EventCount := rg_EventCount s1 + 1\<rparr>)))\<rparr>
          else setCurrent (fst (applyEvent env e (s1\<lparr>rg_EventCount := rg_EventCount s1 + 1\<rparr>))) a)"
      using assms(1,2,6)
      by (auto simp: Apply_event_def Let_def streaming_def split: option.splits if_splits sum.splits prod.splits)
    let ?s1 = "s1\<lparr>rg_EventCount := rg_EventCount s1 + 1\<rparr>"
    define t where "t = fst (applyEvent env e ?s1)"
    have st: "rg_State s = ResponseStreaming" "rg_StopReason s = StopReasonUnset" using assms(2) by (simp_all add: streaming_def)
    note fr = recordIdentity_frame [OF k(2)] recordIdentity_kept [OF k(2)]
    have "segmentExtends s t" unfolding t_def
      by (rule event_segment_extends [OF k(2,3) assms(4) st assms(5)])
    moreover have "digestsPresent t" unfolding t_def by (rule event_digests [OF k(2,1) assms(3)])
    moreover note applyEvent_state [where s = ?s1 and e = e and env = env, folded t_def]
      applyEvent_kept [where env = env and e = e and s = ?s1, folded t_def]
    ultimately have "nextSegment e (\<exists>b. r = Inr b) s t"
      using fr st assms(2) unat_plus_if' [of "rg_EventCount s" 1] by (auto simp: nextSegment_def streaming_def)
    then show thesis using that a1 unfolding t_def by blast
  qed
qed

section \<open>The chain of checkpoints\<close>

definition onTrack :: "ResponseAssembly \<Rightarrow> ConsumeState \<Rightarrow> bool" where
  "onTrack base st \<longleftrightarrow> (let saved = base # cn_checkpoints st
     in successively extends saved \<and> extends (last saved) (cn_assembly st) \<and>
        digestsKept (last saved) \<and> digestsKept (cn_assembly st))"

lemma onTrack_extend:
  assumes "onTrack base st" "extends (cn_assembly st) (cn_assembly st')" "digestsKept (cn_assembly st')"
    "cn_checkpoints st' = cn_checkpoints st"
  shows "onTrack base st'"
  using assms extends_trans unfolding onTrack_def Let_def by metis

lemma persist_onTrack:
  assumes "persist cfg force st = (st', err)" "onTrack base st"
  shows "onTrack base st'" "cn_assembly st' = cn_assembly st"
proof -
  have "st' = st \<or> cn_checkpoints st' = cn_checkpoints st @ [cn_assembly st] \<and> cn_assembly st' = cn_assembly st"
    using assms(1) by (auto simp: persist_def Let_def split: option.splits if_splits)
  moreover have "extends (cn_assembly st) (cn_assembly st)"
    using assms(2) by (auto simp: onTrack_def Let_def intro: extends_refl extends_valid)
  ultimately show "onTrack base st'" "cn_assembly st' = cn_assembly st"
    using assms(2) unfolding onTrack_def Let_def
    by (auto simp: successively_append_iff simp flip: append_Cons split: if_splits)
qed

lemma digestsKept_setCurrent:
  "digestsKept a \<Longrightarrow> digestsPresent t \<Longrightarrow> digestsKept ((setCurrent t a)\<lparr>ra_State := x\<rparr>)"
  by (auto simp: digestsKept_def setCurrent_def dest: in_set_butlastD)

lemma extends_setCurrent:
  assumes "Assembly_Validate a = None" "currentOrNil a = Some s" "segmentExtends s t" "segmentOK (ra_LogicalRequestID a) t"
  shows "extends a ((setCurrent t a)\<lparr>ra_State := rg_State t\<rparr>)"
proof -
  have "ra_Segments a \<noteq> []" "last (ra_Segments a) = s" using assms(2) by (auto simp: currentOrNil_def split: if_splits)
  then show ?thesis using ValidateExtension_setCurrent [OF assms(1), of t] assms(3,4) by (simp add: extends_def)
qed

lemma current_OK:
  assumes "Assembly_Validate a = None" "currentOrNil a = Some s"
  shows "segmentOK (ra_LogicalRequestID a) s" "ra_State a = rg_State s"
  using assms by (auto simp: Assembly_Validate_None currentOrNil_def split: if_splits)

text \<open>A segment that was streaming may be settled in any way, once.\<close>

lemma settle_onTrack:
  assumes "onTrack base st" "currentOrNil (cn_assembly st) = Some s" "streaming s" "nextSegment e ok s t"
    "t' = t\<lparr>rg_State := x, rg_StopReason := w, rg_Error := y, rg_RejectedToolArguments := z\<rparr>"
    "x \<noteq> ResponseEmpty" "z \<longrightarrow> x = ResponseFailed \<and> rg_ToolFragments t \<noteq> []"
    "cn_assembly st' = (setCurrent t' (cn_assembly st))\<lparr>ra_State := x\<rparr>" "cn_checkpoints st' = cn_checkpoints st"
  shows "onTrack base st'"
proof (rule onTrack_extend [OF assms(1) _ _ assms(9)])
  have v: "Assembly_Validate (cn_assembly st) = None" "digestsKept (cn_assembly st)"
    using assms(1) extends_valid by (auto simp: onTrack_def Let_def)
  note ok = current_OK [OF v(1) assms(2)]
  have r: "\<not> rg_RejectedToolArguments s" using ok(1) assms(3) by (auto simp: segmentOK_def streaming_def)
  have "segmentExtends s t'" using segmentExtends_settle [OF _ assms(3) r] assms(4,5) by (simp add: nextSegment_def)
  moreover have "segmentOK (ra_LogicalRequestID (cn_assembly st)) t'"
    using ok(1) assms(4-7) by (auto simp: segmentOK_def nextSegment_def)
  ultimately show "extends (cn_assembly st) (cn_assembly st')"
    using extends_setCurrent [OF v(1) assms(2), of t'] assms(5,8) by simp
  show "digestsKept (cn_assembly st')"
    using v(2) assms(4,5,8) by (simp add: digestsKept_setCurrent nextSegment_def digestsPresent_def)
qed

lemma continue_onTrack:
  assumes "onTrack base st" "currentOrNil (cn_assembly st) = Some s" "streaming s" "nextSegment e ok s t"
    "cn_assembly st' = (setCurrent t (cn_assembly st))\<lparr>ra_State := rg_State t\<rparr>" "cn_checkpoints st' = cn_checkpoints st"
  shows "onTrack base st'"
proof -
  have "Assembly_Validate (cn_assembly st) = None" using assms(1) extends_valid by (auto simp: onTrack_def Let_def)
  from current_OK [OF this assms(2)] have "\<not> rg_RejectedToolArguments s" using assms(3) by (auto simp: segmentOK_def streaming_def)
  then show ?thesis using assms
    by (intro settle_onTrack [OF assms(1-4), where x = "rg_State t" and w = "rg_StopReason t" and y = "rg_Error t" and z = False])
       (auto simp: nextSegment_def)
qed

lemma trackArguments_frame:
  "trackArguments env e st = (st', err) \<Longrightarrow> cn_assembly st' = cn_assembly st \<and> cn_checkpoints st' = cn_checkpoints st"
  by (auto simp: trackArguments_def Let_def split: prod.splits)

lemma appendToolFragment_nonempty: "fst (appendToolFragment f fs) \<noteq> []"
  by (cases fs) (auto simp: Let_def split: prod.splits)

lemma applied_tool_fragments:
  assumes "Apply_event env e a = (a1, Inr True)" "se_Type e = EventToolCallDelta"
  shows "currentFragments a1 \<noteq> []"
  using assms(1)
proof (cases rule: Apply_event_Inr)
  case (2 s key digest s1 s2)
  have "rg_ToolFragments s2 = fst (appendToolFragment (the (se_ToolCall e)) (rg_ToolFragments s1))"
    using 2(6) assms(2) by (auto simp: applyEvent_def split: prod.splits)
  then show ?thesis using 2(7) assms(2) appendToolFragment_nonempty by (simp add: currentFragments_def)
qed simp

lemma applyStreamEvent_frame:
  assumes "applyStreamEvent env e st = (st1, out)"
  obtains r where "Apply_event env e (cn_assembly st) = (cn_assembly st1, r)" "cn_checkpoints st1 = cn_checkpoints st"
    "\<And>b. out = Inr b \<Longrightarrow> r = Inr b" "\<And>m. out = Inl (m, True) \<Longrightarrow> currentFragments (cn_assembly st1) \<noteq> []"
proof -
  obtain a r where ar: "Apply_event env e (cn_assembly st) = (a, r)" by (cases "Apply_event env e (cn_assembly st)")
  note def = assms [unfolded applyStreamEvent_def ar Let_def, simplified]
  show thesis
  proof (cases r)
    case (Inl m)
    then show thesis using def ar by (intro that [of r]) auto
  next
    case (Inr b)
    show thesis
    proof (cases "b \<and> se_Type e = EventToolCallDelta")
      case True
      obtain st2 err where t: "trackArguments env e (st\<lparr>cn_assembly := a\<rparr>) = (st2, err)"
        by (cases "trackArguments env e (st\<lparr>cn_assembly := a\<rparr>)")
      have "currentFragments a \<noteq> []" using applied_tool_fragments [of env e "cn_assembly st" a] ar Inr True by simp
      then show thesis using def ar Inr True t trackArguments_frame [OF t]
        by (intro that [of r]) (auto split: option.splits)
    next
      case False
      then show thesis using def ar Inr by (intro that [of r]) (auto split: if_splits sum.splits)
    qed
  qed
qed

lemma rejectEvent_onTrack:
  assumes "onTrack base st" "currentOrNil (cn_assembly st) = Some s" "streaming s" "nextSegment e ok s t"
    "cn_assembly st1 = (setCurrent t (cn_assembly st))\<lparr>ra_State := x\<rparr>" "cn_checkpoints st1 = cn_checkpoints st"
    "rejected \<longrightarrow> rg_ToolFragments t \<noteq> []"
  shows "onTrack base (fst (rejectEvent env cfg m rejected st1))"
proof -
  let ?txt = "cc_ErrorText cfg m"
  let ?st = "st1\<lparr>cn_assembly := rejectCurrent rejected (fst (Fail (Some ?txt) (cn_assembly st1)))\<rparr>"
  let ?t = "t\<lparr>rg_State := ResponseFailed, rg_StopReason := rg_StopReason t, rg_Error := ?txt, rg_RejectedToolArguments := rejected\<rparr>"
  have "cn_assembly ?st = (setCurrent ?t (cn_assembly st))\<lparr>ra_State := ResponseFailed\<rparr>"
    using assms(5) by (simp add: rejectCurrent_def Fail_def) (simp add: setCurrent_def)
  then have tr: "onTrack base ?st"
    using assms(6,7)
    by (intro settle_onTrack [OF assms(1-4), where t' = ?t and x = ResponseFailed and w = "rg_StopReason t" and y = ?txt and z = rejected])
       simp_all
  obtain st2 err where p: "persist cfg True ?st = (st2, err)" by (cases "persist cfg True ?st")
  then show ?thesis using persist_onTrack(1) [OF p tr] by (simp add: rejectEvent_def Let_def)
qed

lemma streamEnded_onTrack:
  assumes "onTrack base st" "currentOrNil (cn_assembly st) = Some s" "streaming s"
  shows "onTrack base (fst (streamEnded env cfg err st))"
proof -
  let ?t = "s\<lparr>rg_State := ResponseIncomplete, rg_StopReason := StopReasonIncomplete, rg_Error := recvText err,
    rg_RejectedToolArguments := rg_RejectedToolArguments s\<rparr>"
  let ?a = "(setCurrent ?t (cn_assembly st))\<lparr>ra_State := ResponseIncomplete\<rparr>"
  have i: "Interrupt (Some (recvText err)) (cn_assembly st) = (?a, None)"
    using assms(2,3) by (simp add: Interrupt_def streaming_def)
  have v: "Assembly_Validate (cn_assembly st) = None" "digestsKept (cn_assembly st)"
    using assms(1) extends_valid by (auto simp: onTrack_def Let_def)
  have "digestsPresent s" using v(2) assms(2) by (auto simp: digestsKept_def currentOrNil_def split: if_splits)
  then have n: "nextSegment e True s s" if "se_Type e \<noteq> EventMessageStop" for e
    using assms(3) by (auto simp: nextSegment_def segmentExtends_refl streaming_def)
  have "\<not> rg_RejectedToolArguments s" using current_OK [OF v(1) assms(2)] assms(3) by (auto simp: segmentOK_def streaming_def)
  then have tr: "onTrack base (st\<lparr>cn_assembly := ?a\<rparr>)"
    by (intro settle_onTrack [OF assms n [of helloEvent] refl, of ResponseIncomplete "rg_RejectedToolArguments s"])
       (simp_all add: helloEvent_def)
  obtain st2 e2 where p: "persist cfg True (st\<lparr>cn_assembly := ?a\<rparr>) = (st2, e2)"
    by (cases "persist cfg True (st\<lparr>cn_assembly := ?a\<rparr>)")
  then show ?thesis using i persist_onTrack(1) [OF p tr] by (simp add: streamEnded_def Let_def)
qed

text \<open>
  What the assembly leaves to the provider: a repeated response state keeps its identity and the output
  items it already had.
\<close>

fun responsesGrow :: "ResponseState option \<Rightarrow> streamResult list \<Rightarrow> bool" where
  "responsesGrow r [] = True"
| "responsesGrow r (Failed err # rest) = True"
| "responsesGrow r (Received e # rest) =
    (if se_Type e = EventResponseState then outputLeq r (se_Response e) \<and> responsesGrow (se_Response e) rest
     else responsesGrow r rest)"

lemma responsesGrow_mono: "responsesGrow r stream \<Longrightarrow> outputLeq r' r \<Longrightarrow> responsesGrow r' stream"
  by (induction r stream arbitrary: r' rule: responsesGrow.induct) (auto intro: outputLeq_trans)

lemma onTrack_cong:
  "cn_assembly st' = cn_assembly st \<Longrightarrow> cn_checkpoints st' = cn_checkpoints st \<Longrightarrow> onTrack base st' = onTrack base st"
  by (simp add: onTrack_def)

lemma countEvent_frame: "cn_assembly (countEvent e st) = cn_assembly st" "cn_checkpoints (countEvent e st) = cn_checkpoints st"
  by (simp_all add: countEvent_def addPendingCheckpoint_def)

lemma project_frame:
  "cn_assembly (fst (project cfg v st)) = cn_assembly st" "cn_checkpoints (fst (project cfg v st)) = cn_checkpoints st"
  "cn_assembly (observeOutput st) = cn_assembly st" "cn_checkpoints (observeOutput st) = cn_checkpoints st"
  by (simp_all add: project_def observeOutput_def Let_def split: option.split)

lemma showEvent_frame:
  "cn_assembly (fst (showEvent cfg e st)) = cn_assembly st" "cn_checkpoints (fst (showEvent cfg e st)) = cn_checkpoints st"
  by (cases "se_Type e"; simp add: showEvent_def Let_def project_frame)+

lemma finishStream_state: "fst (finishStream env cfg st) = st"
  by (simp add: finishStream_def Let_def split: sum.split)

text \<open>The part of an iteration that an accepted event takes after it was applied.\<close>

definition afterEvent ::
    "'e AssemblyEnv_scheme \<Rightarrow> 'c ConsumeConfig_scheme \<Rightarrow> StreamEvent \<Rightarrow> (ConsumeState \<Rightarrow> consumed) \<Rightarrow> ConsumeState \<Rightarrow> consumed" where
  "afterEvent env cfg e continue st1 =
    (let (st2, err) = persist cfg (\<not> (coalescibleDelta e \<or> se_Type e = EventTransportProgress)) (countEvent e st1)
     in case err of
          Some c \<Rightarrow> (st2, current env st2, Some (ErrCheckpoint c))
        | None \<Rightarrow>
           (if se_Type e = EventMessageStop then finishStream env cfg st2
            else let (st3, shown) = showEvent cfg e st2
              in case shown of
                   Some c \<Rightarrow> (st3, current env st2, Some (ErrProject c))
                 | None \<Rightarrow> continue st3))"

lemma consumeLoop_Received: "consumeLoop env cfg (Received e # rest) st = (case applyStreamEvent env e st of
     (st1, Inl (m, rejected)) \<Rightarrow> rejectEvent env cfg m rejected st1
   | (st1, Inr applied) \<Rightarrow>
      (if applied then afterEvent env cfg e (consumeLoop env cfg rest) st1 else consumeLoop env cfg rest st1))"
  by (simp add: afterEvent_def Let_def split: prod.split sum.split)

lemma afterEvent_onTrack:
  assumes "onTrack base st1"
    "\<And>st3. se_Type e \<noteq> EventMessageStop \<Longrightarrow> cn_assembly st3 = cn_assembly st1 \<Longrightarrow> onTrack base st3 \<Longrightarrow>
       onTrack base (fst (continue st3))"
  shows "onTrack base (fst (afterEvent env cfg e continue st1))"
proof -
  let ?force = "\<not> (coalescibleDelta e \<or> se_Type e = EventTransportProgress)"
  obtain st2 err where p: "persist cfg ?force (countEvent e st1) = (st2, err)" by (cases "persist cfg ?force (countEvent e st1)")
  have "onTrack base (countEvent e st1)" using assms(1) onTrack_cong countEvent_frame by metis
  note t2 = persist_onTrack [OF p this]
  obtain st3 shown where sh: "showEvent cfg e st2 = (st3, shown)" by (cases "showEvent cfg e st2")
  have f3: "cn_assembly st3 = cn_assembly st2" "cn_checkpoints st3 = cn_checkpoints st2"
    using showEvent_frame [of cfg e st2] sh by simp_all
  then have t3: "onTrack base st3" using t2(1) onTrack_cong by blast
  have a3: "cn_assembly st3 = cn_assembly st1" using f3(1) t2(2) countEvent_frame(1) by metis
  show ?thesis using p sh t2(1) t3 assms(2) [OF _ a3 t3]
    by (cases err; cases shown) (simp_all add: afterEvent_def finishStream_state)
qed

lemma onTrack_current:
  assumes "onTrack base st" "currentOrNil (cn_assembly st) = Some s"
  shows "Assembly_Validate (cn_assembly st) = None" "digestsPresent s" "ra_State (cn_assembly st) = rg_State s"
proof -
  show v: "Assembly_Validate (cn_assembly st) = None" using assms(1) extends_valid by (auto simp: onTrack_def Let_def)
  show "digestsPresent s" using assms by (auto simp: onTrack_def Let_def digestsKept_def currentOrNil_def split: if_splits)
  show "ra_State (cn_assembly st) = rg_State s" by (rule current_OK(2) [OF v assms(2)])
qed

lemma Apply_event_dropped: "Apply_event env e a = (a', Inr False) \<Longrightarrow> a' = a"
  by (erule Apply_event_Inr) simp_all

lemma loop_onTrack:
  assumes "onTrack base st" "currentOrNil (cn_assembly st) = Some s" "streaming s"
    "unat (rg_EventCount s) + length stream < 2 ^ 64" "responsesGrow (rg_Response s) stream"
  shows "onTrack base (fst (consumeLoop env cfg stream st))"
  using assms
proof (induction stream arbitrary: st s)
  case Nil
  then show ?case by (simp add: streamEnded_onTrack)
next
  case (Cons r rest)
  show ?case
  proof (cases r)
    case (Failed err)
    then show ?thesis using Cons.prems by (simp add: streamEnded_onTrack)
  next
    case (Received e)
    obtain st1 out where ap: "applyStreamEvent env e st = (st1, out)" by (cases "applyStreamEvent env e st")
    obtain res where res: "Apply_event env e (cn_assembly st) = (cn_assembly st1, res)" "cn_checkpoints st1 = cn_checkpoints st"
      "\<And>b. out = Inr b \<Longrightarrow> res = Inr b" "\<And>m. out = Inl (m, True) \<Longrightarrow> currentFragments (cn_assembly st1) \<noteq> []"
      using ap by (rule applyStreamEvent_frame) blast
    note cur = onTrack_current [OF Cons.prems(1,2)]
    have cnt: "rg_EventCount s \<noteq> - 1" using Cons.prems(4) by (auto simp: unsigned_minus_1_eq_mask mask_eq_exp_minus_1)
    have out: "se_Type e = EventResponseState \<longrightarrow> outputLeq (rg_Response s) (se_Response e)" using Cons.prems(5) Received by simp
    obtain t where t: "nextSegment e (\<exists>b. res = Inr b) s t" "cn_assembly st1 = (if se_Type e = EventMessageStop \<and> res = Inr True
        then (setCurrent t (cn_assembly st))\<lparr>ra_State := rg_State t\<rparr> else setCurrent t (cn_assembly st))"
      by (rule Apply_event_next [OF Cons.prems(2,3) cur(2) cnt out res(1)])
    have grow: "responsesGrow (rg_Response t) rest"
      using t(1) Cons.prems(5) Received by (auto simp: nextSegment_def intro: responsesGrow_mono split: if_splits)
    show ?thesis
    proof (cases out)
      case (Inl mr)
      obtain m rejected where mr: "mr = (m, rejected)" by (cases mr)
      have "rejected \<longrightarrow> rg_ToolFragments t \<noteq> []"
        using res(4) [of m] Inl mr t(2) by (auto simp: currentFragments_def split: if_splits)
      moreover have "cn_assembly st1 = (setCurrent t (cn_assembly st))\<lparr>ra_State := ra_State (cn_assembly st1)\<rparr>"
        using t(2) by (simp split: if_splits)
      ultimately show ?thesis
        using rejectEvent_onTrack [OF Cons.prems(1-3) t(1) _ res(2)] Received ap Inl mr
        by (simp del: consumeLoop.simps add: consumeLoop_Received)
    next
      case (Inr applied)
      show ?thesis
      proof (cases applied)
        case False
        then have "res = Inr False" using res(3) Inr by simp
        then have same: "cn_assembly st1 = cn_assembly st" using res(1) Apply_event_dropped by simp
        have "responsesGrow (rg_Response s) rest"
          using Cons.prems(5) Received by (auto intro: responsesGrow_mono split: if_splits)
        then have "onTrack base (fst (consumeLoop env cfg rest st1))"
          using Cons.prems(1-4) same onTrack_cong [OF same res(2)] by (intro Cons.IH [of st1 s]) simp_all
        then show ?thesis using Received ap Inr False by (simp del: consumeLoop.simps add: consumeLoop_Received)
      next
        case True
        then have ok: "res = Inr True" using res(3) Inr by simp
        have st: "streaming t" if "se_Type e \<noteq> EventMessageStop" using t(1) ok that by (auto simp: nextSegment_def)
        have "cn_assembly st1 = (setCurrent t (cn_assembly st))\<lparr>ra_State := rg_State t\<rparr>"
          using t(2) ok st cur(3) Cons.prems(3) by (auto simp: streaming_def setCurrent_def)
        then have tr: "onTrack base st1" by (rule continue_onTrack [OF Cons.prems(1-3) t(1) _ res(2)])
        have "onTrack base (fst (consumeLoop env cfg rest st3))"
          if "se_Type e \<noteq> EventMessageStop" "cn_assembly st3 = cn_assembly st1" "onTrack base st3" for st3
          using that st t grow Cons.prems(4) by (intro Cons.IH [of st3 t]) (auto simp: nextSegment_def)
        then have "onTrack base (fst (afterEvent env cfg e (consumeLoop env cfg rest) st1))"
          by (rule afterEvent_onTrack [OF tr])
        then show ?thesis using Received ap Inr True by (simp del: consumeLoop.simps add: consumeLoop_Received)
      qed
    qed
  qed
qed

lemma settlePrevious_digests:
  "\<forall>s \<in> set segs. digestsPresent s \<Longrightarrow> \<forall>s \<in> set (settlePrevious segs). digestsPresent s"
  by (cases segs rule: rev_cases) (auto simp: settlePrevious_def digestsPresent_def)

lemma BeginTransport_onTrack:
  assumes "Assembly_Validate a0 = None" "digestsKept a0" "length (ra_Segments a0) + 1 < 2 ^ 32"
    "ra_Segments a0 \<noteq> [] \<Longrightarrow> rg_State (last (ra_Segments a0)) = ResponseStreaming \<Longrightarrow> rg_Error (last (ra_Segments a0)) = []"
    "BeginTransport m a0 = (a, None)"
  shows "onTrack a0 (startState a)" "\<exists>m'. currentOrNil a = Some (newSegment m')"
proof -
  obtain m' where a: "a = a0\<lparr>ra_Segments := settlePrevious (ra_Segments a0) @ [newSegment m'], ra_State := ResponseStreaming\<rparr>"
    using BeginTransport_None [OF assms(5,1)] by metis
  then show "\<exists>m'. currentOrNil a = Some (newSegment m')" by (auto simp: currentOrNil_def)
  have "extends a0 a" unfolding extends_def using BeginTransport_extends [OF assms(1,4,3,5)] .
  moreover have "digestsPresent (newSegment m')" by (simp add: digestsPresent_def newSegment_def)
  then have "digestsKept a" using settlePrevious_digests assms(2) a by (auto simp: digestsKept_def)
  ultimately show "onTrack a0 (startState a)" using assms(2) by (simp add: onTrack_def startState_def)
qed


definition saveAll :: ConsumeConfig where
  "saveAll = \<lparr>cc_Checkpoint = Some (\<lambda>saved. None), cc_Project = None, cc_ErrorText = (\<lambda>m. ''error'')\<rparr>"

lemmas consume_eval = ConsumeStream_def BeginTransport_def NextTransportAttempt_def zeroTransport_def settlePrevious_def
  transportID_def startState_def persist_def saveAll_def saturatingAdd_def streamEnded_def Interrupt_def rejectEvent_def
  applyStreamEvent_def countEvent_def coalescibleDelta_def deltaSize_def addPendingCheckpoint_def showEvent_def project_def
  observeOutput_def stream_eval ResponseAssemblyVersion_def Let_def


section \<open>A complete response\<close>

definition completeResult ::
    "'e AssemblyEnv_scheme \<Rightarrow> 'c ConsumeConfig_scheme \<Rightarrow> ConsumeState \<Rightarrow> ConsumeResult \<Rightarrow> ResponseSegment \<Rightarrow> bool" where
  "completeResult env cfg st result s \<longleftrightarrow> currentOrNil (cn_assembly st) = Some s \<and> rg_State s = ResponseComplete \<and>
     cr_Blocks result = map (jsonBlock env) (rg_Blocks s) \<and> cr_Usage result = rg_Usage s \<and> cr_Replay result = rg_Replay s \<and>
     list_all (executable env) (rg_ToolFragments s) \<and> cr_Calls result = map callOf (sort_key tf_Index (rg_ToolFragments s)) \<and>
     (rg_StopReason s = StopReasonToolUse \<longrightarrow> cr_Calls result \<noteq> []) \<and>
     (cc_Checkpoint cfg \<noteq> None \<longrightarrow> cn_checkpoints st \<noteq> [] \<and> last (cn_checkpoints st) = cn_assembly st)"

lemma applied_stop:
  assumes "Apply_event env e a = (a1, Inr True)" "se_Type e = EventMessageStop"
  obtains s where "currentOrNil a1 = Some s"
    "rg_State s = (if StopReason_Incomplete (rg_StopReason s) then ResponseIncomplete else ResponseComplete)"
    "rg_StopReason s \<noteq> StopReasonUnset"
  using assms(1)
proof (cases rule: Apply_event_Inr)
  case (2 s0 key digest s1 s2)
  have "currentOrNil a1 = Some s2" using 2(7) assms(2) by simp
  moreover have "rg_State s2 = (if StopReason_Incomplete (rg_StopReason s2) then ResponseIncomplete else ResponseComplete)"
    "rg_StopReason s2 \<noteq> StopReasonUnset"
    using 2(6) assms(2) by (auto simp: applyEvent_def Let_def split: if_splits)
  ultimately show thesis by (rule that)
qed simp

lemma ExecutableToolCalls_Inr: "ExecutableToolCalls env a = Inr calls \<longleftrightarrow> (\<exists>s. currentOrNil a = Some s \<and>
    rg_State s = ResponseComplete \<and> list_all (executable env) (rg_ToolFragments s) \<and>
    calls = map callOf (sort_key tf_Index (rg_ToolFragments s)))"
  by (auto simp: ExecutableToolCalls_def executableCalls_Inr list_all_iff split: option.splits)

lemma finishStream_complete:
  assumes "finishStream env cfg st = (st', result, None)" "currentOrNil (cn_assembly st) = Some s"
    "rg_State s = (if StopReason_Incomplete (rg_StopReason s) then ResponseIncomplete else ResponseComplete)"
    "rg_StopReason s \<noteq> StopReasonUnset"
    "cc_Checkpoint cfg \<noteq> None \<longrightarrow> cn_checkpoints st \<noteq> [] \<and> last (cn_checkpoints st) = cn_assembly st"
  shows "completeResult env cfg st' result s"
proof -
  have reason: "rg_StopReason s = StopReasonEndTurn \<or> rg_StopReason s = StopReasonToolUse"
    using assms(1,2,4) by (cases "rg_StopReason s") (simp_all add: finishStream_def CurrentStopReason_def Let_def)
  then have fin: "rg_State s = ResponseComplete" using assms(3) by auto
  have "\<exists>calls. ExecutableToolCalls env (cn_assembly st) = Inr calls"
  proof (cases "ExecutableToolCalls env (cn_assembly st)")
    case (Inl m)
    then have "currentFragments (cn_assembly st) \<noteq> []"
      using fin assms(2) by (auto simp: ExecutableToolCalls_def currentFragments_def)
    then show ?thesis using assms(1,2) Inl reason by (auto simp: finishStream_def CurrentStopReason_def Let_def)
  qed simp
  then obtain calls where calls: "ExecutableToolCalls env (cn_assembly st) = Inr calls" by blast
  have r: "st' = st" "result = ((current env st)\<lparr>cr_Replay := CurrentReplay (cn_assembly st)\<rparr>)\<lparr>cr_Calls := calls\<rparr>"
    "rg_StopReason s = StopReasonToolUse \<longrightarrow> calls \<noteq> []"
    using assms(1,2) calls reason by (auto simp: finishStream_def CurrentStopReason_def Let_def split: if_splits)
  show ?thesis using calls [unfolded ExecutableToolCalls_Inr] r assms(2,5) fin
    by (auto simp: completeResult_def current_def CurrentBlocks_def CurrentUsage_def CurrentReplay_def)
qed

lemma persist_forced:
  "persist cfg True st = (st', None) \<Longrightarrow> cc_Checkpoint cfg \<noteq> None \<longrightarrow>
    cn_checkpoints st' \<noteq> [] \<and> last (cn_checkpoints st') = cn_assembly st'"
  by (auto simp: persist_def Let_def split: option.splits)

lemma persist_assembly: "persist cfg force st = (st', err) \<Longrightarrow> cn_assembly st' = cn_assembly st"
  by (auto simp: persist_def Let_def split: option.splits if_splits)

lemma afterEvent_complete:
  assumes "afterEvent env cfg e continue st1 = (st', result, None)" "Apply_event env e a = (cn_assembly st1, Inr True)"
    "\<And>st3. continue st3 = (st', result, None) \<Longrightarrow> \<exists>s. completeResult env cfg st' result s"
  shows "\<exists>s. completeResult env cfg st' result s"
proof -
  let ?force = "\<not> (coalescibleDelta e \<or> se_Type e = EventTransportProgress)"
  obtain st2 err where p: "persist cfg ?force (countEvent e st1) = (st2, err)" by (cases "persist cfg ?force (countEvent e st1)")
  have err: "err = None" using assms(1) p by (cases err) (simp_all add: afterEvent_def)
  show ?thesis
  proof (cases "se_Type e = EventMessageStop")
    case True
    then have f: "finishStream env cfg st2 = (st', result, None)" "?force"
      using assms(1) p err by (simp_all add: afterEvent_def coalescibleDelta_def)
    have a: "cn_assembly st2 = cn_assembly st1" using persist_assembly [OF p] countEvent_frame(1) by simp
    obtain s where s: "currentOrNil (cn_assembly st1) = Some s"
      "rg_State s = (if StopReason_Incomplete (rg_StopReason s) then ResponseIncomplete else ResponseComplete)"
      "rg_StopReason s \<noteq> StopReasonUnset"
      by (rule applied_stop [OF assms(2) True])
    have "cc_Checkpoint cfg \<noteq> None \<longrightarrow> cn_checkpoints st2 \<noteq> [] \<and> last (cn_checkpoints st2) = cn_assembly st2"
      using persist_forced p f(2) err by simp
    then show ?thesis using finishStream_complete [OF f(1) s(1) [folded a] s(2,3)] by blast
  next
    case False
    obtain st3 shown where "showEvent cfg e st2 = (st3, shown)" by (cases "showEvent cfg e st2")
    then have "continue st3 = (st', result, None)" using assms(1) p err False by (cases shown) (simp_all add: afterEvent_def)
    then show ?thesis by (rule assms(3))
  qed
qed

lemma loop_complete:
  "consumeLoop env cfg stream st = (st', result, None) \<Longrightarrow> \<exists>s. completeResult env cfg st' result s"
proof (induction stream arbitrary: st)
  case Nil
  then show ?case by (simp add: streamEnded_def Let_def split: prod.splits option.splits)
next
  case (Cons r rest)
  show ?case
  proof (cases r)
    case (Failed err)
    then show ?thesis using Cons.prems by (simp add: streamEnded_def Let_def split: prod.splits option.splits)
  next
    case (Received e)
    obtain st1 out where ap: "applyStreamEvent env e st = (st1, out)" by (cases "applyStreamEvent env e st")
    note loop = Cons.prems [unfolded Received consumeLoop_Received ap]
    obtain res where res: "Apply_event env e (cn_assembly st) = (cn_assembly st1, res)" "\<And>b. out = Inr b \<Longrightarrow> res = Inr b"
      using ap by (rule applyStreamEvent_frame) blast
    show ?thesis
    proof (cases out)
      case (Inl mr)
      then show ?thesis using loop by (cases mr) (simp add: rejectEvent_def Let_def split: prod.splits)
    next
      case (Inr applied)
      show ?thesis
      proof (cases applied)
        case True
        then have "afterEvent env cfg e (consumeLoop env cfg rest) st1 = (st', result, None)" using loop Inr by simp
        moreover have "Apply_event env e (cn_assembly st) = (cn_assembly st1, Inr True)" using res Inr True by simp
        ultimately show ?thesis using Cons.IH by (rule afterEvent_complete)
      qed (use loop Inr Cons.IH in auto)
    qed
  qed
qed

text \<open>
  C22. A stream that is consumed without error has a complete result: its last segment is complete, blocks,
  usage and replay state are those of that segment, the calls are all its fragments, executable and in the
  order of their indices, a stop for tool use comes with at least one call, and what is returned has been
  checkpointed.
\<close>

theorem consumed_result_complete:
  assumes "ConsumeStream env cfg metadata stream a0 = (st, result, None)"
  shows "\<exists>s. completeResult env cfg st result s"
proof -
  obtain st1 where "consumeLoop env cfg stream st1 = (st, result, None)"
    using assms by (auto simp: ConsumeStream_def Let_def split: prod.splits option.splits)
  then show ?thesis by (rule loop_complete)
qed

theorem consumed_result_complete_witness:
  "\<exists>st result s. ConsumeStream plainEnv saveAll zeroTransport
      [Received helloEvent, Received (helloEvent\<lparr>se_Type := EventMessageStop, se_EventID := ''e2''\<rparr>)] (NewResponseAssembly ''r1'')
      = (st, result, None) \<and> completeResult plainEnv saveAll st result s"
proof -
  let ?r = "ConsumeStream plainEnv saveAll zeroTransport
      [Received helloEvent, Received (helloEvent\<lparr>se_Type := EventMessageStop, se_EventID := ''e2''\<rparr>)] (NewResponseAssembly ''r1'')"
  have "snd (snd ?r) = None"
    by (simp add: consume_eval finishStream_def CurrentStopReason_def ExecutableToolCalls_def)
  then have "?r = (fst ?r, fst (snd ?r), None)" by (metis prod.collapse)
  from consumed_result_complete [OF this] this show ?thesis by blast
qed

end
