(* ===== verification/Go_Paths.thy ===== *)
theory Go_Paths
  imports Go_Prelude
begin

text \<open>
  The parts of the Go standard library that the security packages use on text and on paths: UTF-8
  decoding (\<open>unicode/utf8\<close>), splitting and joining at a separator (\<open>strings\<close>), lexical path
  cleaning (\<open>path\<close> and, on a system whose separator is the slash, \<open>path/filepath\<close>) and the shell
  pattern matcher \<open>path.Match\<close>. A string is the list of its bytes.

  The lemmas give what the callers rely on: the segments of a joined path, that the verdict "bad
  pattern" of \<open>path.Match\<close> does not depend on the name it is asked about, and that a pattern without
  special characters matches exactly itself.
\<close>

section \<open>Runes\<close>

definition RuneError :: nat where
  "RuneError = 0xFFFD"

definition byteIn :: "char \<Rightarrow> nat \<Rightarrow> nat \<Rightarrow> bool" where
  "byteIn c lo hi \<longleftrightarrow> lo \<le> (of_char c :: nat) \<and> (of_char c :: nat) \<le> hi"

text \<open>The range of the second byte that the first byte of a longer encoding accepts.\<close>

definition secondRange :: "nat \<Rightarrow> nat \<times> nat" where
  "secondRange b =
     (if b = 0xE0 then (0xA0, 0xBF) else if b = 0xED then (0x80, 0x9F)
      else if b = 0xF0 then (0x90, 0xBF) else if b = 0xF4 then (0x80, 0x8F) else (0x80, 0xBF))"

definition decodeRune :: "string \<Rightarrow> nat \<times> nat" where
  "decodeRune s =
     (case s of
        [] \<Rightarrow> (RuneError, 0)
      | c # cs \<Rightarrow>
          let b = of_char c; lo = fst (secondRange b); hi = snd (secondRange b); bad = (RuneError, 1) in
          if b < 0x80 then (b, 1)
          else if 0xC2 \<le> b \<and> b \<le> 0xDF then
            (case cs of
               d # _ \<Rightarrow> if byteIn d lo hi then ((b - 0xC0) * 64 + (of_char d - 0x80), 2) else bad
             | _ \<Rightarrow> bad)
          else if 0xE0 \<le> b \<and> b \<le> 0xEF then
            (case cs of
               d # e # _ \<Rightarrow>
                 if byteIn d lo hi \<and> byteIn e 0x80 0xBF
                 then ((b - 0xE0) * 4096 + (of_char d - 0x80) * 64 + (of_char e - 0x80), 3) else bad
             | _ \<Rightarrow> bad)
          else if 0xF0 \<le> b \<and> b \<le> 0xF4 then
            (case cs of
               d # e # f # _ \<Rightarrow>
                 if byteIn d lo hi \<and> byteIn e 0x80 0xBF \<and> byteIn f 0x80 0xBF
                 then ((b - 0xF0) * 262144 + (of_char d - 0x80) * 4096 + (of_char e - 0x80) * 64
                       + (of_char f - 0x80), 4)
                 else bad
             | _ \<Rightarrow> bad)
          else bad)"

definition asciiByte :: "char \<Rightarrow> bool" where
  "asciiByte c \<longleftrightarrow> (of_char c :: nat) < 0x80"

lemma decodeRune_Nil [simp]: "decodeRune [] = (RuneError, 0)"
  by (simp add: decodeRune_def)

lemma decodeRune_ascii [simp]: "asciiByte c \<Longrightarrow> decodeRune (c # cs) = (of_char c, 1)"
  by (simp add: decodeRune_def asciiByte_def Let_def)

lemma decodeRune_size:
  assumes "s \<noteq> []"
  shows "0 < snd (decodeRune s) \<and> snd (decodeRune s) \<le> length s"
  using assms by (auto simp: decodeRune_def Let_def split: list.splits)

lemma byteIn_wide: "byteIn c lo hi \<Longrightarrow> 0x80 \<le> lo \<Longrightarrow> \<not> asciiByte c"
  by (simp add: byteIn_def asciiByte_def)

lemma secondRange_wide [simp]: "0x80 \<le> fst (secondRange b)"
  by (simp add: secondRange_def)

lemma decodeRune_wide:
  assumes "\<not> asciiByte c"
  shows "\<forall>x \<in> set (take (snd (decodeRune (c # cs))) (c # cs)). \<not> asciiByte x"
proof -
  have wide: "\<not> asciiByte d" if "byteIn d (fst (secondRange b)) hi" for d b hi
    using byteIn_wide [OF that] by simp
  have tail: "\<not> asciiByte d" if "byteIn d 0x80 0xBF" for d
    using byteIn_wide [OF that] by simp
  have b: "\<not> (of_char c :: nat) < 0x80"
    using assms by (simp add: asciiByte_def)
  show ?thesis
  proof (cases cs)
    case Nil
    then show ?thesis using assms b by (simp add: decodeRune_def Let_def)
  next
    case one: (Cons d ds)
    show ?thesis
    proof (cases ds)
      case Nil
      then show ?thesis using one assms b wide by (simp add: decodeRune_def Let_def)
    next
      case two: (Cons e es)
      show ?thesis
        by (cases es) (use one two assms b in \<open>simp_all add: decodeRune_def Let_def wide tail\<close>)
    qed
  qed
qed

text \<open>A string is well formed when no decoding step meets an ill-formed byte.\<close>

function validUTF8 :: "string \<Rightarrow> bool" where
  "validUTF8 s =
     (if s = [] then True else if decodeRune s = (RuneError, 1) then False
      else validUTF8 (drop (snd (decodeRune s)) s))"
  by pat_completeness auto
termination
  by (relation "measure length") (auto dest: decodeRune_size)

declare validUTF8.simps [simp del]

section \<open>Splitting and joining\<close>

fun splitSlash :: "string \<Rightarrow> string list" where
  "splitSlash [] = [[]]"
| "splitSlash (c # s) =
     (if c = CHR ''/'' then [] # splitSlash s
      else (case splitSlash s of [] \<Rightarrow> [[c]] | x # xs \<Rightarrow> (c # x) # xs))"

fun joinSlash :: "string list \<Rightarrow> string" where
  "joinSlash [] = []"
| "joinSlash [s] = s"
| "joinSlash (s # t # ss) = s @ CHR ''/'' # joinSlash (t # ss)"

definition trimSlash :: "string \<Rightarrow> string" where
  "trimSlash s = rev (dropWhile ((=) (CHR ''/'')) (rev (dropWhile ((=) (CHR ''/'')) s)))"

definition hasSlash :: "string \<Rightarrow> bool" where
  "hasSlash s \<longleftrightarrow> CHR ''/'' \<in> set s"

lemma splitSlash_nonempty [simp]: "splitSlash s \<noteq> []"
  by (cases s) (auto split: list.split)

lemma splitSlash_append: "splitSlash (a @ CHR ''/'' # b) = splitSlash a @ splitSlash b"
  by (induction a) (auto split: list.split)

lemma splitSlash_plain [simp]: "\<not> hasSlash s \<Longrightarrow> splitSlash s = [s]"
  by (induction s) (auto simp: hasSlash_def)

lemma splitSlash_join:
  "ss \<noteq> [] \<Longrightarrow> \<forall>s \<in> set ss. \<not> hasSlash s \<Longrightarrow> splitSlash (joinSlash ss) = ss"
  by (induction ss rule: joinSlash.induct) (simp_all add: splitSlash_append)

lemma splitSlash_noSlash: "s \<in> set (splitSlash t) \<Longrightarrow> \<not> hasSlash s"
  by (induction t arbitrary: s) (auto simp: hasSlash_def split: if_splits list.splits)

lemma joinSlash_split [simp]: "joinSlash (splitSlash s) = s"
proof (induction s)
  case (Cons c s)
  obtain x xs where s: "splitSlash s = x # xs" by (cases "splitSlash s") simp_all
  with Cons show ?case by (cases xs) auto
qed simp

lemma dropWhile_slash_join:
  assumes "ss \<noteq> []" "\<forall>s \<in> set ss. s \<noteq> [] \<and> \<not> hasSlash s"
  shows "dropWhile ((=) (CHR ''/'')) (joinSlash ss) = joinSlash ss"
proof -
  obtain c s t where "ss = (c # s) # t"
    using assms by (metis list.exhaust list.set_intros(1))
  with assms have "\<exists>r. joinSlash ss = c # r \<and> c \<noteq> CHR ''/''"
    by (cases t) (auto simp: hasSlash_def)
  then show ?thesis by auto
qed

lemma joinSlash_snoc: "ss \<noteq> [] \<Longrightarrow> joinSlash (ss @ [s]) = joinSlash ss @ CHR ''/'' # s"
  by (induction ss rule: joinSlash.induct) simp_all

lemma rev_joinSlash: "rev (joinSlash ss) = joinSlash (map rev (rev ss))"
proof (induction ss rule: joinSlash.induct)
  case (3 s t ss)
  then show ?case by (simp add: joinSlash_snoc [of "map rev (rev (t # ss))" "rev s", simplified])
qed simp_all

lemma trimSlash_join:
  assumes "\<forall>s \<in> set ss. s \<noteq> [] \<and> \<not> hasSlash s"
  shows "trimSlash (joinSlash ss) = joinSlash ss"
proof (cases "ss = []")
  case False
  have "dropWhile ((=) (CHR ''/'')) (joinSlash (map rev (rev ss))) = joinSlash (map rev (rev ss))"
    by (rule dropWhile_slash_join) (use assms False in \<open>auto simp: hasSlash_def\<close>)
  then have "dropWhile ((=) (CHR ''/'')) (rev (joinSlash ss)) = rev (joinSlash ss)"
    by (simp add: rev_joinSlash)
  then show ?thesis
    by (simp add: trimSlash_def dropWhile_slash_join [OF False assms])
qed (simp add: trimSlash_def)

section \<open>Lexical path cleaning\<close>

text \<open>
  \<open>Clean\<close> reads the segments from left to right and keeps the kept ones on a stack; \<open>..\<close> removes the
  last kept segment, stays at the front of a relative path, and disappears at the root.
\<close>

fun cleanSegments :: "bool \<Rightarrow> string list \<Rightarrow> string list \<Rightarrow> string list" where
  "cleanSegments rooted kept [] = rev kept"
| "cleanSegments rooted kept (s # ss) =
     (if s = [] \<or> s = ''.'' then cleanSegments rooted kept ss
      else if s = ''..'' then
        (case kept of
           [] \<Rightarrow> cleanSegments rooted (if rooted then [] else [s]) ss
         | k # ks \<Rightarrow> cleanSegments rooted (if k = ''..'' then s # kept else ks) ss)
      else cleanSegments rooted (s # kept) ss)"

definition IsAbs :: "string \<Rightarrow> bool" where
  "IsAbs p \<longleftrightarrow> prefix ''/'' p"

definition Clean :: "string \<Rightarrow> string" where
  "Clean p =
     (let body = joinSlash (cleanSegments (IsAbs p) [] (splitSlash p)) in
      if IsAbs p then CHR ''/'' # body else if body = [] then ''.'' else body)"

text \<open>\<open>filepath.Join\<close> leaves empty elements out and cleans the result.\<close>

definition Join :: "string list \<Rightarrow> string" where
  "Join es = (let es' = filter (\<lambda>e. e \<noteq> []) es in if es' = [] then [] else Clean (joinSlash es'))"

definition properName :: "string \<Rightarrow> bool" where
  "properName s \<longleftrightarrow> s \<noteq> [] \<and> s \<noteq> ''.'' \<and> s \<noteq> ''..'' \<and> \<not> hasSlash s"

lemma cleanSegments_append:
  "cleanSegments r kept (a @ b) = cleanSegments r (rev (cleanSegments r kept a)) b"
  by (induction r kept a rule: cleanSegments.induct) (auto split: list.split)

lemma cleanSegments_noDots:
  "\<forall>s \<in> set ss. s \<noteq> [] \<and> s \<noteq> ''.'' \<and> s \<noteq> ''..'' \<Longrightarrow> cleanSegments r kept ss = rev kept @ ss"
  by (induction ss arbitrary: kept) auto

lemma cleanSegments_proper:
  "list_all properName ss \<Longrightarrow> cleanSegments r kept ss = rev kept @ ss"
  by (rule cleanSegments_noDots) (auto simp: properName_def list_all_iff)

lemma cleanSegments_segment:
  assumes "s \<in> set (cleanSegments r kept ss)" "\<forall>k \<in> set kept. k \<noteq> [] \<and> k \<noteq> ''.'' \<and> \<not> hasSlash k"
    "\<forall>k \<in> set ss. \<not> hasSlash k"
  shows "s \<noteq> [] \<and> s \<noteq> ''.'' \<and> \<not> hasSlash s"
  using assms
proof (induction r kept ss rule: cleanSegments.induct)
  case (2 rooted kept s ss)
  then show ?case by (cases kept) (auto split: if_splits)
qed auto

text \<open>The segments of a cleaned path, as the pattern matcher and the classifiers read them.\<close>

definition pathSegments :: "string \<Rightarrow> string list" where
  "pathSegments p = cleanSegments (IsAbs p) [] (splitSlash p)"

lemma pathSegments_segment:
  "s \<in> set (pathSegments p) \<Longrightarrow> s \<noteq> [] \<and> s \<noteq> ''.'' \<and> \<not> hasSlash s"
  unfolding pathSegments_def
  by (rule cleanSegments_segment [of s "IsAbs p" "[]" "splitSlash p"]) (auto dest: splitSlash_noSlash)

lemma joinSlash_not_rooted:
  assumes "\<forall>s \<in> set ss. s \<noteq> [] \<and> \<not> hasSlash s"
  shows "\<not> IsAbs (joinSlash ss)"
proof (cases ss)
  case (Cons t ts)
  with assms obtain c t' where "t = c # t'" "c \<noteq> CHR ''/''" by (cases t) (auto simp: hasSlash_def)
  with Cons show ?thesis by (cases ts) (auto simp: IsAbs_def)
qed (simp add: IsAbs_def)

lemma IsAbs_Clean [simp]: "IsAbs (Clean p) = IsAbs p"
proof -
  have "\<not> IsAbs (joinSlash (pathSegments p))"
    by (rule joinSlash_not_rooted) (simp add: pathSegments_segment)
  then show ?thesis
    by (auto simp: Clean_def Let_def IsAbs_def pathSegments_def)
qed

text \<open>The kept segments have their \<open>..\<close> entries in front, and none below the root.\<close>

definition settledPath :: "bool \<Rightarrow> string list \<Rightarrow> bool" where
  "settledPath rooted ss \<longleftrightarrow>
     (\<forall>s \<in> set ss. s \<noteq> [] \<and> s \<noteq> ''.'') \<and>
     ''..'' \<notin> set (dropWhile ((=) ''..'') ss) \<and> (rooted \<longrightarrow> ''..'' \<notin> set ss)"

lemma settled_Nil [simp]: "settledPath r []"
  by (simp add: settledPath_def)

lemma settled_snoc:
  "settledPath r (ss @ [s]) \<longleftrightarrow>
     settledPath r ss \<and> s \<noteq> [] \<and> s \<noteq> ''.'' \<and> (s = ''..'' \<longrightarrow> \<not> r \<and> set ss \<subseteq> {''..''})"
proof (cases "\<forall>x \<in> set ss. ''..'' = x")
  case True
  then have sub: "set ss \<subseteq> {''..''}" by auto
  have drop: "dropWhile ((=) ''..'') ss = []" "dropWhile ((=) ''..'') (ss @ [s]) = dropWhile ((=) ''..'') [s]"
    using True by (simp_all add: dropWhile_append2)
  have "''..'' \<notin> set (dropWhile ((=) ''..'') [s])" by simp
  then show ?thesis unfolding settledPath_def drop using sub by auto
next
  case False
  then have sub: "\<not> set ss \<subseteq> {''..''}" by auto
  from False obtain x where "x \<in> set ss" "\<not> ''..'' = x" by blast
  then have drop: "dropWhile ((=) ''..'') (ss @ [s]) = dropWhile ((=) ''..'') ss @ [s]"
    by (rule dropWhile_append1)
  show ?thesis unfolding settledPath_def drop using sub by auto
qed

lemma settled_cleanSegments: "settledPath r (rev kept) \<Longrightarrow> settledPath r (cleanSegments r kept ss)"
proof (induction ss arbitrary: kept)
  case (Cons s ss)
  consider "s = [] \<or> s = ''.''" | "s = ''..''" "kept = []"
    | k ks where "s = ''..''" "kept = k # ks" | "s \<noteq> []" "s \<noteq> ''.''" "s \<noteq> ''..''"
    by (cases kept) auto
  then show ?case
  proof cases
    case 1
    with Cons show ?thesis by auto
  next
    case 2
    have "settledPath r (rev (if r then [] else [s]))" using 2 by (simp add: settledPath_def)
    from Cons.IH [OF this] 2 show ?thesis by (cases r) simp_all
  next
    case 3
    have "settledPath r (rev (if k = ''..'' then s # kept else ks))"
      using Cons.prems 3 settled_snoc [of r "rev ks @ [k]" s] settled_snoc [of r "rev ks" k] by auto
    from Cons.IH [OF this] 3 show ?thesis by (cases "k = ''..''") simp_all
  next
    case 4
    then have "settledPath r (rev (s # kept))" using Cons.prems by (simp add: settled_snoc)
    from Cons.IH [OF this] 4 show ?thesis by simp
  qed
qed simp

lemma cleanSegments_dots:
  assumes "''..'' \<notin> set (dropWhile ((=) ''..'') ss)" "\<forall>s \<in> set ss. s \<noteq> [] \<and> s \<noteq> ''.''"
    "set kept \<subseteq> {''..''}"
  shows "cleanSegments False kept ss = rev kept @ ss"
  using assms
proof (induction ss arbitrary: kept)
  case (Cons s ss)
  show ?case
  proof (cases "s = ''..''")
    case True
    with Cons.prems have "cleanSegments False (s # kept) ss = rev (s # kept) @ ss"
      by (intro Cons.IH) auto
    with True Cons.prems(3) show ?thesis by (cases kept) auto
  next
    case False
    with Cons.prems have "cleanSegments False (s # kept) ss = rev (s # kept) @ ss"
      by (intro cleanSegments_noDots) auto
    with False Cons.prems show ?thesis by simp
  qed
qed simp

lemma cleanSegments_settled: "settledPath r ss \<Longrightarrow> cleanSegments r [] ss = ss"
proof (cases r)
  case True
  assume "settledPath r ss"
  with True have "\<forall>s \<in> set ss. s \<noteq> [] \<and> s \<noteq> ''.'' \<and> s \<noteq> ''..''" by (auto simp: settledPath_def)
  then show ?thesis using True by (simp add: cleanSegments_noDots)
qed (simp add: settledPath_def cleanSegments_dots)

lemma settled_pathSegments: "settledPath (IsAbs p) (pathSegments p)"
  by (simp add: pathSegments_def settled_cleanSegments)

lemma joinSlash_eq_Nil: "\<forall>s \<in> set ss. s \<noteq> [] \<Longrightarrow> joinSlash ss = [] \<longleftrightarrow> ss = []"
  by (cases ss rule: joinSlash.cases) auto

lemma Clean_segments:
  "Clean p = (if IsAbs p then CHR ''/'' # joinSlash (pathSegments p)
     else if pathSegments p = [] then ''.'' else joinSlash (pathSegments p))"
proof -
  have "joinSlash (pathSegments p) = [] \<longleftrightarrow> pathSegments p = []"
    by (rule joinSlash_eq_Nil) (simp add: pathSegments_segment)
  then show ?thesis by (cases "IsAbs p") (simp_all add: Clean_def Let_def pathSegments_def)
qed

lemma pathSegments_build:
  assumes "settledPath r ss" "\<forall>s \<in> set ss. \<not> hasSlash s"
  shows "pathSegments (if r then CHR ''/'' # joinSlash ss else joinSlash ss) = ss"
proof -
  have split: "splitSlash (joinSlash ss) = (if ss = [] then [[]] else ss)"
    using assms(2) by (simp add: splitSlash_join)
  have "\<not> IsAbs (joinSlash ss)"
    using assms by (intro joinSlash_not_rooted) (auto simp: settledPath_def)
  with split cleanSegments_settled [OF assms(1)] show ?thesis
    by (cases r) (auto simp: pathSegments_def IsAbs_def)
qed

lemma pathSegments_Clean [simp]: "pathSegments (Clean p) = pathSegments p"
proof -
  have "pathSegments ''.'' = []" by (simp add: pathSegments_def IsAbs_def)
  with pathSegments_build [OF settled_pathSegments, of p] pathSegments_segment [of _ p]
  show ?thesis by (auto simp: Clean_segments split: if_splits)
qed

lemma Clean_Clean [simp]: "Clean (Clean p) = Clean p"
proof -
  have "Clean (Clean p) = (if IsAbs p then CHR ''/'' # joinSlash (pathSegments p)
     else if pathSegments p = [] then ''.'' else joinSlash (pathSegments p))"
    by (subst Clean_segments) (simp only: IsAbs_Clean pathSegments_Clean)
  then show ?thesis by (simp only: Clean_segments)
qed

lemma IsAbs_append: "p \<noteq> [] \<Longrightarrow> IsAbs (p @ q) = IsAbs p"
  by (cases p) (auto simp: IsAbs_def)

lemma pathSegments_below:
  assumes "p \<noteq> []"
  shows "pathSegments (p @ CHR ''/'' # q) = cleanSegments (IsAbs p) (rev (pathSegments p)) (splitSlash q)"
  using assms by (simp add: pathSegments_def IsAbs_append splitSlash_append cleanSegments_append)

text \<open>The segments of a path extended by proper names are the segments and the names.\<close>

definition extendPath :: "string \<Rightarrow> string list \<Rightarrow> string" where
  "extendPath p names = joinSlash (p # names)"

lemma extendPath_Nil [simp]: "extendPath p [] = p"
  by (simp add: extendPath_def)

lemma extendPath_facts:
  assumes "p \<noteq> []" "list_all properName names"
  shows "pathSegments (extendPath p names) = pathSegments p @ names"
    "IsAbs (extendPath p names) = IsAbs p"
proof -
  have split: "splitSlash (joinSlash names) = names" if "names \<noteq> []"
    using assms(2) that by (intro splitSlash_join) (auto simp: properName_def list_all_iff)
  have shape: "extendPath p names = p @ CHR ''/'' # joinSlash names" if "names \<noteq> []"
    using that by (cases names) (simp_all add: extendPath_def)
  show "pathSegments (extendPath p names) = pathSegments p @ names"
    by (cases "names = []")
       (simp_all add: shape split pathSegments_below [OF assms(1)] cleanSegments_proper [OF assms(2)])
  show "IsAbs (extendPath p names) = IsAbs p"
    by (cases "names = []") (simp_all add: shape IsAbs_append [OF assms(1)])
qed

end
