(* ===== verification/Network_Reach.thy ===== *)
theory Network_Reach
  imports Go_Paths
begin

text \<open>
  The network vocabulary of the security layer, \<open>src/internal/security/netpolicy\<close>: endpoints
  (\<open>target.go\<close>) and the classification of addresses by where traffic to them is delivered
  (\<open>address.go\<close>). An IPv4 address is a 32-bit word and an IPv6 address a 128-bit word, as in
  \<open>netip.Addr\<close>; the operations of \<open>netip\<close> that the classifier calls are written out on the bits.
  The parser \<open>netip.ParseAddr\<close> and the Unicode case mappings are parameters.

  The properties say that an IPv4 destination cannot hide in an IPv6 form, and that the class
  \<open>Public\<close> is exactly the complement of the blocks the special-purpose registries reserve.
\<close>

unbundle bit_operations_syntax

section \<open>Addresses and prefixes\<close>

text \<open>\<open>AddrZero\<close> is the invalid zero value; an IPv6 address may carry a zone.\<close>

datatype Addr = AddrZero | Addr4 "32 word" | Addr6 "128 word" string

datatype Prefix = Prefix4 "32 word" nat | Prefix6 "128 word" nat

fun prefixContains :: "Prefix \<Rightarrow> Addr \<Rightarrow> bool" where
  "prefixContains (Prefix4 base n) (Addr4 a) \<longleftrightarrow> drop_bit (32 - n) a = drop_bit (32 - n) base"
| "prefixContains (Prefix6 base n) (Addr6 a zone) \<longleftrightarrow>
     zone = [] \<and> drop_bit (128 - n) a = drop_bit (128 - n) base"
| "prefixContains _ _ \<longleftrightarrow> False"

definition containsAddr :: "Prefix list \<Rightarrow> Addr \<Rightarrow> bool" where
  "containsAddr ps addr = list_ex (\<lambda>p. prefixContains p addr) ps"

definition ip4 :: "nat \<Rightarrow> nat \<Rightarrow> nat \<Rightarrow> nat \<Rightarrow> nat \<Rightarrow> Prefix" where
  "ip4 a b c d n = Prefix4 (word_of_nat (((a * 256 + b) * 256 + c) * 256 + d)) n"

text \<open>An IPv6 prefix by its first 32 bits; all prefixes of the tables but the NAT64 one fit.\<close>

definition ip6 :: "nat \<Rightarrow> nat \<Rightarrow> nat \<Rightarrow> Prefix" where
  "ip6 a b n = Prefix6 (push_bit 96 (word_of_nat (a * 65536 + b))) n"

definition nonPublicIPv4 :: "Prefix list" where
  "nonPublicIPv4 =
     [ip4 0 0 0 0 8, ip4 10 0 0 0 8, ip4 100 64 0 0 10, ip4 127 0 0 0 8, ip4 169 254 0 0 16,
      ip4 172 16 0 0 12, ip4 192 0 0 0 24, ip4 192 0 2 0 24, ip4 192 88 99 0 24, ip4 192 168 0 0 16,
      ip4 198 18 0 0 15, ip4 198 51 100 0 24, ip4 203 0 113 0 24, ip4 224 0 0 0 4, ip4 240 0 0 0 4]"

definition globalUnicastIPv6 :: Prefix where
  "globalUnicastIPv6 = ip6 0x2000 0 3"

definition nonPublicIPv6 :: "Prefix list" where
  "nonPublicIPv6 = [ip6 0x2001 0 23, ip6 0x2001 0xDB8 32, ip6 0x3FFF 0 20]"

definition hostLocalIPv4 :: "Prefix list" where
  "hostLocalIPv4 = [ip4 0 0 0 0 8, ip4 127 0 0 0 8, ip4 169 254 0 0 16, ip4 224 0 0 0 24]"

definition privateBlocks :: "Prefix list" where
  "privateBlocks = [ip4 10 0 0 0 8, ip4 100 64 0 0 10, ip4 172 16 0 0 12, ip4 192 168 0 0 16, ip6 0xFC00 0 7]"

definition nat64WellKnown :: Prefix where
  "nat64WellKnown = Prefix6 (push_bit 96 0x64FF9B) 96"

definition sixToFour :: Prefix where
  "sixToFour = ip6 0x2002 0 16"

section \<open>Classification\<close>

datatype Reach = HostLocal | PrivateReach | ReservedReach | PublicReach

fun Is4 :: "Addr \<Rightarrow> bool" where
  "Is4 (Addr4 _) = True"
| "Is4 _ = False"

fun nonPublic :: "Addr \<Rightarrow> bool" where
  "nonPublic (Addr4 a) = containsAddr nonPublicIPv4 (Addr4 a)"
| "nonPublic addr = (\<not> prefixContains globalUnicastIPv6 addr \<or> containsAddr nonPublicIPv6 addr)"

text \<open>
  The tests of \<open>netip.Addr\<close> on an IPv6 address: unspecified, loopback, link-local unicast
  (\<open>fe80::/10\<close>), link-local and interface-local multicast (\<open>ffx2\<close> and \<open>ffx1\<close> for every flag nibble).
\<close>

definition hostLocal6 :: "128 word \<Rightarrow> bool" where
  "hostLocal6 a \<longleftrightarrow>
     a = 0 \<or> a = 1 \<or> drop_bit 112 a AND 0xFFC0 = 0xFE80 \<or> drop_bit 112 a AND 0xFF0F = 0xFF02 \<or>
     drop_bit 112 a AND 0xFF0F = 0xFF01"

fun hostLocal :: "Addr \<Rightarrow> bool" where
  "hostLocal (Addr4 a) = containsAddr hostLocalIPv4 (Addr4 a)"
| "hostLocal (Addr6 a zone) = hostLocal6 a"
| "hostLocal AddrZero = False"

fun WithoutZone :: "Addr \<Rightarrow> Addr" where
  "WithoutZone (Addr6 a zone) = Addr6 a []"
| "WithoutZone addr = addr"

fun Unmap :: "Addr \<Rightarrow> Addr" where
  "Unmap (Addr6 a zone) = (if drop_bit 32 a = 0xFFFF then Addr4 (ucast a) else Addr6 a zone)"
| "Unmap addr = addr"

definition routedAddr :: "Addr \<Rightarrow> Addr" where
  "routedAddr addr =
     (case Unmap addr of
        Addr6 a zone \<Rightarrow>
          if prefixContains nat64WellKnown (Addr6 a zone) then Addr4 (ucast a)
          else if prefixContains sixToFour (Addr6 a zone) then Addr4 (ucast (drop_bit 80 a))
          else if drop_bit 32 a = 0 \<and> a \<noteq> 0 \<and> a \<noteq> 1 then Addr4 (ucast a)
          else Addr6 a zone
      | addr' \<Rightarrow> addr')"

definition ClassifyAddr :: "Addr \<Rightarrow> Reach" where
  "ClassifyAddr addr =
     (if addr = AddrZero then HostLocal
      else let addr = routedAddr (WithoutZone addr) in
        if hostLocal addr then HostLocal
        else if containsAddr privateBlocks addr then PrivateReach
        else if nonPublic addr then ReservedReach
        else PublicReach)"

section \<open>Hosts and targets\<close>

record NetEnv =
  ne_ToLower :: "string \<Rightarrow> string"
  ne_ToUpper :: "string \<Rightarrow> string"
  ne_ParseAddr :: "string \<Rightarrow> Addr option"

definition trimBrackets :: "string \<Rightarrow> string" where
  "trimBrackets s =
     rev (dropWhile (\<lambda>c. c = CHR ''['' \<or> c = CHR '']'')
       (rev (dropWhile (\<lambda>c. c = CHR ''['' \<or> c = CHR '']'') s)))"

definition trimSuffix :: "string \<Rightarrow> string \<Rightarrow> string" where
  "trimSuffix s suf = (if suffix suf s then take (length s - length suf) s else s)"

definition NormalizeHost :: "NetEnv \<Rightarrow> string \<Rightarrow> string" where
  "NormalizeHost env host = ne_ToLower env (trimSuffix (trimBrackets (TrimSpace host)) ''.'')"

definition NamesHostLocal :: "NetEnv \<Rightarrow> string \<Rightarrow> bool" where
  "NamesHostLocal env host =
     (let host = NormalizeHost env host in
      if host = ''localhost'' \<or> suffix ''.localhost'' host then True
      else case ne_ParseAddr env host of None \<Rightarrow> False | Some addr \<Rightarrow> ClassifyAddr addr = HostLocal)"

record Target =
  tg_Scheme :: string
  tg_Host :: string
  tg_Port :: "16 word"

text \<open>\<open>net.JoinHostPort\<close> puts a host with a colon (an IPv6 literal) or a percent sign into brackets.\<close>

definition JoinHostPort :: "string \<Rightarrow> string \<Rightarrow> string" where
  "JoinHostPort host port =
     (if CHR '':'' \<in> set host \<or> CHR ''%'' \<in> set host then ''['' @ host @ '']:'' @ port
      else host @ '':'' @ port)"

definition Target_Key :: "Target \<Rightarrow> string" where
  "Target_Key t = tg_Scheme t @ ''://'' @ JoinHostPort (tg_Host t) (Itoa (uint (tg_Port t)))"

definition CanCarryData :: "NetEnv \<Rightarrow> Target \<Rightarrow> string list \<Rightarrow> bool" where
  "CanCarryData env t methods =
     (if tg_Scheme t \<noteq> ''http'' \<or> methods = [] then True
      else \<not> list_all (\<lambda>m. ne_ToUpper env m \<in> {''GET'', ''HEAD'', ''OPTIONS''}) methods)"

section \<open>Properties\<close>

lemma drop_bit_mono_eq:
  fixes a b :: "'a::len word"
  assumes "drop_bit m a = drop_bit m b" "m \<le> n"
  shows "drop_bit n a = drop_bit n b"
proof -
  have "drop_bit (n - m) (drop_bit m a) = drop_bit (n - m) (drop_bit m b)" by (simp add: assms(1))
  then show ?thesis using assms(2) by (simp add: drop_bit_drop_bit)
qed

lemma hostLocal4_nonPublic: "hostLocal (Addr4 a) \<Longrightarrow> nonPublic (Addr4 a)"
  using drop_bit_mono_eq [of 8 a "word_of_nat (((224 * 256 + 0) * 256 + 0) * 256 + 0)" 28]
  by (auto simp: containsAddr_def hostLocalIPv4_def nonPublicIPv4_def ip4_def)

lemma private4_nonPublic: "containsAddr privateBlocks (Addr4 a) \<Longrightarrow> nonPublic (Addr4 a)"
  by (auto simp: containsAddr_def privateBlocks_def nonPublicIPv4_def ip4_def ip6_def)

lemma global_unicast: "prefixContains globalUnicastIPv6 (Addr6 a []) \<longleftrightarrow> drop_bit 125 a = 1"
  by (simp add: globalUnicastIPv6_def ip6_def)

lemma unicast_group:
  fixes a :: "128 word"
  assumes "drop_bit 125 a = 1"
  shows "drop_bit 13 (drop_bit 112 a) = 1"
  using assms by (simp add: drop_bit_drop_bit)

lemma masked_group:
  fixes a :: "128 word"
  assumes "drop_bit 125 a = 1" "drop_bit 112 a AND m = v"
  shows "1 AND drop_bit 13 m = drop_bit 13 v"
  using assms(2) unicast_group [OF assms(1)] by (metis drop_bit_and)

lemma hostLocal6_nonPublic: "hostLocal6 a \<Longrightarrow> nonPublic (Addr6 a [])"
  using masked_group [of a "0xFFC0" "0xFE80"] masked_group [of a "0xFF0F" "0xFF02"]
    masked_group [of a "0xFF0F" "0xFF01"]
  by (auto simp: hostLocal6_def global_unicast)

lemma private6_nonPublic: "containsAddr privateBlocks (Addr6 a []) \<Longrightarrow> nonPublic (Addr6 a [])"
  using drop_bit_mono_eq [of 121 a "push_bit 96 0xFC000000" 125]
  by (auto simp: containsAddr_def privateBlocks_def ip4_def ip6_def global_unicast)

lemma routedAddr_cases:
  "routedAddr (WithoutZone addr) \<in> insert AddrZero (range Addr4 \<union> range (\<lambda>a. Addr6 a []))"
  by (cases addr) (auto simp: routedAddr_def)

lemma routedAddr_valid [simp]: "addr \<noteq> AddrZero \<Longrightarrow> routedAddr (WithoutZone addr) \<noteq> AddrZero"
  by (cases addr) (auto simp: routedAddr_def)

text \<open>
  An address is public exactly when it is valid and the address its traffic is delivered to lies in
  none of the blocks that are not globally reachable: the special classes never claim a public address,
  and every reserved block is refused, in whatever form the address is written.
\<close>

theorem public_reach_exact:
  "ClassifyAddr addr = PublicReach \<longleftrightarrow> addr \<noteq> AddrZero \<and> \<not> nonPublic (routedAddr (WithoutZone addr))"
proof (cases "addr = AddrZero")
  case False
  define r where "r = routedAddr (WithoutZone addr)"
  have "nonPublic r" if "hostLocal r \<or> containsAddr privateBlocks r"
  proof -
    from routedAddr_cases [of addr] routedAddr_valid [OF False]
    consider a where "r = Addr4 a" | a where "r = Addr6 a []" by (auto simp: r_def)
    then show ?thesis
    proof cases
      case 1
      with that hostLocal4_nonPublic private4_nonPublic show ?thesis by auto
    next
      case 2
      with that hostLocal6_nonPublic private6_nonPublic show ?thesis by auto
    qed
  qed
  with False show ?thesis by (auto simp: ClassifyAddr_def Let_def r_def [symmetric])
qed (simp add: ClassifyAddr_def)

section \<open>Embedded IPv4 destinations\<close>

definition embedIPv4 :: "128 word \<Rightarrow> 32 word \<Rightarrow> 128 word" where
  "embedIPv4 high a = push_bit 32 high OR ucast a"

definition embed6to4 :: "32 word \<Rightarrow> 80 word \<Rightarrow> 128 word" where
  "embed6to4 a low = push_bit 112 0x2002 OR push_bit 80 (ucast a) OR ucast low"

lemma embed_bits:
  "drop_bit 32 (embedIPv4 high a) = take_bit 96 high" "ucast (embedIPv4 high a) = a"
  unfolding embedIPv4_def by (rule bit_word_eqI, auto simp: bit_simps dest: bit_imp_le_length)+

lemma embed6to4_bits:
  "drop_bit 112 (embed6to4 a low) = 0x2002" "ucast (drop_bit 80 (embed6to4 a low)) = a"
proof -
  have "drop_bit 112 (push_bit 112 h OR push_bit 80 (ucast a) OR ucast low) = take_bit 16 h" for h :: "128 word"
    by (rule bit_word_eqI) (auto simp: bit_simps dest: bit_imp_le_length)
  from this [of "0x2002"] show "drop_bit 112 (embed6to4 a low) = 0x2002"
    unfolding embed6to4_def by simp
  have "ucast (drop_bit 80 (push_bit 112 h OR push_bit 80 (ucast a) OR ucast low)) = a" for h :: "128 word"
    by (rule bit_word_eqI) (auto simp: bit_simps dest: bit_imp_le_length)
  from this [of "0x2002"] show "ucast (drop_bit 80 (embed6to4 a low)) = a"
    unfolding embed6to4_def .
qed

lemma ClassifyAddr_routed:
  assumes "routedAddr (Addr6 w []) = Addr4 a"
  shows "ClassifyAddr (Addr6 w zone) = ClassifyAddr (Addr4 a)"
  using assms by (simp add: ClassifyAddr_def Let_def routedAddr_def)

lemma routed_embed:
  "routedAddr (Addr6 (embedIPv4 0xFFFF a) []) = Addr4 a"
  "routedAddr (Addr6 (embedIPv4 (push_bit 64 0x64FF9B) a) []) = Addr4 a"
  "a \<noteq> 0 \<Longrightarrow> a \<noteq> 1 \<Longrightarrow> routedAddr (Addr6 (embedIPv4 0 a) []) = Addr4 a"
proof -
  show "routedAddr (Addr6 (embedIPv4 0xFFFF a) []) = Addr4 a"
    by (simp add: routedAddr_def embed_bits)
  show "routedAddr (Addr6 (embedIPv4 (push_bit 64 0x64FF9B) a) []) = Addr4 a"
    by (simp add: routedAddr_def embed_bits nat64WellKnown_def)
  show "routedAddr (Addr6 (embedIPv4 0 a) []) = Addr4 a" if "a \<noteq> 0" "a \<noteq> 1"
  proof -
    have "drop_bit 32 (embedIPv4 0 a) = 0" by (simp add: embed_bits)
    moreover from this have "drop_bit 112 (embedIPv4 0 a) = 0"
      using drop_bit_mono_eq [of 32 "embedIPv4 0 a" 0 112] by simp
    moreover have "embedIPv4 0 a \<noteq> 0" "embedIPv4 0 a \<noteq> 1" using that embed_bits(2) [of 0 a] by auto
    ultimately show ?thesis
      by (simp add: routedAddr_def nat64WellKnown_def sixToFour_def ip6_def embed_bits(2))
  qed
qed

lemma routed_6to4: "routedAddr (Addr6 (embed6to4 a low) []) = Addr4 a"
proof -
  have "drop_bit 32 (embed6to4 a low) \<noteq> 0xFFFF"
    using drop_bit_mono_eq [of 32 "embed6to4 a low" "push_bit 32 0xFFFF" 112]
    by (auto simp: embed6to4_bits)
  moreover have "drop_bit 32 (embed6to4 a low) \<noteq> drop_bit 32 (push_bit 96 0x64FF9B)"
    using drop_bit_mono_eq [of 32 "embed6to4 a low" "push_bit 96 0x64FF9B" 112]
    by (auto simp: embed6to4_bits)
  ultimately show ?thesis
    by (simp add: routedAddr_def nat64WellKnown_def sixToFour_def ip6_def embed6to4_bits)
qed

text \<open>
  C37. An IPv4 destination keeps its class in every IPv6 form that carries it: IPv4-mapped, NAT64 with
  the well-known prefix, 6to4 whatever the lower 80 bits are, and IPv4-compatible (whose forms of 0 and
  1 are the unspecified and the loopback address and host-local themselves). So a loopback, link-local
  or metadata address cannot pass for a public one.
\<close>

theorem embedded_address_reach:
  "ClassifyAddr (Addr6 (embedIPv4 0xFFFF a) zone) = ClassifyAddr (Addr4 a) \<and>
   ClassifyAddr (Addr6 (embedIPv4 (push_bit 64 0x64FF9B) a) zone) = ClassifyAddr (Addr4 a) \<and>
   ClassifyAddr (Addr6 (embed6to4 a low) zone) = ClassifyAddr (Addr4 a) \<and>
   ClassifyAddr (Addr6 (embedIPv4 0 a) zone) = ClassifyAddr (Addr4 a)"
proof -
  have "ClassifyAddr (Addr6 (embedIPv4 0 a) zone) = ClassifyAddr (Addr4 a)"
  proof (cases "a = 0 \<or> a = 1")
    case True
    have "ClassifyAddr (Addr6 0 zone) = HostLocal" "ClassifyAddr (Addr6 1 zone) = HostLocal"
      by (simp_all add: ClassifyAddr_def Let_def routedAddr_def nat64WellKnown_def sixToFour_def ip6_def
          hostLocal6_def)
    moreover have "ClassifyAddr (Addr4 0) = HostLocal" "ClassifyAddr (Addr4 1) = HostLocal"
      by (simp_all add: ClassifyAddr_def Let_def routedAddr_def containsAddr_def hostLocalIPv4_def ip4_def)
    moreover have "embedIPv4 0 0 = 0" "embedIPv4 0 1 = 1" by (simp_all add: embedIPv4_def)
    ultimately show ?thesis using True by auto
  next
    case False
    then show ?thesis using ClassifyAddr_routed [OF routed_embed(3)] by simp
  qed
  with ClassifyAddr_routed [OF routed_embed(1)] ClassifyAddr_routed [OF routed_embed(2)]
    ClassifyAddr_routed [OF routed_6to4] show ?thesis by blast
qed

end
