(* ===== verification/Security_Model.thy ===== *)
theory Security_Model
  imports Network_Reach
begin

text \<open>
  The security vocabulary, \<open>src/internal/security/model\<close>: effects and capabilities (\<open>effect.go\<close>),
  resolved resources and their identities (\<open>resource.go\<close>), invocation sources (\<open>invocation.go\<close>) and
  the decision table that classifies a tool invocation by its binding and its resources
  (\<open>assessment.go\<close>). A Go string type with declared constants is a datatype of those constants with
  one further constructor for every other text.

  The properties say that the table always classifies, that a low-risk class is only given to an
  invocation that stays inside the sandbox or the journal, and that the identity of a resource
  determines every field it is made of.
\<close>

section \<open>Effects\<close>

datatype SecurityEffectKind =
  WorkspaceRead | WorkspaceEdit | ProcessReadOnly | ProcessMutating | NetworkRead | NetworkMutating
  | SessionMutation | AgentMessage | AgentLifecycle | ExternalMutation | EffectKindOther string

datatype Risk = RiskLow | RiskMedium | RiskHigh | RiskCritical | RiskOther string

datatype Reversibility = Reversible | Bounded | Irreversible | ReversibilityOther string

datatype Capability =
  CapabilityNone | CapabilityRead | CapabilityWrite | CapabilityProcess | CapabilityNetwork
  | CapabilityExternal | CapabilityOther string

datatype ApprovalMode = ApprovalUnset | ApprovalDefault | ApprovalOnceRequired | ApprovalModeOther string

datatype SourceKind =
  SourceBuiltin | SourceSkill | SourceMCP | SourceExternal | SourceDynamic | SourceOther string

record SecurityEffect =
  ef_Kind :: SecurityEffectKind
  ef_Risk :: Risk
  ef_Reversibility :: Reversibility

fun EffectKind_Valid :: "SecurityEffectKind \<Rightarrow> bool" where
  "EffectKind_Valid (EffectKindOther _) = False"
| "EffectKind_Valid _ = True"

fun Risk_Valid :: "Risk \<Rightarrow> bool" where
  "Risk_Valid (RiskOther _) = False"
| "Risk_Valid _ = True"

fun Reversibility_Valid :: "Reversibility \<Rightarrow> bool" where
  "Reversibility_Valid (ReversibilityOther _) = False"
| "Reversibility_Valid _ = True"

fun SourceKind_Valid :: "SourceKind \<Rightarrow> bool" where
  "SourceKind_Valid (SourceOther _) = False"
| "SourceKind_Valid _ = True"

datatype EffectError = EffectKindInvalid SecurityEffectKind | EffectRiskInvalid Risk | EffectReversibilityInvalid

definition Effect_Validate :: "SecurityEffect \<Rightarrow> EffectError option" where
  "Effect_Validate e =
     (if \<not> EffectKind_Valid (ef_Kind e) then Some (EffectKindInvalid (ef_Kind e))
      else if \<not> Risk_Valid (ef_Risk e) then Some (EffectRiskInvalid (ef_Risk e))
      else if \<not> Reversibility_Valid (ef_Reversibility e) then Some EffectReversibilityInvalid
      else None)"

section \<open>Resources\<close>

datatype Access = AccessNone | AccessRead | AccessWrite | AccessTree | AccessUse | AccessOther string

definition Access_Writes :: "Access \<Rightarrow> bool" where
  "Access_Writes a \<longleftrightarrow> a = AccessWrite \<or> a = AccessTree"

fun accessName :: "Access \<Rightarrow> string" where
  "accessName AccessNone = []"
| "accessName AccessRead = ''read''"
| "accessName AccessWrite = ''write''"
| "accessName AccessTree = ''tree''"
| "accessName AccessUse = ''use''"
| "accessName (AccessOther s) = s"

datatype ResourceClass =
  ClassUnset | ClassPath | ClassNetwork | ClassLoopback | ClassProcess | ClassAgent | ClassPlan
  | ClassSession | ClassNamed

fun className :: "ResourceClass \<Rightarrow> string" where
  "className ClassPath = ''path''"
| "className ClassNetwork = ''network''"
| "className ClassLoopback = ''loopback''"
| "className ClassProcess = ''process''"
| "className ClassAgent = ''agent''"
| "className ClassPlan = ''plan''"
| "className ClassSession = ''session''"
| "className ClassNamed = ''named''"
| "className ClassUnset = ''unknown''"

record Resource =
  rs_Class :: ResourceClass
  rs_Access :: Access
  rs_Path :: string
  rs_Tree :: bool
  rs_URL :: string
  rs_Network :: "Target option"
  rs_Methods :: "string list"
  rs_AllowPrivate :: bool
  rs_ID :: string
  rs_Name :: string

definition LoopbackScope :: string where
  "LoopbackScope = ''all-local-ports''"

definition Resource_Writes :: "Resource \<Rightarrow> bool" where
  "Resource_Writes r = Access_Writes (rs_Access r)"

definition Resource_Location :: "Resource \<Rightarrow> string" where
  "Resource_Location r =
     (if rs_Class r = ClassPath then rs_Path r
      else if rs_Class r = ClassLoopback then LoopbackScope
      else case rs_Network r of Some t \<Rightarrow> Target_Key t | None \<Rightarrow> rs_ID r)"

definition Resource_label :: "Resource \<Rightarrow> string" where
  "Resource_label r = (if rs_Class r = ClassNamed then rs_Name r else className (rs_Class r))"

definition Resource_methods :: "NetEnv \<Rightarrow> Resource \<Rightarrow> string list" where
  "Resource_methods env r = sort (map (ne_ToUpper env) (rs_Methods r))"

definition Resource_String :: "NetEnv \<Rightarrow> Resource \<Rightarrow> string" where
  "Resource_String env r =
     joinWith '':''
       ([Resource_label r, Resource_Location r, accessName (rs_Access r)] @
        (if rs_Tree r then [''tree''] else []) @
        (if rs_Methods r \<noteq> [] then [joinWith '','' (Resource_methods env r)] else []) @
        (if rs_AllowPrivate r then [''private''] else []))"

definition lengthPrefixed :: "string \<Rightarrow> string" where
  "lengthPrefixed field = Itoa (int (length field)) @ '':'' @ field"

definition keyFields :: "NetEnv \<Rightarrow> Resource \<Rightarrow> string list" where
  "keyFields env r =
     [Resource_label r, Resource_Location r, accessName (rs_Access r), formatBool (rs_Tree r),
      joinWith '','' (Resource_methods env r), formatBool (rs_AllowPrivate r)]"

definition Resource_Key :: "NetEnv \<Rightarrow> Resource \<Rightarrow> string" where
  "Resource_Key env r = concat (map lengthPrefixed (keyFields env r))"

section \<open>The assessment\<close>

record AssessmentBinding =
  ab_Capability :: Capability
  ab_Access :: Access
  ab_SandboxDeclared :: bool
  ab_StrongSandbox :: bool
  ab_Journaled :: bool
  ab_Fixed :: "SecurityEffect option"
  ab_PlanningExempt :: bool

record Declared =
  de_HostExecution :: bool
  de_FullAccess :: bool
  de_ReadOnly :: bool

record AssessmentInput =
  ai_Binding :: AssessmentBinding
  ai_Declared :: Declared
  ai_Resources :: "Resource list"

datatype Egress = EgressNone | EgressSafeRead | EgressMutating

record Facets =
  fa_HostExecution :: bool
  fa_FullAccess :: bool
  fa_WritesWorkspace :: bool
  fa_Egress :: Egress
  fa_Network :: bool
  fa_LoopbackReach :: bool
  fa_HostLocalTarget :: bool
  fa_Process :: bool
  fa_Agent :: bool
  fa_PlanOnly :: bool
  fa_StrongSandbox :: bool
  fa_Journaled :: bool
  fa_ReadOnlyDeclared :: bool
  fa_PlanningExempt :: bool

record Assessment =
  as_input :: AssessmentInput
  as_facets :: Facets
  as_effect :: SecurityEffect
  as_rule :: string
  as_identity :: string

text \<open>One round of the loop of \<open>facetsOf\<close>; the flag is its local variable \<open>plan\<close>.\<close>

fun addResource :: "NetEnv \<Rightarrow> Facets \<times> bool \<Rightarrow> Resource \<Rightarrow> Facets \<times> bool" where
  "addResource env (f, plan) r =
     (case rs_Class r of
        ClassPath \<Rightarrow> (f\<lparr>fa_WritesWorkspace := fa_WritesWorkspace f \<or> Resource_Writes r\<rparr>, plan)
      | ClassNetwork \<Rightarrow>
          (let host = (case rs_Network r of Some t \<Rightarrow> tg_Host t | None \<Rightarrow> rs_ID r);
               carries = (case rs_Network r of Some t \<Rightarrow> CanCarryData env t (rs_Methods r) | None \<Rightarrow> True) in
           (f\<lparr>fa_Network := True,
              fa_HostLocalTarget := fa_HostLocalTarget f \<or> NamesHostLocal env host,
              fa_Egress := (if carries then EgressMutating
                            else if fa_Egress f = EgressNone then EgressSafeRead else fa_Egress f)\<rparr>, plan))
      | ClassLoopback \<Rightarrow> (f\<lparr>fa_LoopbackReach := True, fa_HostLocalTarget := True\<rparr>, plan)
      | ClassProcess \<Rightarrow> (f\<lparr>fa_Process := True\<rparr>, plan)
      | ClassAgent \<Rightarrow> (f\<lparr>fa_Agent := True\<rparr>, plan)
      | ClassPlan \<Rightarrow> (f, True)
      | _ \<Rightarrow> (f, plan))"

definition declaredFacets :: "AssessmentInput \<Rightarrow> Facets" where
  "declaredFacets i =
     \<lparr>fa_HostExecution = de_HostExecution (ai_Declared i), fa_FullAccess = de_FullAccess (ai_Declared i),
      fa_WritesWorkspace = False, fa_Egress = EgressNone, fa_Network = False, fa_LoopbackReach = False,
      fa_HostLocalTarget = False, fa_Process = False, fa_Agent = False, fa_PlanOnly = False,
      fa_StrongSandbox = (ab_StrongSandbox (ai_Binding i) \<and> \<not> de_HostExecution (ai_Declared i)),
      fa_Journaled = ab_Journaled (ai_Binding i), fa_ReadOnlyDeclared = de_ReadOnly (ai_Declared i),
      fa_PlanningExempt = ab_PlanningExempt (ai_Binding i)\<rparr>"

definition facetsOf :: "NetEnv \<Rightarrow> AssessmentInput \<Rightarrow> Facets" where
  "facetsOf env i =
     (let fp = foldl (addResource env) (declaredFacets i, False) (ai_Resources i); f = fst fp in
      f\<lparr>fa_PlanOnly := snd fp \<and> \<not> fa_WritesWorkspace f \<and> \<not> fa_Network f \<and> \<not> fa_LoopbackReach f \<and>
          \<not> fa_Process f \<and> \<not> fa_Agent f\<rparr>)"

definition declared :: "AssessmentBinding \<Rightarrow> bool" where
  "declared b \<longleftrightarrow> ab_Access b \<noteq> AccessNone \<and> ab_SandboxDeclared b"

definition reachesNetwork :: "AssessmentBinding \<Rightarrow> Facets \<Rightarrow> bool" where
  "reachesNetwork b f \<longleftrightarrow> ab_Capability b = CapabilityNetwork \<or> fa_Network f \<or> fa_LoopbackReach f"

definition runsProcess :: "AssessmentBinding \<Rightarrow> Facets \<Rightarrow> bool" where
  "runsProcess b f \<longleftrightarrow> ab_Capability b = CapabilityProcess \<or> fa_Process f"

definition classified :: "SecurityEffectKind \<Rightarrow> Risk \<Rightarrow> Reversibility \<Rightarrow> SecurityEffect" where
  "classified k r v = \<lparr>ef_Kind = k, ef_Risk = r, ef_Reversibility = v\<rparr>"

record row =
  row_id :: string
  row_matches :: "AssessmentBinding \<Rightarrow> Facets \<Rightarrow> bool"
  row_effect :: "AssessmentBinding \<Rightarrow> SecurityEffect"

definition constantRow ::
  "string \<Rightarrow> (AssessmentBinding \<Rightarrow> Facets \<Rightarrow> bool) \<Rightarrow> SecurityEffectKind \<Rightarrow> Risk \<Rightarrow> Reversibility \<Rightarrow> row" where
  "constantRow name m k r v = \<lparr>row_id = name, row_matches = m, row_effect = (\<lambda>_. classified k r v)\<rparr>"

definition fixedEffect :: "AssessmentBinding \<Rightarrow> SecurityEffect" where
  "fixedEffect b = (case ab_Fixed b of Some e \<Rightarrow> e | None \<Rightarrow> classified (EffectKindOther []) (RiskOther []) (ReversibilityOther []))"

definition assessmentTable :: "row list" where
  "assessmentTable =
    [\<lparr>row_id = ''declared_read_only'',
      row_matches = (\<lambda>b f. ab_Fixed b \<noteq> None \<and> fa_ReadOnlyDeclared f),
      row_effect = (\<lambda>b. classified (ef_Kind (fixedEffect b)) RiskLow Reversible)\<rparr>,
     \<lparr>row_id = ''fixed'', row_matches = (\<lambda>b f. ab_Fixed b \<noteq> None), row_effect = fixedEffect\<rparr>,
     constantRow ''undeclared_read'' (\<lambda>b f. \<not> declared b \<and> ab_Capability b = CapabilityRead)
       WorkspaceRead RiskLow Reversible,
     constantRow ''undeclared_write'' (\<lambda>b f. \<not> declared b \<and> ab_Capability b = CapabilityWrite)
       ExternalMutation RiskMedium Bounded,
     constantRow ''undeclared_effectful''
       (\<lambda>b f. \<not> declared b \<and> (ab_Capability b = CapabilityProcess \<or> ab_Capability b = CapabilityNetwork \<or>
          ab_Capability b = CapabilityExternal))
       ExternalMutation RiskHigh Irreversible,
     constantRow ''undeclared_unknown'' (\<lambda>b f. \<not> declared b) ExternalMutation RiskCritical Irreversible,
     constantRow ''read'' (\<lambda>b f. ab_Capability b = CapabilityRead) WorkspaceRead RiskLow Reversible,
     constantRow ''plan_only'' (\<lambda>b f. ab_Capability b = CapabilityWrite \<and> fa_PlanOnly f)
       SessionMutation RiskLow Reversible,
     constantRow ''agent'' (\<lambda>b f. fa_Agent f) AgentLifecycle RiskHigh Bounded,
     constantRow ''process_host'' (\<lambda>b f. ab_Capability b = CapabilityProcess \<and> fa_HostExecution f)
       ProcessMutating RiskHigh Irreversible,
     constantRow ''process_full_access'' (\<lambda>b f. ab_Capability b = CapabilityProcess \<and> fa_FullAccess f)
       ProcessMutating RiskHigh Irreversible,
     constantRow ''loopback_only''
       (\<lambda>b f. ab_Capability b = CapabilityProcess \<and> ab_StrongSandbox b \<and> fa_LoopbackReach f \<and>
          \<not> fa_Network f \<and> \<not> fa_WritesWorkspace f)
       NetworkRead RiskMedium Bounded,
     constantRow ''network_read''
       (\<lambda>b f. reachesNetwork b f \<and> ab_Access b = AccessRead \<and> \<not> fa_WritesWorkspace f \<and>
          \<not> (ab_Capability b = CapabilityProcess \<and> fa_Egress f = EgressMutating))
       NetworkRead RiskMedium Bounded,
     constantRow ''network_mutating'' reachesNetwork NetworkMutating RiskHigh Irreversible,
     constantRow ''process_read_only''
       (\<lambda>b f. runsProcess b f \<and> ab_StrongSandbox b \<and> \<not> fa_WritesWorkspace f)
       ProcessReadOnly RiskLow Reversible,
     constantRow ''process_mutating'' runsProcess ProcessMutating RiskHigh Bounded,
     constantRow ''journaled_edit''
       (\<lambda>b f. ab_Capability b = CapabilityWrite \<and> fa_WritesWorkspace f \<and> ab_Journaled b)
       WorkspaceEdit RiskLow Reversible,
     constantRow ''external'' (\<lambda>b f. True) ExternalMutation RiskHigh Irreversible]"

text \<open>
  \<open>Assess\<close> takes the first matching row. \<open>identityOf\<close> is the hexadecimal hash of the JSON encoding of
  the input; \<open>None\<close> stands for the panic of a table without a terminal row. Inputs are values, so the
  cloning of the source has no counterpart.
\<close>

definition Assess :: "NetEnv \<Rightarrow> (AssessmentInput \<Rightarrow> string) \<Rightarrow> AssessmentInput \<Rightarrow> Assessment option" where
  "Assess env identityOf i =
     (let f = facetsOf env i in
      case find (\<lambda>r. row_matches r (ai_Binding i) f) assessmentTable of
        None \<Rightarrow> None
      | Some r \<Rightarrow> Some \<lparr>as_input = i, as_facets = f, as_effect = row_effect r (ai_Binding i),
                        as_rule = row_id r, as_identity = identityOf i\<rparr>)"

definition Assessment_Valid :: "Assessment \<Rightarrow> bool" where
  "Assessment_Valid a \<longleftrightarrow> as_rule a \<noteq> [] \<and> Effect_Validate (as_effect a) = None"

definition Assessment_Same :: "Assessment \<Rightarrow> Assessment \<Rightarrow> bool" where
  "Assessment_Same a b \<longleftrightarrow> Assessment_Valid a \<and> Assessment_Valid b \<and> as_identity a = as_identity b"

section \<open>Facets and resources\<close>

lemma addResource_facets:
  "fa_Network (fst (addResource env (f, p) r)) \<longleftrightarrow> fa_Network f \<or> rs_Class r = ClassNetwork"
  "fa_LoopbackReach (fst (addResource env (f, p) r)) \<longleftrightarrow> fa_LoopbackReach f \<or> rs_Class r = ClassLoopback"
  "fa_Process (fst (addResource env (f, p) r)) \<longleftrightarrow> fa_Process f \<or> rs_Class r = ClassProcess"
  "fa_Agent (fst (addResource env (f, p) r)) \<longleftrightarrow> fa_Agent f \<or> rs_Class r = ClassAgent"
  "fa_WritesWorkspace (fst (addResource env (f, p) r)) \<longleftrightarrow>
     fa_WritesWorkspace f \<or> rs_Class r = ClassPath \<and> Resource_Writes r"
  "fa_HostExecution (fst (addResource env (f, p) r)) = fa_HostExecution f"
  "fa_FullAccess (fst (addResource env (f, p) r)) = fa_FullAccess f"
  "fa_Journaled (fst (addResource env (f, p) r)) = fa_Journaled f"
  by (cases "rs_Class r"; simp add: Let_def)+

lemma facets_fold:
  assumes "\<And>f p r. sel (fst (addResource env (f, p) r)) \<longleftrightarrow> sel f \<or> Q r"
  shows "sel (fst (foldl (addResource env) (f, p) rs)) \<longleftrightarrow> sel f \<or> (\<exists>r \<in> set rs. Q r)"
proof (induction rs arbitrary: f p)
  case (Cons r rs)
  obtain f' p' where step: "addResource env (f, p) r = (f', p')" by fastforce
  with assms [of f p r] have "sel f' \<longleftrightarrow> sel f \<or> Q r" by simp
  with Cons [of f' p'] show ?case by (auto simp: step simp del: addResource.simps)
qed simp

lemma facetsOf_facts:
  "fa_Network (facetsOf env i) \<longleftrightarrow> (\<exists>r \<in> set (ai_Resources i). rs_Class r = ClassNetwork)"
  "fa_LoopbackReach (facetsOf env i) \<longleftrightarrow> (\<exists>r \<in> set (ai_Resources i). rs_Class r = ClassLoopback)"
  "fa_Process (facetsOf env i) \<longleftrightarrow> (\<exists>r \<in> set (ai_Resources i). rs_Class r = ClassProcess)"
  "fa_Agent (facetsOf env i) \<longleftrightarrow> (\<exists>r \<in> set (ai_Resources i). rs_Class r = ClassAgent)"
  "fa_WritesWorkspace (facetsOf env i) \<longleftrightarrow>
     (\<exists>r \<in> set (ai_Resources i). rs_Class r = ClassPath \<and> Resource_Writes r)"
  "fa_HostExecution (facetsOf env i) = de_HostExecution (ai_Declared i)"
  "fa_FullAccess (facetsOf env i) = de_FullAccess (ai_Declared i)"
  by (simp_all add: facetsOf_def Let_def declaredFacets_def
      facets_fold [where sel = fa_Network, OF addResource_facets(1)]
      facets_fold [where sel = fa_LoopbackReach, OF addResource_facets(2)]
      facets_fold [where sel = fa_Process, OF addResource_facets(3)]
      facets_fold [where sel = fa_Agent, OF addResource_facets(4)]
      facets_fold [where sel = fa_WritesWorkspace, OF addResource_facets(5)]
      facets_fold [where sel = fa_HostExecution and Q = "\<lambda>r. False"] addResource_facets(6)
      facets_fold [where sel = fa_FullAccess and Q = "\<lambda>r. False"] addResource_facets(7)
      del: addResource.simps)

lemma planOnly_facts:
  assumes "fa_PlanOnly (facetsOf env i)"
  shows "\<not> fa_WritesWorkspace (facetsOf env i)" "\<not> fa_Network (facetsOf env i)"
    "\<not> fa_LoopbackReach (facetsOf env i)" "\<not> fa_Process (facetsOf env i)" "\<not> fa_Agent (facetsOf env i)"
  using assms by (simp_all add: facetsOf_def Let_def)

section \<open>The table\<close>

lemma Assess_total:
  obtains r where "Assess env identityOf i =
      Some \<lparr>as_input = i, as_facets = facetsOf env i, as_effect = row_effect r (ai_Binding i),
           as_rule = row_id r, as_identity = identityOf i\<rparr>"
    "find (\<lambda>r. row_matches r (ai_Binding i) (facetsOf env i)) assessmentTable = Some r"
proof -
  have "find (\<lambda>r. row_matches r (ai_Binding i) (facetsOf env i)) assessmentTable \<noteq> None"
    by (simp add: find_None_iff assessmentTable_def constantRow_def)
  then show ?thesis using that by (auto simp: Assess_def Let_def)
qed

lemma classified_valid [simp]:
  "Effect_Validate (classified k r v) = None \<longleftrightarrow> EffectKind_Valid k \<and> Risk_Valid r \<and> Reversibility_Valid v"
  by (simp add: Effect_Validate_def classified_def)

lemma fixed_kind_valid: "ab_Fixed b = Some e \<Longrightarrow> Effect_Validate e = None \<Longrightarrow> EffectKind_Valid (ef_Kind (fixedEffect b))"
  by (auto simp: fixedEffect_def Effect_Validate_def split: if_splits)

lemma table_effects_valid:
  "list_all (\<lambda>r. \<forall>b f. row_matches r b f \<longrightarrow> row_id r \<noteq> [] \<and>
     (Effect_Validate (row_effect r b) = None \<or> (\<exists>e. ab_Fixed b = Some e \<and> Effect_Validate e \<noteq> None)))
   assessmentTable"
  using fixed_kind_valid by (auto simp: assessmentTable_def constantRow_def fixedEffect_def)


lemma low_risk_rows:
  assumes "ef_Risk (row_effect (the (find (\<lambda>r. row_matches r b f) assessmentTable)) b) = RiskLow"
    "ab_Fixed b = None" "ab_Capability b \<noteq> CapabilityRead"
  shows "declared b \<and>
    (ab_Capability b = CapabilityWrite \<and> fa_PlanOnly f \<or>
     \<not> fa_Agent f \<and> \<not> reachesNetwork b f \<and>
     (ab_Capability b = CapabilityProcess \<longrightarrow> \<not> fa_HostExecution f \<and> \<not> fa_FullAccess f) \<and>
     (runsProcess b f \<and> ab_StrongSandbox b \<and> \<not> fa_WritesWorkspace f \<or>
      \<not> runsProcess b f \<and> ab_Capability b = CapabilityWrite \<and> ab_Journaled b))"
  using assms
  by (simp add: assessmentTable_def constantRow_def classified_def split: if_splits)


definition editInput :: AssessmentInput where
  "editInput =
     \<lparr>ai_Binding = \<lparr>ab_Capability = CapabilityWrite, ab_Access = AccessWrite, ab_SandboxDeclared = True,
        ab_StrongSandbox = False, ab_Journaled = True, ab_Fixed = None, ab_PlanningExempt = False\<rparr>,
      ai_Declared = \<lparr>de_HostExecution = False, de_FullAccess = False, de_ReadOnly = False\<rparr>,
      ai_Resources = [\<lparr>rs_Class = ClassPath, rs_Access = AccessWrite, rs_Path = ''a.go'', rs_Tree = False,
        rs_URL = [], rs_Network = None, rs_Methods = [], rs_AllowPrivate = False, rs_ID = [], rs_Name = []\<rparr>]\<rparr>"

definition plainNet :: NetEnv where
  "plainNet = \<lparr>ne_ToLower = id, ne_ToUpper = id, ne_ParseAddr = (\<lambda>_. None)\<rparr>"


section \<open>Resource identities\<close>

lemma colon_not_digit: "CHR '':'' \<notin> set (Itoa (int n))"
proof -
  have "CHR '':'' \<notin> hexDigit ` set [0..<10]" by code_simp
  then show ?thesis using formatNat_digits [of n] by (auto simp: Itoa_def lessThan_atLeast0)
qed

lemma lengthPrefixed_split:
  assumes "lengthPrefixed a @ x = lengthPrefixed b @ y"
  shows "a = b \<and> x = y"
proof -
  have head: "takeWhile (\<lambda>c. c \<noteq> CHR '':'') (lengthPrefixed s @ t) = Itoa (int (length s))" for s t
    using colon_not_digit [of "length s"]
    by (simp add: lengthPrefixed_def takeWhile_append2 takeWhile_tail)
       (metis (mono_tags) takeWhile_append2 takeWhile.simps(2) append_Nil2)
  have "Itoa (int (length a)) = Itoa (int (length b))"
    using head [of a x] head [of b y] assms by simp
  then have "length a = length b" by (simp add: Itoa_def)
  with assms show ?thesis by (simp add: lengthPrefixed_def)
qed

lemma lengthPrefixed_inj:
  "length xs = length ys \<Longrightarrow> concat (map lengthPrefixed xs) = concat (map lengthPrefixed ys) \<longleftrightarrow> xs = ys"
proof (induction xs ys rule: list_induct2)
  case (Cons x xs y ys)
  then show ?case using lengthPrefixed_split [of x _ y] by auto
qed simp

text \<open>
  The identity of a resource is unambiguous: two resources have the same key exactly if they agree
  in kind label, location, access, tree flag, the joined method list and the private flag, so no value
  of one field can imitate another field.
\<close>

theorem resource_key_exact:
  "Resource_Key env r = Resource_Key env r' \<longleftrightarrow>
     Resource_label r = Resource_label r' \<and> Resource_Location r = Resource_Location r' \<and>
     accessName (rs_Access r) = accessName (rs_Access r') \<and> rs_Tree r = rs_Tree r' \<and>
     joinWith '','' (Resource_methods env r) = joinWith '','' (Resource_methods env r') \<and>
     rs_AllowPrivate r = rs_AllowPrivate r'"
proof -
  have "Resource_Key env r = Resource_Key env r' \<longleftrightarrow> keyFields env r = keyFields env r'"
    unfolding Resource_Key_def by (rule lengthPrefixed_inj) (simp add: keyFields_def)
  then show ?thesis by (auto simp: keyFields_def formatBool_def split: if_splits)
qed

end
