(* ===== verification/Control_Dimensions.thy ===== *)
theory Control_Dimensions
  imports Go_Paths
begin

text \<open>
  The isolation controls an execution requires and a backend provides,
  \<open>src/internal/security/model/controls.go\<close> and \<open>control_dimensions.go\<close>: ten dimensions, one table row
  each, and the check that provided controls satisfy required ones. A control value is its text, the
  empty text being an absent requirement.

  \<open>requirements_compose\<close> says that satisfaction is a preorder, so that controls may be compared step by
  step.
\<close>

section \<open>Controls\<close>

record Controls =
  cn_FilesystemRead :: string
  cn_FilesystemWrite :: string
  cn_Network :: string
  cn_ProcessTree :: string
  cn_CrossProcess :: string
  cn_Syscall :: string
  cn_IPC :: string
  cn_PathIdentity :: string
  cn_ArtifactOrigin :: string
  cn_DurableRecovery :: string

definition validNetwork :: "string \<Rightarrow> bool" where
  "validNetwork v \<longleftrightarrow> v = ''direct'' \<or> v = ''proxy_targets'' \<or> v = ''loopback_any'' \<or> v = ''denied''"

definition validProcessTree :: "string \<Rightarrow> bool" where
  "validProcessTree v \<longleftrightarrow> v = ''unmanaged'' \<or> v = ''group_kill'' \<or> v = ''job_object'' \<or> v = ''pid_namespace''"

definition satisfiesNetwork :: "string \<Rightarrow> string \<Rightarrow> bool" where
  "satisfiesNetwork required actual =
     (if required = [] then True
      else if required = ''direct'' then validNetwork actual
      else if required = ''proxy_targets'' then actual = ''proxy_targets'' \<or> actual = ''denied''
      else if required = ''loopback_any'' then actual = ''loopback_any'' \<or> actual = ''denied''
      else required = actual)"

definition satisfiesProcessTree :: "string \<Rightarrow> string \<Rightarrow> bool" where
  "satisfiesProcessTree required actual =
     (if required = [] then True
      else if required = ''unmanaged'' then validProcessTree actual
      else if required = ''group_kill'' then
        actual = ''group_kill'' \<or> actual = ''job_object'' \<or> actual = ''pid_namespace''
      else required = actual)"

text \<open>The position of the last occurrence of a value, or -1.\<close>

fun lastIndex :: "string list \<Rightarrow> string \<Rightarrow> int \<Rightarrow> int \<Rightarrow> int" where
  "lastIndex [] v index found = found"
| "lastIndex (w # ws) v index found = lastIndex ws v (index + 1) (if w = v then index else found)"

definition satisfiesOrdered :: "string \<Rightarrow> string \<Rightarrow> string list \<Rightarrow> bool" where
  "satisfiesOrdered required actual order =
     (if required = [] then True
      else let r = lastIndex order required 0 (-1); a = lastIndex order actual 0 (-1) in 0 \<le> r \<and> r \<le> a)"

definition CanEnforceNetwork :: "string \<Rightarrow> string \<Rightarrow> bool" where
  "CanEnforceNetwork capability desired =
     (if capability = ''denied'' then desired = ''denied'' \<or> desired = ''loopback_any''
      else if capability = ''loopback_any'' then desired = ''loopback_any'' \<or> desired = ''denied''
      else if capability = ''proxy_targets'' then desired = ''proxy_targets'' \<or> desired = ''denied''
      else if capability = ''direct'' then desired = ''direct''
      else False)"

definition CanEnforceFilesystemWrite :: "string \<Rightarrow> string \<Rightarrow> bool" where
  "CanEnforceFilesystemWrite capability desired =
     (if capability = ''denied'' then desired = ''denied''
      else if capability = ''exact_paths'' then desired = ''exact_paths'' \<or> desired = ''denied''
      else if capability = ''workspace_tree'' then desired = ''workspace_tree''
      else if capability = ''unrestricted'' then desired = ''unrestricted''
      else False)"

section \<open>The table\<close>

record dimensionSpec =
  ds_key :: string
  ds_label :: string
  ds_values :: "string list"
  ds_value :: "Controls \<Rightarrow> string"
  ds_satisfies :: "string \<Rightarrow> string \<Rightarrow> bool"

definition ds_valid :: "dimensionSpec \<Rightarrow> string \<Rightarrow> bool" where
  "ds_valid spec v = list_ex (\<lambda>c. c = v) (ds_values spec)"

definition orderedDimension :: "string \<Rightarrow> string \<Rightarrow> string list \<Rightarrow> (Controls \<Rightarrow> string) \<Rightarrow> dimensionSpec" where
  "orderedDimension key label values get =
     \<lparr>ds_key = key, ds_label = label, ds_values = values, ds_value = get,
      ds_satisfies = (\<lambda>required actual. satisfiesOrdered required actual values)\<rparr>"

definition platformFilteredDimension :: "string \<Rightarrow> string \<Rightarrow> string list \<Rightarrow> (Controls \<Rightarrow> string) \<Rightarrow> dimensionSpec" where
  "platformFilteredDimension key label values get =
     \<lparr>ds_key = key, ds_label = label, ds_values = values @ [''platform_filtered''], ds_value = get,
      ds_satisfies = (\<lambda>required actual.
        if required = ''platform_filtered'' \<or> actual = ''platform_filtered''
        then required = ''unrestricted'' \<or> required = actual
        else satisfiesOrdered required actual values)\<rparr>"

definition dimensionSpecs :: "dimensionSpec list" where
  "dimensionSpecs =
    [orderedDimension ''filesystem_read'' ''filesystem read''
       [''unrestricted'', ''declared_roots'', ''exact_paths''] cn_FilesystemRead,
     orderedDimension ''filesystem_write'' ''filesystem write''
       [''unrestricted'', ''workspace_tree'', ''exact_paths'', ''denied''] cn_FilesystemWrite,
     \<lparr>ds_key = ''network'', ds_label = ''network'',
      ds_values = [''direct'', ''proxy_targets'', ''loopback_any'', ''denied''],
      ds_value = cn_Network, ds_satisfies = satisfiesNetwork\<rparr>,
     \<lparr>ds_key = ''process_tree'', ds_label = ''process tree'',
      ds_values = [''unmanaged'', ''group_kill'', ''job_object'', ''pid_namespace''],
      ds_value = cn_ProcessTree, ds_satisfies = satisfiesProcessTree\<rparr>,
     orderedDimension ''cross_process'' ''cross-process''
       [''unrestricted'', ''restricted'', ''isolated''] cn_CrossProcess,
     platformFilteredDimension ''syscall'' ''syscall''
       [''unrestricted'', ''deny_dangerous'', ''allowlist''] cn_Syscall,
     platformFilteredDimension ''ipc'' ''IPC''
       [''unrestricted'', ''unix_only'', ''private_namespace''] cn_IPC,
     orderedDimension ''path_identity'' ''path identity''
       [''lexical'', ''canonical'', ''descriptor_relative''] cn_PathIdentity,
     orderedDimension ''artifact_origin'' ''artifact origin''
       [''unverified_path'', ''verified_manifest'', ''broker_snapshot''] cn_ArtifactOrigin,
     orderedDimension ''durable_recovery'' ''durable recovery''
       [''memory_only'', ''external_journal'', ''resumable_transaction''] cn_DurableRecovery]"

definition noControls :: Controls where
  "noControls =
     \<lparr>cn_FilesystemRead = [], cn_FilesystemWrite = [], cn_Network = [], cn_ProcessTree = [], cn_CrossProcess = [],
      cn_Syscall = [], cn_IPC = [], cn_PathIdentity = [], cn_ArtifactOrigin = [], cn_DurableRecovery = []\<rparr>"

definition RequiredControls_IsZero :: "Controls \<Rightarrow> bool" where
  "RequiredControls_IsZero c \<longleftrightarrow> c = noControls"

datatype ControlError =
  ControlInvalid string string | ControlUnsatisfied string string string

definition validateDimension :: "bool \<Rightarrow> Controls \<Rightarrow> dimensionSpec \<Rightarrow> ControlError option" where
  "validateDimension allowEmpty c spec =
     (let v = ds_value spec c in
      if v = [] \<and> allowEmpty then None
      else if v \<noteq> [] \<and> ds_valid spec v then None
      else Some (ControlInvalid (ds_key spec) v))"

definition validateControls :: "bool \<Rightarrow> Controls \<Rightarrow> ControlError option" where
  "validateControls allowEmpty c =
     (if RequiredControls_IsZero c \<and> allowEmpty then None
      else first_error (map (validateDimension allowEmpty c) dimensionSpecs))"

definition RequiredControls_Validate :: "Controls \<Rightarrow> ControlError option" where
  "RequiredControls_Validate c = validateControls True c"

definition Controls_Validate :: "Controls \<Rightarrow> ControlError option" where
  "Controls_Validate c = validateControls False c"

definition satisfyDimension :: "Controls \<Rightarrow> Controls \<Rightarrow> dimensionSpec \<Rightarrow> ControlError option" where
  "satisfyDimension r actual spec =
     (let required = ds_value spec r; provided = ds_value spec actual in
      if required = [] then None
      else if \<not> ds_satisfies spec required provided then Some (ControlUnsatisfied (ds_label spec) required provided)
      else None)"

definition SatisfiedBy :: "Controls \<Rightarrow> Controls \<Rightarrow> ControlError option" where
  "SatisfiedBy r actual =
     first_error [RequiredControls_Validate r, Controls_Validate actual,
       first_error (map (satisfyDimension r actual) dimensionSpecs)]"

definition StringMap :: "Controls \<Rightarrow> (string \<times> string) list" where
  "StringMap c = map (\<lambda>spec. (ds_key spec, ds_value spec c)) dimensionSpecs"

definition Controls_Identity :: "Controls \<Rightarrow> string" where
  "Controls_Identity c = joinSlash (map (\<lambda>spec. ds_value spec c) dimensionSpecs)"

section \<open>Satisfaction is a preorder\<close>

definition dimensionPreorder :: "dimensionSpec \<Rightarrow> bool" where
  "dimensionPreorder spec \<longleftrightarrow>
     list_all (\<lambda>x. ds_satisfies spec x x \<and> list_all (\<lambda>y. list_all (\<lambda>z.
       ds_satisfies spec x y \<longrightarrow> ds_satisfies spec y z \<longrightarrow> ds_satisfies spec x z)
       (ds_values spec)) (ds_values spec)) (ds_values spec)"

lemma dimensions_preorder: "list_all dimensionPreorder dimensionSpecs"
  by code_simp

lemma dimension_valid:
  assumes "Controls_Validate c = None" "spec \<in> set dimensionSpecs"
  shows "ds_value spec c \<noteq> []" "ds_value spec c \<in> set (ds_values spec)"
  using assms by (auto simp: Controls_Validate_def validateControls_def validateDimension_def ds_valid_def
      list_ex_iff Let_def split: if_splits)

lemma required_valid:
  assumes "RequiredControls_Validate c = None" "spec \<in> set dimensionSpecs" "ds_value spec c \<noteq> []"
  shows "ds_value spec c \<in> set (ds_values spec)"
proof (cases "RequiredControls_IsZero c")
  case True
  have "list_all (\<lambda>spec. ds_value spec noControls = []) dimensionSpecs" by code_simp
  with True assms(2,3) show ?thesis by (auto simp: RequiredControls_IsZero_def list_all_iff)
next
  case False
  with assms have "validateDimension True c spec = None"
    by (auto simp: RequiredControls_Validate_def validateControls_def)
  with assms(3) show ?thesis
    by (auto simp: validateDimension_def ds_valid_def list_ex_iff Let_def split: if_splits)
qed

lemma SatisfiedBy_None:
  "SatisfiedBy r a = None \<longleftrightarrow> RequiredControls_Validate r = None \<and> Controls_Validate a = None \<and>
     (\<forall>spec \<in> set dimensionSpecs. ds_value spec r = [] \<or> ds_satisfies spec (ds_value spec r) (ds_value spec a))"
  by (auto simp: SatisfiedBy_def satisfyDimension_def Let_def split: if_splits)

text \<open>
  Satisfaction of controls is a preorder: valid controls satisfy themselves, and controls that satisfy
  what a second set requires, where the second set satisfies a requirement, satisfy that requirement.
\<close>

theorem requirements_compose:
  "(Controls_Validate c = None \<longrightarrow> SatisfiedBy c c = None) \<and>
   (SatisfiedBy r a = None \<and> SatisfiedBy a b = None \<longrightarrow> SatisfiedBy r b = None)"
proof (intro conjI impI)
  assume c: "Controls_Validate c = None"
  have "RequiredControls_Validate c = None"
    using dimension_valid [OF c]
    by (auto simp: RequiredControls_Validate_def validateControls_def validateDimension_def ds_valid_def list_ex_iff)
  moreover have "ds_satisfies spec (ds_value spec c) (ds_value spec c)" if "spec \<in> set dimensionSpecs" for spec
    using dimensions_preorder that dimension_valid [OF c that] by (auto simp: dimensionPreorder_def list_all_iff)
  ultimately show "SatisfiedBy c c = None" using c by (simp add: SatisfiedBy_None)
next
  assume "SatisfiedBy r a = None \<and> SatisfiedBy a b = None"
  then have ra: "RequiredControls_Validate r = None" "Controls_Validate a = None" "Controls_Validate b = None"
    "\<forall>spec \<in> set dimensionSpecs. ds_value spec r = [] \<or> ds_satisfies spec (ds_value spec r) (ds_value spec a)"
    "\<forall>spec \<in> set dimensionSpecs. ds_value spec a = [] \<or> ds_satisfies spec (ds_value spec a) (ds_value spec b)"
    by (simp_all add: SatisfiedBy_None)
  have "ds_satisfies spec (ds_value spec r) (ds_value spec b)"
    if spec: "spec \<in> set dimensionSpecs" "ds_value spec r \<noteq> []" for spec
  proof -
    have "dimensionPreorder spec" using dimensions_preorder spec(1) by (simp add: list_all_iff)
    then show ?thesis
      using ra spec dimension_valid [OF ra(2) spec(1)] dimension_valid [OF ra(3) spec(1)] required_valid [OF ra(1) spec]
      unfolding dimensionPreorder_def list_all_iff by blast
  qed
  with ra show "SatisfiedBy r b = None" by (auto simp: SatisfiedBy_None)
qed

definition strictControls :: Controls where
  "strictControls =
     \<lparr>cn_FilesystemRead = ''exact_paths'', cn_FilesystemWrite = ''denied'', cn_Network = ''denied'',
      cn_ProcessTree = ''pid_namespace'', cn_CrossProcess = ''isolated'', cn_Syscall = ''allowlist'',
      cn_IPC = ''private_namespace'', cn_PathIdentity = ''canonical'', cn_ArtifactOrigin = ''broker_snapshot'',
      cn_DurableRecovery = ''external_journal''\<rparr>"

theorem requirements_compose_witness:
  "SatisfiedBy (noControls\<lparr>cn_Network := ''proxy_targets''\<rparr>) strictControls = None"
proof -
  have "SatisfiedBy (noControls\<lparr>cn_Network := ''proxy_targets''\<rparr>) strictControls = None" by code_simp
  moreover have "Controls_Validate strictControls = None" by code_simp
  then have "SatisfiedBy strictControls strictControls = None"
    using requirements_compose [of strictControls] by blast
  ultimately show ?thesis
    using requirements_compose [of strictControls "noControls\<lparr>cn_Network := ''proxy_targets''\<rparr>" strictControls strictControls]
    by blast
qed

end
