(* ===== verification/Control_Plane.thy ===== *)
theory Control_Plane
  imports Go_Paths
begin

text \<open>
  The protected locations of a workspace, \<open>src/internal/security/pathpolicy\<close>: the control-plane names
  and their classifier (\<open>controlplane.go\<close>) and the table of credential stores (\<open>pathpolicy.go\<close>).
  The classifier works lexically on a workspace root that is already canonical; the constructor that
  resolves symbolic links reads the file system and is not modelled.

  \<open>control_plane_exact\<close> characterises the accepted writes by the segments of the cleaned path.
\<close>

section \<open>Case folding\<close>

text \<open>
  \<open>strings.EqualFold\<close> against an ASCII name: letters match in both cases, and the Kelvin sign and the
  long s fold to k and s.
\<close>

definition lowerChar :: "char \<Rightarrow> char" where
  "lowerChar c = (if byteIn c 0x41 0x5A then char_of ((of_char c :: nat) + 32) else c)"

fun foldStep :: "string \<Rightarrow> char \<Rightarrow> string option" where
  "foldStep [] c = None"
| "foldStep (d # ds) c =
     (if lowerChar d = lowerChar c then Some ds
      else if lowerChar c = CHR ''k'' \<and> prefix [CHR 0xE2, CHR 0x84, CHR 0xAA] (d # ds) then Some (drop 2 ds)
      else if lowerChar c = CHR ''s'' \<and> prefix [CHR 0xC5, CHR 0xBF] (d # ds) then Some (drop 1 ds)
      else None)"

fun EqualFold :: "string \<Rightarrow> string \<Rightarrow> bool" where
  "EqualFold s [] \<longleftrightarrow> s = []"
| "EqualFold s (c # cs) \<longleftrightarrow> (case foldStep s c of None \<Rightarrow> False | Some rest \<Rightarrow> EqualFold rest cs)"

lemma EqualFold_refl [simp]: "EqualFold s s"
  by (induction s) simp_all

section \<open>Control plane\<close>

definition controlPlaneNames :: "string list" where
  "controlPlaneNames = [''.agents'', ''.codex'', ''.git'', ''.qcode'', ''.qcode-worktree'']"

definition ControlPlaneName :: "string \<Rightarrow> string option" where
  "ControlPlaneName component = find (EqualFold component) controlPlaneNames"

text \<open>\<open>filepath.Rel\<close> for two absolute paths, for which it cannot fail.\<close>

fun stripCommon :: "string list \<Rightarrow> string list \<Rightarrow> string list \<times> string list" where
  "stripCommon (b # bs) (t # ts) = (if b = t then stripCommon bs ts else (b # bs, t # ts))"
| "stripCommon bs ts = (bs, ts)"

definition Rel :: "string \<Rightarrow> string \<Rightarrow> string" where
  "Rel base target =
     (if Clean target = Clean base then ''.''
      else case stripCommon (pathSegments base) (pathSegments target) of
        (bs, ts) \<Rightarrow> joinSlash (replicate (length bs) ''..'' @ ts))"

record ControlPlaneClassification =
  cp_Root :: string
  cp_Relative :: string

datatype ControlPlaneError =
  WorkspaceNotCanonical string | OutsideWorkspace string | ErrProtectedPath string string
  | UnboundedTreeWrite string

definition ControlPlaneWithin :: "string \<Rightarrow> ControlPlaneError + string" where
  "ControlPlaneWithin root =
     (if \<not> IsAbs root \<or> Clean root \<noteq> root then Inl (WorkspaceNotCanonical root) else Inr root)"

definition outside :: "string \<Rightarrow> bool" where
  "outside relative \<longleftrightarrow> relative = ''..'' \<or> prefix ''../'' relative"

definition pathComponents :: "string \<Rightarrow> string list" where
  "pathComponents relative =
     (if relative = ''.'' \<or> relative = [] then [] else splitSlash (Clean relative))"

definition Classify_path ::
  "string \<Rightarrow> string \<Rightarrow> ControlPlaneError + (ControlPlaneClassification \<times> bool)" where
  "Classify_path workspace p =
     (let absolute = Clean (if IsAbs p then p else Join [workspace, p]);
          relative = Rel workspace absolute in
      if outside relative then Inl (OutsideWorkspace p)
      else case find (\<lambda>c. ControlPlaneName c \<noteq> None) (pathComponents relative) of
        Some c \<Rightarrow> Inr (\<lparr>cp_Root = the (ControlPlaneName c), cp_Relative = relative\<rparr>, True)
      | None \<Rightarrow> Inr (\<lparr>cp_Root = [], cp_Relative = relative\<rparr>, False))"

definition CheckWrite :: "string \<Rightarrow> string \<Rightarrow> bool \<Rightarrow> ControlPlaneError option" where
  "CheckWrite workspace p tree =
     (case Classify_path workspace p of
        Inl e \<Rightarrow> Some e
      | Inr (c, protected) \<Rightarrow>
          if protected then Some (ErrProtectedPath (cp_Root c) (cp_Relative c))
          else if tree \<and> (cp_Relative c = ''.'' \<or> cp_Relative c = []) then Some (UnboundedTreeWrite (cp_Relative c))
          else None)"

section \<open>Credential stores\<close>

datatype Anchor = AnchorHome | AnchorAnywhere

record CredentialLocation =
  cl_Anchor :: Anchor
  cl_Segments :: "string list"
  cl_Owner :: string

definition credentialAt :: "Anchor \<Rightarrow> string list \<Rightarrow> string \<Rightarrow> CredentialLocation" where
  "credentialAt a segments owner = \<lparr>cl_Anchor = a, cl_Segments = segments, cl_Owner = owner\<rparr>"

definition credentialLocations :: "CredentialLocation list" where
  "credentialLocations =
     [credentialAt AnchorAnywhere [''.ssh''] ''OpenSSH'',
      credentialAt AnchorAnywhere [''.gnupg''] ''GnuPG'',
      credentialAt AnchorAnywhere [''keychains''] ''macOS Keychain Services'',
      credentialAt AnchorAnywhere [''credentials''] ''generic credential directory'',
      credentialAt AnchorAnywhere [''secrets''] ''generic secret directory'',
      credentialAt AnchorAnywhere [''.kube''] ''kubectl'',
      credentialAt AnchorAnywhere [''.docker''] ''Docker CLI'',
      credentialAt AnchorAnywhere [''.azure''] ''Azure CLI'',
      credentialAt AnchorAnywhere [''.gcloud''] ''Google Cloud SDK (legacy location)'',
      credentialAt AnchorAnywhere [''.config'', ''gh''] ''GitHub CLI'',
      credentialAt AnchorHome [''.aws''] ''AWS CLI'',
      credentialAt AnchorHome [''Library'', ''Keychains''] ''macOS Keychain Services'']"

definition credentialFileNames :: "string list" where
  "credentialFileNames =
     [''.git-credentials'', ''.netrc'', ''.netrc.gpg'', ''.npmrc'', ''.wgetrc'',
      ''id_rsa'', ''id_ed25519'', ''id_ecdsa'', ''id_dsa'']"

definition IsCredentialFileName :: "string \<Rightarrow> bool" where
  "IsCredentialFileName base = list_ex (EqualFold base) credentialFileNames"

definition splitSegments :: "string \<Rightarrow> string list" where
  "splitSegments p = filter (\<lambda>s. s \<noteq> [] \<and> s \<noteq> ''.'') (splitSlash (Clean p))"

fun foldPrefix :: "string list \<Rightarrow> string list \<Rightarrow> bool" where
  "foldPrefix segments [] = True"
| "foldPrefix [] (p # ps) = False"
| "foldPrefix (s # ss) (p # ps) = (EqualFold s p \<and> foldPrefix ss ps)"

definition hasPrefixFold :: "string list \<Rightarrow> string list \<Rightarrow> bool" where
  "hasPrefixFold segments pfx = (if pfx = [] \<or> length segments < length pfx then False else foldPrefix segments pfx)"

fun containsRun :: "string list \<Rightarrow> string list \<Rightarrow> bool" where
  "containsRun [] run = hasPrefixFold [] run"
| "containsRun (s # ss) run = (hasPrefixFold (s # ss) run \<or> containsRun ss run)"

definition InCredentialLocation :: "string \<Rightarrow> string \<Rightarrow> bool" where
  "InCredentialLocation p home =
     (let segments = splitSegments p in
      list_ex (\<lambda>l. case cl_Anchor l of
          AnchorAnywhere \<Rightarrow> containsRun segments (cl_Segments l)
        | AnchorHome \<Rightarrow> home \<noteq> [] \<and> hasPrefixFold segments (splitSegments home @ cl_Segments l))
        credentialLocations)"

definition HomeCredentialRoots :: "string \<Rightarrow> string list" where
  "HomeCredentialRoots home =
     (if home = [] then [] else map (\<lambda>l. Join (home # cl_Segments l)) credentialLocations)"

section \<open>Properties of the classifier\<close>

lemma stripCommon_append:
  "stripCommon bs ts = (bs', ts') \<Longrightarrow> \<exists>cs. bs = cs @ bs' \<and> ts = cs @ ts'"
proof (induction bs ts rule: stripCommon.induct)
  case (1 b bs t ts)
  show ?case
  proof (cases "b = t")
    case True
    with 1 obtain cs where "bs = cs @ bs' \<and> ts = cs @ ts'" by auto
    then have "b # bs = (b # cs) @ bs' \<and> t # ts = (b # cs) @ ts'" using True by simp
    then show ?thesis by blast
  next
    case False
    with 1 show ?thesis by (auto intro: exI [of _ "[]"])
  qed
qed auto

lemma stripCommon_prefix [simp]: "stripCommon bs (bs @ ts) = ([], ts)"
  by (induction bs) (cases ts; simp)+

lemma absolute_proper:
  assumes "IsAbs p"
  shows "list_all properName (pathSegments p)"
  using settled_pathSegments [of p] pathSegments_segment [of _ p] assms
  by (auto simp: settledPath_def properName_def list_all_iff)

lemma Clean_eq_iff:
  "IsAbs p = IsAbs q \<Longrightarrow> Clean p = Clean q \<longleftrightarrow> pathSegments p = pathSegments q"
  by (metis Clean_segments pathSegments_Clean)

lemma outside_dots: "outside (joinSlash (replicate (Suc n) ''..'' @ ts))"
  by (cases "replicate n ''..'' @ ts") (simp_all add: outside_def)

lemma joinSlash_head:
  assumes "t \<noteq> ''..''" "\<not> hasSlash t"
  shows "\<not> outside (joinSlash (t # ts))"
proof -
  obtain r where r: "joinSlash (t # ts) = t @ r" "r = [] \<or> hd r = CHR ''/''"
    by (cases ts) auto
  have "\<not> prefix ''../'' (t @ r)"
  proof
    assume "prefix ''../'' (t @ r)"
    then obtain q where q: "t @ r = ''../'' @ q" by (auto simp: prefix_def)
    consider "t = []" | a where "t = [a]" | a b where "t = [a, b]" | a b c u where "t = a # b # c # u"
      by (metis list.exhaust)
    then show False using q r(2) assms by cases (auto simp: hasSlash_def)
  qed
  moreover have "t @ r \<noteq> ''..''"
  proof
    assume e: "t @ r = ''..''"
    consider "t = []" | a where "t = [a]" | a b u where "t = a # b # u" by (metis list.exhaust)
    then show False using e r(2) assms by cases auto
  qed
  ultimately show ?thesis using r(1) by (simp add: outside_def)
qed

lemma pathComponents_join:
  assumes "list_all properName ts"
  shows "pathComponents (joinSlash ts) = ts"
proof (cases "ts = []")
  case False
  have settledPath: "settledPath False ts" "\<forall>s \<in> set ts. \<not> hasSlash s" "\<forall>s \<in> set ts. s \<noteq> []"
    "\<forall>s \<in> set ts. s \<noteq> [] \<and> \<not> hasSlash s"
    using assms by (auto simp: settledPath_def properName_def list_all_iff dest: set_dropWhileD)
  have segs: "pathSegments (joinSlash ts) = ts" using pathSegments_build [OF settledPath(1,2)] by simp
  have abs: "\<not> IsAbs (joinSlash ts)" by (rule joinSlash_not_rooted [OF settledPath(4)])
  have "Clean (joinSlash ts) = joinSlash ts" using segs abs False by (simp add: Clean_segments [of "joinSlash ts"])
  moreover have "joinSlash ts \<noteq> []" using joinSlash_eq_Nil [OF settledPath(3)] False by simp
  moreover have "joinSlash ts \<noteq> ''.''"
  proof
    assume "joinSlash ts = ''.''"
    then have "pathSegments (joinSlash ts) = []" by (simp add: pathSegments_def IsAbs_def)
    with segs False show False by simp
  qed
  ultimately show ?thesis using splitSlash_join [OF False settledPath(2)] by (simp add: pathComponents_def)
qed (simp add: pathComponents_def)

text \<open>The location a write names: absolute paths as they are, relative ones below the workspace.\<close>

definition writeLocation :: "string \<Rightarrow> string \<Rightarrow> string" where
  "writeLocation workspace p = (if IsAbs p then p else Join [workspace, p])"

lemma writeLocation_abs: "IsAbs workspace \<Longrightarrow> IsAbs (writeLocation workspace p)"
proof -
  assume a: "IsAbs workspace"
  then have "workspace \<noteq> []" by (auto simp: IsAbs_def)
  with a show ?thesis
    using IsAbs_append [of workspace "CHR ''/'' # p"] by (auto simp: writeLocation_def Join_def Let_def)
qed

text \<open>
  C36. On a canonical workspace root the control plane accepts a write exactly if its location lies in the
  workspace, no component below the root spells a control-plane name in any letter case, and a tree
  write does not take the whole workspace; every other write is refused, whatever spelling of the path
  the caller uses.
\<close>

theorem control_plane_exact:
  assumes "ControlPlaneWithin root = Inr workspace"
  shows "CheckWrite workspace p tree = None \<longleftrightarrow>
    (\<exists>below. pathSegments (writeLocation workspace p) = pathSegments workspace @ below \<and>
       (\<forall>c \<in> set below. \<forall>name \<in> set controlPlaneNames. \<not> EqualFold c name) \<and> (tree \<longrightarrow> below \<noteq> []))"
proof -
  have ws: "IsAbs workspace" using assms by (auto simp: ControlPlaneWithin_def split: if_splits)
  define l where "l = writeLocation workspace p"
  have abs: "IsAbs l" using writeLocation_abs [OF ws] by (simp add: l_def)
  obtain bs ts where strip: "stripCommon (pathSegments workspace) (pathSegments l) = (bs, ts)" by fastforce
  obtain cs where split: "pathSegments workspace = cs @ bs" "pathSegments l = cs @ ts"
    using stripCommon_append [OF strip] by blast
  have proper: "list_all properName ts" using absolute_proper [OF abs] split by simp
  have rel: "Rel workspace (Clean l) =
      (if pathSegments l = pathSegments workspace then ''.'' else joinSlash (replicate (length bs) ''..'' @ ts))"
    using ws abs strip by (simp add: Rel_def Clean_eq_iff)
  show ?thesis
  proof (cases bs)
    case (Cons b bs')
    have "\<not> (\<exists>below. pathSegments l = pathSegments workspace @ below)"
      using strip Cons by auto
    moreover have "pathSegments l \<noteq> pathSegments workspace" using calculation by auto
    then have "outside (Rel workspace (Clean l))" using rel Cons outside_dots [of "length bs'" ts] by simp
    ultimately show ?thesis
      by (auto simp: CheckWrite_def Classify_path_def Let_def l_def writeLocation_def)
  next
    case Nil
    have comps: "pathComponents (Rel workspace (Clean l)) = ts"
      using rel split Nil pathComponents_join [OF proper] by (auto simp: pathComponents_def)
    have inside: "\<not> outside (Rel workspace (Clean l))"
    proof (cases ts)
      case Nil
      then show ?thesis using rel split \<open>bs = []\<close> by (simp add: outside_def)
    next
      case (Cons t ts')
      then show ?thesis using rel split Nil proper joinSlash_head [of t ts'] by (simp add: properName_def)
    qed
    have root: "Rel workspace (Clean l) = ''.'' \<or> Rel workspace (Clean l) = [] \<longleftrightarrow> ts = []"
      using comps rel split Nil by (auto simp: pathComponents_def)
    have "CheckWrite workspace p tree = None \<longleftrightarrow>
        find (\<lambda>c. ControlPlaneName c \<noteq> None) ts = None \<and> \<not> (tree \<and> ts = [])"
      unfolding CheckWrite_def Classify_path_def Let_def writeLocation_def [symmetric] l_def [symmetric]
      using inside comps root by (simp split: option.split)
    also have "find (\<lambda>c. ControlPlaneName c \<noteq> None) ts = None \<longleftrightarrow>
        (\<forall>c \<in> set ts. \<forall>name \<in> set controlPlaneNames. \<not> EqualFold c name)"
      by (auto simp: find_None_iff ControlPlaneName_def)
    finally show ?thesis using split Nil by (auto simp: l_def [symmetric])
  qed
qed

theorem control_plane_exact_witness:
  "CheckWrite ''/w'' ''a/../src/x.go'' False = None \<and> CheckWrite ''/w'' ''src/.GIT/config'' False \<noteq> None"
proof -
  have ws: "ControlPlaneWithin ''/w'' = Inr ''/w''" by code_simp
  have "pathSegments (writeLocation ''/w'' ''a/../src/x.go'') = pathSegments ''/w'' @ [''src'', ''x.go'']"
    "\<forall>c \<in> set [''src'', ''x.go'']. \<forall>name \<in> set controlPlaneNames. \<not> EqualFold c name" by code_simp+
  then have "CheckWrite ''/w'' ''a/../src/x.go'' False = None"
    unfolding control_plane_exact [OF ws] by blast
  moreover have "pathSegments (writeLocation ''/w'' ''src/.GIT/config'') = pathSegments ''/w'' @ [''src'', ''.GIT'', ''config'']"
    "EqualFold ''.GIT'' ''.git''" "''.git'' \<in> set controlPlaneNames" by code_simp+
  then have "CheckWrite ''/w'' ''src/.GIT/config'' False \<noteq> None"
    unfolding control_plane_exact [OF ws] by (auto simp del: EqualFold.simps)
  ultimately show ?thesis by blast
qed

end
