(* ===== verification/Guardian_Review.thy ===== *)
theory Guardian_Review
  imports Security_Model Control_Dimensions Control_Plane
begin

text \<open>
  Model-based review of commands, \<open>src/internal/security/guardian\<close>: the candidate that binds one
  invocation, its authorization and its execution snapshot (\<open>candidate.go\<close>), the strict reading of the
  reviewer's answer (\<open>assessment.go\<close>) and the local decision table (\<open>decision.go\<close>). The collector of
  script contents (\<open>content.go\<close>) is not modelled.

  JSON decoding and the candidate digest are parameters. \<open>Evaluate_allow\<close> gives the exact
  condition of an automatic allow, \<open>review_cites_user\<close> that such an allow rests on a user statement
  that was not revoked.
\<close>

section \<open>The reviewer's answer\<close>

datatype RiskLevel = ReviewLow | ReviewMedium | ReviewHigh | ReviewCritical | ReviewRiskOther string

datatype Authorization = AuthUnset | AuthSupported | AuthUnknown | AuthConflicting | AuthOther string

datatype Recommendation = RecommendAllow | RecommendPrompt | RecommendOther string

definition readRisk :: "string \<Rightarrow> RiskLevel" where
  "readRisk s = (if s = ''low'' then ReviewLow else if s = ''medium'' then ReviewMedium
     else if s = ''high'' then ReviewHigh else if s = ''critical'' then ReviewCritical else ReviewRiskOther s)"

definition readAuthorization :: "string \<Rightarrow> Authorization" where
  "readAuthorization s = (if s = [] then AuthUnset else if s = ''supported'' then AuthSupported
     else if s = ''unknown'' then AuthUnknown else if s = ''conflicting'' then AuthConflicting else AuthOther s)"

definition readRecommendation :: "string \<Rightarrow> Recommendation" where
  "readRecommendation s = (if s = ''allow'' then RecommendAllow else if s = ''prompt'' then RecommendPrompt
     else RecommendOther s)"

fun RiskLevel_Valid :: "RiskLevel \<Rightarrow> bool" where
  "RiskLevel_Valid (ReviewRiskOther _) = False"
| "RiskLevel_Valid _ = True"

fun Authorization_Valid :: "Authorization \<Rightarrow> bool" where
  "Authorization_Valid (AuthOther _) = False"
| "Authorization_Valid AuthUnset = False"
| "Authorization_Valid _ = True"

fun Recommendation_Valid :: "Recommendation \<Rightarrow> bool" where
  "Recommendation_Valid (RecommendOther _) = False"
| "Recommendation_Valid _ = True"

record ReviewAssessment =
  ra_RiskLevel :: RiskLevel
  ra_Authorization :: Authorization
  ra_AuthorizationSourceIDs :: "string list"
  ra_Recommendation :: Recommendation
  ra_Rationale :: string

text \<open>
  \<open>rj_members\<close> reads one complete JSON object without trailing content as its members in order, keys
  decoded and values as raw text; \<open>rj_string\<close> and \<open>rj_strings\<close> decode a value (\<open>null\<close> as empty).
\<close>

record ReviewJSON =
  rj_members :: "string \<Rightarrow> (string \<times> string) list option"
  rj_string :: "string \<Rightarrow> string option"
  rj_strings :: "string \<Rightarrow> string list option"

datatype ReviewError =
  NotOneObject | DuplicateKey | UnknownField | RiskInvalid | RiskMissing | AuthorizationInvalid
  | AuthorizationMissing | RecommendationInvalid | RecommendationMissing | RationaleNull | RationaleInvalid
  | RationaleMissing | SourcesInvalid | SourcesRequired | SourceUnknown | SourcesUnexpected
  | SnapshotIncomplete | SourceInvalid | InheritedWithoutParent | ExecutionIncomplete | CwdOutside
  | WriteScopeInvalid | ContentIdentityInvalid | IdentityIncomplete | BindingIncomplete | OtherInvocation
  | NotEligible string

definition knownFields :: "string list" where
  "knownFields = [''risk_level'', ''authorization'', ''authorization_source_ids'', ''recommendation'', ''rationale'']"

definition validateJSONShape :: "ReviewJSON \<Rightarrow> string \<Rightarrow> ReviewError + (string \<times> string) list" where
  "validateJSONShape j data =
     (case rj_members j data of
        None \<Rightarrow> Inl NotOneObject
      | Some ms \<Rightarrow> if distinct (map fst ms) then Inr ms else Inl DuplicateKey)"

definition requiredField ::
  "(string \<times> string) list \<Rightarrow> string \<Rightarrow> ReviewError \<Rightarrow> ReviewError \<Rightarrow> (string \<Rightarrow> 'a option) \<Rightarrow> ('a \<Rightarrow> bool) \<Rightarrow>
   ReviewError + 'a" where
  "requiredField raw key missing invalid decode valid =
     (case map_of raw key of
        None \<Rightarrow> Inl missing
      | Some v \<Rightarrow> (case decode v of None \<Rightarrow> Inl invalid | Some x \<Rightarrow> if valid x then Inr x else Inl invalid))"

definition readRationale :: "ReviewJSON \<Rightarrow> (string \<times> string) list \<Rightarrow> ReviewError + string" where
  "readRationale j raw =
     (case map_of raw ''rationale'' of
        None \<Rightarrow> Inl RationaleMissing
      | Some v \<Rightarrow>
          if TrimSpace v = ''null'' then Inl RationaleNull
          else (case rj_string j v of None \<Rightarrow> Inl RationaleInvalid | Some s \<Rightarrow> Inr s))"

definition readSourceIDs :: "ReviewJSON \<Rightarrow> (string \<times> string) list \<Rightarrow> ReviewError + string list" where
  "readSourceIDs j raw =
     (case map_of raw ''authorization_source_ids'' of
        None \<Rightarrow> Inr []
      | Some v \<Rightarrow> (case rj_strings j v of None \<Rightarrow> Inl SourcesInvalid | Some ids \<Rightarrow> Inr ids))"

definition citationError :: "Authorization \<Rightarrow> string list \<Rightarrow> (string \<Rightarrow> bool) \<Rightarrow> ReviewError option" where
  "citationError auth ids validSource =
     (if auth = AuthSupported then
        (if ids = [] then Some SourcesRequired
         else if \<not> list_all validSource ids then Some SourceUnknown else None)
      else if ids \<noteq> [] then Some SourcesUnexpected else None)"

definition ParseAssessment :: "ReviewJSON \<Rightarrow> string \<Rightarrow> (string \<Rightarrow> bool) \<Rightarrow> ReviewError + ReviewAssessment" where
  "ParseAssessment j data validSource =
     bindR (validateJSONShape j data) (\<lambda>raw.
     if \<not> list_all (\<lambda>m. fst m \<in> set knownFields) raw then Inl UnknownField
     else bindR (requiredField raw ''risk_level'' RiskMissing RiskInvalid
       (\<lambda>v. map_option readRisk (rj_string j v)) RiskLevel_Valid) (\<lambda>risk.
     bindR (requiredField raw ''authorization'' AuthorizationMissing AuthorizationInvalid
       (\<lambda>v. map_option readAuthorization (rj_string j v)) Authorization_Valid) (\<lambda>auth.
     bindR (requiredField raw ''recommendation'' RecommendationMissing RecommendationInvalid
       (\<lambda>v. map_option readRecommendation (rj_string j v)) Recommendation_Valid) (\<lambda>rec.
     bindR (readRationale j raw) (\<lambda>rationale.
     bindR (readSourceIDs j raw) (\<lambda>ids.
     case citationError auth ids validSource of
       Some e \<Rightarrow> Inl e
     | None \<Rightarrow> Inr \<lparr>ra_RiskLevel = risk, ra_Authorization = auth, ra_AuthorizationSourceIDs = ids,
                    ra_Recommendation = rec, ra_Rationale = rationale\<rparr>))))))"

section \<open>Candidates\<close>

definition hexChar :: "char \<Rightarrow> bool" where
  "hexChar c \<longleftrightarrow> byteIn c 0x30 0x39 \<or> byteIn c 0x61 0x66 \<or> byteIn c 0x41 0x46"

definition validDigest :: "string \<Rightarrow> bool" where
  "validDigest v \<longleftrightarrow> length v = 64 \<and> list_all hexChar v"

record Subject =
  sb_Kind :: string
  sb_ID :: string
  sb_Trust :: string
  sb_Digest :: string
  sb_Generation :: uint64

definition Subject_Valid :: "Subject \<Rightarrow> bool" where
  "Subject_Valid s \<longleftrightarrow>
     \<not> (sb_Kind s = [] \<or> blank (sb_ID s) \<or> sb_Trust s = [] \<or> \<not> validDigest (sb_Digest s) \<or> sb_Generation s = 0) \<and>
     sb_Kind s \<in> {''builtin'', ''repository_hook'', ''mcp_tool'', ''workflow'', ''worker'', ''host''} \<and>
     sb_Trust s \<in> {''builtin'', ''host'', ''workspace'', ''external''}"

record InvocationIdentity =
  id_ReviewID :: string
  id_WorkspaceID :: string
  id_SessionID :: string
  id_ThreadID :: string
  id_TurnID :: string
  id_CallID :: string
  id_AttemptID :: string
  id_WorkspaceGeneration :: uint64

record BindingIdentity =
  bi_Tool :: string
  bi_CatalogID :: string
  bi_ArgumentsDigest :: string
  bi_CatalogGeneration :: uint64
  bi_Revision :: uint64
  bi_Authority :: uint64
  bi_Subject :: Subject

record AuthorizationSource =
  au_ID :: string
  au_ThreadID :: string
  au_TurnID :: string
  au_Role :: string
  au_Digest :: string
  au_Version :: uint64
  au_Revoked :: bool

record AuthorizationSnapshot =
  an_WorkspaceID :: string
  an_SessionID :: string
  an_ThreadID :: string
  an_Revision :: string
  an_ParentDigest :: string
  an_Sources :: "AuthorizationSource list"
  an_Complete :: bool

fun sourceErrors :: "AuthorizationSnapshot \<Rightarrow> string list \<Rightarrow> AuthorizationSource list \<Rightarrow> ReviewError option" where
  "sourceErrors a seen [] = None"
| "sourceErrors a seen (s # ss) =
     (if au_ID s = [] \<or> au_ThreadID s = [] \<or> au_TurnID s = [] \<or> au_Role s \<noteq> ''user'' \<or> au_Version s = 0 \<or>
         \<not> validDigest (au_Digest s) \<or> au_ID s \<in> set seen then Some SourceInvalid
      else if au_ThreadID s \<noteq> an_ThreadID a \<and> an_ParentDigest a = [] then Some InheritedWithoutParent
      else sourceErrors a (au_ID s # seen) ss)"

definition AuthorizationSnapshot_Validate :: "AuthorizationSnapshot \<Rightarrow> ReviewError option" where
  "AuthorizationSnapshot_Validate a =
     (if an_WorkspaceID a = [] \<or> an_SessionID a = [] \<or> an_ThreadID a = [] \<or> \<not> validDigest (an_Revision a) \<or>
         \<not> an_Complete a \<or> an_Sources a = [] \<or> (an_ParentDigest a \<noteq> [] \<and> \<not> validDigest (an_ParentDigest a))
      then Some SnapshotIncomplete
      else sourceErrors a [] (an_Sources a))"

text \<open>The map from source identifiers to "not revoked"; for a valid snapshot the identifiers are distinct.\<close>

definition SourceIDs :: "AuthorizationSnapshot \<Rightarrow> string \<Rightarrow> bool" where
  "SourceIDs a k =
     (if AuthorizationSnapshot_Validate a \<noteq> None then False
      else list_ex (\<lambda>s. au_ID s = k \<and> \<not> au_Revoked s) (an_Sources a))"

record ContentEvidence =
  ce_Path :: string
  ce_Identity :: string
  ce_Digest :: string
  ce_Mode :: uint32
  ce_Size :: int

record ExecutionSnapshot =
  es_ID :: string
  es_Root :: string
  es_RootIdentity :: string
  es_WorkingDir :: string
  es_WorkingDirIdentity :: string
  es_Command :: string
  es_EnvironmentDigest :: string
  es_ResourcesDigest :: string
  es_AssessmentID :: string
  es_SandboxPolicyID :: string
  es_Settlement :: string
  es_Controls :: Controls
  es_Content :: "ContentEvidence list"
  es_WritePaths :: "string list"
  es_CoverageComplete :: bool
  es_Missing :: "string list"

definition localPath :: "string \<Rightarrow> bool" where
  "localPath p \<longleftrightarrow> p \<noteq> [] \<and> \<not> IsAbs p \<and> Clean p = p \<and> p \<noteq> ''..'' \<and> \<not> prefix ''../'' p"

definition ExecutionSnapshot_Validate :: "ExecutionSnapshot \<Rightarrow> ReviewError option" where
  "ExecutionSnapshot_Validate s =
     (if es_ID s = [] \<or> \<not> IsAbs (es_Root s) \<or> es_RootIdentity s = [] \<or> \<not> IsAbs (es_WorkingDir s) \<or>
         es_WorkingDirIdentity s = [] \<or> blank (es_Command s) \<or> \<not> validDigest (es_EnvironmentDigest s) \<or>
         \<not> validDigest (es_ResourcesDigest s) \<or> \<not> validDigest (es_AssessmentID s) \<or> es_SandboxPolicyID s = [] \<or>
         (es_Settlement s \<noteq> ''apply'' \<and> es_Settlement s \<noteq> ''discard'') \<or> \<not> es_CoverageComplete s \<or>
         es_Missing s \<noteq> [] \<or> RequiredControls_IsZero (es_Controls s) \<or>
         RequiredControls_Validate (es_Controls s) \<noteq> None then Some ExecutionIncomplete
      else if outside (Rel (es_Root s) (es_WorkingDir s)) then Some CwdOutside
      else if \<not> list_all localPath (es_WritePaths s) \<or> \<not> distinct (es_WritePaths s) then Some WriteScopeInvalid
      else if \<not> list_all (\<lambda>c. localPath (ce_Path c) \<and> ce_Identity c \<noteq> [] \<and> validDigest (ce_Digest c) \<and> 0 \<le> ce_Size c)
          (es_Content s) \<or> \<not> distinct (map ce_Path (es_Content s)) then Some ContentIdentityInvalid
      else None)"

record ReviewVersions =
  rv_PolicyRevision :: uint64
  rv_Permission :: string
  rv_ConfigurationDigest :: string
  rv_RouteDigest :: string
  rv_PromptVersion :: string
  rv_SchemaVersion :: string

record CandidateFacts =
  cf_BuiltinBinding :: bool
  cf_RegisteredForReview :: bool
  cf_EffectRule :: string
  cf_PermissionExpansion :: bool
  cf_ProtectedPaths :: bool
  cf_ControlPlaneWrite :: bool
  cf_Capability :: Capability
  cf_Stage :: string
  cf_SandboxRequired :: bool
  cf_HostExecution :: bool
  cf_NetworkAccess :: bool
  cf_MCPOrSkill :: bool
  cf_EffectRisk :: Risk
  cf_EffectKind :: SecurityEffectKind
  cf_EffectReversibility :: Reversibility
  cf_EvidenceComplete :: bool

text \<open>The first failing condition, or \<open>None\<close> for an eligible candidate.\<close>

definition CheckEligibility :: "CandidateFacts \<Rightarrow> string option" where
  "CheckEligibility f = first_error
     [fail_if (\<not> cf_BuiltinBinding f \<or> \<not> cf_RegisteredForReview f) ''binding is not registered for review'',
      fail_if (\<not> cf_SandboxRequired f) ''Strong Sandbox is required'',
      fail_if (cf_PermissionExpansion f \<or> cf_ProtectedPaths f \<or> cf_ControlPlaneWrite f)
        ''expanded or protected authority excluded'',
      fail_if (cf_Capability f \<noteq> CapabilityProcess) ''not CapabilityProcess'',
      fail_if (cf_Stage f \<noteq> ''call'') ''not StageCall'',
      fail_if (cf_HostExecution f) ''host execution excluded'',
      fail_if (cf_NetworkAccess f) ''network access excluded in first version'',
      fail_if (cf_MCPOrSkill f) ''MCP/Skill source excluded'',
      fail_if (cf_EffectRisk f = RiskCritical) ''critical risk excluded'',
      fail_if (cf_EffectRisk f \<noteq> RiskHigh) ''only high-risk bounded process mutations are reviewable'',
      fail_if (cf_EffectRule f \<noteq> ''process_mutating'' \<or> cf_EffectKind f \<noteq> ProcessMutating \<or>
          cf_EffectReversibility f \<noteq> Bounded)
        ''only RuleProcessMutating process.mutating/high/bounded is reviewable'',
      fail_if (\<not> cf_EvidenceComplete f) ''execution evidence is incomplete'']"

record ReviewCandidate =
  rc_Identity :: InvocationIdentity
  rc_Binding :: BindingIdentity
  rc_Facts :: CandidateFacts
  rc_Execution :: ExecutionSnapshot
  rc_Authorization :: AuthorizationSnapshot
  rc_Versions :: ReviewVersions

definition ReviewCandidate_Validate :: "ReviewCandidate \<Rightarrow> ReviewError option" where
  "ReviewCandidate_Validate c =
     (let i = rc_Identity c; b = rc_Binding c; v = rc_Versions c; a = rc_Authorization c in first_error
       [fail_if (list_ex blank [id_ReviewID i, id_WorkspaceID i, id_SessionID i, id_ThreadID i, id_TurnID i,
          id_CallID i, id_AttemptID i, bi_Tool b, bi_CatalogID b, rv_PromptVersion v, rv_SchemaVersion v])
          IdentityIncomplete,
        fail_if (id_WorkspaceGeneration i = 0 \<or> bi_CatalogGeneration b = 0 \<or> bi_Revision b = 0 \<or>
          bi_Authority b = 0 \<or> \<not> Subject_Valid (bi_Subject b) \<or> sb_Kind (bi_Subject b) \<noteq> ''builtin'' \<or>
          sb_Trust (bi_Subject b) \<noteq> ''builtin'' \<or> \<not> validDigest (bi_ArgumentsDigest b) \<or>
          rv_PolicyRevision v = 0 \<or> rv_Permission v \<noteq> ''auto'' \<or> \<not> validDigest (rv_ConfigurationDigest v) \<or>
          \<not> validDigest (rv_RouteDigest v)) BindingIncomplete,
        fail_if (an_WorkspaceID a \<noteq> id_WorkspaceID i \<or> an_SessionID a \<noteq> id_SessionID i \<or>
          an_ThreadID a \<noteq> id_ThreadID i) OtherInvocation,
        AuthorizationSnapshot_Validate a,
        ExecutionSnapshot_Validate (rc_Execution c),
        map_option NotEligible (CheckEligibility (rc_Facts c))])"

record ReviewEvidence =
  re_candidateDigest :: string
  re_assessment :: ReviewAssessment

definition BindAssessment ::
  "ReviewJSON \<Rightarrow> (ReviewCandidate \<Rightarrow> string) \<Rightarrow> ReviewCandidate \<Rightarrow> string \<Rightarrow> ReviewError + ReviewEvidence" where
  "BindAssessment j digest c data =
     (case ReviewCandidate_Validate c of
        Some e \<Rightarrow> Inl e
      | None \<Rightarrow> bindR (ParseAssessment j data (SourceIDs (rc_Authorization c)))
          (\<lambda>a. Inr \<lparr>re_candidateDigest = digest c, re_assessment = a\<rparr>))"

section \<open>The decision table\<close>

record EvidenceInvalidation =
  ei_Cancelled :: bool
  ei_AuthorizationChanged :: bool
  ei_CatalogChanged :: bool
  ei_ContentChanged :: bool
  ei_SurfaceTightened :: bool

definition EvidenceInvalidation_Invalid :: "EvidenceInvalidation \<Rightarrow> bool" where
  "EvidenceInvalidation_Invalid e \<longleftrightarrow>
     ei_Cancelled e \<or> ei_AuthorizationChanged e \<or> ei_CatalogChanged e \<or> ei_ContentChanged e \<or> ei_SurfaceTightened e"

record PolicyContext =
  pc_Candidate :: "ReviewCandidate option"
  pc_GuardianEnabled :: bool
  pc_CurrentAction :: string
  pc_HasExplicitAsk :: bool
  pc_HasFreshRequirement :: bool
  pc_PermissionAuto :: bool
  pc_DisableAutoReview :: bool

datatype Outcome = OutcomeDiscard | OutcomePreserveDeny | OutcomeKeepAsk | OutcomeAllow

definition judgeAnswer :: "ReviewAssessment \<Rightarrow> Outcome" where
  "judgeAnswer a =
     (if ra_RiskLevel a = ReviewHigh \<or> ra_RiskLevel a = ReviewCritical then OutcomeKeepAsk
      else if ra_Authorization a = AuthUnknown \<or> ra_Authorization a = AuthConflicting then OutcomeKeepAsk
      else if ra_Recommendation a = RecommendPrompt then OutcomeKeepAsk
      else if (ra_RiskLevel a = ReviewLow \<or> ra_RiskLevel a = ReviewMedium) \<and>
          ra_Authorization a = AuthSupported \<and> ra_Recommendation a = RecommendAllow then OutcomeAllow
      else OutcomeKeepAsk)"

definition Evaluate ::
  "(ReviewCandidate \<Rightarrow> string) \<Rightarrow> ReviewEvidence option \<Rightarrow> EvidenceInvalidation \<Rightarrow> PolicyContext \<Rightarrow> Outcome" where
  "Evaluate digest evidence invalid p =
     (if ei_Cancelled invalid then OutcomeDiscard
      else if EvidenceInvalidation_Invalid invalid then OutcomeDiscard
      else if pc_CurrentAction p = ''deny'' \<or> pc_CurrentAction p = ''hold'' then OutcomePreserveDeny
      else if pc_CurrentAction p = ''allow'' then OutcomeDiscard
      else if pc_CurrentAction p \<noteq> ''ask'' then OutcomeKeepAsk
      else if pc_HasExplicitAsk p \<or> pc_HasFreshRequirement p \<or> \<not> pc_PermissionAuto p \<or>
          \<not> pc_GuardianEnabled p \<or> pc_DisableAutoReview p then OutcomeKeepAsk
      else case pc_Candidate p of
        None \<Rightarrow> OutcomeKeepAsk
      | Some c \<Rightarrow>
          if ReviewCandidate_Validate c \<noteq> None \<or> CheckEligibility (rc_Facts c) \<noteq> None then OutcomeKeepAsk
          else (case evidence of
             None \<Rightarrow> OutcomeKeepAsk
           | Some e \<Rightarrow>
               if re_candidateDigest e \<noteq> digest c then OutcomeDiscard
               else if re_candidateDigest e = [] then OutcomeKeepAsk
               else judgeAnswer (re_assessment e)))"

section \<open>Properties\<close>

text \<open>
  The exact condition of an automatic allow by review: nothing was invalidated, the policy asks and
  only by default, automatic review is on, the freshly sampled candidate is valid, and there is evidence
  bound to this very candidate whose answer is low or medium risk, supported by the user and
  recommending the operation.
\<close>

lemma Evaluate_allow:
  "Evaluate digest evidence invalid p = OutcomeAllow \<longleftrightarrow>
     \<not> EvidenceInvalidation_Invalid invalid \<and> pc_CurrentAction p = ''ask'' \<and> \<not> pc_HasExplicitAsk p \<and>
     \<not> pc_HasFreshRequirement p \<and> pc_PermissionAuto p \<and> pc_GuardianEnabled p \<and> \<not> pc_DisableAutoReview p \<and>
     (\<exists>c e. pc_Candidate p = Some c \<and> evidence = Some e \<and> ReviewCandidate_Validate c = None \<and>
        re_candidateDigest e = digest c \<and> digest c \<noteq> [] \<and>
        ra_RiskLevel (re_assessment e) \<in> {ReviewLow, ReviewMedium} \<and>
        ra_Authorization (re_assessment e) = AuthSupported \<and>
        ra_Recommendation (re_assessment e) = RecommendAllow)"
proof -
  have elig: "CheckEligibility (rc_Facts c) = None" if "ReviewCandidate_Validate c = None" for c
    using that by (simp add: ReviewCandidate_Validate_def Let_def)
  have judge: "judgeAnswer a = OutcomeAllow \<longleftrightarrow> ra_RiskLevel a \<in> {ReviewLow, ReviewMedium} \<and>
      ra_Authorization a = AuthSupported \<and> ra_Recommendation a = RecommendAllow" for a
    by (auto simp: judgeAnswer_def)
  show ?thesis
  proof (cases "pc_Candidate p")
    case None
    then show ?thesis by (simp add: Evaluate_def)
  next
    case (Some c)
    show ?thesis
    proof (cases evidence)
      case None
      with Some show ?thesis by (simp add: Evaluate_def)
    next
      case (Some e)
      with \<open>pc_Candidate p = Some c\<close> elig [of c] judge [of "re_assessment e"] show ?thesis
        by (auto simp: Evaluate_def EvidenceInvalidation_Invalid_def)
    qed
  qed
qed

lemma sourceErrors_user:
  "sourceErrors a seen ss = None \<Longrightarrow> \<forall>s \<in> set ss. au_Role s = ''user''"
proof (induction ss arbitrary: seen)
  case (Cons s ss)
  have "au_Role s = ''user''" "sourceErrors a (au_ID s # seen) ss = None"
    using Cons.prems unfolding sourceErrors.simps by (metis option.distinct(1))+
  with Cons.IH show ?case by auto
qed simp

lemma ParseAssessment_cites:
  assumes "ParseAssessment j data valid = Inr a" "ra_Authorization a = AuthSupported"
  shows "ra_AuthorizationSourceIDs a \<noteq> [] \<and> list_all valid (ra_AuthorizationSourceIDs a)"
proof -
  obtain auth ids where "citationError auth ids valid = None" "ra_Authorization a = auth"
    "ra_AuthorizationSourceIDs a = ids"
    using assms(1) unfolding ParseAssessment_def
    by (auto simp: bindR_Inr_iff split: option.splits if_splits)
  with assms(2) show ?thesis by (auto simp: citationError_def split: if_splits)
qed

text \<open>
  C40. An automatic allow rests on what the user said: when the evidence was bound to the candidate from a
  reviewer's answer, every source the answer cites, and there is at least one, is an entry of the
  candidate's authorization snapshot with the role user that was not revoked.
\<close>

theorem review_cites_user:
  assumes "BindAssessment j digest c data = Inr e"
    "Evaluate digest' (Some e) invalid p = OutcomeAllow"
  shows "ra_AuthorizationSourceIDs (re_assessment e) \<noteq> [] \<and>
    (\<forall>k \<in> set (ra_AuthorizationSourceIDs (re_assessment e)).
       \<exists>s \<in> set (an_Sources (rc_Authorization c)). au_ID s = k \<and> au_Role s = ''user'' \<and> \<not> au_Revoked s)"
proof -
  have c: "ReviewCandidate_Validate c = None"
    and parse: "ParseAssessment j data (SourceIDs (rc_Authorization c)) = Inr (re_assessment e)"
    using assms(1) by (auto simp: BindAssessment_def bindR_Inr_iff split: option.splits)
  have "ra_Authorization (re_assessment e) = AuthSupported" using assms(2) by (auto simp: Evaluate_allow)
  note cites = ParseAssessment_cites [OF parse this]
  have snap: "AuthorizationSnapshot_Validate (rc_Authorization c) = None"
    using c by (simp add: ReviewCandidate_Validate_def Let_def)
  then have "sourceErrors (rc_Authorization c) [] (an_Sources (rc_Authorization c)) = None"
    unfolding AuthorizationSnapshot_Validate_def by (metis option.distinct(1))
  from sourceErrors_user [OF this] cites snap show ?thesis
    by (auto simp: list_all_iff SourceIDs_def list_ex_iff)
qed

definition sampleDigest :: string where
  "sampleDigest = replicate 64 (CHR ''a'')"

definition sampleSubject :: Subject where
  "sampleSubject = \<lparr>sb_Kind = ''builtin'', sb_ID = ''shell'', sb_Trust = ''builtin'', sb_Digest = sampleDigest,
     sb_Generation = 1\<rparr>"

definition sampleFacts :: CandidateFacts where
  "sampleFacts =
     \<lparr>cf_BuiltinBinding = True, cf_RegisteredForReview = True, cf_EffectRule = ''process_mutating'',
      cf_PermissionExpansion = False, cf_ProtectedPaths = False, cf_ControlPlaneWrite = False,
      cf_Capability = CapabilityProcess, cf_Stage = ''call'', cf_SandboxRequired = True, cf_HostExecution = False,
      cf_NetworkAccess = False, cf_MCPOrSkill = False, cf_EffectRisk = RiskHigh, cf_EffectKind = ProcessMutating,
      cf_EffectReversibility = Bounded, cf_EvidenceComplete = True\<rparr>"

definition sampleAuthorization :: AuthorizationSnapshot where
  "sampleAuthorization =
     \<lparr>an_WorkspaceID = ''w'', an_SessionID = ''s'', an_ThreadID = ''t'', an_Revision = sampleDigest,
      an_ParentDigest = [], an_Sources = [\<lparr>au_ID = ''u1'', au_ThreadID = ''t'', au_TurnID = ''1'', au_Role = ''user'',
        au_Digest = sampleDigest, au_Version = 1, au_Revoked = False\<rparr>], an_Complete = True\<rparr>"

definition sampleExecution :: ExecutionSnapshot where
  "sampleExecution =
     \<lparr>es_ID = ''x'', es_Root = ''/w'', es_RootIdentity = ''i'', es_WorkingDir = ''/w/a'', es_WorkingDirIdentity = ''j'',
      es_Command = ''make'', es_EnvironmentDigest = sampleDigest, es_ResourcesDigest = sampleDigest,
      es_AssessmentID = sampleDigest, es_SandboxPolicyID = ''p'', es_Settlement = ''apply'',
      es_Controls = strictControls, es_Content = [], es_WritePaths = [''out''], es_CoverageComplete = True,
      es_Missing = []\<rparr>"

definition sampleCandidate :: ReviewCandidate where
  "sampleCandidate =
     \<lparr>rc_Identity = \<lparr>id_ReviewID = ''r'', id_WorkspaceID = ''w'', id_SessionID = ''s'', id_ThreadID = ''t'',
        id_TurnID = ''1'', id_CallID = ''c'', id_AttemptID = ''a'', id_WorkspaceGeneration = 1\<rparr>,
      rc_Binding = \<lparr>bi_Tool = ''shell'', bi_CatalogID = ''k'', bi_ArgumentsDigest = sampleDigest,
        bi_CatalogGeneration = 1, bi_Revision = 1, bi_Authority = 1, bi_Subject = sampleSubject\<rparr>,
      rc_Facts = sampleFacts, rc_Execution = sampleExecution, rc_Authorization = sampleAuthorization,
      rc_Versions = \<lparr>rv_PolicyRevision = 1, rv_Permission = ''auto'', rv_ConfigurationDigest = sampleDigest,
        rv_RouteDigest = sampleDigest, rv_PromptVersion = ''1'', rv_SchemaVersion = ''1''\<rparr>\<rparr>"

definition sampleJSON :: ReviewJSON where
  "sampleJSON =
     \<lparr>rj_members = (\<lambda>_. Some [(''risk_level'', ''low''), (''authorization'', ''supported''),
        (''authorization_source_ids'', ''u1''), (''recommendation'', ''allow''), (''rationale'', ''asked'')]),
      rj_string = Some, rj_strings = (\<lambda>v. Some [v])\<rparr>"

definition sampleContext :: PolicyContext where
  "sampleContext =
     \<lparr>pc_Candidate = Some sampleCandidate, pc_GuardianEnabled = True, pc_CurrentAction = ''ask'',
      pc_HasExplicitAsk = False, pc_HasFreshRequirement = False, pc_PermissionAuto = True,
      pc_DisableAutoReview = False\<rparr>"

definition noInvalidation :: EvidenceInvalidation where
  "noInvalidation = \<lparr>ei_Cancelled = False, ei_AuthorizationChanged = False, ei_CatalogChanged = False,
     ei_ContentChanged = False, ei_SurfaceTightened = False\<rparr>"

theorem review_cites_user_witness:
  "\<exists>e. BindAssessment sampleJSON (\<lambda>_. ''d'') sampleCandidate ''{}'' = Inr e \<and>
     (\<exists>s \<in> set (an_Sources sampleAuthorization). au_ID s = ''u1'' \<and> au_Role s = ''user'' \<and> \<not> au_Revoked s)"
proof -
  define e where "e = \<lparr>re_candidateDigest = ''d'', re_assessment = \<lparr>ra_RiskLevel = ReviewLow,
    ra_Authorization = AuthSupported, ra_AuthorizationSourceIDs = [''u1''], ra_Recommendation = RecommendAllow,
    ra_Rationale = ''asked''\<rparr>\<rparr>"
  have bind: "BindAssessment sampleJSON (\<lambda>_. ''d'') sampleCandidate ''{}'' = Inr e"
    unfolding e_def by code_simp
  have "ReviewCandidate_Validate sampleCandidate = None" by code_simp
  then have allow: "Evaluate (\<lambda>_. ''d'') (Some e) noInvalidation sampleContext = OutcomeAllow"
    by (simp add: Evaluate_allow noInvalidation_def EvidenceInvalidation_Invalid_def sampleContext_def e_def)
  have "rc_Authorization sampleCandidate = sampleAuthorization" by (simp add: sampleCandidate_def)
  with review_cites_user [OF bind allow] bind show ?thesis by (auto simp: e_def)
qed

end
