(* ===== verification/Command_Rules.thy ===== *)
theory Command_Rules
  imports Go_Paths
begin

text \<open>
  Command prefix rules, \<open>src/internal/security/policy/command.go\<close>: a shell command is analysed into the
  argument vectors it runs, and a rule with a command prefix is matched against them. An allow rule
  needs one literal, static segment; a restrictive rule matches whenever some segment could run the
  prefix.

  The Bash parser \<open>mvdan.cc/sh\<close> is a parameter: it gives the nodes of the syntax tree in the order
  \<open>syntax.Walk\<close> visits them, or fails. The analysis follows \<open>eval\<close> and \<open>sh -c\<close> payloads by calling
  itself; the model bounds that recursion by fuel, and \<open>analysis_terminates\<close> shows that the fuel never
  runs out for a parser that invents no text.
\<close>

section \<open>Syntax\<close>

datatype WordPart = Lit string | SglQuoted string | DblQuoted "WordPart list" | OtherPart

type_synonym ShellWord = "WordPart list"

text \<open>\<open>ComplexNode\<close> stands for redirections, subshells, blocks, conditionals, loops, cases and functions.\<close>

datatype ShellNode = ComplexNode | CallExpr "ShellWord list" | OtherNode

type_synonym ShellParser = "string \<Rightarrow> ShellNode list option"

datatype CommandError = CommandEmpty | CommandUnparsed | CommandNoSegment | CommandTooDeep | PrefixNotStatic

record CommandSegment =
  cs_Argv :: "string list"
  cs_HostExecutable :: string
  cs_Interpreter :: string
  cs_InterpreterPayload :: bool
  cs_Dynamic :: bool

record CommandAnalysis =
  ca_Segments :: "CommandSegment list"
  ca_Complex :: bool

datatype Action = ActionAllow | ActionAsk | ActionDeny | ActionHold | ActionOther string

definition dynamicWord :: string where
  "dynamicWord = ''<dynamic>''"

section \<open>Words\<close>

fun unescapeLiteral :: "string \<Rightarrow> bool \<Rightarrow> string" where
  "unescapeLiteral [] quoted = []"
| "unescapeLiteral [c] quoted = [c]"
| "unescapeLiteral (c # d # cs) quoted =
     (if c \<noteq> CHR 0x5C then c # unescapeLiteral (d # cs) quoted
      else if d = CHR 0x0A then unescapeLiteral cs quoted
      else if \<not> quoted \<or> d \<in> {CHR 0x24, CHR 0x60, CHR 0x22, CHR 0x5C} then d # unescapeLiteral cs quoted
      else c # unescapeLiteral (d # cs) quoted)"

fun partText :: "bool \<Rightarrow> WordPart \<Rightarrow> string option"
  and partsText :: "bool \<Rightarrow> WordPart list \<Rightarrow> string option" where
  "partText quoted (Lit s) = Some (unescapeLiteral s quoted)"
| "partText quoted (SglQuoted s) = Some s"
| "partText quoted (DblQuoted ps) = partsText True ps"
| "partText quoted OtherPart = None"
| "partsText quoted [] = Some []"
| "partsText quoted (p # ps) =
     (case partText quoted p of
        None \<Rightarrow> None
      | Some s \<Rightarrow> map_option ((@) s) (partsText quoted ps))"

definition staticWord :: "ShellWord \<Rightarrow> string option" where
  "staticWord w = partsText False w"

definition Base :: "string \<Rightarrow> string" where
  "Base p =
     (if p = [] then ''.''
      else let q = rev (dropWhile ((=) (CHR ''/'')) (rev p)) in
        if q = [] then ''/'' else last (splitSlash q))"

text \<open>The options of \<open>env\<close>: without a value, with a separate value, and those that make the argv opaque.\<close>

definition envFlag :: "string \<Rightarrow> bool" where
  "envFlag v \<longleftrightarrow> v \<in> {''-'', ''-i'', ''--ignore-environment'', ''-0'', ''--null'', ''-v'', ''--debug''}"

definition envValueFlag :: "string \<Rightarrow> bool" where
  "envValueFlag v \<longleftrightarrow> v \<in> {''-u'', ''-C'', ''-P''}"

definition envJoinedFlag :: "string \<Rightarrow> bool" where
  "envJoinedFlag v \<longleftrightarrow> prefix ''--unset='' v \<or> prefix ''--chdir='' v"

definition envOpaque :: "string \<Rightarrow> bool" where
  "envOpaque v \<longleftrightarrow> prefix ''-S'' v \<or> prefix ''--split-string'' v \<or> prefix ''-'' v"

definition envAssignment :: "string \<Rightarrow> bool" where
  "envAssignment v \<longleftrightarrow> CHR ''='' \<in> set v \<and> \<not> prefix ''='' v"

function envLoop :: "string list \<Rightarrow> string list \<Rightarrow> string list \<times> bool" where
  "envLoop argv [] = ([], True)"
| "envLoop argv (v # vs) =
     (if v = ''--'' then (vs, True)
      else if envFlag v then envLoop argv vs
      else if envValueFlag v then envLoop argv (drop 1 vs)
      else if envJoinedFlag v then envLoop argv vs
      else if envOpaque v then (argv, False)
      else if envAssignment v then envLoop argv vs
      else (v # vs, True))"
  by pat_completeness auto
termination
  by (relation "measure (\<lambda>(argv, vs). length vs)") auto

definition unwrapEnv :: "string list \<Rightarrow> string list \<times> bool" where
  "unwrapEnv argv = (if argv = [] \<or> Base (hd argv) \<noteq> ''env'' then (argv, True) else envLoop argv (tl argv))"

definition isShell :: "string \<Rightarrow> bool" where
  "isShell name \<longleftrightarrow> name \<in> {''sh'', ''bash'', ''dash'', ''zsh'', ''ksh'', ''fish''}"

definition isScriptInterpreter :: "string \<Rightarrow> bool" where
  "isScriptInterpreter name \<longleftrightarrow>
     name \<in> {''python'', ''python2'', ''python3'', ''node'', ''ruby'', ''perl'', ''php''}"

definition interpreterBoundary :: "string list \<Rightarrow> string \<times> bool" where
  "interpreterBoundary argv =
     (if argv = [] then ([], False)
      else let name = Base (hd argv) in
        if isShell name then (name, list_ex (\<lambda>v. v = ''-c'' \<or> v = ''-lc'') (tl argv))
        else if isScriptInterpreter name then (name, list_ex (\<lambda>v. v = ''-c'' \<or> v = ''-e'') (tl argv))
        else ([], False))"

fun afterFlag :: "string list \<Rightarrow> string option" where
  "afterFlag (v # w # vs) = (if v = ''-c'' \<or> v = ''-lc'' then Some w else afterFlag (w # vs))"
| "afterFlag _ = None"

definition shellPayload :: "string list \<Rightarrow> string option" where
  "shellPayload argv =
     (let ib = interpreterBoundary argv in
      if \<not> snd ib \<or> \<not> isShell (fst ib) then None else afterFlag (tl argv))"

fun joinBlank :: "string list \<Rightarrow> string" where
  "joinBlank [] = []"
| "joinBlank [s] = s"
| "joinBlank (s # t # ss) = s @ CHR '' '' # joinBlank (t # ss)"

definition evalPayload :: "CommandSegment \<Rightarrow> string option" where
  "evalPayload s =
     (if length (cs_Argv s) < 2 \<or> cs_HostExecutable s \<noteq> ''eval'' \<or> cs_Dynamic s then None
      else Some (joinBlank (tl (cs_Argv s))))"

definition wordValue :: "ShellWord \<Rightarrow> string" where
  "wordValue w = (case staticWord w of Some s \<Rightarrow> s | None \<Rightarrow> dynamicWord)"

definition commandSegment :: "ShellWord list \<Rightarrow> CommandSegment" where
  "commandSegment ws =
     (let ua = unwrapEnv (map wordValue ws); argv = fst ua; ib = interpreterBoundary argv in
      \<lparr>cs_Argv = argv,
       cs_HostExecutable = (if argv = [] then [] else Base (hd argv)),
       cs_Interpreter = fst ib, cs_InterpreterPayload = snd ib,
       cs_Dynamic = (list_ex (\<lambda>w. staticWord w = None) ws \<or> \<not> snd ua)\<rparr>)"

section \<open>Analysis\<close>

text \<open>A payload that cannot be analysed marks the segment as dynamic; otherwise its segments follow.\<close>

definition followPayload ::
  "(string \<Rightarrow> CommandError + CommandAnalysis) \<Rightarrow> string option \<Rightarrow>
   CommandSegment \<times> CommandSegment list \<Rightarrow> CommandSegment \<times> CommandSegment list" where
  "followPayload nested payload st =
     (case payload of
        None \<Rightarrow> st
      | Some script \<Rightarrow>
          (case nested script of
             Inl _ \<Rightarrow> let s = (fst st)\<lparr>cs_Dynamic := True\<rparr> in (s, (snd st)[length (snd st) - 1 := s])
           | Inr a \<Rightarrow> (fst st, snd st @ ca_Segments a)))"

fun visitNode ::
  "(string \<Rightarrow> CommandError + CommandAnalysis) \<Rightarrow> CommandAnalysis \<Rightarrow> ShellNode \<Rightarrow> CommandAnalysis" where
  "visitNode nested a ComplexNode = a\<lparr>ca_Complex := True\<rparr>"
| "visitNode nested a OtherNode = a"
| "visitNode nested a (CallExpr ws) =
     (if ws = [] then a
      else let s = commandSegment ws;
               st = followPayload nested (evalPayload s) (s, ca_Segments a @ [s]) in
        a\<lparr>ca_Segments := snd (followPayload nested (shellPayload (cs_Argv (fst st))) st)\<rparr>)"

primrec analyzeFuel :: "ShellParser \<Rightarrow> nat \<Rightarrow> string \<Rightarrow> CommandError + CommandAnalysis" where
  "analyzeFuel parse 0 command = Inl CommandTooDeep"
| "analyzeFuel parse (Suc fuel) command =
     (let command = TrimSpace command in
      if command = [] then Inl CommandEmpty
      else case parse command of
        None \<Rightarrow> Inl CommandUnparsed
      | Some nodes \<Rightarrow>
          let a = foldl (visitNode (analyzeFuel parse fuel)) \<lparr>ca_Segments = [], ca_Complex = False\<rparr> nodes in
          if ca_Segments a = [] then Inl CommandNoSegment else Inr a)"

definition AnalyzeCommand :: "ShellParser \<Rightarrow> string \<Rightarrow> CommandError + CommandAnalysis" where
  "AnalyzeCommand parse command = analyzeFuel parse (length command + 2) command"

section \<open>Matching a prefix\<close>

definition staticSegment :: "CommandError + CommandAnalysis \<Rightarrow> CommandSegment option" where
  "staticSegment r =
     (case r of
        Inl _ \<Rightarrow> None
      | Inr a \<Rightarrow>
          if ca_Complex a \<or> length (ca_Segments a) \<noteq> 1 then None
          else let s = hd (ca_Segments a) in
            if cs_Dynamic s \<or> cs_InterpreterPayload s \<or> cs_Argv s = [] then None else Some s)"

definition parseStaticPrefix :: "ShellParser \<Rightarrow> string \<Rightarrow> CommandError + string list" where
  "parseStaticPrefix parse pfx =
     (case staticSegment (AnalyzeCommand parse pfx) of
        None \<Rightarrow> Inl PrefixNotStatic
      | Some s \<Rightarrow> Inr (cs_Argv s))"

definition commandGrantPrefix :: "ShellParser \<Rightarrow> string \<Rightarrow> string list" where
  "commandGrantPrefix parse command =
     (case staticSegment (AnalyzeCommand parse command) of None \<Rightarrow> [] | Some s \<Rightarrow> cs_Argv s)"

definition executableName :: "string \<Rightarrow> string" where
  "executableName v = Base (TrimSpace v)"

definition wordMatches :: "string \<Rightarrow> string \<Rightarrow> bool \<Rightarrow> bool" where
  "wordMatches v want executable =
     (if v = dynamicWord then True
      else if executable then executableName v = executableName want
      else v = want)"

function matchWords :: "string list \<Rightarrow> string list \<Rightarrow> bool \<Rightarrow> bool \<Rightarrow> bool" where
  "matchWords [] vs afterOption partial = True"
| "matchWords (w # ws) [] afterOption partial = partial"
| "matchWords (w # ws) (v # vs) afterOption partial =
     (if wordMatches v w False then matchWords ws vs False partial
      else if prefix ''-'' v then matchWords (w # ws) vs True partial
      else if afterOption then matchWords (w # ws) vs False partial
      else False)"
  by pat_completeness auto
termination
  by (relation "measure (\<lambda>(ws, vs, a, p). length vs)") auto

text \<open>\<open>argvMatchesFrom\<close> reads the argument vector from its start index, so it is given that suffix.\<close>

definition argvMatchesFrom :: "string list \<Rightarrow> string list \<Rightarrow> bool \<Rightarrow> bool" where
  "argvMatchesFrom argv pfx partial =
     (case argv of
        [] \<Rightarrow> False
      | v # vs \<Rightarrow> if \<not> wordMatches v (hd pfx) True then False else matchWords (tl pfx) vs False partial)"

definition commandWrapper :: "string \<Rightarrow> bool" where
  "commandWrapper v \<longleftrightarrow> executableName v \<in>
     {''command'', ''builtin'', ''exec'', ''env'', ''nice'', ''nohup'', ''time'', ''timeout'', ''gtimeout'',
      ''sudo'', ''doas'', ''xargs'', ''find'', ''stdbuf'', ''ionice'', ''setsid'', ''chrt'', ''taskset'',
      ''caffeinate'', ''flock'', ''watch'', ''unbuffer'', ''busybox'', ''chroot'', ''runuser'', ''su'', ''script''}"

definition namesPartial :: "string \<Rightarrow> bool" where
  "namesPartial v \<longleftrightarrow> executableName v = ''xargs'' \<or> executableName v = ''find''"

fun wrapperScan :: "string list \<Rightarrow> string list \<Rightarrow> bool \<Rightarrow> bool" where
  "wrapperScan [] pfx partial = False"
| "wrapperScan (v # vs) pfx partial =
     (let partial = partial \<or> namesPartial v in
      if argvMatchesFrom (v # vs) pfx partial then True else wrapperScan vs pfx partial)"

definition payloadWordChar :: "char \<Rightarrow> bool" where
  "payloadWordChar c \<longleftrightarrow>
     c = CHR ''_'' \<or> c = CHR ''-'' \<or> c = CHR ''.'' \<or> c = CHR ''/'' \<or>
     byteIn c 0x30 0x39 \<or> byteIn c 0x61 0x7A \<or> byteIn c 0x41 0x5A"

function FieldsFunc :: "(char \<Rightarrow> bool) \<Rightarrow> string \<Rightarrow> string list" where
  "FieldsFunc keep s =
     (let s = dropWhile (\<lambda>c. \<not> keep c) s in
      if s = [] then [] else takeWhile keep s # FieldsFunc keep (dropWhile keep s))"
  by pat_completeness auto
termination
proof (relation "measure (\<lambda>(k, s). length s)", simp, goal_cases)
  case (1 keep s t)
  from 1(2) obtain c cs where t: "t = c # cs" by (meson neq_Nil_conv)
  have "keep c" using 1 t hd_dropWhile [of "\<lambda>c. \<not> keep c" s] by (metis list.sel(1))
  then have "length (dropWhile keep t) < length t" using t length_dropWhile_le [of keep cs] by simp
  moreover have "length t \<le> length s" using 1 length_dropWhile_le by blast
  ultimately show ?case by simp
qed

declare FieldsFunc.simps [simp del]

definition payloadNamesPrefix :: "string list \<Rightarrow> string list \<Rightarrow> bool" where
  "payloadNamesPrefix argv pfx =
     (let fields = concat (map (FieldsFunc payloadWordChar) (tl argv));
          known = (\<lambda>w. w \<in> set fields \<or> w \<in> executableName ` set fields) in
      case pfx of
        [] \<Rightarrow> True
      | p # ps \<Rightarrow> known (executableName p) \<and> list_all known ps)"

definition restrictiveSegmentMatches :: "CommandSegment \<Rightarrow> string list \<Rightarrow> bool" where
  "restrictiveSegmentMatches s pfx =
     (let argv = cs_Argv s in
      if argv = [] then False
      else if cs_Dynamic s \<and> (cs_HostExecutable s = ''eval'' \<or>
          cs_InterpreterPayload s \<and> isShell (cs_Interpreter s)) then True
      else if cs_InterpreterPayload s \<and> \<not> isShell (cs_Interpreter s) \<and> payloadNamesPrefix argv pfx then True
      else if argvMatchesFrom argv pfx False then True
      else if \<not> commandWrapper (hd argv) then False
      else wrapperScan (tl argv) pfx (namesPartial (hd argv)))"

definition argvPrefix :: "string list \<Rightarrow> string list \<Rightarrow> bool" where
  "argvPrefix argv pfx =
     (if pfx = [] \<or> length argv < length pfx then False else take (length pfx) argv = pfx)"

definition restrictiveAction :: "Action \<Rightarrow> bool" where
  "restrictiveAction a \<longleftrightarrow> a = ActionDeny \<or> a = ActionHold \<or> a = ActionAsk"

definition commandRuleMatches :: "ShellParser \<Rightarrow> string \<Rightarrow> string \<Rightarrow> Action \<Rightarrow> bool" where
  "commandRuleMatches parse command pfx action =
     (case parseStaticPrefix parse pfx of
        Inl _ \<Rightarrow> False
      | Inr prefixArgv \<Rightarrow>
          (case AnalyzeCommand parse command of
             Inl _ \<Rightarrow> restrictiveAction action
           | Inr a \<Rightarrow>
               if \<not> restrictiveAction action then
                 (if ca_Complex a \<or> length (ca_Segments a) \<noteq> 1 then False
                  else let s = hd (ca_Segments a) in
                    \<not> cs_Dynamic s \<and> \<not> cs_InterpreterPayload s \<and> argvPrefix (cs_Argv s) prefixArgv)
               else list_ex (\<lambda>s. restrictiveSegmentMatches s prefixArgv) (ca_Segments a)))"

definition unsafePersistentPrefix :: "ShellParser \<Rightarrow> string \<Rightarrow> bool" where
  "unsafePersistentPrefix parse pfx =
     (case parseStaticPrefix parse pfx of
        Inl _ \<Rightarrow> True
      | Inr argv \<Rightarrow>
          let name = Base (hd argv) in
          if isShell name \<or> isScriptInterpreter name then True
          else if name = ''git'' \<or> name = ''rm'' then length argv = 1 else False)"

section \<open>The analysis ends\<close>

text \<open>
  What the analysis relies on in the parser: the text of a call's words, with one separator between
  words, fits into the command it was read from, and \<open><dynamic>\<close> is no Bash program (a redirection
  without a target).
\<close>

fun partSize :: "WordPart \<Rightarrow> nat" where
  "partSize (Lit s) = length s"
| "partSize (SglQuoted s) = length s"
| "partSize (DblQuoted ps) = sum_list (map partSize ps)"
| "partSize OtherPart = 0"

definition wordSize :: "ShellWord \<Rightarrow> nat" where
  "wordSize w = sum_list (map partSize w)"

definition parserFaithful :: "ShellParser \<Rightarrow> bool" where
  "parserFaithful parse \<longleftrightarrow> parse dynamicWord = None \<and>
     (\<forall>c nodes ws. parse c = Some nodes \<longrightarrow> CallExpr ws \<in> set nodes \<longrightarrow> ws \<noteq> [] \<longrightarrow>
        sum_list (map wordSize ws) + (length ws - 1) \<le> length c)"

lemma parserFaithful_size:
  "parserFaithful parse \<Longrightarrow> parse c = Some nodes \<Longrightarrow> CallExpr ws \<in> set nodes \<Longrightarrow> ws \<noteq> [] \<Longrightarrow>
    sum_list (map wordSize ws) + (length ws - 1) \<le> length c"
  unfolding parserFaithful_def by blast

lemma unescapeLiteral_length: "length (unescapeLiteral s q) \<le> length s"
  by (induction s q rule: unescapeLiteral.induct) auto

lemma partText_length:
  "partText q p = Some s \<Longrightarrow> length s \<le> partSize p"
  "partsText q ps = Some s \<Longrightarrow> length s \<le> sum_list (map partSize ps)"
proof (induction q p and q ps arbitrary: s and s rule: partText_partsText.induct)
  case (6 quoted p ps)
  then obtain a b where "partText quoted p = Some a" "partsText quoted ps = Some b" "s = a @ b"
    by (auto split: option.splits)
  with 6 show ?case by force
qed (auto simp: unescapeLiteral_length)

lemma wordValue_length: "staticWord w \<noteq> None \<Longrightarrow> length (wordValue w) \<le> wordSize w"
  using partText_length(2) [of False w] by (auto simp: wordValue_def staticWord_def wordSize_def)

lemma trimLeft_length: "length (trimLeft ps s) \<le> length s"
proof (induction ps s rule: trimLeft.induct)
  case (1 ps s)
  show ?case
  proof (cases "find (\<lambda>p. p \<noteq> [] \<and> prefix p s) ps")
    case None
    then show ?thesis by (simp add: trimLeft.simps [of ps s])
  next
    case (Some p)
    with "1.IH" show ?thesis by (fastforce simp: trimLeft.simps [of ps s])
  qed
qed

lemma TrimSpace_length: "length (TrimSpace s) \<le> length s"
  using trimLeft_length [of "map rev space_runes" "rev (trimLeft space_runes s)"]
    trimLeft_length [of space_runes s] by (simp add: TrimSpace_def)

lemma envLoop_suffix: "fst (envLoop argv vs) = argv \<or> suffix (fst (envLoop argv vs)) vs"
proof (induction argv vs rule: envLoop.induct)
  case (2 argv v vs)
  then show ?case by (auto simp: suffix_Cons dest: suffix_order.trans [OF _ suffix_drop])
qed simp

lemma unwrapEnv_suffix: "suffix (fst (unwrapEnv argv)) argv"
  using envLoop_suffix [of argv "tl argv"]
  by (cases argv) (auto simp: unwrapEnv_def suffix_Cons)

lemma joinBlank_length: "length (joinBlank ss) = sum_list (map length ss) + (length ss - 1)"
  by (induction ss rule: joinBlank.induct) auto

lemma afterFlag_member: "afterFlag vs = Some p \<Longrightarrow> p \<in> set (tl vs)"
  by (induction vs rule: afterFlag.induct) (auto split: if_splits)

lemma argv_words:
  assumes "h # t = cs_Argv (commandSegment ws)"
  obtains pre w us where "ws = pre @ w # us" "h = wordValue w" "t = map wordValue us"
proof -
  have "suffix (h # t) (map wordValue ws)"
    using unwrapEnv_suffix [of "map wordValue ws"] assms by (simp add: commandSegment_def Let_def)
  then obtain pre where "map wordValue ws = pre @ h # t" by (auto simp: suffix_def)
  then show ?thesis using that by (auto simp: map_eq_append_conv map_eq_Cons_conv)
qed

lemma Base_eq_name: "Base h = n \<Longrightarrow> n \<noteq> ''.'' \<Longrightarrow> h \<noteq> []"
  by (auto simp: Base_def)

lemma Base_dynamic: "Base dynamicWord = dynamicWord"
  by (simp add: Base_def dynamicWord_def)

lemma evalPayload_shorter:
  assumes "parserFaithful parse" "parse c = Some nodes" "CallExpr ws \<in> set nodes"
    "evalPayload (commandSegment ws) = Some script"
  shows "length script < length c"
proof -
  define s where "s = commandSegment ws"
  have s: "length (cs_Argv s) \<ge> 2" "cs_HostExecutable s = ''eval''" "\<not> cs_Dynamic s"
    "script = joinBlank (tl (cs_Argv s))"
    using assms(4) by (auto simp: evalPayload_def s_def split: if_splits)
  obtain h t where argv: "cs_Argv s = h # t" using s(1) by (cases "cs_Argv s") auto
  then obtain pre w us where ws: "ws = pre @ w # us" "h = wordValue w" "t = map wordValue us"
    using argv_words [of h t ws] by (auto simp: s_def)
  have static: "length (wordValue x) \<le> wordSize x" if "x \<in> set ws" for x
    using s(3) that wordValue_length [of x] by (auto simp: s_def commandSegment_def Let_def list_ex_iff)
  have "Base h = ''eval''" using s(2) argv by (simp add: s_def commandSegment_def Let_def split: if_splits)
  then have "h \<noteq> []" by (rule Base_eq_name) simp
  then have "0 < length h" by simp
  moreover have "length h \<le> wordSize w" using static [of w] ws(1,2) by simp
  ultimately have "0 < wordSize w" by (rule less_le_trans)
  moreover have "sum_list (map length t) \<le> sum_list (map wordSize us)"
    using static ws by (auto simp: o_def intro!: sum_list_mono)
  moreover have "sum_list (map wordSize ws) + (length ws - 1) \<le> length c"
    using parserFaithful_size [OF assms(1-3)] ws(1) by simp
  ultimately show ?thesis using s(4) argv ws by (simp add: joinBlank_length)
qed

lemma shellPayload_shorter:
  assumes "parserFaithful parse" "parse c = Some nodes" "CallExpr ws \<in> set nodes"
    "shellPayload (cs_Argv (commandSegment ws)) = Some script"
  shows "script = dynamicWord \<or> length script < length c"
proof (cases "script = dynamicWord")
  case False
  define argv where "argv = cs_Argv (commandSegment ws)"
  have payload: "isShell (fst (interpreterBoundary argv))" "afterFlag (tl argv) = Some script"
    using assms(4) by (auto simp: shellPayload_def Let_def argv_def split: if_splits)
  then obtain h t where ht: "argv = h # t" by (cases argv) (auto simp: interpreterBoundary_def isShell_def)
  have shell: "isShell (Base h)"
    using payload(1) ht by (auto simp: interpreterBoundary_def Let_def isShell_def split: if_splits)
  obtain pre w us where ws: "ws = pre @ w # us" "h = wordValue w" "t = map wordValue us"
    using argv_words [of h t ws] ht by (auto simp: argv_def)
  have "staticWord w \<noteq> None"
  proof
    assume "staticWord w = None"
    then have "Base h = dynamicWord" using ws(2) Base_dynamic by (simp add: wordValue_def)
    with shell show False by (simp add: isShell_def dynamicWord_def)
  qed
  then have "length h \<le> wordSize w" using wordValue_length [of w] ws(2) by simp
  moreover have "0 < length h" using shell Base_eq_name [of h "Base h"] by (auto simp: isShell_def)
  ultimately have head: "0 < wordSize w" by (rule less_le_trans [rotated])
  have "script \<in> set t" using afterFlag_member [OF payload(2)] ht by (cases t) auto
  then obtain u where u: "u \<in> set us" "script = wordValue u" using ws(3) by auto
  then have "staticWord u \<noteq> None" using False by (cases "staticWord u") (auto simp: wordValue_def)
  from wordValue_length [OF this] u have "length script \<le> sum_list (map wordSize us)"
    using member_le_sum_list [of "wordSize u" "map wordSize us"] by auto
  moreover have "sum_list (map wordSize ws) + (length ws - 1) \<le> length c"
    using parserFaithful_size [OF assms(1-3)] ws(1) by simp
  ultimately show ?thesis using head ws by simp
qed simp

lemma analyzeFuel_dynamic:
  assumes "parserFaithful parse" "0 < n"
  shows "analyzeFuel parse n dynamicWord = Inl CommandUnparsed"
proof -
  have "TrimSpace dynamicWord = dynamicWord"
    unfolding dynamicWord_def by (rule plain_trimmed) (simp_all add: plainChar_def space_runes_def)
  with assms show ?thesis by (cases n) (simp_all add: parserFaithful_def dynamicWord_def)
qed

text \<open>What is found in a command only depends on the analysis of shorter scripts and of the dynamic word.\<close>

lemma visitNodes_cong:
  assumes "parserFaithful parse" "parse d = Some nodes"
    "\<And>script. script = dynamicWord \<or> length script < length d \<Longrightarrow> f script = g script"
  shows "foldl (visitNode f) a nodes = foldl (visitNode g) a nodes"
proof (rule foldl_cong [OF refl refl])
  fix x a
  assume x: "x \<in> set nodes"
  show "visitNode f a x = visitNode g a x"
  proof (cases x)
    case (CallExpr ws)
    define s where "s = commandSegment ws"
    have ev: "followPayload f (evalPayload s) st = followPayload g (evalPayload s) st" for st
      using assms(3) evalPayload_shorter [OF assms(1,2), of ws] x CallExpr
      by (auto simp: followPayload_def s_def split: option.split)
    have "cs_Argv (fst (followPayload h p st)) = cs_Argv (fst st)" for h p st
      by (auto simp: followPayload_def Let_def split: option.split sum.split)
    moreover have "followPayload f (shellPayload (cs_Argv s)) st = followPayload g (shellPayload (cs_Argv s)) st" for st
      using assms(3) shellPayload_shorter [OF assms(1,2), of ws] x CallExpr
      by (auto simp: followPayload_def s_def split: option.split)
    ultimately show ?thesis using CallExpr ev by (simp add: s_def [symmetric] Let_def)
  qed simp_all
qed

lemma analyzeFuel_stable:
  assumes "parserFaithful parse" "length c + 2 \<le> n" "length c + 2 \<le> m"
  shows "analyzeFuel parse n c = analyzeFuel parse m c"
  using assms(2,3)
proof (induction "length c" arbitrary: c n m rule: less_induct)
  case less
  obtain n' m' where nm: "n = Suc n'" "m = Suc m'" using less.prems by (metis Suc_le_D add_2_eq_Suc')
  define d where "d = TrimSpace c"
  have d: "length d \<le> length c" by (simp add: d_def TrimSpace_length)
  have "analyzeFuel parse n' script = analyzeFuel parse m' script"
    if "script = dynamicWord \<or> length script < length d" for script
    using that less.hyps [of script n' m'] less.prems d nm
    by (auto simp: analyzeFuel_dynamic [OF assms(1)])
  then have "foldl (visitNode (analyzeFuel parse n')) a nodes = foldl (visitNode (analyzeFuel parse m')) a nodes"
    if "parse d = Some nodes" for a nodes
    using visitNodes_cong [OF assms(1) that] by blast
  then show ?case by (simp add: nm d_def [symmetric] Let_def split: option.split)
qed

text \<open>
  C34. The analysis of a command ends: it follows \<open>eval\<close> and \<open>sh -c\<close> payloads to any depth, each payload is
  shorter than the command it was read from, any amount of fuel from the length of the command on
  gives the same result, and that result is what the source's own recursion, without any fuel, prescribes.
\<close>

theorem analysis_terminates:
  assumes "parserFaithful parse" "length command + 2 \<le> fuel"
  shows "analyzeFuel parse fuel command = AnalyzeCommand parse command \<and>
    AnalyzeCommand parse command =
      (let command = TrimSpace command in
       if command = [] then Inl CommandEmpty
       else case parse command of
         None \<Rightarrow> Inl CommandUnparsed
       | Some nodes \<Rightarrow>
           let a = foldl (visitNode (AnalyzeCommand parse)) \<lparr>ca_Segments = [], ca_Complex = False\<rparr> nodes in
           if ca_Segments a = [] then Inl CommandNoSegment else Inr a)"
proof
  show "analyzeFuel parse fuel command = AnalyzeCommand parse command"
    unfolding AnalyzeCommand_def using assms by (rule analyzeFuel_stable) simp
  define d where "d = TrimSpace command"
  have "length d \<le> length command" by (simp add: d_def TrimSpace_length)
  then have "analyzeFuel parse (Suc (length command)) script = AnalyzeCommand parse script"
    if "script = dynamicWord \<or> length script < length d" for script
    using that analyzeFuel_stable [OF assms(1), of script "Suc (length command)" "length script + 2"]
    by (auto simp: AnalyzeCommand_def analyzeFuel_dynamic [OF assms(1)] simp del: analyzeFuel.simps)
  then have "foldl (visitNode (analyzeFuel parse (Suc (length command)))) a nodes = foldl (visitNode (AnalyzeCommand parse)) a nodes"
    if "parse d = Some nodes" for a nodes
    using visitNodes_cong [OF assms(1) that] by blast
  then show "AnalyzeCommand parse command =
      (let command = TrimSpace command in
       if command = [] then Inl CommandEmpty
       else case parse command of
         None \<Rightarrow> Inl CommandUnparsed
       | Some nodes \<Rightarrow>
           let a = foldl (visitNode (AnalyzeCommand parse)) \<lparr>ca_Segments = [], ca_Complex = False\<rparr> nodes in
           if ca_Segments a = [] then Inl CommandNoSegment else Inr a)"
    unfolding AnalyzeCommand_def [of parse command] add_2_eq_Suc' analyzeFuel.simps Let_def d_def [symmetric]
    by (auto split: option.split)
qed

definition evalParser :: ShellParser where
  "evalParser c =
     (if c = ''eval ls'' then Some [OtherNode, CallExpr [[Lit ''eval''], [Lit ''ls'']]]
      else if c = ''ls'' then Some [OtherNode, CallExpr [[Lit ''ls'']]] else None)"

theorem analysis_terminates_witness:
  "analyzeFuel evalParser 40 ''eval ls'' = AnalyzeCommand evalParser ''eval ls'' \<and>
   map cs_Argv (ca_Segments (projr (AnalyzeCommand evalParser ''eval ls''))) = [[''eval'', ''ls''], [''ls'']]"
proof -
  have "parserFaithful evalParser"
    by (auto simp: parserFaithful_def evalParser_def dynamicWord_def wordSize_def split: if_splits)
  from analysis_terminates [OF this, of "''eval ls''" 40]
  have "analyzeFuel evalParser 40 ''eval ls'' = AnalyzeCommand evalParser ''eval ls''" by (simp del: analyzeFuel.simps)
  moreover have "map cs_Argv (ca_Segments (projr (AnalyzeCommand evalParser ''eval ls''))) = [[''eval'', ''ls''], [''ls'']]"
    by code_simp
  ultimately show ?thesis by simp
qed

section \<open>Allow and restriction\<close>

lemma matchWords_prefix: "matchWords ws (ws @ vs) False partial"
  by (induction ws) (simp_all add: wordMatches_def)

lemma argvPrefix_matches:
  assumes "argvPrefix argv pfx"
  shows "argvMatchesFrom argv pfx partial"
proof -
  have "pfx \<noteq> []" "take (length pfx) argv = pfx" using assms by (auto simp: argvPrefix_def split: if_splits)
  then obtain w ws vs where "pfx = w # ws" "argv = w # ws @ vs"
    by (metis append_Cons append_take_drop_id list.exhaust)
  then show ?thesis by (simp add: argvMatchesFrom_def wordMatches_def matchWords_prefix)
qed

lemma argvPrefix_restrictive:
  assumes "argvPrefix (cs_Argv s) pfx" "\<not> cs_Dynamic s" "\<not> cs_InterpreterPayload s"
  shows "restrictiveSegmentMatches s pfx"
proof -
  have "cs_Argv s \<noteq> []" using assms(1) by (auto simp: argvPrefix_def split: if_splits)
  with assms argvPrefix_matches [OF assms(1), of False] show ?thesis
    by (simp add: restrictiveSegmentMatches_def Let_def)
qed

definition opaqueSegment :: "CommandSegment \<Rightarrow> bool" where
  "opaqueSegment s \<longleftrightarrow> cs_Argv s \<noteq> [] \<and> cs_Dynamic s \<and>
     (cs_HostExecutable s = ''eval'' \<or> cs_InterpreterPayload s \<and> isShell (cs_Interpreter s))"

text \<open>
  C33. Command rules fail closed. For a prefix that is one static command, whatever an allow rule with it
  would permit a restrictive rule with it stops; a command that cannot be analysed, and one with an
  \<open>eval\<close> or shell payload that cannot be seen through, is stopped by every restrictive rule; and an
  unreadable command is never allowed.
\<close>

theorem command_rules_fail_closed:
  assumes "restrictiveAction a" "parseStaticPrefix parse pfx = Inr prefixArgv"
  shows "(commandRuleMatches parse command pfx ActionAllow \<longrightarrow> commandRuleMatches parse command pfx a) \<and>
    (\<forall>e. AnalyzeCommand parse command = Inl e \<longrightarrow>
       commandRuleMatches parse command pfx a \<and> \<not> commandRuleMatches parse command pfx ActionAllow) \<and>
    (\<forall>r s. AnalyzeCommand parse command = Inr r \<and> s \<in> set (ca_Segments r) \<and> opaqueSegment s \<longrightarrow>
       commandRuleMatches parse command pfx a \<and> \<not> commandRuleMatches parse command pfx ActionAllow)"
proof (cases "AnalyzeCommand parse command")
  case (Inl e)
  with assms show ?thesis by (simp add: commandRuleMatches_def restrictiveAction_def)
next
  case (Inr r)
  have allow: "\<exists>s. ca_Segments r = [s] \<and> argvPrefix (cs_Argv s) prefixArgv \<and> \<not> cs_Dynamic s \<and> \<not> cs_InterpreterPayload s"
    if "commandRuleMatches parse command pfx ActionAllow"
    using that Inr assms(2)
    by (cases "ca_Segments r") (auto simp: commandRuleMatches_def restrictiveAction_def Let_def split: if_splits)
  have stop: "commandRuleMatches parse command pfx a"
    if "s \<in> set (ca_Segments r)" "restrictiveSegmentMatches s prefixArgv" for s
    using that Inr assms by (auto simp: commandRuleMatches_def list_ex_iff)
  have "restrictiveSegmentMatches s prefixArgv" if "opaqueSegment s" for s
    using that by (auto simp: opaqueSegment_def restrictiveSegmentMatches_def Let_def)
  moreover have "\<not> commandRuleMatches parse command pfx ActionAllow"
    if "s \<in> set (ca_Segments r)" "opaqueSegment s" for s
    using allow that by (auto simp: opaqueSegment_def)
  ultimately show ?thesis using allow stop argvPrefix_restrictive Inr by fastforce
qed

theorem command_rules_fail_closed_witness:
  "commandRuleMatches evalParser ''ls'' ''ls'' ActionDeny \<and> commandRuleMatches evalParser ''rm ('' ''ls'' ActionHold"
proof -
  have pfx: "parseStaticPrefix evalParser ''ls'' = Inr [''ls'']" by code_simp
  have allow: "commandRuleMatches evalParser ''ls'' ''ls'' ActionAllow" by code_simp
  have unread: "AnalyzeCommand evalParser ''rm ('' = Inl CommandUnparsed" by code_simp
  show ?thesis
    using command_rules_fail_closed [OF _ pfx, of ActionDeny "''ls''"]
      command_rules_fail_closed [OF _ pfx, of ActionHold "''rm (''"] allow unread
    by (simp add: restrictiveAction_def)
qed

end
