(* ===== verification/Go_Match.thy ===== *)
theory Go_Match
  imports Go_Paths
begin

text \<open>
  The shell pattern matcher \<open>path.Match\<close> of the Go standard library, function by function: a pattern
  is a sequence of chunks, each optionally preceded by a star; a chunk consists of literals, escaped
  characters, \<open>?\<close> and character classes. \<open>None\<close> is the error \<open>ErrBadPattern\<close>.

  Two facts carry the path rules: whether a pattern is bad does not depend on the name
  (\<open>pathMatch_None\<close>), and a pattern whose special characters are escaped matches exactly the escaped
  text (\<open>pathMatch_literal\<close>).
\<close>

section \<open>Character classes\<close>

definition getEsc :: "string \<Rightarrow> (nat \<times> string) option" where
  "getEsc chunk =
     (case chunk of
        [] \<Rightarrow> None
      | c # cs \<Rightarrow>
          if c = CHR ''-'' \<or> c = CHR '']'' then None
          else let chunk' = (if c = CHR 0x5C then cs else chunk); rn = decodeRune chunk' in
            if chunk' = [] \<or> rn = (RuneError, 1) \<or> drop (snd rn) chunk' = [] then None
            else Some (fst rn, drop (snd rn) chunk'))"

lemma getEsc_shrinks:
  assumes "getEsc chunk = Some (r, rest)"
  shows "length rest < length chunk" "rest \<noteq> []"
proof -
  obtain c cs where chunk: "chunk = c # cs" using assms by (cases chunk) (simp_all add: getEsc_def)
  define chunk' where "chunk' = (if c = CHR 0x5C then cs else chunk)"
  have "chunk' \<noteq> []" "rest = drop (snd (decodeRune chunk')) chunk'" "rest \<noteq> []"
    using assms by (auto simp: getEsc_def chunk chunk'_def Let_def split: if_splits)
  moreover have "length chunk' \<le> length chunk" by (simp add: chunk'_def chunk)
  ultimately show "length rest < length chunk" "rest \<noteq> []"
    using decodeRune_size [of chunk'] by auto
qed

text \<open>The ranges of a class up to its closing bracket: whether \<open>r\<close> is in one, and what follows.\<close>

function classRanges :: "nat \<Rightarrow> bool \<Rightarrow> bool \<Rightarrow> string \<Rightarrow> (bool \<times> string) option" where
  "classRanges r matched some chunk =
     (if some \<and> prefix '']'' chunk then Some (matched, tl chunk)
      else case getEsc chunk of
        None \<Rightarrow> None
      | Some (lo, rest) \<Rightarrow>
          if prefix ''-'' rest then
            (case getEsc (tl rest) of
               None \<Rightarrow> None
             | Some (hi, rest') \<Rightarrow> classRanges r (matched \<or> lo \<le> r \<and> r \<le> hi) True rest')
          else classRanges r (matched \<or> r = lo) True rest)"
  by pat_completeness auto
termination
proof (relation "measure (\<lambda>(r, matched, some, chunk). length chunk)", goal_cases)
  case (2 r matched some chunk p lo rest q hi rest')
  then have "length rest < length chunk" "length rest' < length (tl rest)"
    by (auto dest: getEsc_shrinks)
  then show ?case by simp
qed (auto dest: getEsc_shrinks)

declare classRanges.simps [simp del]

lemma classRanges_shrinks:
  "classRanges r m some chunk = Some (b, rest) \<Longrightarrow> length rest < length chunk"
proof (induction r m some chunk rule: classRanges.induct)
  case (1 r m some chunk)
  show ?case
  proof (cases "some \<and> prefix '']'' chunk")
    case True
    then have "rest = tl chunk" "chunk \<noteq> []"
      using "1.prems" by (auto simp: classRanges.simps [of _ _ _ chunk])
    then show ?thesis by (cases chunk) auto
  next
    case False
    with "1.prems" obtain lo c1 where e: "getEsc chunk = Some (lo, c1)"
      by (auto simp: classRanges.simps [of _ _ _ chunk] split: option.splits)
    show ?thesis
    proof (cases "prefix ''-'' c1")
      case True
      with "1.prems" False e obtain hi c2 where e2: "getEsc (tl c1) = Some (hi, c2)"
        by (auto simp: classRanges.simps [of _ _ _ chunk] split: option.splits)
      with "1.prems" False e True have "classRanges r (m \<or> lo \<le> r \<and> r \<le> hi) True c2 = Some (b, rest)"
        by (simp add: classRanges.simps [of _ _ _ chunk])
      from "1.IH"(1) [OF False e refl True e2 refl this] getEsc_shrinks [OF e] getEsc_shrinks [OF e2]
      show ?thesis by simp
    next
      case dash: False
      with "1.prems" False e have "classRanges r (m \<or> r = lo) True c1 = Some (b, rest)"
        by (simp add: classRanges.simps [of _ _ _ chunk])
      from "1.IH"(2) [OF False e refl dash this] getEsc_shrinks [OF e] show ?thesis by simp
    qed
  qed
qed

text \<open>Where a class ends, and whether it is well formed, does not depend on the character.\<close>

lemma classRanges_end:
  "map_option snd (classRanges r m some chunk) = map_option snd (classRanges r' m' some chunk)"
proof (induction r m some chunk arbitrary: m' rule: classRanges.induct)
  case (1 r m some chunk)
  show ?case
  proof (cases "some \<and> prefix '']'' chunk")
    case True
    then show ?thesis by (simp add: classRanges.simps [of _ _ _ chunk])
  next
    case False
    show ?thesis
    proof (cases "getEsc chunk")
      case None
      with False show ?thesis by (simp add: classRanges.simps [of _ _ _ chunk])
    next
      case (Some p)
      obtain lo c1 where p: "p = (lo, c1)" by (cases p)
      show ?thesis
      proof (cases "prefix ''-'' c1")
        case True
        show ?thesis
        proof (cases "getEsc (tl c1)")
          case None
          with False Some p True show ?thesis by (simp add: classRanges.simps [of _ _ _ chunk])
        next
          case (Some q)
          obtain hi c2 where q: "q = (hi, c2)" by (cases q)
          note "1.IH"(1) [OF False \<open>getEsc chunk = Some p\<close> p [symmetric] True Some q [symmetric], of "m' \<or> lo \<le> r' \<and> r' \<le> hi"]
          with False \<open>getEsc chunk = Some p\<close> p True Some q show ?thesis
            by (auto simp add: classRanges.simps [of _ _ _ chunk])
        qed
      next
        case dash: False
        note "1.IH"(2) [OF False Some p [symmetric] dash, of "m' \<or> r' = lo"]
        with False Some p dash show ?thesis by (auto simp add: classRanges.simps [of _ _ _ chunk])
      qed
    qed
  qed
qed

section \<open>Chunks\<close>

text \<open>
  \<open>matchChunk\<close> matches a chunk at the start of a name. \<open>failed\<close> records a mismatch; the rest of the
  chunk is then only checked for being well formed. \<open>Some None\<close> is the plain mismatch.
\<close>

function matchChunk :: "bool \<Rightarrow> string \<Rightarrow> string \<Rightarrow> string option option" where
  "matchChunk failed [] s = Some (if failed then None else Some s)"
| "matchChunk failed (c # cs) s =
     (let failed = failed \<or> s = [] in
      if c = CHR ''['' then
        (let rn = (if failed then (0, 0) else decodeRune s);
             negated = prefix ''^'' cs in
         case classRanges (fst rn) False False (if negated then tl cs else cs) of
           None \<Rightarrow> None
         | Some (matched, rest) \<Rightarrow> matchChunk (failed \<or> matched = negated) rest (drop (snd rn) s))
      else if c = CHR ''?'' then
        (if failed then matchChunk True cs s
         else matchChunk (hd s = CHR ''/'') cs (drop (snd (decodeRune s)) s))
      else if c = CHR 0x5C \<and> cs = [] then None
      else let lit = (if c = CHR 0x5C then hd cs else c); rest = (if c = CHR 0x5C then tl cs else cs) in
        if failed then matchChunk True rest s
        else matchChunk (lit \<noteq> hd s) rest (tl s))"
  by pat_completeness auto
termination
proof (relation "measure (\<lambda>(failed, chunk, s). length chunk)", goal_cases)
  case (2 failed c cs s f rn negated p matched rest)
  then have "length rest < length (if negated then tl cs else cs)" by (auto dest: classRanges_shrinks)
  then show ?case by (cases negated) auto
qed auto

declare matchChunk.simps(2) [simp del]

lemma matchChunk_bad: "matchChunk f chunk s = None \<longleftrightarrow> matchChunk f' chunk s' = None"
proof (induction "length chunk" arbitrary: chunk f s f' s' rule: less_induct)
  case less
  show ?case
  proof (cases chunk)
    case (Cons c cs)
    have IH: "matchChunk b rest t = None \<longleftrightarrow> matchChunk b' rest t' = None"
      if "length rest \<le> length cs" for b b' t t' rest
      using less [of rest] that Cons by simp
    consider "c = CHR ''[''" | "c = CHR ''?''" | "c = CHR 0x5C" "cs = []"
      | "c \<noteq> CHR ''[''" "c \<noteq> CHR ''?''" "\<not> (c = CHR 0x5C \<and> cs = [])" by blast
    then show ?thesis
    proof cases
      case 1
      define neg where "neg = prefix ''^'' cs"
      define cs' where "cs' = (if neg then tl cs else cs)"
      define rn where "rn = (if f \<or> s = [] then (0, 0) else decodeRune s)"
      define rn' where "rn' = (if f' \<or> s' = [] then (0, 0) else decodeRune s')"
      have eq: "matchChunk f chunk s =
          (case classRanges (fst rn) False False cs' of None \<Rightarrow> None
           | Some (matched, rest) \<Rightarrow> matchChunk ((f \<or> s = []) \<or> matched = neg) rest (drop (snd rn) s))"
        "matchChunk f' chunk s' =
          (case classRanges (fst rn') False False cs' of None \<Rightarrow> None
           | Some (matched, rest) \<Rightarrow> matchChunk ((f' \<or> s' = []) \<or> matched = neg) rest (drop (snd rn') s'))"
        unfolding Cons matchChunk.simps(2) Let_def neg_def [symmetric] cs'_def [symmetric]
          rn_def [symmetric] rn'_def [symmetric]
        using 1 by simp_all
      note same = classRanges_end [of "fst rn" False False cs' "fst rn'" False]
      show ?thesis
      proof (cases "classRanges (fst rn) False False cs'")
        case None
        with same have "classRanges (fst rn') False False cs' = None" by simp
        with None show ?thesis unfolding eq by simp
      next
        case (Some p)
        obtain m rest where p: "p = (m, rest)" by (cases p)
        have "map_option snd (classRanges (fst rn') False False cs') = Some rest"
          unfolding same [symmetric] Some p by simp
        then obtain m' where m': "classRanges (fst rn') False False cs' = Some (m', rest)"
          unfolding map_option_eq_Some by (metis prod.collapse)
        have "length rest \<le> length cs"
          using classRanges_shrinks [OF m'] by (auto simp: cs'_def split: if_splits)
        from IH [OF this] show ?thesis unfolding eq Some p m' by simp
      qed
    next
      case 2
      with IH [of cs] show ?thesis by (simp add: Cons matchChunk.simps(2) Let_def)
    next
      case 3
      then show ?thesis by (simp add: Cons matchChunk.simps(2) Let_def)
    next
      case 4
      define rest where "rest = (if c = CHR 0x5C then tl cs else cs)"
      have "length rest \<le> length cs" by (simp add: rest_def)
      note same = IH [OF this]
      have "\<exists>b t. matchChunk g chunk u = matchChunk b rest t" for g u
        unfolding Cons matchChunk.simps(2) Let_def rest_def [symmetric] using 4 by auto
      then obtain b t b' t' where "matchChunk f chunk s = matchChunk b rest t"
        "matchChunk f' chunk s' = matchChunk b' rest t'" by blast
      then show ?thesis using same [of b t b' t'] by simp
    qed
  qed simp
qed

section \<open>Whole patterns\<close>

fun scanBody :: "bool \<Rightarrow> string \<Rightarrow> string \<times> string" where
  "scanBody inrange [] = ([], [])"
| "scanBody inrange (c # cs) =
     (if c = CHR 0x5C then
        (case cs of [] \<Rightarrow> ([c], []) | d # ds \<Rightarrow> map_prod (\<lambda>x. c # d # x) id (scanBody inrange ds))
      else if c = CHR ''*'' \<and> \<not> inrange then ([], c # cs)
      else map_prod ((#) c) id
        (scanBody (if c = CHR ''['' then True else if c = CHR '']'' then False else inrange) cs))"

definition scanChunk :: "string \<Rightarrow> bool \<times> string \<times> string" where
  "scanChunk pat = (prefix ''*'' pat, scanBody False (dropWhile ((=) (CHR ''*'')) pat))"

lemma scanBody_append: "fst (scanBody i s) @ snd (scanBody i s) = s"
proof (induction i s rule: scanBody.induct)
  case (2 i c cs)
  then show ?case by (cases cs) (auto simp: map_prod_def split_beta)
qed simp

lemma scanBody_consumes: "s \<noteq> [] \<Longrightarrow> \<not> prefix ''*'' s \<Longrightarrow> fst (scanBody False s) \<noteq> []"
  by (cases s) (auto simp: split_beta split: list.split)

lemma scanChunk_shrinks:
  assumes "pat \<noteq> []" "scanChunk pat = (star, chunk, rest)"
  shows "length rest < length pat"
proof (cases "prefix ''*'' pat")
  case True
  have "length rest \<le> length (dropWhile ((=) (CHR ''*'')) pat)"
    using assms(2) scanBody_append [of False "dropWhile ((=) (CHR ''*'')) pat"]
    by (auto simp: scanChunk_def dest: arg_cong [where f = length])
  moreover have "length (dropWhile ((=) (CHR ''*'')) pat) < length pat"
    using True by (cases pat) (auto intro: le_imp_less_Suc length_dropWhile_le)
  ultimately show ?thesis by simp
next
  case False
  then have "dropWhile ((=) (CHR ''*'')) pat = pat" by (cases pat) auto
  with assms scanBody_append [of False pat] scanBody_consumes [OF assms(1) False]
  show ?thesis by (auto simp: scanChunk_def dest: arg_cong [where f = length])
qed

lemma scanChunk_empty:
  assumes "scanChunk pat = (star, [], rest)"
  shows "rest = []"
proof (cases "dropWhile ((=) (CHR ''*'')) pat = []")
  case False
  then have "\<not> prefix ''*'' (dropWhile ((=) (CHR ''*'')) pat)"
    using hd_dropWhile [OF False] by (cases "dropWhile ((=) (CHR ''*'')) pat") auto
  from scanBody_consumes [OF False this] assms show ?thesis by (simp add: scanChunk_def)
next
  case True
  have "scanBody False (dropWhile ((=) (CHR ''*'')) pat) = ([], [])" unfolding True by simp
  with assms show ?thesis by (simp add: scanChunk_def)
qed

text \<open>The check of the remaining pattern after a mismatch: every chunk is well formed.\<close>

function patternOk :: "string \<Rightarrow> bool" where
  "patternOk pat =
     (if pat = [] then True
      else case scanChunk pat of (star, chunk, rest) \<Rightarrow>
        if matchChunk False chunk [] = None then False else patternOk rest)"
  by pat_completeness auto
termination
  by (relation "measure length") (auto dest: scanChunk_shrinks [OF _ sym])

declare patternOk.simps [simp del]

fun starSearch :: "string \<Rightarrow> string \<Rightarrow> string \<Rightarrow> string option option" where
  "starSearch chunk rest [] = Some None"
| "starSearch chunk rest (c # cs) =
     (if c = CHR ''/'' then Some None
      else case matchChunk False chunk cs of
        None \<Rightarrow> None
      | Some None \<Rightarrow> starSearch chunk rest cs
      | Some (Some t) \<Rightarrow> if rest = [] \<and> t \<noteq> [] then starSearch chunk rest cs else Some (Some t))"

definition nextRest :: "bool \<Rightarrow> string \<Rightarrow> string \<Rightarrow> string \<Rightarrow> string option option" where
  "nextRest star chunk rest name =
     (case matchChunk False chunk name of
        None \<Rightarrow> None
      | Some None \<Rightarrow> if star then starSearch chunk rest name else Some None
      | Some (Some t) \<Rightarrow>
          if t = [] \<or> rest \<noteq> [] then Some (Some t)
          else if star then starSearch chunk rest name else Some None)"

function pathMatch :: "string \<Rightarrow> string \<Rightarrow> bool option" where
  "pathMatch pat name =
     (if pat = [] then Some (name = [])
      else case scanChunk pat of (star, chunk, rest) \<Rightarrow>
        if star \<and> chunk = [] then Some (\<not> hasSlash name)
        else (case nextRest star chunk rest name of
           None \<Rightarrow> None
         | Some (Some t) \<Rightarrow> pathMatch rest t
         | Some None \<Rightarrow> if patternOk rest then Some False else None))"
  by pat_completeness auto
termination
  by (relation "measure (\<lambda>(pat, name). length pat)") (auto dest: scanChunk_shrinks [OF _ sym])

declare pathMatch.simps [simp del]

lemma pathMatch_Nil [simp]: "pathMatch [] name = Some (name = [])"
  by (simp add: pathMatch.simps)

lemma patternOk_Nil [simp]: "patternOk []"
  by (simp add: patternOk.simps)

lemma starSearch_bad:
  assumes "matchChunk False chunk [] \<noteq> None"
  shows "starSearch chunk rest name \<noteq> None"
proof (induction name)
  case (Cons c cs)
  have "matchChunk False chunk cs \<noteq> None"
    using assms matchChunk_bad [of False chunk cs False "[]"] by simp
  with Cons show ?case by (auto split: option.split)
qed simp

lemma nextRest_bad: "nextRest star chunk rest name = None \<longleftrightarrow> matchChunk False chunk [] = None"
  using starSearch_bad [of chunk rest name] matchChunk_bad [of False chunk name False "[]"]
  by (auto simp: nextRest_def split: option.split)

text \<open>Whether a pattern is bad does not depend on the name.\<close>

lemma pathMatch_None: "pathMatch pat name = None \<longleftrightarrow> \<not> patternOk pat"
proof (induction pat name rule: pathMatch.induct)
  case (1 pat name)
  obtain star chunk rest where scan: "scanChunk pat = (star, chunk, rest)" by (cases "scanChunk pat") auto
  show ?case
  proof (cases "pat = [] \<or> star \<and> chunk = []")
    case True
    with scan scanChunk_empty [of pat star rest] show ?thesis
      by (auto simp: pathMatch.simps [of pat] patternOk.simps [of pat])
  next
    case False
    have ok: "patternOk pat \<longleftrightarrow> matchChunk False chunk [] \<noteq> None \<and> patternOk rest"
      using False scan by (simp add: patternOk.simps [of pat])
    show ?thesis
    proof (cases "nextRest star chunk rest name")
      case None
      then have "matchChunk False chunk [] = None" by (simp add: nextRest_bad)
      with None False scan ok show ?thesis by (simp add: pathMatch.simps [of pat])
    next
      case (Some r)
      then have "matchChunk False chunk [] \<noteq> None"
        using nextRest_bad [of star chunk rest name] by simp
      then show ?thesis
        using "1.IH" [OF _ scan [symmetric] refl] False scan Some ok
        by (cases r) (auto simp: pathMatch.simps [of pat])
    qed
  qed
qed

section \<open>Patterns without special characters\<close>

definition quoteChar :: "char set \<Rightarrow> char \<Rightarrow> string" where
  "quoteChar W c = (if c \<in> W then [CHR 0x5C, c] else [c])"

definition quoteAll :: "char set \<Rightarrow> string \<Rightarrow> string" where
  "quoteAll W s = concat (map (quoteChar W) s)"

lemma quoteAll_simps [simp]: "quoteAll W [] = []" "quoteAll W (c # s) = quoteChar W c @ quoteAll W s"
  by (simp_all add: quoteAll_def)

lemma quoteAll_Nil_iff [simp]: "quoteAll W s = [] \<longleftrightarrow> s = []"
  by (cases s) (auto simp: quoteChar_def)

lemma scanBody_quoted:
  assumes "{CHR ''*'', CHR ''['', CHR 0x5C} \<subseteq> W"
  shows "scanBody False (quoteAll W s) = (quoteAll W s, [])"
  using assms by (induction s) (auto simp: quoteChar_def)

lemma matchChunk_quoted:
  assumes "{CHR ''?'', CHR ''['', CHR 0x5C} \<subseteq> W"
  shows "matchChunk f (quoteAll W s) name =
    Some (if \<not> f \<and> prefix s name then Some (drop (length s) name) else None)"
proof (induction s arbitrary: f name)
  case (Cons c s)
  show ?case
    using assms Cons.IH by (cases name) (auto simp: quoteChar_def matchChunk.simps(2) Let_def)
qed simp

lemma pathMatch_quoted:
  assumes "{CHR ''*'', CHR ''?'', CHR ''['', CHR 0x5C} \<subseteq> W"
  shows "pathMatch (quoteAll W s) name = Some (name = s)"
proof (cases "s = []")
  case False
  then obtain c t where s: "s = c # t" by (cases s) auto
  have star: "\<not> prefix ''*'' (quoteAll W s)" "dropWhile ((=) (CHR ''*'')) (quoteAll W s) = quoteAll W s"
    using assms by (auto simp: s quoteChar_def)
  have scan: "scanChunk (quoteAll W s) = (False, quoteAll W s, [])"
    using scanBody_quoted [of W s] assms star by (simp add: scanChunk_def)
  have "nextRest False (quoteAll W s) [] name = Some (if name = s then Some [] else None)"
    using matchChunk_quoted [of W False s name] assms by (auto simp: nextRest_def prefix_def)
  with scan False show ?thesis by (simp add: pathMatch.simps [of "quoteAll W s"])
qed auto

end
