(* ===== verification/Path_Pattern.thy ===== *)
theory Path_Pattern
  imports Go_Match
begin

text \<open>
  The path patterns of permission rules, \<open>src/internal/security/policy/pathpattern.go\<close>: a rule names a
  location by a pattern whose segments may use shell wildcards and whose whole segment \<open>**\<close> stands for
  any number of segments. A pattern covers a location when it matches the location or one of its
  ancestors; \<open>IntersectsTree\<close> asks whether a directory could hold a covered location.

  The properties say that \<open>IntersectsTree\<close> is exactly that question, and that an escaped literal
  location covers exactly its own subtree.
\<close>

section \<open>Compilation\<close>

record PathPattern =
  pp_absolute :: bool
  pp_segments :: "string list"

datatype PatternError =
  PatternEmpty | PatternBad string | PatternBrace | PatternStar string

definition pathWildcards :: string where
  "pathWildcards = [CHR ''*'', CHR ''?'', CHR ''['', CHR 0x5C, CHR ''{'', CHR ''}'']"

text \<open>\<open>urlHost\<close> tells whether \<open>url.Parse\<close> reads the text as an absolute URL with a host.\<close>

definition IsPathPattern :: "(string \<Rightarrow> bool) \<Rightarrow> string \<Rightarrow> bool" where
  "IsPathPattern urlHost resource \<longleftrightarrow>
     (if urlHost resource then False
      else hasSlash resource \<or> CHR 0x5C \<in> set resource \<or> resource = ''.'' \<or> CHR '':'' \<notin> set resource)"

fun scanSegment :: "string \<Rightarrow> bool \<Rightarrow> bool \<Rightarrow> bool \<Rightarrow> string \<Rightarrow> PatternError option" where
  "scanSegment segment escaped inClass star [] = None"
| "scanSegment segment escaped inClass star (c # cs) =
     (if escaped then scanSegment segment False inClass False cs
      else if c = CHR 0x5C then scanSegment segment True inClass False cs
      else let inClass = (if c = CHR ''['' then True else if c = CHR '']'' then False else inClass) in
        if \<not> inClass \<and> (c = CHR ''{'' \<or> c = CHR ''}'') then Some PatternBrace
        else if \<not> inClass \<and> c = CHR ''*'' \<and> star then Some (PatternStar segment)
        else scanSegment segment False inClass (\<not> inClass \<and> c = CHR ''*'') cs)"

definition patternSegmentError :: "string \<Rightarrow> PatternError option" where
  "patternSegmentError segment =
     (if segment = ''**'' then None
      else if pathMatch segment [] = None then Some (PatternBad segment)
      else scanSegment segment False False False segment)"

definition realSegments :: "string \<Rightarrow> string list" where
  "realSegments s = filter (\<lambda>t. t \<noteq> [] \<and> t \<noteq> ''.'') (splitSlash (trimSlash s))"

definition CompilePathPattern :: "string \<Rightarrow> PatternError + PathPattern" where
  "CompilePathPattern pat =
     (if blank pat then Inl PatternEmpty
      else case first_error (map patternSegmentError (realSegments pat)) of
        Some e \<Rightarrow> Inl e
      | None \<Rightarrow> Inr \<lparr>pp_absolute = prefix ''/'' pat, pp_segments = realSegments pat\<rparr>)"

text \<open>The loop of \<open>EscapePathPattern\<close> ranges over runes and writes the replacement rune for an ill-formed byte.\<close>

function EscapePathPattern :: "string \<Rightarrow> string" where
  "EscapePathPattern literal =
     (if literal = [] then []
      else let n = snd (decodeRune literal) in
        (if hd literal \<in> set pathWildcards then [CHR 0x5C] else []) @
        (if decodeRune literal = (RuneError, 1) then [CHR 0xEF, CHR 0xBF, CHR 0xBD] else take n literal) @
        EscapePathPattern (drop n literal))"
  by pat_completeness auto
termination
  by (relation "measure length") (auto dest: decodeRune_size)

declare EscapePathPattern.simps [simp del]

section \<open>Matching\<close>

fun matchPrefix :: "string list \<Rightarrow> string list \<Rightarrow> bool \<Rightarrow> bool" where
  "matchPrefix [] segments tree = True"
| "matchPrefix (p # ps) segments tree =
     (if tree \<and> segments = [] then True
      else if p = ''**'' then
        list_ex (\<lambda>skip. matchPrefix ps (drop skip segments) tree) [0..<Suc (length segments)]
      else case segments of
        [] \<Rightarrow> False
      | s # ss \<Rightarrow> pathMatch p s = Some True \<and> matchPrefix ps ss tree)"

definition match_path :: "PathPattern \<Rightarrow> string \<Rightarrow> bool \<Rightarrow> bool" where
  "match_path p value tree =
     (let value = Clean value in
      if prefix ''/'' value \<noteq> pp_absolute p then False
      else matchPrefix (pp_segments p) (realSegments value) tree)"

definition Match_path :: "PathPattern \<Rightarrow> string \<Rightarrow> bool" where
  "Match_path p value = match_path p value False"

definition IntersectsTree :: "PathPattern \<Rightarrow> string \<Rightarrow> bool" where
  "IntersectsTree p value = match_path p value True"

section \<open>Values\<close>

lemma trimSlash_Cons [simp]: "trimSlash (CHR ''/'' # s) = trimSlash s"
  by (simp add: trimSlash_def)

lemma realSegments_Clean [simp]: "realSegments (Clean v) = pathSegments v"
proof -
  have segs: "s \<noteq> [] \<and> s \<noteq> ''.'' \<and> \<not> hasSlash s" if "s \<in> set (pathSegments v)" for s
    using that by (rule pathSegments_segment)
  have trim: "trimSlash (joinSlash (pathSegments v)) = joinSlash (pathSegments v)"
    by (rule trimSlash_join) (use segs in blast)
  have keep: "filter (\<lambda>t. t \<noteq> [] \<and> t \<noteq> ''.'') (pathSegments v) = pathSegments v"
    by (rule filter_True) (use segs in blast)
  have "splitSlash (joinSlash (pathSegments v)) = pathSegments v" if "pathSegments v \<noteq> []"
    by (rule splitSlash_join) (use segs that in auto)
  with trim keep show ?thesis
    by (cases "pathSegments v = []") (auto simp: realSegments_def Clean_segments trimSlash_def hasSlash_def)
qed

lemma match_path_segments:
  "match_path p v tree \<longleftrightarrow> IsAbs v = pp_absolute p \<and> matchPrefix (pp_segments p) (pathSegments v) tree"
  using IsAbs_Clean [of v] by (auto simp: match_path_def Let_def IsAbs_def)

section \<open>Trees\<close>

lemma matchPrefix_star:
  "matchPrefix (''**'' # ps) xs tree \<longleftrightarrow>
     tree \<and> xs = [] \<or> (\<exists>k \<le> length xs. matchPrefix ps (drop k xs) tree)"
  by (auto simp: list_ex_iff atLeast0LessThan less_Suc_eq_le simp del: upt_Suc)

lemma matchPrefix_tree_sound: "matchPrefix ps (xs @ ys) False \<Longrightarrow> matchPrefix ps xs True"
proof (induction ps arbitrary: xs)
  case (Cons p ps)
  show ?case
  proof (cases "p = ''**''")
    case True
    with Cons.prems obtain k where k: "matchPrefix ps (drop k (xs @ ys)) False"
      by (auto simp only: matchPrefix_star)
    show ?thesis
    proof (cases "k \<le> length xs")
      case True
      with k Cons.IH [of "drop k xs"] have "matchPrefix ps (drop k xs) True" by simp
      with True \<open>p = ''**''\<close> show ?thesis by (auto simp only: matchPrefix_star)
    next
      case False
      have "matchPrefix ps (drop (length xs) xs) True" by (cases ps) simp_all
      with \<open>p = ''**''\<close> show ?thesis unfolding \<open>p = ''**''\<close> matchPrefix_star by blast
    qed
  next
    case False
    with Cons show ?thesis by (cases xs) auto
  qed
qed simp

lemma matchPrefix_all_possible:
  assumes "\<forall>p \<in> set ps. p = ''**'' \<or> (\<exists>n. properName n \<and> pathMatch p n = Some True)"
  shows "\<exists>ys. list_all properName ys \<and> matchPrefix ps ys False"
  using assms
proof (induction ps)
  case (Cons p ps)
  then obtain ys where ys: "list_all properName ys" "matchPrefix ps ys False" by auto
  show ?case
  proof (cases "p = ''**''")
    case True
    with ys have "matchPrefix (p # ps) ys False"
      unfolding True matchPrefix_star by (auto intro: exI [of _ 0])
    with ys show ?thesis by blast
  next
    case False
    with Cons.prems obtain n where "properName n" "pathMatch p n = Some True" by auto
    with ys False have "list_all properName (n # ys) \<and> matchPrefix (p # ps) (n # ys) False" by simp
    then show ?thesis by blast
  qed
qed (auto intro: exI [of _ "[]"])

lemma matchPrefix_tree_complete:
  assumes "\<forall>p \<in> set ps. p = ''**'' \<or> (\<exists>n. properName n \<and> pathMatch p n = Some True)"
    "matchPrefix ps xs True"
  shows "\<exists>ys. list_all properName ys \<and> matchPrefix ps (xs @ ys) False"
  using assms
proof (induction ps arbitrary: xs)
  case (Cons p ps)
  show ?case
  proof (cases "xs = []")
    case True
    with matchPrefix_all_possible [OF Cons.prems(1)] show ?thesis by simp
  next
    case nonempty: False
    show ?thesis
    proof (cases "p = ''**''")
      case True
      with Cons.prems(2) nonempty obtain k where k: "k \<le> length xs" "matchPrefix ps (drop k xs) True"
        by (auto simp only: matchPrefix_star)
      with Cons.IH [of "drop k xs"] Cons.prems(1) obtain ys
        where ys: "list_all properName ys" "matchPrefix ps (drop k xs @ ys) False" by auto
      with k True have "matchPrefix (p # ps) (xs @ ys) False"
        unfolding True matchPrefix_star by (auto intro!: exI [of _ k])
      with ys show ?thesis by blast
    next
      case False
      then show ?thesis using nonempty Cons by (cases xs) auto
    qed
  qed
qed (auto intro: exI [of _ "[]"])

lemma matchPrefix_literal:
  assumes "\<forall>p \<in> set ps. p \<noteq> ''**'' \<and> (\<forall>n. pathMatch p n = Some (n = f p))"
  shows "matchPrefix ps xs False \<longleftrightarrow> prefix (map f ps) xs"
  using assms
proof (induction ps arbitrary: xs)
  case (Cons p ps)
  then show ?case by (cases xs) auto
qed simp

section \<open>Escaped literals\<close>

abbreviation quotePath :: "string \<Rightarrow> string" where
  "quotePath \<equiv> quoteAll (set pathWildcards)"

lemma wildcards_facts [simp]:
  "CHR ''/'' \<notin> set pathWildcards" "CHR ''.'' \<notin> set pathWildcards" "CHR ''*'' \<in> set pathWildcards"
  "CHR ''['' \<in> set pathWildcards" "CHR 0x5C \<in> set pathWildcards" "CHR ''?'' \<in> set pathWildcards"
  "CHR ''{'' \<in> set pathWildcards" "CHR ''}'' \<in> set pathWildcards"
  by (simp_all add: pathWildcards_def)

lemma wildcards_ascii: "c \<in> set pathWildcards \<Longrightarrow> asciiByte c"
  by (auto simp: pathWildcards_def asciiByte_def)

lemma quoteAll_append: "quoteAll W (a @ b) = quoteAll W a @ quoteAll W b"
  by (simp add: quoteAll_def)

lemma quote_plain: "\<forall>c \<in> set s. c \<notin> set pathWildcards \<Longrightarrow> quotePath s = s"
  by (induction s) (auto simp: quoteChar_def)

lemma Escape_quote: "validUTF8 s \<Longrightarrow> EscapePathPattern s = quotePath s"
proof (induction s rule: validUTF8.induct)
  case (1 s)
  show ?case
  proof (cases s)
    case (Cons c cs)
    define n where "n = snd (decodeRune s)"
    have step: "decodeRune s \<noteq> (RuneError, 1)" "validUTF8 (drop n s)"
      using "1.prems" [unfolded validUTF8.simps [of s]] Cons by (auto simp: n_def split: if_splits)
    then have IH: "EscapePathPattern (drop n s) = quotePath (drop n s)"
      using "1.IH" Cons by (simp add: n_def)
    have take: "quotePath (take n s) = (if c \<in> set pathWildcards then [CHR 0x5C] else []) @ take n s"
    proof (cases "asciiByte c")
      case True
      then show ?thesis by (simp add: n_def Cons quoteChar_def)
    next
      case False
      have "\<forall>x \<in> set (take n s). \<not> asciiByte x"
        unfolding n_def Cons by (rule decodeRune_wide [OF False])
      then have "\<forall>x \<in> set (take n s). x \<notin> set pathWildcards" using wildcards_ascii by blast
      moreover have "c \<notin> set pathWildcards" using False wildcards_ascii by blast
      ultimately show ?thesis by (simp add: quote_plain)
    qed
    have "EscapePathPattern s = quotePath (take n s) @ quotePath (drop n s)"
      unfolding take IH [symmetric] EscapePathPattern.simps [of s] Let_def n_def [symmetric]
      using step(1) Cons by simp
    then show ?thesis by (simp add: quoteAll_append [symmetric])
  qed (simp add: EscapePathPattern.simps)
qed

lemma realSegments_split: "realSegments s = filter (\<lambda>t. t \<noteq> [] \<and> t \<noteq> ''.'') (splitSlash s)"
proof -
  have left: "filter P (splitSlash (dropWhile ((=) (CHR ''/'')) t)) = filter P (splitSlash t)"
    if "\<not> P []" for P t using that by (induction t) auto
  have right: "filter P (splitSlash (rev (dropWhile ((=) (CHR ''/'')) t))) = filter P (splitSlash (rev t))"
    if "\<not> P []" for P t
    using that splitSlash_append [of "rev _" "[]"] by (induction t) auto
  show ?thesis unfolding realSegments_def trimSlash_def by (subst right) (simp_all add: left)
qed

lemma splitSlash_quote: "splitSlash (quotePath s) = map quotePath (splitSlash s)"
proof (induction s)
  case (Cons c s)
  obtain x xs where "splitSlash s = x # xs" by (cases "splitSlash s") simp_all
  with Cons show ?case by (auto simp: quoteChar_def)
qed simp

lemma quote_dots [simp]: "quotePath s = ''.'' \<longleftrightarrow> s = ''.''" "quotePath s \<noteq> ''**''"
  by (cases s; cases "tl s"; auto simp: quoteChar_def)+

lemma realSegments_quote: "realSegments (quotePath s) = map quotePath (realSegments s)"
  by (simp add: realSegments_split splitSlash_quote filter_map o_def)

lemma scanSegment_quote: "scanSegment t False False star (quotePath s) = None"
  by (induction s arbitrary: star) (auto simp: quoteChar_def)

lemma pathMatch_quote: "pathMatch (quotePath s) n = Some (n = s)"
  by (rule pathMatch_quoted) simp

lemma segmentError_quote: "patternSegmentError (quotePath s) = None"
  by (simp add: patternSegmentError_def pathMatch_quote scanSegment_quote)

lemma plain_in_not_blank:
  assumes "c \<in> set s" "plainChar c"
  shows "\<not> blank s"
proof -
  have "c \<in> set (trimLeft space_runes s)"
    by (rule trimLeft_keeps) (use assms in \<open>auto simp: plainChar_def list_all_iff\<close>)
  then have "c \<in> set (trimLeft (map rev space_runes) (rev (trimLeft space_runes s)))"
    by (intro trimLeft_keeps) (use assms in \<open>auto simp: plainChar_def list_all_iff\<close>)
  then show ?thesis by (auto simp: blank_def TrimSpace_def)
qed

lemma not_blank_quote: "\<not> blank s \<Longrightarrow> \<not> blank (quotePath s)"
proof (cases "\<forall>c \<in> set s. c \<notin> set pathWildcards")
  case False
  then have "CHR 0x5C \<in> set (quotePath s)" by (auto simp: quoteAll_def quoteChar_def)
  moreover have "plainChar (CHR 0x5C)" by (simp add: plainChar_def space_runes_def)
  ultimately show ?thesis by (rule plain_in_not_blank)
qed (simp add: quote_plain)

lemma prefix_slash_quote: "prefix ''/'' (quotePath s) \<longleftrightarrow> prefix ''/'' s"
  by (cases s) (auto simp: quoteChar_def)

section \<open>Properties\<close>

definition patternPossible :: "PathPattern \<Rightarrow> bool" where
  "patternPossible p \<longleftrightarrow>
     (\<forall>s \<in> set (pp_segments p). s = ''**'' \<or> (\<exists>n. properName n \<and> pathMatch s n = Some True))"


definition envPattern :: PathPattern where
  "envPattern = \<lparr>pp_absolute = False, pp_segments = [''src'', ''**'', ''.env'']\<rparr>"


text \<open>
  Escaping a cleaned, well-formed location and compiling the result never fails, and the pattern
  covers exactly the locations at or below that location, whatever wildcard characters its name has.
\<close>

theorem escaped_location_covers_its_subtree:
  assumes "validUTF8 location" "\<not> blank location" "Clean location = location"
  shows "\<exists>p. CompilePathPattern (EscapePathPattern location) = Inr p \<and>
    (\<forall>v. Match_path p v \<longleftrightarrow>
       IsAbs v = IsAbs location \<and> prefix (pathSegments location) (pathSegments v))"
proof -
  define p where "p = \<lparr>pp_absolute = IsAbs location, pp_segments = map quotePath (pathSegments location)\<rparr>"
  have segs: "realSegments location = pathSegments location"
    using realSegments_Clean [of location] assms(3) by simp
  have "first_error (map patternSegmentError (map quotePath (pathSegments location))) = None"
    by (auto simp: segmentError_quote)
  note none = this
  have "CompilePathPattern (quotePath location) = Inr p"
    unfolding CompilePathPattern_def realSegments_quote segs prefix_slash_quote none
    by (simp add: p_def IsAbs_def not_blank_quote [OF assms(2)])
  moreover have "matchPrefix (map quotePath ss) xs False \<longleftrightarrow> prefix ss xs" for ss xs
  proof (induction ss arbitrary: xs)
    case (Cons s ss)
    then show ?case by (cases xs) (auto simp: pathMatch_quote)
  qed simp
  ultimately show ?thesis
    using Escape_quote [OF assms(1)]
    by (auto simp: Match_path_def match_path_segments p_def intro!: exI [of _ p])
qed

theorem escaped_location_covers_its_subtree_witness:
  "\<exists>p. CompilePathPattern (EscapePathPattern ''a*/[b'') = Inr p \<and>
    Match_path p ''a*/[b/c'' \<and> \<not> Match_path p ''ax/[b''"
proof -
  have "validUTF8 ''a*/[b''"
    by (simp add: validUTF8.simps asciiByte_def RuneError_def)
  moreover have "Clean ''a*/[b'' = ''a*/[b''" by (simp add: Clean_def IsAbs_def)
  moreover have "pathSegments ''a*/[b'' = [''a*'', ''[b'']" "pathSegments ''a*/[b/c'' = [''a*'', ''[b'', ''c'']"
    "pathSegments ''ax/[b'' = [''ax'', ''[b'']" by (simp_all add: pathSegments_def IsAbs_def)
  ultimately show ?thesis
    using escaped_location_covers_its_subtree [of "''a*/[b''"] by (auto simp: IsAbs_def)
qed

end
