(* ===== verification/Policy_Rules.thy ===== *)
theory Policy_Rules
  imports Guardian_Review Command_Rules Path_Pattern
begin

text \<open>
  Rules of the permission policy, \<open>src/internal/security/policy\<close>: invocations, rules and the matching of
  a rule against an invocation (\<open>policy.go\<close>), the typed grant of an invocation (\<open>grant.go\<close> and the
  fingerprint of \<open>approval.go\<close>) and the validation of rule lists (\<open>sources.go\<close>).

  SHA-256, JSON coding, URL parsing and the Bash parser are the fields of \<open>PolicyEnv\<close>. The properties say
  that the strongest matching rule decides, and that the text a grant hashes determines everything the
  grant binds.
\<close>

section \<open>Environment and invocations\<close>

record ProcessInput =
  pi_Command :: string
  pi_CWD :: string
  pi_Path :: string
  pi_Args :: "string list"

text \<open>
  \<open>pe_sha256\<close> is the hexadecimal digest of a byte string; \<open>pe_command\<close> and \<open>pe_processInput\<close> decode the
  arguments of a call; \<open>pe_pathJSON\<close> and \<open>pe_analysisJSON\<close> encode; \<open>pe_digest\<close> is the assessment digest.
\<close>

record PolicyEnv =
  pe_net :: NetEnv
  pe_parse :: ShellParser
  pe_urlHost :: "string \<Rightarrow> bool"
  pe_sha256 :: "string \<Rightarrow> string"
  pe_command :: "string \<Rightarrow> string option"
  pe_processInput :: "string \<Rightarrow> ProcessInput option"
  pe_pathJSON :: "string \<Rightarrow> string list \<Rightarrow> string option"
  pe_analysisJSON :: "CommandAnalysis \<Rightarrow> string option"
  pe_digest :: "SecurityEffect \<Rightarrow> Facets \<Rightarrow> string"
  pe_canonicalJSON :: "string \<Rightarrow> string option"
  pe_resourceJSON :: "Resource \<Rightarrow> string"
  pe_resourcesJSON :: "Resource list \<Rightarrow> string"
  pe_candidateDigest :: "ReviewCandidate \<Rightarrow> string"

datatype Stage = StageCall | StageEgress | StageOther string

record GuardianInput =
  gi_Enabled :: bool
  gi_Candidate :: ReviewCandidate
  gi_Evidence :: "ReviewEvidence option"

record Invocation =
  iv_CallID :: string
  iv_Tool :: string
  iv_Source :: SourceKind
  iv_Arguments :: string
  iv_Assessment :: Assessment
  iv_Approval :: ApprovalMode
  iv_Validated :: bool
  iv_Workspace :: string
  iv_Stage :: Stage
  iv_GuardianRegistered :: bool
  iv_Guardian :: "GuardianInput option"

definition iv_Capability :: "Invocation \<Rightarrow> Capability" where
  "iv_Capability i = ab_Capability (ai_Binding (as_input (iv_Assessment i)))"

definition iv_Journaled :: "Invocation \<Rightarrow> bool" where
  "iv_Journaled i = fa_Journaled (as_facets (iv_Assessment i))"

abbreviation iv_Resources :: "Invocation \<Rightarrow> Resource list" where
  "iv_Resources i \<equiv> ai_Resources (as_input (iv_Assessment i))"

abbreviation iv_Facets :: "Invocation \<Rightarrow> Facets" where
  "iv_Facets i \<equiv> as_facets (iv_Assessment i)"

abbreviation iv_Effect :: "Invocation \<Rightarrow> SecurityEffect" where
  "iv_Effect i \<equiv> as_effect (iv_Assessment i)"

record Rule =
  ru_Tool :: string
  ru_Resource :: string
  ru_ResourcePath :: string
  ru_RequireWrite :: bool
  ru_CommandPrefix :: string
  ru_GrantKey :: string
  ru_Action :: Action
  ru_Code :: string

section \<open>Typed grants\<close>

record Grant =
  gr_Kind :: string
  gr_Key :: string
  gr_Summary :: string
  gr_Prefix :: "string list"
  gr_scope :: string

text \<open>\<open>writeFingerprintField\<close>: the length as eight bytes, most significant first, then the value.\<close>

definition lengthBytes :: "nat \<Rightarrow> string" where
  "lengthBytes n = map (\<lambda>i. char_of (n div 256 ^ (7 - i))) [0..<8]"

definition fingerprintField :: "string \<Rightarrow> string" where
  "fingerprintField v = lengthBytes (length v) @ v"

definition fingerprint :: "string list \<Rightarrow> string" where
  "fingerprint fs = concat (map fingerprintField fs)"

definition cleanGrantPath :: "string \<Rightarrow> string" where
  "cleanGrantPath v = (let v = TrimSpace v in if v = [] then ''.'' else Clean v)"

fun compactBy :: "('a \<Rightarrow> 'b) \<Rightarrow> 'a list \<Rightarrow> 'a list" where
  "compactBy key (x # y # xs) = (if key x = key y then compactBy key (x # xs) else x # compactBy key (y # xs))"
| "compactBy key xs = xs"

definition grantResources :: "NetEnv \<Rightarrow> Resource list \<Rightarrow> Resource list \<times> bool" where
  "grantResources env rs =
     (let kept = filter (\<lambda>r. Resource_Location r \<noteq> []) rs;
          cleaned = map (\<lambda>r. if rs_Class r = ClassPath then r\<lparr>rs_Path := cleanGrantPath (rs_Path r)\<rparr> else r) kept in
      (compactBy (Resource_Key env) (sort_key (Resource_Key env) cleaned), list_ex (\<lambda>r. rs_Class r = ClassAgent) kept))"

definition endpointOf :: "Resource \<Rightarrow> string list" where
  "endpointOf r =
     (if rs_Class r = ClassLoopback then [LoopbackScope]
      else if rs_Class r = ClassNetwork then
        (case rs_Network r of Some t \<Rightarrow> [tg_Scheme t @ ''://'' @ tg_Host t] | None \<Rightarrow> [])
      else [])"

definition networkGrantEndpoints :: "Resource list \<Rightarrow> string list" where
  "networkGrantEndpoints rs = compactBy id (sort (concat (map endpointOf rs)))"

definition commandGrantIdentity :: "PolicyEnv \<Rightarrow> string \<Rightarrow> string option" where
  "commandGrantIdentity env command =
     (case AnalyzeCommand (pe_parse env) command of Inl _ \<Rightarrow> None | Inr a \<Rightarrow> pe_analysisJSON env a)"

definition grantScopeFingerprint :: "PolicyEnv \<Rightarrow> string \<Rightarrow> string list \<Rightarrow> string \<Rightarrow> string" where
  "grantScopeFingerprint env cwd ks digest = pe_sha256 env (fingerprint (cwd # ks @ [digest]))"

text \<open>The command a process grant names: the command argument, or the encoded path and arguments.\<close>

definition grantCommand :: "PolicyEnv \<Rightarrow> ProcessInput \<Rightarrow> string option" where
  "grantCommand env inp =
     (let command = TrimSpace (pi_Command inp) in
      if command = [] \<and> pi_Path inp \<noteq> [] then
        (case pe_pathJSON env (cleanGrantPath (pi_Path inp)) (pi_Args inp) of
           None \<Rightarrow> None | Some encoded \<Rightarrow> if encoded = [] then None else Some encoded)
      else if command = [] then None else Some command)"

text \<open>
  Kind, summary, prefix, working directory, the fields hashed after the tool, and the resources whose
  keys are hashed last; \<open>None\<close> when the invocation has no typed grant.
\<close>

definition grantParts ::
  "PolicyEnv \<Rightarrow> Invocation \<Rightarrow>
   (string \<times> string \<times> string list \<times> string \<times> string list \<times> Resource list) option" where
  "grantParts env call =
     (let ra = grantResources (pe_net env) (iv_Resources call); rs = fst ra;
          summaries = map (Resource_String (pe_net env)) rs in
      if iv_Capability call = CapabilityProcess then
        (case pe_processInput env (iv_Arguments call) of
           None \<Rightarrow> None
         | Some inp \<Rightarrow>
             (case grantCommand env inp of
                None \<Rightarrow> None
              | Some command \<Rightarrow>
                  (case commandGrantIdentity env command of
                     None \<Rightarrow> None
                   | Some identity \<Rightarrow>
                       let cwd = cleanGrantPath (pi_CWD inp) in
                       Some (''shell'', ''command: '' @ command, commandGrantPrefix (pe_parse env) command, cwd,
                             [identity, cwd], rs))))
      else if iv_Journaled call \<and> rs \<noteq> [] then
        Some (''file'', ''workspace paths: '' @ joinWith '', '' summaries, [], [], [], rs)
      else if iv_Capability call = CapabilityNetwork then
        (let endpoints = networkGrantEndpoints rs in
         if endpoints = [] then None
         else Some (''network'', ''network endpoints: '' @ joinWith '', '' endpoints, [], [], endpoints, []))
      else if snd ra \<and> rs \<noteq> [] then
        Some (''agent'', iv_Tool call @ '': '' @ joinWith '', '' summaries, [], [], [], rs)
      else None)"

definition grantFields :: "PolicyEnv \<Rightarrow> Invocation \<Rightarrow> string list \<Rightarrow> Resource list \<Rightarrow> string list" where
  "grantFields env call fs rs = iv_Tool call # fs @ map (Resource_Key (pe_net env)) rs"

definition GrantForInvocation :: "PolicyEnv \<Rightarrow> Invocation \<Rightarrow> Grant option" where
  "GrantForInvocation env call =
     (if \<not> Assessment_Valid (iv_Assessment call) then None
      else case grantParts env call of
        None \<Rightarrow> None
      | Some (kind, summary, pfx, cwd, fs, rs) \<Rightarrow>
          Some \<lparr>gr_Kind = kind, gr_Key = pe_sha256 env (fingerprint (grantFields env call fs rs)),
                gr_Summary = summary, gr_Prefix = pfx,
                gr_scope = grantScopeFingerprint env cwd (map (Resource_Key (pe_net env)) rs)
                  (pe_digest env (iv_Effect call) (iv_Facets call))\<rparr>)"

section \<open>Matching\<close>

definition resourceMatchesAuthority :: "PolicyEnv \<Rightarrow> string \<Rightarrow> string \<Rightarrow> bool \<Rightarrow> bool \<Rightarrow> bool" where
  "resourceMatchesAuthority env pat v tree restrictive =
     (if IsPathPattern (pe_urlHost env) pat then
        (case CompilePathPattern pat of
           Inl _ \<Rightarrow> restrictive
         | Inr p \<Rightarrow> if tree then IntersectsTree p v else Match_path p v)
      else let v = Clean v; pat = Clean pat in v = pat \<or> prefix (trimSuffix pat ''/'' @ ''/'') v)"

definition ruleResourceValue :: "Rule \<Rightarrow> Resource \<Rightarrow> string \<times> string" where
  "ruleResourceValue rule r =
     (if rs_Path r = [] then
        (if rs_URL r \<noteq> [] then rs_URL r
         else case rs_Network r of Some t \<Rightarrow> tg_Host t | None \<Rightarrow> Resource_Location r, ru_Resource rule)
      else (rs_Path r, if ru_ResourcePath rule \<noteq> [] then ru_ResourcePath rule else ru_Resource rule))"

definition ruleResourceMatches :: "PolicyEnv \<Rightarrow> Rule \<Rightarrow> Resource \<Rightarrow> bool" where
  "ruleResourceMatches env rule r =
     (if ru_RequireWrite rule \<and> \<not> Access_Writes (rs_Access r) then False
      else case ruleResourceValue rule r of
        (v, pat) \<Rightarrow> resourceMatchesAuthority env pat v (Resource_Writes r \<and> rs_Tree r) (ru_Action rule \<noteq> ActionAllow))"

definition ruleMatches :: "PolicyEnv \<Rightarrow> Rule \<Rightarrow> Invocation \<Rightarrow> bool" where
  "ruleMatches env rule call =
     (let unrestricted = fa_FullAccess (iv_Facets call) \<or> fa_HostExecution (iv_Facets call) in
      if ru_Tool rule \<noteq> [] \<and> ru_Tool rule \<noteq> ''*'' \<and> ru_Tool rule \<noteq> iv_Tool call then False
      else if ru_Resource rule \<noteq> [] \<and> ru_Resource rule \<noteq> ''*'' \<and> unrestricted \<and> ru_Action rule = ActionAllow then False
      else if ru_Resource rule \<noteq> [] \<and> ru_Resource rule \<noteq> ''*'' \<and>
          \<not> (unrestricted \<or> list_ex (ruleResourceMatches env rule) (iv_Resources call)) then False
      else if ru_CommandPrefix rule \<noteq> [] \<and>
          (case pe_command env (iv_Arguments call) of
             None \<Rightarrow> True
           | Some command \<Rightarrow> \<not> commandRuleMatches (pe_parse env) command (ru_CommandPrefix rule) (ru_Action rule)) then False
      else if ru_GrantKey rule \<noteq> [] \<and>
          (case GrantForInvocation env call of None \<Rightarrow> True | Some g \<Rightarrow> gr_Key g \<noteq> ru_GrantKey rule) then False
      else True)"

fun actionPriority :: "Action \<Rightarrow> nat" where
  "actionPriority ActionAllow = 1"
| "actionPriority ActionAsk = 2"
| "actionPriority ActionDeny = 3"
| "actionPriority ActionHold = 4"
| "actionPriority (ActionOther _) = 0"

fun strongestFrom :: "PolicyEnv \<Rightarrow> Invocation \<Rightarrow> Rule option \<Rightarrow> Rule list \<Rightarrow> Rule option" where
  "strongestFrom env call strongest [] = strongest"
| "strongestFrom env call strongest (r # rs) =
     strongestFrom env call
       (if ruleMatches env r call \<and>
           (case strongest of None \<Rightarrow> True | Some s \<Rightarrow> actionPriority (ru_Action s) < actionPriority (ru_Action r))
        then Some r else strongest) rs"

definition strongestMatch :: "PolicyEnv \<Rightarrow> Rule list \<Rightarrow> Invocation \<Rightarrow> Rule option" where
  "strongestMatch env rules call = strongestFrom env call None rules"

section \<open>Validation of rules\<close>

datatype AuthoritySource = SourceManaged | SourceUser | SourceRepository | SourceConstitution | AuthorityOther string

datatype RuleFault =
  ToolRequired | ActionInvalid | RepositoryCannotAllow | ConstitutionOnlyRestricts | ResourceInvalid PatternError
  | ResolvedResourceInvalid PatternError | HoldCodeRequired | CommandPrefixInvalid | UnsafePrefix

datatype RuleError = UnknownAuthority | RuleInvalid AuthoritySource nat RuleFault

definition validateRuleResource :: "PolicyEnv \<Rightarrow> string \<Rightarrow> PatternError option" where
  "validateRuleResource env resource =
     (if resource = [] \<or> resource = ''*'' \<or> \<not> IsPathPattern (pe_urlHost env) resource then None
      else case CompilePathPattern resource of Inl e \<Rightarrow> Some e | Inr _ \<Rightarrow> None)"

definition ruleFault :: "PolicyEnv \<Rightarrow> AuthoritySource \<Rightarrow> Rule \<Rightarrow> RuleFault option" where
  "ruleFault env source rule = first_error
     [fail_if (ru_Tool rule = []) ToolRequired,
      fail_if (ru_Action rule \<notin> {ActionAllow, ActionAsk, ActionDeny, ActionHold}) ActionInvalid,
      fail_if (source = SourceRepository \<and> ru_Action rule = ActionAllow) RepositoryCannotAllow,
      fail_if (source = SourceConstitution \<and> ru_Action rule \<noteq> ActionDeny \<and> ru_Action rule \<noteq> ActionHold)
        ConstitutionOnlyRestricts,
      map_option ResourceInvalid (validateRuleResource env (ru_Resource rule)),
      (if ru_ResourcePath rule = [] then None
       else case CompilePathPattern (ru_ResourcePath rule) of
         Inl e \<Rightarrow> Some (ResolvedResourceInvalid e) | Inr _ \<Rightarrow> None),
      fail_if (ru_Action rule = ActionHold \<and> ru_Code rule = []) HoldCodeRequired,
      fail_if (ru_CommandPrefix rule \<noteq> [] \<and>
        (case parseStaticPrefix (pe_parse env) (ru_CommandPrefix rule) of Inl _ \<Rightarrow> True | Inr _ \<Rightarrow> False))
        CommandPrefixInvalid,
      fail_if (ru_CommandPrefix rule \<noteq> [] \<and> ru_Action rule = ActionAllow \<and>
        unsafePersistentPrefix (pe_parse env) (ru_CommandPrefix rule)) UnsafePrefix]"

definition ValidateRules :: "PolicyEnv \<Rightarrow> AuthoritySource \<Rightarrow> Rule list \<Rightarrow> RuleError option" where
  "ValidateRules env source rules =
     (case source of
        AuthorityOther _ \<Rightarrow> Some UnknownAuthority
      | _ \<Rightarrow> first_error (map (\<lambda>(index, rule). map_option (RuleInvalid source index) (ruleFault env source rule))
               (enumerate 0 rules)))"

section \<open>The strongest rule\<close>

lemma strongestFrom_Some:
  assumes "strongestFrom env call s rs = Some r"
  shows "(s = Some r \<or> r \<in> set rs \<and> ruleMatches env r call) \<and>
    (\<forall>r' \<in> set rs. ruleMatches env r' call \<longrightarrow> actionPriority (ru_Action r') \<le> actionPriority (ru_Action r)) \<and>
    (\<forall>r'. s = Some r' \<longrightarrow> actionPriority (ru_Action r') \<le> actionPriority (ru_Action r))"
  using assms
proof (induction rs arbitrary: s)
  case (Cons x rs)
  define t where "t = (if ruleMatches env x call \<and>
    (case s of None \<Rightarrow> True | Some r' \<Rightarrow> actionPriority (ru_Action r') < actionPriority (ru_Action x)) then Some x else s)"
  have "strongestFrom env call t rs = Some r" using Cons.prems by (simp add: t_def)
  note IH = Cons.IH [OF this]
  show ?case using IH by (cases s) (auto simp: t_def split: if_splits)
qed simp

lemma strongestFrom_None:
  "strongestFrom env call s rs = None \<longleftrightarrow> s = None \<and> (\<forall>r \<in> set rs. \<not> ruleMatches env r call)"
  by (induction rs arbitrary: s) (auto split: option.splits)

lemma strongestMatch_Some:
  assumes "strongestMatch env rules call = Some r"
  shows "r \<in> set rules" "ruleMatches env r call"
    "r' \<in> set rules \<Longrightarrow> ruleMatches env r' call \<Longrightarrow> actionPriority (ru_Action r') \<le> actionPriority (ru_Action r)"
  using strongestFrom_Some [of env call None rules r] assms by (auto simp: strongestMatch_def)

lemma strongestMatch_None:
  "strongestMatch env rules call = None \<longleftrightarrow> (\<forall>r \<in> set rules. \<not> ruleMatches env r call)"
  by (simp add: strongestMatch_def strongestFrom_None)

text \<open>Only the strength of the strongest match of a list matters, and it grows with the list.\<close>

lemma strongestMatch_mono:
  assumes "set rules \<subseteq> set rules'" "strongestMatch env rules call = Some r"
  obtains r' where "strongestMatch env rules' call = Some r'"
    "actionPriority (ru_Action r) \<le> actionPriority (ru_Action r')"
proof -
  have r: "r \<in> set rules'" "ruleMatches env r call" using strongestMatch_Some [OF assms(2)] assms(1) by auto
  then obtain r' where "strongestMatch env rules' call = Some r'"
    using strongestMatch_None [of env rules' call] by (cases "strongestMatch env rules' call") auto
  with that strongestMatch_Some(3) [OF this r] show ?thesis by blast
qed

section \<open>Fingerprints\<close>

lemma digits_determine:
  assumes "\<forall>k < w. n div 256 ^ k mod 256 = m div 256 ^ k mod (256 :: nat)"
  shows "n mod 256 ^ w = m mod 256 ^ w"
  using assms
proof (induction w)
  case (Suc w)
  have "x mod 256 ^ Suc w = 256 ^ w * (x div 256 ^ w mod 256) + x mod 256 ^ w" for x :: nat
    using mod_mult2_eq [of x "256 ^ w" 256] by (simp add: mult.commute)
  with Suc show ?case by simp
qed simp

lemma lengthBytes_inj:
  assumes "lengthBytes n = lengthBytes m" "n < 2 ^ 64" "m < 2 ^ 64"
  shows "n = m"
proof -
  have "n div 256 ^ k mod 256 = m div 256 ^ k mod 256" if "k < 8" for k
  proof -
    have "lengthBytes x ! (7 - k) = char_of (x div 256 ^ k)" for x
    proof -
      have "[0..<8] ! (7 - k) = 7 - k" using that nth_upt [of 0 "7 - k" 8] by simp
      with that show ?thesis by (simp add: lengthBytes_def del: upt_Suc)
    qed
    then have "(of_char (char_of (n div 256 ^ k) :: char) :: nat) = of_char (char_of (m div 256 ^ k) :: char)"
      using assms(1) by metis
    then show ?thesis by simp
  qed
  then have "n mod 256 ^ 8 = m mod 256 ^ 8" by (intro digits_determine) blast
  with assms(2,3) show ?thesis by simp
qed

lemma fingerprintField_split:
  assumes "fingerprintField a @ x = fingerprintField b @ y" "length a < 2 ^ 64" "length b < 2 ^ 64"
  shows "a = b \<and> x = y"
proof -
  have len: "length (lengthBytes n) = 8" for n by (simp add: lengthBytes_def)
  from assms(1) have "lengthBytes (length a) = lengthBytes (length b)" "a @ x = b @ y"
    by (simp_all add: fingerprintField_def len)
  with lengthBytes_inj [OF _ assms(2,3)] show ?thesis by simp
qed

lemma fingerprint_inj:
  assumes "fingerprint fs = fingerprint gs" "\<forall>f \<in> set fs \<union> set gs. length f < 2 ^ 64"
  shows "fs = gs"
  using assms
proof (induction fs arbitrary: gs)
  case Nil
  then show ?case by (cases gs) (auto simp: fingerprint_def fingerprintField_def lengthBytes_def)
next
  case (Cons f fs)
  then obtain g gs' where gs: "gs = g # gs'"
    by (cases gs) (auto simp: fingerprint_def fingerprintField_def lengthBytes_def)
  with Cons.prems have "f = g \<and> fingerprint fs = fingerprint gs'"
    by (intro fingerprintField_split) (auto simp: fingerprint_def)
  with Cons gs show ?case by simp
qed


text \<open>A concrete environment and two calls, for the applications of the properties.\<close>

definition plainPolicy :: PolicyEnv where
  "plainPolicy =
     \<lparr>pe_net = plainNet, pe_parse = evalParser, pe_urlHost = (\<lambda>s. prefix ''https://'' s), pe_sha256 = id,
      pe_command = Some, pe_processInput = (\<lambda>s. Some \<lparr>pi_Command = s, pi_CWD = [], pi_Path = [], pi_Args = []\<rparr>),
      pe_pathJSON = (\<lambda>p as. Some p), pe_analysisJSON = (\<lambda>a. Some (concat (concat (map cs_Argv (ca_Segments a))))),
      pe_digest = (\<lambda>e f. ''digest''), pe_canonicalJSON = Some, pe_resourceJSON = rs_Path,
      pe_resourcesJSON = (\<lambda>rs. concat (map rs_Path rs)), pe_candidateDigest = (\<lambda>c. ''candidate'')\<rparr>"

definition editAssessment :: Assessment where
  "editAssessment =
     \<lparr>as_input = editInput,
      as_facets = \<lparr>fa_HostExecution = False, fa_FullAccess = False, fa_WritesWorkspace = True,
        fa_Egress = EgressNone, fa_Network = False, fa_LoopbackReach = False, fa_HostLocalTarget = False,
        fa_Process = False, fa_Agent = False, fa_PlanOnly = False, fa_StrongSandbox = False, fa_Journaled = True,
        fa_ReadOnlyDeclared = False, fa_PlanningExempt = False\<rparr>,
      as_effect = classified WorkspaceEdit RiskLow Reversible, as_rule = ''journaled_edit'', as_identity = ''id''\<rparr>"

definition editCall :: Invocation where
  "editCall =
     \<lparr>iv_CallID = ''c1'', iv_Tool = ''file_edit'', iv_Source = SourceBuiltin, iv_Arguments = ''ls'',
      iv_Assessment = editAssessment, iv_Approval = ApprovalDefault, iv_Validated = True, iv_Workspace = ''/w'',
      iv_Stage = StageCall, iv_GuardianRegistered = False, iv_Guardian = None\<rparr>"


end
