(* ===== verification/Policy_Decide.thy ===== *)
theory Policy_Decide
  imports Policy_Rules
begin

text \<open>
  The policy decision, \<open>src/internal/security/policy\<close>: \<open>Decide\<close> and its layers (\<open>decide.go\<close>), the
  permission posture (\<open>policy.go\<close>), planning (\<open>planning.go\<close>), surface postures (\<open>granular.go\<close>) and the
  automatic review by the guardian (\<open>guardian.go\<close>). The runtime is the sampled snapshot that \<open>Decide\<close>
  evaluates; its approval cache and its clock play no part in the decision.

  A reason is its text, or the error value whose text the source takes.
\<close>

section \<open>Types\<close>

datatype Mode = ModeAct | ModeOther string

datatype Permission = PermissionSuggest | PermissionAuto | PermissionBypass | PermissionNever | PermissionOther string

datatype PlanningPolicy = PlanningOff | PlanningAdaptive | PlanningRequired | PlanningOther string

datatype SurfacePosture = SurfaceInherit | SurfaceAsk | SurfaceAllow | SurfaceDeny | SurfacePostureOther string

datatype Surface = SurfaceSandbox | SurfaceRules | SurfaceSkills | SurfaceMCP

record Granular =
  gn_Sandbox :: SurfacePosture
  gn_Rules :: SurfacePosture
  gn_Skills :: SurfacePosture
  gn_MCP :: SurfacePosture

datatype Layer =
  LayerNone | LayerInput | LayerHard | LayerRepository | LayerUser | LayerMode | LayerPosture | LayerSurface
  | LayerBinding | LayerAutoReview

datatype ApprovalRequirement = ApprovalReusable | ApprovalFresh | ApprovalFreshOnce

datatype Reason = ReasonText string | ReasonControlPlane ControlPlaneError

record Decision =
  dc_GuardianEligible :: bool
  dc_Action :: Action
  dc_Code :: string
  dc_Reason :: Reason
  dc_Layer :: Layer
  dc_Approval :: ApprovalRequirement
  dc_Resource :: string

text \<open>
  A bound \<open>UserRuleSource\<close>: its method \<open>UserRulesSince\<close>, and whether its method \<open>WithUserRulesVersion\<close>, where
  it has one, lets a process start under a version.
\<close>

record RuleSource =
  us_since :: "uint64 \<Rightarrow> Rule list \<times> uint64"
  us_fence :: "(uint64 \<Rightarrow> bool) option"

record Runtime =
  rt_userSource :: "RuleSource option"
  rt_userSourceVersion :: uint64
  rt_Revision :: uint64
  rt_Mode :: Mode
  rt_Permission :: Permission
  rt_DisableHostExecution :: bool
  rt_PlanningPolicy :: PlanningPolicy
  rt_PlanSubmitted :: bool
  rt_DisableAutoReview :: bool
  rt_ForceEditPlanApproval :: bool
  rt_Grants :: "Rule list"
  rt_User :: "Rule list"
  rt_Repository :: "Rule list"
  rt_Constitution :: "Rule list"
  rt_Granular :: Granular

fun permissionName :: "Permission \<Rightarrow> string" where
  "permissionName PermissionSuggest = ''suggest''"
| "permissionName PermissionAuto = ''auto''"
| "permissionName PermissionBypass = ''bypass''"
| "permissionName PermissionNever = ''never''"
| "permissionName (PermissionOther s) = s"

fun actionName :: "Action \<Rightarrow> string" where
  "actionName ActionAllow = ''allow''"
| "actionName ActionAsk = ''ask''"
| "actionName ActionDeny = ''deny''"
| "actionName ActionHold = ''hold''"
| "actionName (ActionOther s) = s"

definition decision :: "Action \<Rightarrow> string \<Rightarrow> Reason \<Rightarrow> Layer \<Rightarrow> Decision" where
  "decision a code reason layer =
     \<lparr>dc_GuardianEligible = False, dc_Action = a, dc_Code = code, dc_Reason = reason, dc_Layer = layer,
      dc_Approval = ApprovalReusable, dc_Resource = []\<rparr>"

definition deny :: "string \<Rightarrow> string \<Rightarrow> Decision" where
  "deny code reason = decision ActionDeny code (ReasonText reason) LayerNone"

definition atLayer :: "Decision \<Rightarrow> Layer \<Rightarrow> Decision" where
  "atLayer d layer = d\<lparr>dc_Layer := layer\<rparr>"

definition approvalRequired :: "Layer \<Rightarrow> Decision" where
  "approvalRequired layer = decision ActionAsk ''approval_required'' (ReasonText ''approval is required'') layer"

definition firstLayer :: "Layer \<Rightarrow> Layer \<Rightarrow> Layer" where
  "firstLayer current new = (if current \<noteq> LayerNone then current else new)"

definition ruleCode :: "Rule \<Rightarrow> string \<Rightarrow> string" where
  "ruleCode rule fallback = (if ru_Code rule \<noteq> [] then ru_Code rule else fallback)"

section \<open>Posture, planning and surfaces\<close>

definition validateMode :: "Mode \<Rightarrow> Decision option" where
  "validateMode m = (if m \<noteq> ModeAct then Some (deny ''mode_unknown'' ''only act mode is supported'') else None)"

definition permissionDecision :: "Permission \<Rightarrow> Capability \<Rightarrow> SecurityEffect \<Rightarrow> Decision + Action" where
  "permissionDecision p cap eff =
     (if p \<noteq> PermissionSuggest \<and> p \<noteq> PermissionAuto \<and> p \<noteq> PermissionBypass \<and> p \<noteq> PermissionNever then
        Inl (deny ''permission_unknown'' ''unknown permission is denied'')
      else if p = PermissionNever then
        (if cap = CapabilityRead \<or> ef_Kind eff = ProcessReadOnly then Inr ActionAllow
         else Inl (deny ''permission_denied'' ''never posture denies side effects''))
      else if ef_Risk eff = RiskCritical then Inl (deny ''permission_denied'' ''critical-risk execution is denied'')
      else if p = PermissionBypass \<or> cap = CapabilityRead \<or> ef_Risk eff = RiskLow then Inr ActionAllow
      else Inr ActionAsk)"

definition consequentialPlanningEffect :: "SecurityEffectKind \<Rightarrow> bool" where
  "consequentialPlanningEffect k \<longleftrightarrow>
     \<not> (k = WorkspaceRead \<or> k = ProcessReadOnly \<or> k = SessionMutation \<or> k = AgentMessage)"

definition adaptivePlanningRequired :: "Assessment \<Rightarrow> bool" where
  "adaptivePlanningRequired a =
     (if fa_ReadOnlyDeclared (as_facets a) then False
      else let e = as_effect a in
        ef_Risk e = RiskHigh \<or> ef_Risk e = RiskCritical \<or> ef_Kind e = NetworkMutating \<or>
        ef_Kind e = ExternalMutation \<or> ef_Kind e = AgentLifecycle \<or> ef_Reversibility e = Irreversible)"

definition planningDecision :: "Runtime \<Rightarrow> Assessment \<Rightarrow> Decision option" where
  "planningDecision r a =
     (let f = as_facets a in
      if fa_PlanningExempt f \<or> \<not> consequentialPlanningEffect (ef_Kind (as_effect a)) then None
      else if rt_PlanningPolicy r \<noteq> PlanningOff \<and> rt_PlanningPolicy r \<noteq> PlanningAdaptive \<and>
          rt_PlanningPolicy r \<noteq> PlanningRequired then
        Some (decision ActionDeny ''planning_policy_invalid'' (ReasonText ''unknown planning policy is denied'') LayerNone)
      else if rt_PlanningPolicy r = PlanningOff then None
      else if fa_HostExecution f then None
      else if rt_Permission r = PermissionBypass \<and> fa_FullAccess f then None
      else let required = (rt_PlanningPolicy r = PlanningRequired \<or>
                (rt_PlanningPolicy r = PlanningAdaptive \<and> adaptivePlanningRequired a)) in
        if \<not> required \<and> \<not> rt_PlanSubmitted r then None
        else if \<not> rt_PlanSubmitted r then
          Some (decision ActionHold ''plan_required''
            (ReasonText ''submit a structured Plan before consequential actions'') LayerNone)
        else None)"

definition ClassifySurface :: "SourceKind \<Rightarrow> Capability \<Rightarrow> Surface" where
  "ClassifySurface source cap =
     (if source = SourceMCP then SurfaceMCP
      else if source = SourceSkill then SurfaceSkills
      else if cap = CapabilityProcess then SurfaceSandbox
      else SurfaceRules)"

fun postureFor :: "Granular \<Rightarrow> Surface \<Rightarrow> SurfacePosture" where
  "postureFor g SurfaceSandbox = gn_Sandbox g"
| "postureFor g SurfaceRules = gn_Rules g"
| "postureFor g SurfaceSkills = gn_Skills g"
| "postureFor g SurfaceMCP = gn_MCP g"

fun surfaceName :: "Surface \<Rightarrow> string" where
  "surfaceName SurfaceSandbox = ''sandbox''"
| "surfaceName SurfaceRules = ''rules''"
| "surfaceName SurfaceSkills = ''skills''"
| "surfaceName SurfaceMCP = ''mcp''"

definition ApplySurfaceTightening :: "Decision \<Rightarrow> Surface \<Rightarrow> Granular \<Rightarrow> SecurityEffect \<Rightarrow> Decision" where
  "ApplySurfaceTightening d surface g eff =
     (let posture = postureFor g surface in
      if posture = SurfaceInherit \<or> posture = SurfaceAllow \<or> dc_Action d = ActionDeny \<or> dc_Action d = ActionHold then d
      else if posture = SurfaceAsk \<and> dc_Action d = ActionAllow then
        (if ef_Kind eff = ProcessReadOnly \<and> ef_Risk eff = RiskLow then d
         else decision ActionAsk ''granular_ask''
           (ReasonText (''surface '' @ surfaceName surface @ '' requires approval'')) LayerNone)
      else if posture = SurfaceDeny then
        decision ActionDeny ''granular_deny'' (ReasonText (''surface '' @ surfaceName surface @ '' denies'')) LayerNone
      else d)"

section \<open>Layers before the rules\<close>

definition pathWrite :: "Resource \<Rightarrow> bool" where
  "pathWrite r \<longleftrightarrow> rs_Class r = ClassPath \<and> Resource_Writes r \<and> rs_Path r \<noteq> []"

definition writesPaths :: "Resource list \<Rightarrow> bool" where
  "writesPaths rs = list_ex pathWrite rs"

definition canonicalRoot :: "string \<Rightarrow> bool" where
  "canonicalRoot root \<longleftrightarrow> IsAbs root \<and> Clean root = root"

definition inputLayer :: "Invocation \<Rightarrow> Decision option" where
  "inputLayer i = map_option (\<lambda>d. atLayer d LayerInput) (first_error
     [fail_if (iv_CallID i = [] \<or> iv_Tool i = []) (deny ''policy_invalid_invocation'' ''call id and tool are required''),
      fail_if (\<not> iv_Validated i)
        (deny ''policy_unvalidated_invocation'' ''schema and resources must be validated before policy''),
      fail_if (\<not> Assessment_Valid (iv_Assessment i))
        (deny ''policy_unassessed_invocation'' ''resolved resource assessment is required''),
      fail_if (\<not> SourceKind_Valid (iv_Source i))
        (deny ''policy_invalid_invocation'' ''known trusted invocation source is required''),
      fail_if (iv_Capability i = CapabilityNone) (deny ''policy_unknown_capability'' ''descriptor capability is required''),
      fail_if (iv_Stage i \<noteq> StageCall \<and> iv_Stage i \<noteq> StageEgress)
        (deny ''policy_invalid_invocation'' ''unknown decision stage''),
      fail_if (iv_Approval i \<noteq> ApprovalUnset \<and> iv_Approval i \<noteq> ApprovalDefault \<and> iv_Approval i \<noteq> ApprovalOnceRequired)
        (deny ''policy_invalid_invocation'' ''unknown binding approval policy''),
      fail_if (writesPaths (iv_Resources i) \<and> \<not> canonicalRoot (iv_Workspace i))
        (deny ''policy_invalid_invocation'' ''path writes require the canonical workspace root'')])"

fun firstProtected :: "string \<Rightarrow> Resource list \<Rightarrow> (string \<times> ControlPlaneError) option" where
  "firstProtected workspace [] = None"
| "firstProtected workspace (r # rs) =
     (if \<not> pathWrite r then firstProtected workspace rs
      else case CheckWrite workspace (rs_Path r) (rs_Tree r) of
        None \<Rightarrow> firstProtected workspace rs
      | Some e \<Rightarrow> Some (if IsAbs (rs_Path r) then rs_Path r else Join [workspace, rs_Path r], e))"

definition controlPlaneLayer :: "Invocation \<Rightarrow> Decision option" where
  "controlPlaneLayer i =
     (if \<not> writesPaths (iv_Resources i) then None
      else case ControlPlaneWithin (iv_Workspace i) of
        Inl e \<Rightarrow> Some (decision ActionDeny ''policy_invalid_invocation'' (ReasonControlPlane e) LayerInput)
      | Inr workspace \<Rightarrow>
          (case firstProtected workspace (iv_Resources i) of
             None \<Rightarrow> None
           | Some (loc, e) \<Rightarrow>
               Some ((decision ActionDeny ''control_plane_protected'' (ReasonControlPlane e) LayerHard)
                 \<lparr>dc_Resource := loc\<rparr>)))"

section \<open>Rule layers\<close>

record RuleVerdict =
  vd_askLayer :: Layer
  vd_managedAsk :: bool
  vd_repositoryAsk :: bool
  vd_userAllow :: bool

definition managedLayer :: "PolicyEnv \<Rightarrow> Runtime \<Rightarrow> Invocation \<Rightarrow> Decision + RuleVerdict" where
  "managedLayer env r i =
     (case strongestMatch env (rt_Grants r) i of
        None \<Rightarrow> Inl (atLayer (deny ''tool_grant_missing'' ''no matching managed tool grant'') LayerHard)
      | Some g \<Rightarrow>
          if ru_Action g = ActionDeny \<or> ru_Action g = ActionHold then
            Inl (atLayer (deny ''tool_grant_denied'' ''managed tool grant denied this invocation'') LayerHard)
          else Inr \<lparr>vd_askLayer = (if ru_Action g = ActionAsk then LayerHard else LayerNone),
                    vd_managedAsk = (ru_Action g = ActionAsk), vd_repositoryAsk = False, vd_userAllow = False\<rparr>)"

definition repositoryLayer :: "PolicyEnv \<Rightarrow> Runtime \<Rightarrow> Invocation \<Rightarrow> RuleVerdict \<Rightarrow> Decision + RuleVerdict" where
  "repositoryLayer env r i v =
     (case strongestMatch env (rt_Repository r) i of
        None \<Rightarrow> Inr v
      | Some rule \<Rightarrow>
          (case ru_Action rule of
             ActionDeny \<Rightarrow> Inl (atLayer (deny ''repository_rule_denied'' ''repository deny rule matched'') LayerRepository)
           | ActionHold \<Rightarrow>
               Inl (atLayer (deny (ruleCode rule ''repository_hold'') ''repository mechanical hold matched'') LayerRepository)
           | ActionAsk \<Rightarrow>
               Inr (v\<lparr>vd_repositoryAsk := True, vd_askLayer := firstLayer (vd_askLayer v) LayerRepository\<rparr>)
           | ActionAllow \<Rightarrow>
               Inl (atLayer (deny ''repository_source_invalid'' ''repository authority cannot allow'') LayerRepository)
           | ActionOther _ \<Rightarrow> Inr v))"

definition userLayer :: "PolicyEnv \<Rightarrow> Runtime \<Rightarrow> Invocation \<Rightarrow> RuleVerdict \<Rightarrow> Decision + RuleVerdict" where
  "userLayer env r i v =
     (case strongestMatch env (rt_User r) i of
        None \<Rightarrow> Inr v
      | Some rule \<Rightarrow>
          (case ru_Action rule of
             ActionDeny \<Rightarrow> Inl (atLayer (deny ''user_rule_denied'' ''user authority denied this invocation'') LayerUser)
           | ActionHold \<Rightarrow> Inl (atLayer (deny ''user_rule_denied'' ''user authority denied this invocation'') LayerUser)
           | ActionAsk \<Rightarrow> Inr (v\<lparr>vd_askLayer := firstLayer (vd_askLayer v) LayerUser\<rparr>)
           | ActionAllow \<Rightarrow> Inr (v\<lparr>vd_userAllow := True\<rparr>)
           | ActionOther _ \<Rightarrow> Inr v))"

definition hardLayers :: "PolicyEnv \<Rightarrow> Runtime \<Rightarrow> Invocation \<Rightarrow> Decision option" where
  "hardLayers env r i = first_error
     [inputLayer i,
      fail_if (fa_HostExecution (iv_Facets i) \<and> (rt_DisableHostExecution r \<or> rt_Permission r = PermissionNever))
        (atLayer (deny ''host_execution_forbidden''
          ''host execution is unavailable in Read only mode and delegated runtimes'') LayerHard),
      controlPlaneLayer i,
      map_option (\<lambda>rule. atLayer (deny (ruleCode rule ''constitution_denied'') ''constitution rule matched'') LayerHard)
        (strongestMatch env (rt_Constitution r) i)]"

definition ruleLayers :: "PolicyEnv \<Rightarrow> Runtime \<Rightarrow> Invocation \<Rightarrow> Decision + RuleVerdict" where
  "ruleLayers env r i =
     bindR (managedLayer env r i) (\<lambda>v. bindR (repositoryLayer env r i v) (\<lambda>v. userLayer env r i v))"

section \<open>Binding and automatic review\<close>

definition bindingLayer :: "Runtime \<Rightarrow> Invocation \<Rightarrow> Decision \<Rightarrow> Decision" where
  "bindingLayer r i d =
     (if iv_Stage i = StageEgress \<or> dc_Action d = ActionDeny \<or> dc_Action d = ActionHold then d
      else let host = fa_HostExecution (iv_Facets i) in
        if (iv_Approval i = ApprovalOnceRequired \<or> host) \<and> (rt_Permission r \<noteq> PermissionBypass \<or> dc_Action d = ActionAsk) then
          (let d = (if dc_Action d \<noteq> ActionAsk \<or> dc_Layer d = LayerPosture then
                      (if host then decision ActionAsk ''host_execution_approval_required''
                         (ReasonText ''approve this command to run with your OS account's file and network access, without QCode's sandbox'')
                         LayerBinding
                       else decision ActionAsk ''tool_approval_required''
                         (ReasonText (''tool '' @ iv_Tool i @ '' requires one-time user approval'')) LayerBinding)
                    else d) in d\<lparr>dc_Approval := ApprovalFreshOnce\<rparr>)
        else if \<not> rt_ForceEditPlanApproval r then d
        else if iv_Journaled i \<and> dc_Action d = ActionAllow then
          (decision ActionAsk ''edit_plan_required'' (ReasonText ''workspace writes require a fresh edit plan approval'')
            LayerBinding)\<lparr>dc_Approval := ApprovalFresh\<rparr>
        else if dc_Action d = ActionAsk then d\<lparr>dc_Approval := ApprovalFresh\<rparr>
        else d)"

record autoReviewInput =
  ar_runtime :: Runtime
  ar_invocation :: Invocation
  ar_permission :: Action
  ar_repositoryAsk :: bool
  ar_managedAsk :: bool

definition autoReviewConditions :: "PolicyEnv \<Rightarrow> (string \<times> (autoReviewInput \<Rightarrow> bool)) list" where
  "autoReviewConditions env =
    [(''auto_review_enabled'', \<lambda>a. \<not> rt_DisableAutoReview (ar_runtime a)),
     (''posture_requested_approval'', \<lambda>a. ar_permission a = ActionAsk \<and> \<not> ar_repositoryAsk a \<and> \<not> ar_managedAsk a),
     (''medium_risk'', \<lambda>a. ef_Risk (iv_Effect (ar_invocation a)) = RiskMedium),
     (''bounded_effect'', \<lambda>a. ef_Kind (iv_Effect (ar_invocation a)) = AgentLifecycle \<or>
        ef_Kind (iv_Effect (ar_invocation a)) = NetworkRead),
     (''network_read_under_auto'', \<lambda>a. ef_Kind (iv_Effect (ar_invocation a)) \<noteq> NetworkRead \<or>
        rt_Permission (ar_runtime a) = PermissionAuto),
     (''public_network_target'', \<lambda>a. ef_Kind (iv_Effect (ar_invocation a)) \<noteq> NetworkRead \<or>
        (\<not> fa_HostLocalTarget (iv_Facets (ar_invocation a)) \<and> \<not> fa_LoopbackReach (iv_Facets (ar_invocation a)))),
     (''reusable_binding_approval'', \<lambda>a. iv_Stage (ar_invocation a) = StageEgress \<or>
        (iv_Approval (ar_invocation a) \<noteq> ApprovalOnceRequired \<and>
         \<not> (rt_ForceEditPlanApproval (ar_runtime a) \<and> iv_Journaled (ar_invocation a)))),
     (''exact_typed_grant'', \<lambda>a. GrantForInvocation env (ar_invocation a) \<noteq> None)]"

definition autoReviewEligible :: "PolicyEnv \<Rightarrow> autoReviewInput \<Rightarrow> bool" where
  "autoReviewEligible env a = list_all (\<lambda>c. snd c a) (autoReviewConditions env)"

definition AutoReviewConditions :: "PolicyEnv \<Rightarrow> string list" where
  "AutoReviewConditions env = map fst (autoReviewConditions env)"

definition plainAllow :: Decision where
  "plainAllow = decision ActionAllow [] (ReasonText []) LayerNone"

definition guardianFacts :: "Invocation \<Rightarrow> CandidateFacts" where
  "guardianFacts i =
     (let f = iv_Facets i; e = iv_Effect i in
      \<lparr>cf_BuiltinBinding = True, cf_RegisteredForReview = True, cf_EffectRule = as_rule (iv_Assessment i),
       cf_PermissionExpansion = False, cf_ProtectedPaths = False, cf_ControlPlaneWrite = False,
       cf_Capability = iv_Capability i, cf_Stage = ''call'', cf_SandboxRequired = fa_StrongSandbox f,
       cf_HostExecution = fa_HostExecution f,
       cf_NetworkAccess = (fa_Network f \<or> fa_LoopbackReach f \<or> fa_HostLocalTarget f), cf_MCPOrSkill = False,
       cf_EffectRisk = ef_Risk e, cf_EffectKind = ef_Kind e, cf_EffectReversibility = ef_Reversibility e,
       cf_EvidenceComplete = True\<rparr>)"

definition guardianEligible :: "Runtime \<Rightarrow> Invocation \<Rightarrow> Decision \<Rightarrow> bool" where
  "guardianEligible r i d =
     (if \<not> iv_GuardianRegistered i \<or> iv_Source i \<noteq> SourceBuiltin \<or> iv_Stage i \<noteq> StageCall \<or>
         rt_Permission r \<noteq> PermissionAuto \<or> rt_DisableAutoReview r \<or> dc_Action d \<noteq> ActionAsk \<or>
         dc_Layer d \<noteq> LayerPosture \<or> dc_Approval d \<noteq> ApprovalReusable then False
      else if dc_Action (ApplySurfaceTightening plainAllow (ClassifySurface (iv_Source i) (iv_Capability i))
          (rt_Granular r) (iv_Effect i)) \<noteq> ActionAllow then False
      else CheckEligibility (guardianFacts i) = None)"

definition guardianBound :: "PolicyEnv \<Rightarrow> Runtime \<Rightarrow> Invocation \<Rightarrow> ReviewCandidate \<Rightarrow> bool" where
  "guardianBound env r i c \<longleftrightarrow>
     id_CallID (rc_Identity c) = iv_CallID i \<and> bi_Tool (rc_Binding c) = iv_Tool i \<and>
     bi_ArgumentsDigest (rc_Binding c) = pe_sha256 env (iv_Arguments i) \<and>
     es_AssessmentID (rc_Execution c) = pe_digest env (iv_Effect i) (iv_Facets i) \<and>
     es_ResourcesDigest (rc_Execution c) = pe_sha256 env (pe_resourcesJSON env (iv_Resources i)) \<and>
     rv_PolicyRevision (rc_Versions c) = rt_Revision r \<and>
     rv_Permission (rc_Versions c) = permissionName (rt_Permission r)"

definition guardianContext :: "GuardianInput \<Rightarrow> Decision \<Rightarrow> PolicyContext" where
  "guardianContext g d =
     \<lparr>pc_Candidate = Some (gi_Candidate g), pc_GuardianEnabled = gi_Enabled g, pc_CurrentAction = actionName (dc_Action d),
      pc_HasExplicitAsk = False, pc_HasFreshRequirement = False, pc_PermissionAuto = True,
      pc_DisableAutoReview = False\<rparr>"

definition applyGuardian :: "PolicyEnv \<Rightarrow> Runtime \<Rightarrow> Invocation \<Rightarrow> Decision \<Rightarrow> Decision" where
  "applyGuardian env r i d =
     (let eligible = guardianEligible r i d; d = d\<lparr>dc_GuardianEligible := eligible\<rparr> in
      case iv_Guardian i of
        None \<Rightarrow> d
      | Some g \<Rightarrow>
          if \<not> eligible \<or> \<not> guardianBound env r i (gi_Candidate g) then d
          else if Evaluate (pe_candidateDigest env) (gi_Evidence g) noInvalidation (guardianContext g d) = OutcomeAllow then
            decision ActionAllow ''guardian_allowed''
              (ReasonText ''bounded operation has current Guardian evidence'') LayerAutoReview
          else d)"

section \<open>The decision\<close>

definition postureDecision :: "RuleVerdict \<Rightarrow> Action \<Rightarrow> Decision" where
  "postureDecision v permission =
     (if vd_askLayer v \<noteq> LayerNone then approvalRequired (vd_askLayer v)
      else if permission = ActionAsk \<and> vd_userAllow v then plainAllow\<lparr>dc_Layer := LayerUser\<rparr>
      else if permission = ActionAsk then approvalRequired LayerPosture
      else plainAllow\<lparr>dc_Layer := LayerPosture\<rparr>)"

definition surfaceDecision :: "Runtime \<Rightarrow> Invocation \<Rightarrow> bool \<Rightarrow> Decision \<Rightarrow> Decision" where
  "surfaceDecision r i eligible d =
     (let surface = ClassifySurface (iv_Source i) (iv_Capability i);
          tightened = ApplySurfaceTightening d surface (rt_Granular r) (iv_Effect i);
          hypothetical = ApplySurfaceTightening plainAllow surface (rt_Granular r) (iv_Effect i) in
      if tightened \<noteq> d then atLayer tightened LayerSurface
      else if eligible \<and> dc_Action hypothetical \<noteq> ActionAllow then atLayer hypothetical LayerSurface
      else d)"

definition autoReviewDecision :: "bool \<Rightarrow> Decision \<Rightarrow> Decision" where
  "autoReviewDecision eligible d =
     (if eligible \<and> dc_Action d = ActionAsk \<and> dc_Layer d = LayerPosture \<and> dc_Approval d = ApprovalReusable then
        decision ActionAllow ''auto_review_allowed''
          (ReasonText ''bounded medium-risk effect has an exact typed grant'') LayerAutoReview
      else d)"

definition reviewInput :: "Runtime \<Rightarrow> Invocation \<Rightarrow> RuleVerdict \<Rightarrow> Action \<Rightarrow> autoReviewInput" where
  "reviewInput r i v permission =
     \<lparr>ar_runtime = r, ar_invocation = i, ar_permission = permission, ar_repositoryAsk = vd_repositoryAsk v,
      ar_managedAsk = vd_managedAsk v\<rparr>"

definition afterRules :: "PolicyEnv \<Rightarrow> Runtime \<Rightarrow> Invocation \<Rightarrow> RuleVerdict \<Rightarrow> Decision" where
  "afterRules env r i v =
     (case validateMode (rt_Mode r) of
        Some d \<Rightarrow> atLayer d LayerMode
      | None \<Rightarrow>
          (case planningDecision r (iv_Assessment i) of
             Some d \<Rightarrow> if dc_Action d \<noteq> ActionAsk then atLayer d LayerMode
                       else bindingLayer r i (atLayer d LayerMode)
           | None \<Rightarrow>
               (case permissionDecision (rt_Permission r) (iv_Capability i) (iv_Effect i) of
                  Inl d \<Rightarrow> atLayer d LayerPosture
                | Inr permission \<Rightarrow>
                    let eligible = autoReviewEligible env (reviewInput r i v permission) in
                    applyGuardian env r i (autoReviewDecision eligible (bindingLayer r i
                      (surfaceDecision r i eligible (postureDecision v permission)))))))"

definition decide :: "PolicyEnv \<Rightarrow> Runtime \<Rightarrow> Invocation \<Rightarrow> Decision" where
  "decide env r i =
     (case hardLayers env r i of
        Some d \<Rightarrow> d
      | None \<Rightarrow>
          (case ruleLayers env r i of
             Inl d \<Rightarrow> d
           | Inr v \<Rightarrow> afterRules env r i v))"

end
