(* ===== verification/Policy_Safety.thy ===== *)
theory Policy_Safety
  imports Policy_Decide
begin

text \<open>
  Safety of the policy decision: what an allowed invocation has passed, and that adding restrictive
  rules to any authority never weakens a decision.
\<close>

section \<open>Shapes of the layers\<close>

lemma decision_fields [simp]:
  "dc_Action (decision a c t l) = a" "dc_Layer (decision a c t l) = l" "dc_Approval (decision a c t l) = ApprovalReusable"
  by (simp_all add: decision_def)

lemma deny_fields [simp]: "dc_Action (deny c t) = ActionDeny" "dc_Layer (deny c t) = LayerNone"
  by (simp_all add: deny_def)

lemma atLayer_fields [simp]:
  "dc_Action (atLayer d l) = dc_Action d" "dc_Layer (atLayer d l) = l" "dc_Approval (atLayer d l) = dc_Approval d"
  by (simp_all add: atLayer_def)

lemma plainAllow_fields [simp]: "dc_Action plainAllow = ActionAllow" "dc_Approval plainAllow = ApprovalReusable"
  by (simp_all add: plainAllow_def)

lemma approvalRequired_fields [simp]:
  "dc_Action (approvalRequired l) = ActionAsk" "dc_Layer (approvalRequired l) = l"
  "dc_Approval (approvalRequired l) = ApprovalReusable"
  by (simp_all add: approvalRequired_def)

lemma first_error_Some: "first_error xs = Some e \<Longrightarrow> Some e \<in> set xs"
  by (induction xs rule: first_error.induct) auto

lemma inputLayer_denies: "inputLayer i = Some d \<Longrightarrow> dc_Action d = ActionDeny"
  by (auto simp: inputLayer_def fail_if_def split: if_splits dest!: first_error_Some)

lemma controlPlaneLayer_denies: "controlPlaneLayer i = Some d \<Longrightarrow> dc_Action d = ActionDeny"
  by (auto simp: controlPlaneLayer_def split: if_splits sum.splits option.splits)

lemma hardLayers_denies:
  assumes "hardLayers env r i = Some d"
  shows "dc_Action d = ActionDeny"
proof -
  from first_error_Some [OF assms [unfolded hardLayers_def]]
  consider "inputLayer i = Some d" | "controlPlaneLayer i = Some d" | "dc_Action d = ActionDeny"
    by (auto simp: fail_if_def eq_commute [of "Some d"] split: if_splits)
  then show ?thesis by cases (simp_all add: inputLayer_denies controlPlaneLayer_denies)
qed

lemma ruleLayers_denies: "ruleLayers env r i = Inl d \<Longrightarrow> dc_Action d = ActionDeny"
  by (auto simp: ruleLayers_def bindR_def managedLayer_def repositoryLayer_def userLayer_def
      split: sum.splits option.splits if_splits Action.splits)

lemma permissionDecision_Inl: "permissionDecision p c e = Inl d \<Longrightarrow> dc_Action d = ActionDeny"
  by (auto simp: permissionDecision_def split: if_splits)

lemma permissionDecision_Inr: "permissionDecision p c e = Inr a \<Longrightarrow> a = ActionAllow \<or> a = ActionAsk"
  by (auto simp: permissionDecision_def split: if_splits)

lemma validateMode_denies: "validateMode m = Some d \<Longrightarrow> dc_Action d = ActionDeny"
  by (auto simp: validateMode_def split: if_splits)

lemma planningDecision_stops:
  "planningDecision r a = Some d \<Longrightarrow> dc_Action d = ActionDeny \<or> dc_Action d = ActionHold"
  by (auto simp: planningDecision_def Let_def split: if_splits)

lemma planning_never_asks: "planningDecision r a = Some d \<Longrightarrow> dc_Action d \<noteq> ActionAsk"
  by (auto dest: planningDecision_stops)

section \<open>The end of the pipeline\<close>

definition surfacePosture :: "Runtime \<Rightarrow> Invocation \<Rightarrow> SurfacePosture" where
  "surfacePosture r i = postureFor (rt_Granular r) (ClassifySurface (iv_Source i) (iv_Capability i))"

lemma tighten_deny:
  assumes "postureFor g s = SurfaceDeny" "dc_Action d = ActionAllow \<or> dc_Action d = ActionAsk"
  shows "dc_Action (ApplySurfaceTightening d s g e) = ActionDeny" "ApplySurfaceTightening d s g e \<noteq> d"
  using assms by (auto simp: ApplySurfaceTightening_def Let_def dest: arg_cong [where f = dc_Action])

lemma tighten_ask:
  assumes "postureFor g s \<noteq> SurfaceDeny" "dc_Action d = ActionAsk"
  shows "ApplySurfaceTightening d s g e = d"
  using assms by (auto simp: ApplySurfaceTightening_def Let_def)

lemma tighten_allow:
  assumes "postureFor g s \<noteq> SurfaceDeny" "dc_Action d = ActionAllow"
  shows "ApplySurfaceTightening d s g e = d \<or> dc_Action (ApplySurfaceTightening d s g e) = ActionAsk"
  using assms by (auto simp: ApplySurfaceTightening_def Let_def)

definition finish :: "PolicyEnv \<Rightarrow> Runtime \<Rightarrow> Invocation \<Rightarrow> bool \<Rightarrow> Decision \<Rightarrow> Decision" where
  "finish env r i eligible d =
     applyGuardian env r i (autoReviewDecision eligible (bindingLayer r i (surfaceDecision r i eligible d)))"

lemma surfaceDecision_deny:
  assumes "surfacePosture r i = SurfaceDeny" "dc_Action d = ActionAllow \<or> dc_Action d = ActionAsk"
  shows "dc_Action (surfaceDecision r i eligible d) = ActionDeny"
  using tighten_deny [OF assms [unfolded surfacePosture_def]] by (simp add: surfaceDecision_def Let_def)

lemma surfaceDecision_keeps:
  assumes "surfacePosture r i \<noteq> SurfaceDeny" "dc_Action d = ActionAllow \<or> dc_Action d = ActionAsk"
  shows "surfaceDecision r i eligible d = d \<or>
    dc_Action (surfaceDecision r i eligible d) = ActionAsk \<and> dc_Layer (surfaceDecision r i eligible d) = LayerSurface"
proof -
  define s where "s = ClassifySurface (iv_Source i) (iv_Capability i)"
  have p: "postureFor (rt_Granular r) s \<noteq> SurfaceDeny" using assms(1) by (simp add: surfacePosture_def s_def)
  have "ApplySurfaceTightening d s (rt_Granular r) (iv_Effect i) = d \<or>
      dc_Action (ApplySurfaceTightening d s (rt_Granular r) (iv_Effect i)) = ActionAsk"
    using assms(2) tighten_allow [OF p] tighten_ask [OF p] by blast
  moreover have "ApplySurfaceTightening plainAllow s (rt_Granular r) (iv_Effect i) = plainAllow \<or>
      dc_Action (ApplySurfaceTightening plainAllow s (rt_Granular r) (iv_Effect i)) = ActionAsk"
    using tighten_allow [OF p, of plainAllow] by simp
  ultimately show ?thesis
    by (auto simp: surfaceDecision_def Let_def s_def [symmetric])
qed

lemma bindingLayer_deny: "dc_Action d = ActionDeny \<Longrightarrow> bindingLayer r i d = d"
  by (simp add: bindingLayer_def)

lemma bindingLayer_ask:
  assumes "dc_Action d = ActionAsk" "dc_Layer d \<noteq> LayerPosture"
  shows "dc_Action (bindingLayer r i d) = ActionAsk \<and> dc_Layer (bindingLayer r i d) \<noteq> LayerPosture"
  using assms by (simp add: bindingLayer_def Let_def)

lemma bindingLayer_open:
  assumes "dc_Action d = ActionAllow \<or> dc_Action d = ActionAsk"
  shows "dc_Action (bindingLayer r i d) = ActionAllow \<or> dc_Action (bindingLayer r i d) = ActionAsk"
  using assms by (auto simp: bindingLayer_def Let_def)

lemma guardianEligible_posture: "guardianEligible r i d \<Longrightarrow> dc_Action d = ActionAsk \<and> dc_Layer d = LayerPosture"
  by (simp add: guardianEligible_def split: if_splits)

lemma applyGuardian_same:
  "dc_Action d \<noteq> ActionAsk \<or> dc_Layer d \<noteq> LayerPosture \<Longrightarrow> dc_Action (applyGuardian env r i d) = dc_Action d"
  using guardianEligible_posture [of r i d] by (auto simp: applyGuardian_def Let_def split: option.split)

lemma applyGuardian_open:
  assumes "dc_Action d = ActionAllow \<or> dc_Action d = ActionAsk"
  shows "dc_Action (applyGuardian env r i d) = ActionAllow \<or> dc_Action (applyGuardian env r i d) = ActionAsk"
  using assms by (auto simp: applyGuardian_def Let_def split: option.split)

lemma finish_deny:
  assumes "surfacePosture r i = SurfaceDeny" "dc_Action d = ActionAllow \<or> dc_Action d = ActionAsk"
  shows "dc_Action (finish env r i eligible d) = ActionDeny"
proof -
  have "dc_Action (surfaceDecision r i eligible d) = ActionDeny" by (rule surfaceDecision_deny [OF assms])
  then show ?thesis
    by (simp add: finish_def bindingLayer_deny autoReviewDecision_def applyGuardian_same)
qed

lemma finish_open:
  assumes "surfacePosture r i \<noteq> SurfaceDeny" "dc_Action d = ActionAllow \<or> dc_Action d = ActionAsk"
  shows "dc_Action (finish env r i eligible d) = ActionAllow \<or> dc_Action (finish env r i eligible d) = ActionAsk"
proof -
  define s where "s = surfaceDecision r i eligible d"
  have "dc_Action s = ActionAllow \<or> dc_Action s = ActionAsk"
    using surfaceDecision_keeps [OF assms, of eligible] assms(2) by (auto simp: s_def)
  note b = bindingLayer_open [OF this, of r i]
  have "dc_Action (autoReviewDecision eligible (bindingLayer r i s)) = ActionAllow \<or>
      dc_Action (autoReviewDecision eligible (bindingLayer r i s)) = ActionAsk"
    using b by (simp add: autoReviewDecision_def)
  from applyGuardian_open [OF this] show ?thesis by (simp add: finish_def s_def)
qed

text \<open>An ask that is not the default ask of the posture stays an ask.\<close>

lemma finish_explicit_ask:
  assumes "surfacePosture r i \<noteq> SurfaceDeny" "dc_Action d = ActionAsk" "dc_Layer d \<noteq> LayerPosture"
  shows "dc_Action (finish env r i eligible d) = ActionAsk"
proof -
  define s where "s = surfaceDecision r i eligible d"
  have "dc_Action s = ActionAsk \<and> dc_Layer s \<noteq> LayerPosture"
    using surfaceDecision_keeps [of r i d eligible] assms by (auto simp: s_def)
  then have "dc_Action (bindingLayer r i s) = ActionAsk \<and> dc_Layer (bindingLayer r i s) \<noteq> LayerPosture"
    using bindingLayer_ask by blast
  then show ?thesis
    by (simp add: finish_def s_def [symmetric] autoReviewDecision_def applyGuardian_same)
qed

text \<open>An allow at the end is an allow before it, an automatic review or a review by the guardian.\<close>

definition guardianAllows :: "PolicyEnv \<Rightarrow> Runtime \<Rightarrow> Invocation \<Rightarrow> bool" where
  "guardianAllows env r i \<longleftrightarrow>
     rt_Permission r = PermissionAuto \<and> iv_Source i = SourceBuiltin \<and> \<not> fa_HostExecution (iv_Facets i) \<and>
     (\<exists>g e. iv_Guardian i = Some g \<and> gi_Enabled g \<and> guardianBound env r i (gi_Candidate g) \<and>
        ReviewCandidate_Validate (gi_Candidate g) = None \<and> gi_Evidence g = Some e \<and>
        re_candidateDigest e = pe_candidateDigest env (gi_Candidate g) \<and>
        ra_Authorization (re_assessment e) = AuthSupported \<and> ra_Recommendation (re_assessment e) = RecommendAllow)"

lemma applyGuardian_allow:
  assumes "dc_Action (applyGuardian env r i d) = ActionAllow" "dc_Action d = ActionAsk"
  shows "guardianAllows env r i"
proof -
  define d' where "d' = d\<lparr>dc_GuardianEligible := guardianEligible r i d\<rparr>"
  have ask: "dc_Action d' = ActionAsk" using assms(2) by (simp add: d'_def)
  obtain g where g: "iv_Guardian i = Some g" "guardianEligible r i d" "guardianBound env r i (gi_Candidate g)"
    and ev: "Evaluate (pe_candidateDigest env) (gi_Evidence g) noInvalidation (guardianContext g d') = OutcomeAllow"
    using assms(1) ask unfolding applyGuardian_def Let_def d'_def [symmetric]
    by (auto split: option.splits if_splits)
  have e: "rt_Permission r = PermissionAuto" "iv_Source i = SourceBuiltin" "CheckEligibility (guardianFacts i) = None"
    using g(2) by (auto simp: guardianEligible_def split: if_splits)
  have "\<not> fa_HostExecution (iv_Facets i)"
    using e(3) by (auto simp: CheckEligibility_def guardianFacts_def Let_def)
  with e(1,2) g ev show ?thesis
    unfolding guardianAllows_def Evaluate_allow by (auto simp: guardianContext_def)
qed

lemma surfaceDecision_ask:
  "dc_Action d = ActionAsk \<Longrightarrow> dc_Action (surfaceDecision r i False d) \<noteq> ActionAllow"
  by (auto simp: surfaceDecision_def ApplySurfaceTightening_def Let_def)

lemma finish_allow:
  assumes "dc_Action (finish env r i eligible d) = ActionAllow" "dc_Action d = ActionAllow \<or> dc_Action d = ActionAsk"
  shows "surfacePosture r i \<noteq> SurfaceDeny \<and>
    (dc_Action d = ActionAllow \<or> dc_Layer d = LayerPosture \<and> (eligible \<or> guardianAllows env r i))"
proof -
  have surface: "surfacePosture r i \<noteq> SurfaceDeny" using finish_deny [OF _ assms(2), of r i] assms(1) by auto
  have "guardianAllows env r i" if d: "dc_Action d = ActionAsk" and "\<not> eligible"
  proof -
    define b where "b = bindingLayer r i (surfaceDecision r i False d)"
    have "dc_Action (surfaceDecision r i False d) = ActionAsk"
      using surfaceDecision_keeps [OF surface assms(2), of False] d by auto
    then have "dc_Action b = ActionAsk" by (simp add: b_def bindingLayer_def Let_def)
    moreover have "dc_Action (applyGuardian env r i b) = ActionAllow"
      using assms(1) \<open>\<not> eligible\<close> by (simp add: finish_def b_def autoReviewDecision_def)
    ultimately show ?thesis using applyGuardian_allow by blast
  qed
  moreover have "dc_Layer d = LayerPosture" if "dc_Action d = ActionAsk"
    using finish_explicit_ask [OF surface that] assms(1) by force
  ultimately show ?thesis using surface assms(2) by blast
qed

section \<open>Rules that only restrict\<close>

fun severity :: "Action \<Rightarrow> nat" where
  "severity ActionAllow = 0"
| "severity ActionAsk = 1"
| "severity _ = 2"

definition restrictive :: "Rule \<Rightarrow> bool" where
  "restrictive rule \<longleftrightarrow> ru_Action rule \<in> {ActionAsk, ActionDeny, ActionHold}"

definition blocking :: "Rule \<Rightarrow> bool" where
  "blocking rule \<longleftrightarrow> ru_Action rule \<in> {ActionDeny, ActionHold}"

text \<open>The strength of the strongest match; the rule layers depend on nothing else.\<close>

definition matchRank :: "PolicyEnv \<Rightarrow> Rule list \<Rightarrow> Invocation \<Rightarrow> nat option" where
  "matchRank env rules i = map_option (\<lambda>r. actionPriority (ru_Action r)) (strongestMatch env rules i)"

lemma priority_restrictive: "restrictive rule \<longleftrightarrow> 2 \<le> actionPriority (ru_Action rule)"
  by (cases "ru_Action rule") (simp_all add: restrictive_def)

lemma priority_blocking: "blocking rule \<longleftrightarrow> 3 \<le> actionPriority (ru_Action rule)"
  by (cases "ru_Action rule") (simp_all add: blocking_def)

lemma matchRank_mono:
  assumes "set rules \<subseteq> set rules'" "matchRank env rules i = Some k"
  shows "\<exists>k' \<ge> k. matchRank env rules' i = Some k'"
proof -
  obtain r where r: "strongestMatch env rules i = Some r" "k = actionPriority (ru_Action r)"
    using assms(2) by (auto simp: matchRank_def)
  from strongestMatch_mono [OF assms(1) r(1)] show ?thesis by (metis r(2) matchRank_def option.simps(9))
qed

lemma matchRank_same:
  assumes "set rules \<subseteq> set rules'" "\<forall>rule \<in> set rules' - set rules. p \<le> actionPriority (ru_Action rule)"
    "\<forall>k. matchRank env rules' i = Some k \<longrightarrow> k < p"
  shows "matchRank env rules i = matchRank env rules' i"
proof (cases "strongestMatch env rules' i")
  case None
  with assms(1) have "strongestMatch env rules i = None" unfolding strongestMatch_None by blast
  with None show ?thesis by (simp add: matchRank_def)
next
  case (Some x)
  then have "actionPriority (ru_Action x) < p" using assms(3) by (simp add: matchRank_def)
  with assms(2) strongestMatch_Some(1) [OF Some] have x: "x \<in> set rules" by (meson DiffI not_less)
  then obtain y where y: "strongestMatch env rules i = Some y"
    using strongestMatch_None [of env rules i] strongestMatch_Some(2) [OF Some]
    by (cases "strongestMatch env rules i") auto
  have "actionPriority (ru_Action x) \<le> actionPriority (ru_Action y)"
    by (rule strongestMatch_Some(3) [OF y x strongestMatch_Some(2) [OF Some]])
  moreover have "actionPriority (ru_Action y) \<le> actionPriority (ru_Action x)"
    using strongestMatch_Some(3) [OF Some _ strongestMatch_Some(2) [OF y]] strongestMatch_Some(1) [OF y] assms(1) by blast
  ultimately show ?thesis using Some y by (simp add: matchRank_def)
qed

definition managedVerdict :: "nat \<Rightarrow> RuleVerdict" where
  "managedVerdict k = \<lparr>vd_askLayer = (if k = 2 then LayerHard else LayerNone), vd_managedAsk = (k = 2),
     vd_repositoryAsk = False, vd_userAllow = False\<rparr>"

lemma managedLayer_rank:
  "managedLayer env r i = Inr v \<longleftrightarrow>
     (\<exists>k < 3. matchRank env (rt_Grants r) i = Some k \<and> v = managedVerdict k)"
  by (cases "strongestMatch env (rt_Grants r) i"; cases "ru_Action (the (strongestMatch env (rt_Grants r) i))")
    (auto simp: managedLayer_def matchRank_def managedVerdict_def)

lemma repositoryLayer_rank:
  "repositoryLayer env r i v = Inr w \<longleftrightarrow>
     (case matchRank env (rt_Repository r) i of
        None \<Rightarrow> w = v
      | Some k \<Rightarrow> k = 0 \<and> w = v \<or>
          k = 2 \<and> w = v\<lparr>vd_repositoryAsk := True, vd_askLayer := firstLayer (vd_askLayer v) LayerRepository\<rparr>)"
  by (cases "strongestMatch env (rt_Repository r) i"; cases "ru_Action (the (strongestMatch env (rt_Repository r) i))")
    (auto simp: repositoryLayer_def matchRank_def)

lemma userLayer_rank:
  "userLayer env r i v = Inr w \<longleftrightarrow>
     (case matchRank env (rt_User r) i of
        None \<Rightarrow> w = v
      | Some k \<Rightarrow> k = 0 \<and> w = v \<or> k = 1 \<and> w = v\<lparr>vd_userAllow := True\<rparr> \<or>
          k = 2 \<and> w = v\<lparr>vd_askLayer := firstLayer (vd_askLayer v) LayerUser\<rparr>)"
  by (cases "strongestMatch env (rt_User r) i"; cases "ru_Action (the (strongestMatch env (rt_User r) i))")
    (auto simp: userLayer_def matchRank_def)

text \<open>A verdict whose explicit ask comes from a rule layer.\<close>

definition explicitAsk :: "RuleVerdict \<Rightarrow> bool" where
  "explicitAsk v \<longleftrightarrow> vd_askLayer v \<in> {LayerHard, LayerRepository, LayerUser}"

lemma managedVerdict_ask: "vd_askLayer (managedVerdict k) = LayerNone \<or> explicitAsk (managedVerdict k)"
  by (simp add: managedVerdict_def explicitAsk_def)

lemma firstLayer_ask:
  assumes "vd_askLayer v = LayerNone \<or> explicitAsk v" "l \<in> {LayerRepository, LayerUser}"
  shows "firstLayer (vd_askLayer v) l \<in> {LayerHard, LayerRepository, LayerUser}"
  using assms by (auto simp: explicitAsk_def firstLayer_def)

lemma repositoryLayer_ask:
  assumes "repositoryLayer env r i v = Inr w" "vd_askLayer v = LayerNone \<or> explicitAsk v"
  shows "vd_askLayer w = LayerNone \<and> w = v \<or> explicitAsk w"
  using assms firstLayer_ask [OF assms(2), of LayerRepository]
  by (auto simp: repositoryLayer_rank explicitAsk_def split: option.splits)

lemma userLayer_ask:
  assumes "userLayer env r i v = Inr w" "vd_askLayer v = LayerNone \<or> explicitAsk v"
  shows "vd_askLayer w = LayerNone \<or> explicitAsk w" "explicitAsk v \<Longrightarrow> explicitAsk w"
  using assms firstLayer_ask [OF assms(2), of LayerUser]
  by (auto simp: userLayer_rank explicitAsk_def split: option.splits)

lemma ruleLayers_ask: "ruleLayers env r i = Inr w \<Longrightarrow> vd_askLayer w = LayerNone \<or> explicitAsk w"
  by (auto simp: ruleLayers_def managedLayer_rank bindR_Inr_iff dest!: repositoryLayer_ask [OF _ managedVerdict_ask]
      dest: userLayer_ask(1))

text \<open>The same runtime with other rule lists, and the lists that only add restrictions.\<close>

definition withRules :: "Runtime \<Rightarrow> Rule list \<Rightarrow> Rule list \<Rightarrow> Rule list \<Rightarrow> Rule list \<Rightarrow> Runtime" where
  "withRules r constitution grants repository user =
     r\<lparr>rt_Constitution := constitution, rt_Grants := grants, rt_Repository := repository, rt_User := user\<rparr>"

definition onlyRestricts :: "Runtime \<Rightarrow> Runtime \<Rightarrow> bool" where
  "onlyRestricts r r' \<longleftrightarrow>
     set (rt_Constitution r) \<subseteq> set (rt_Constitution r') \<and>
     set (rt_Grants r) \<subseteq> set (rt_Grants r') \<and> list_all (\<lambda>x. x \<in> set (rt_Grants r) \<or> blocking x) (rt_Grants r') \<and>
     set (rt_Repository r) \<subseteq> set (rt_Repository r') \<and> list_all restrictive (rt_Repository r') \<and>
     set (rt_User r) \<subseteq> set (rt_User r') \<and> list_all (\<lambda>x. x \<in> set (rt_User r) \<or> restrictive x) (rt_User r') \<and>
     r' = withRules r (rt_Constitution r') (rt_Grants r') (rt_Repository r') (rt_User r')"

lemma managedLayer_restricts:
  assumes "onlyRestricts r r'" "managedLayer env r' i = Inr v"
  shows "managedLayer env r i = Inr v"
proof -
  obtain k where k: "k < 3" "matchRank env (rt_Grants r') i = Some k" "v = managedVerdict k"
    using assms(2) unfolding managedLayer_rank by blast
  have "matchRank env (rt_Grants r) i = matchRank env (rt_Grants r') i"
    using assms(1) k(1,2) by (intro matchRank_same [where p = 3])
      (auto simp: onlyRestricts_def list_all_iff priority_blocking)
  with k show ?thesis unfolding managedLayer_rank by auto
qed

lemma repositoryLayer_restricts:
  assumes "onlyRestricts r r'" "repositoryLayer env r' i v = Inr w'" "vd_askLayer v = LayerNone \<or> explicitAsk v"
  shows "\<exists>w. repositoryLayer env r i v = Inr w \<and> (w = w' \<or> explicitAsk w')"
proof (cases "matchRank env (rt_Repository r') i")
  case None
  then have "matchRank env (rt_Repository r) i = matchRank env (rt_Repository r') i"
    using assms(1) by (intro matchRank_same [where p = 0]) (auto simp: onlyRestricts_def)
  with assms(2) show ?thesis by (auto simp: repositoryLayer_rank)
next
  case (Some k')
  have bound: "2 \<le> k" if rules: "rules = rt_Repository r \<or> rules = rt_Repository r'" and rank: "matchRank env rules i = Some k" for rules k
  proof -
    obtain x where x: "strongestMatch env rules i = Some x" "k = actionPriority (ru_Action x)"
      using rank by (auto simp: matchRank_def)
    with strongestMatch_Some(1) [OF x(1)] rules assms(1) have "restrictive x"
      by (auto simp: onlyRestricts_def list_all_iff)
    with x(2) show ?thesis by (simp add: priority_restrictive)
  qed
  have k': "k' = 2" and w': "vd_askLayer w' = firstLayer (vd_askLayer v) LayerRepository"
    using assms(2) bound [OF _ Some] Some by (auto simp: repositoryLayer_rank)
  have "k = 2" if "matchRank env (rt_Repository r) i = Some k" for k
    using matchRank_mono [OF _ that, of "rt_Repository r'"] bound [OF _ that] assms(1) Some k'
    by (auto simp: onlyRestricts_def)
  then have "\<exists>w. repositoryLayer env r i v = Inr w"
    by (cases "matchRank env (rt_Repository r) i") (auto simp: repositoryLayer_rank)
  with firstLayer_ask [OF assms(3), of LayerRepository] w' show ?thesis by (auto simp: explicitAsk_def)
qed

lemma userLayer_restricts:
  assumes "onlyRestricts r r'" "userLayer env r' i v = Inr w'" "vd_askLayer v = LayerNone \<or> explicitAsk v"
  shows "\<exists>w. userLayer env r i v = Inr w \<and> (w = w' \<or> explicitAsk w')"
proof (cases "matchRank env (rt_User r') i = Some 2")
  case False
  have "matchRank env (rt_User r) i = matchRank env (rt_User r') i"
    using assms(1,2) False by (intro matchRank_same [where p = 2])
      (auto simp: onlyRestricts_def list_all_iff priority_restrictive userLayer_rank)
  with assms(2) show ?thesis by (auto simp: userLayer_rank)
next
  case True
  then have w': "vd_askLayer w' = firstLayer (vd_askLayer v) LayerUser"
    using assms(2) by (auto simp: userLayer_rank)
  have "k \<le> 2" if "matchRank env (rt_User r) i = Some k" for k
    using matchRank_mono [OF _ that, of "rt_User r'"] assms(1) True by (auto simp: onlyRestricts_def)
  then have "\<exists>w. userLayer env r i v = Inr w"
    by (cases "matchRank env (rt_User r) i") (auto simp: userLayer_rank le_Suc_eq numeral_2_eq_2)
  with firstLayer_ask [OF assms(3), of LayerUser] w' show ?thesis by (auto simp: explicitAsk_def)
qed

lemma ruleLayers_restricts:
  assumes r: "onlyRestricts r r'" and "ruleLayers env r' i = Inr w'"
  shows "\<exists>w. ruleLayers env r i = Inr w \<and> (w = w' \<or> explicitAsk w')"
proof -
  obtain m v' where m: "managedLayer env r' i = Inr m" and v': "repositoryLayer env r' i m = Inr v'"
    and w': "userLayer env r' i v' = Inr w'"
    using assms(2) by (auto simp: ruleLayers_def bindR_Inr_iff)
  have ask: "vd_askLayer m = LayerNone \<or> explicitAsk m"
    using m managedVerdict_ask by (auto simp: managedLayer_rank)
  obtain v where v: "repositoryLayer env r i m = Inr v" "v = v' \<or> explicitAsk v'"
    using repositoryLayer_restricts [OF r v' ask] by blast
  have ask': "vd_askLayer v' = LayerNone \<or> explicitAsk v'" "vd_askLayer v = LayerNone \<or> explicitAsk v"
    using repositoryLayer_ask [OF v' ask] repositoryLayer_ask [OF v(1) ask] by blast+
  obtain w where w: "userLayer env r i v' = Inr w" "w = w' \<or> explicitAsk w'"
    using userLayer_restricts [OF r w' ask'(1)] by blast
  have "\<exists>x. userLayer env r i v = Inr x"
    using w(1) by (auto simp: userLayer_rank split: option.splits)
  then obtain x where x: "userLayer env r i v = Inr x" by blast
  have "ruleLayers env r i = Inr x"
    using managedLayer_restricts [OF r m] v(1) x by (simp add: ruleLayers_def)
  moreover have "x = w' \<or> explicitAsk w'"
    using v(2) w x userLayer_ask(2) [OF w' ask'(1)] by auto
  ultimately show ?thesis by blast
qed

lemma hardLayers_restricts:
  assumes "onlyRestricts r r'" "hardLayers env r' i = None"
  shows "hardLayers env r i = None"
proof -
  obtain C G R U where r': "r' = withRules r C G R U" using assms(1) by (auto simp: onlyRestricts_def)
  have "strongestMatch env (rt_Constitution r) i = None" if "strongestMatch env (rt_Constitution r') i = None"
    using that assms(1) by (auto simp: strongestMatch_None onlyRestricts_def)
  with assms(2) show ?thesis by (auto simp: hardLayers_def r' withRules_def)
qed

lemma afterRules_withRules: "afterRules env (withRules r C G R U) i v = afterRules env r i v"
proof -
  let ?r = "withRules r C G R U"
  have parts: "planningDecision ?r = planningDecision r" "bindingLayer ?r = bindingLayer r"
    "surfaceDecision ?r = surfaceDecision r"
    by (auto simp: withRules_def planningDecision_def bindingLayer_def surfaceDecision_def Let_def fun_eq_iff)
  have same: "guardianEligible ?r = guardianEligible r" "guardianBound env ?r = guardianBound env r"
    by (auto simp: withRules_def guardianEligible_def guardianBound_def fun_eq_iff)
  have guardian: "applyGuardian env ?r = applyGuardian env r"
    unfolding applyGuardian_def [abs_def] same by (rule refl)
  have review: "autoReviewEligible env (reviewInput ?r i v p) = autoReviewEligible env (reviewInput r i v p)" for p
    by (simp add: withRules_def autoReviewEligible_def autoReviewConditions_def reviewInput_def)
  have kept: "rt_Mode ?r = rt_Mode r" "rt_Permission ?r = rt_Permission r" by (simp_all add: withRules_def)
  show ?thesis unfolding afterRules_def parts guardian review kept by (rule refl)
qed

lemma afterRules_finish:
  assumes "validateMode (rt_Mode r) = None" "planningDecision r (iv_Assessment i) = None"
    "permissionDecision (rt_Permission r) (iv_Capability i) (iv_Effect i) = Inr permission"
  shows "afterRules env r i v =
    finish env r i (autoReviewEligible env (reviewInput r i v permission)) (postureDecision v permission)"
  using assms by (simp add: afterRules_def finish_def Let_def)

lemma postureDecision_open:
  "dc_Action (postureDecision v p) = ActionAllow \<or> dc_Action (postureDecision v p) = ActionAsk"
  by (simp add: postureDecision_def)

lemma postureDecision_explicit:
  "explicitAsk v \<Longrightarrow> dc_Action (postureDecision v p) = ActionAsk \<and> dc_Layer (postureDecision v p) \<noteq> LayerPosture"
  by (auto simp: postureDecision_def explicitAsk_def)

lemma afterRules_explicit:
  assumes "explicitAsk v'"
  shows "severity (dc_Action (afterRules env r i v)) \<le> severity (dc_Action (afterRules env r i v'))"
proof (cases "validateMode (rt_Mode r) = None \<and> planningDecision r (iv_Assessment i) = None \<and>
    (\<exists>p. permissionDecision (rt_Permission r) (iv_Capability i) (iv_Effect i) = Inr p)")
  case False
  have "afterRules env r i v = afterRules env r i v'"
    using False by (auto simp: afterRules_def split: option.splits sum.splits)
  then show ?thesis by simp
next
  case True
  then obtain p where p: "validateMode (rt_Mode r) = None" "planningDecision r (iv_Assessment i) = None"
    "permissionDecision (rt_Permission r) (iv_Capability i) (iv_Effect i) = Inr p" by blast
  note finish = afterRules_finish [OF p]
  show ?thesis
  proof (cases "surfacePosture r i = SurfaceDeny")
    case True
    then show ?thesis by (simp add: finish finish_deny postureDecision_open)
  next
    case False
    have "dc_Action (afterRules env r i v') = ActionAsk"
      using finish_explicit_ask [OF False] postureDecision_explicit [OF assms] by (simp add: finish)
    moreover have "dc_Action (afterRules env r i v) = ActionAllow \<or> dc_Action (afterRules env r i v) = ActionAsk"
      using finish_open [OF False postureDecision_open] by (simp add: finish)
    ultimately show ?thesis by auto
  qed
qed


definition allTools :: "Action \<Rightarrow> Rule" where
  "allTools a = \<lparr>ru_Tool = ''*'', ru_Resource = [], ru_ResourcePath = [], ru_RequireWrite = False,
     ru_CommandPrefix = [], ru_GrantKey = [], ru_Action = a, ru_Code = []\<rparr>"

definition suggestRuntime :: Runtime where
  "suggestRuntime =
     \<lparr>rt_userSource = None, rt_userSourceVersion = 0, rt_Revision = 1, rt_Mode = ModeAct,
      rt_Permission = PermissionSuggest, rt_DisableHostExecution = False, rt_PlanningPolicy = PlanningOff,
      rt_PlanSubmitted = False, rt_DisableAutoReview = False, rt_ForceEditPlanApproval = False,
      rt_Grants = [allTools ActionAllow], rt_User = [], rt_Repository = [], rt_Constitution = [],
      rt_Granular = \<lparr>gn_Sandbox = SurfaceInherit, gn_Rules = SurfaceInherit, gn_Skills = SurfaceInherit,
        gn_MCP = SurfaceInherit\<rparr>\<rparr>"


section \<open>What an allow has passed\<close>

text \<open>A rule list in which every match stays below asking.\<close>

definition noRestriction :: "PolicyEnv \<Rightarrow> Rule list \<Rightarrow> Invocation \<Rightarrow> bool" where
  "noRestriction env rules i = list_all (\<lambda>rule. ruleMatches env rule i \<longrightarrow> \<not> restrictive rule) rules"

lemma noRestriction_rank: "noRestriction env rules i \<longleftrightarrow> (\<forall>k. matchRank env rules i = Some k \<longrightarrow> k < 2)"
proof (cases "strongestMatch env rules i")
  case None
  then have "\<forall>rule \<in> set rules. \<not> ruleMatches env rule i" by (simp add: strongestMatch_None)
  with None show ?thesis by (simp add: noRestriction_def matchRank_def list_all_iff)
next
  case (Some x)
  note x = strongestMatch_Some [OF Some]
  have "(\<forall>rule \<in> set rules. ruleMatches env rule i \<longrightarrow> actionPriority (ru_Action rule) < 2) \<longleftrightarrow>
      actionPriority (ru_Action x) < 2"
    using x(1,2) x(3) by (meson le_less_trans)
  with Some show ?thesis by (simp add: noRestriction_def matchRank_def list_all_iff priority_restrictive not_le)
qed

lemma ruleLayers_open:
  assumes "ruleLayers env r i = Inr v" "vd_askLayer v = LayerNone"
  shows "\<exists>g \<in> set (rt_Grants r). ruleMatches env g i"
    "noRestriction env (rt_Grants r) i" "noRestriction env (rt_Repository r) i" "noRestriction env (rt_User r) i"
    "vd_userAllow v \<Longrightarrow> \<exists>u \<in> set (rt_User r). ruleMatches env u i \<and> ru_Action u = ActionAllow"
    "\<not> vd_managedAsk v \<and> \<not> vd_repositoryAsk v"
proof -
  obtain m w where m: "managedLayer env r i = Inr m" and w: "repositoryLayer env r i m = Inr w"
    and v: "userLayer env r i w = Inr v"
    using assms(1) by (auto simp: ruleLayers_def bindR_Inr_iff)
  obtain k where k: "k < 3" "matchRank env (rt_Grants r) i = Some k" "m = managedVerdict k"
    using m by (auto simp: managedLayer_rank)
  have "\<not> explicitAsk w"
    using userLayer_ask(2) [OF v] assms(2) by (auto simp: explicitAsk_def)
  then have wm: "w = m" "vd_askLayer m = LayerNone"
    using repositoryLayer_ask [OF w] managedVerdict_ask k(3) by auto
  obtain g where g: "strongestMatch env (rt_Grants r) i = Some g" using k(2) by (auto simp: matchRank_def)
  show "\<exists>g \<in> set (rt_Grants r). ruleMatches env g i" using strongestMatch_Some [OF g] by blast
  show "noRestriction env (rt_Grants r) i"
    using k wm(2) by (auto simp: noRestriction_rank managedVerdict_def split: if_splits)
  have "vd_askLayer (m\<lparr>vd_repositoryAsk := True, vd_askLayer := LayerRepository\<rparr>) \<noteq> vd_askLayer m" using wm(2) by simp
  then have "m \<noteq> m\<lparr>vd_repositoryAsk := True, vd_askLayer := LayerRepository\<rparr>" by metis
  with w wm show "noRestriction env (rt_Repository r) i"
    by (auto simp: noRestriction_rank repositoryLayer_rank firstLayer_def)
  show "noRestriction env (rt_User r) i"
    using v wm assms(2) by (auto simp: noRestriction_rank userLayer_rank firstLayer_def)
  show "\<exists>u \<in> set (rt_User r). ruleMatches env u i \<and> ru_Action u = ActionAllow" if allow: "vd_userAllow v"
  proof -
    have "\<not> vd_userAllow w" using k(3) wm(1) by (simp add: managedVerdict_def)
    with v allow have "matchRank env (rt_User r) i = Some 1"
      by (auto simp: userLayer_rank split: option.splits)
    then obtain u where u: "strongestMatch env (rt_User r) i = Some u" "actionPriority (ru_Action u) = 1"
      by (auto simp: matchRank_def)
    then have "ru_Action u = ActionAllow" by (cases "ru_Action u") simp_all
    with strongestMatch_Some [OF u(1)] show ?thesis by blast
  qed
  have "\<not> vd_managedAsk w \<and> \<not> vd_repositoryAsk w"
    using k(3) wm by (auto simp: managedVerdict_def split: if_splits)
  with v show "\<not> vd_managedAsk v \<and> \<not> vd_repositoryAsk v" by (auto simp: userLayer_rank split: option.splits)
qed

lemma firstProtected_None:
  "firstProtected workspace rs = None \<longleftrightarrow>
     list_all (\<lambda>x. pathWrite x \<longrightarrow> CheckWrite workspace (rs_Path x) (rs_Tree x) = None) rs"
  by (induction rs) (auto split: option.splits)

lemma controlPlaneLayer_None:
  assumes "controlPlaneLayer i = None"
  shows "list_all (\<lambda>x. pathWrite x \<longrightarrow> CheckWrite (iv_Workspace i) (rs_Path x) (rs_Tree x) = None) (iv_Resources i)"
proof (cases "writesPaths (iv_Resources i)")
  case False
  then show ?thesis by (auto simp: writesPaths_def list_ex_iff list_all_iff)
next
  case True
  with assms show ?thesis
    by (auto simp: controlPlaneLayer_def ControlPlaneWithin_def firstProtected_None split: sum.splits option.splits if_splits)
qed

lemma afterRules_allow:
  assumes "dc_Action (afterRules env r i v) = ActionAllow"
  obtains p where "rt_Mode r = ModeAct" "planningDecision r (iv_Assessment i) = None"
    "permissionDecision (rt_Permission r) (iv_Capability i) (iv_Effect i) = Inr p"
    "dc_Action (finish env r i (autoReviewEligible env (reviewInput r i v p)) (postureDecision v p)) = ActionAllow"
proof -
  have mode: "validateMode (rt_Mode r) = None"
    using assms validateMode_denies [of "rt_Mode r"] by (cases "validateMode (rt_Mode r)") (auto simp: afterRules_def)
  have plan: "planningDecision r (iv_Assessment i) = None"
    using assms planningDecision_stops [of r "iv_Assessment i"] mode
    by (cases "planningDecision r (iv_Assessment i)") (auto simp: afterRules_def)
  obtain p where p: "permissionDecision (rt_Permission r) (iv_Capability i) (iv_Effect i) = Inr p"
    using assms permissionDecision_Inl mode plan
    by (cases "permissionDecision (rt_Permission r) (iv_Capability i) (iv_Effect i)") (auto simp: afterRules_def)
  have "rt_Mode r = ModeAct" using mode by (simp add: validateMode_def split: if_splits)
  with that plan p assms afterRules_finish [OF mode plan p] show ?thesis by simp
qed

text \<open>
  C23. What an allowed invocation has passed: its resources are validated and assessed, its writes avoid the
  control plane, no constitution rule and no asking, denying or holding rule of any authority matches it
  while some managed rule does, no plan is outstanding and its surface is not denied. And the allow
  comes from the posture itself, or, where the posture asks, from a user rule that allows it, from the automatic review
  conditions, or from current guardian evidence bound to this call and this policy revision.
\<close>

theorem allow_is_justified:
  assumes "dc_Action (decide env r i) = ActionAllow"
  shows "iv_Validated i \<and> Assessment_Valid (iv_Assessment i) \<and>
    list_all (\<lambda>x. pathWrite x \<longrightarrow> CheckWrite (iv_Workspace i) (rs_Path x) (rs_Tree x) = None) (iv_Resources i) \<and>
    list_all (\<lambda>rule. \<not> ruleMatches env rule i) (rt_Constitution r) \<and>
    list_ex (\<lambda>g. ruleMatches env g i) (rt_Grants r) \<and>
    noRestriction env (rt_Grants r @ rt_Repository r @ rt_User r) i \<and>
    planningDecision r (iv_Assessment i) = None \<and> surfacePosture r i \<noteq> SurfaceDeny \<and>
    (permissionDecision (rt_Permission r) (iv_Capability i) (iv_Effect i) = Inr ActionAllow \<or>
     permissionDecision (rt_Permission r) (iv_Capability i) (iv_Effect i) = Inr ActionAsk \<and>
       (list_ex (\<lambda>u. ruleMatches env u i \<and> ru_Action u = ActionAllow) (rt_User r) \<or>
        autoReviewEligible env \<lparr>ar_runtime = r, ar_invocation = i, ar_permission = ActionAsk,
          ar_repositoryAsk = False, ar_managedAsk = False\<rparr> \<or>
        guardianAllows env r i))"
proof -
  have hard: "hardLayers env r i = None"
    using assms hardLayers_denies [of env r i] by (cases "hardLayers env r i") (auto simp: decide_def)
  obtain v where v: "ruleLayers env r i = Inr v"
    using assms hard ruleLayers_denies [of env r i] by (cases "ruleLayers env r i") (auto simp: decide_def)
  have "dc_Action (afterRules env r i v) = ActionAllow" using assms hard v by (simp add: decide_def)
  then obtain p where plan: "planningDecision r (iv_Assessment i) = None"
    and p: "permissionDecision (rt_Permission r) (iv_Capability i) (iv_Effect i) = Inr p"
    and fin: "dc_Action (finish env r i (autoReviewEligible env (reviewInput r i v p)) (postureDecision v p)) = ActionAllow"
    by (rule afterRules_allow)
  note last = finish_allow [OF fin postureDecision_open]
  have ask: "vd_askLayer v = LayerNone"
    using last postureDecision_explicit [of v p] ruleLayers_ask [OF v] by auto
  note passed = ruleLayers_open [OF v ask]
  have input: "inputLayer i = None" "controlPlaneLayer i = None" "strongestMatch env (rt_Constitution r) i = None"
    using hard by (simp_all add: hardLayers_def)
  have valid: "iv_Validated i" "Assessment_Valid (iv_Assessment i)"
    using input(1) by (simp_all add: inputLayer_def)
  have rules: "noRestriction env (rt_Grants r @ rt_Repository r @ rt_User r) i"
    using passed(2-4) by (simp add: noRestriction_def)
  have source: "p = ActionAllow \<or> p = ActionAsk \<and> (vd_userAllow v \<or>
      autoReviewEligible env (reviewInput r i v p) \<or> guardianAllows env r i)"
    using permissionDecision_Inr [OF p] last ask by (auto simp: postureDecision_def split: if_splits)
  have review: "reviewInput r i v ActionAsk = \<lparr>ar_runtime = r, ar_invocation = i, ar_permission = ActionAsk,
      ar_repositoryAsk = False, ar_managedAsk = False\<rparr>" using passed(6) by (simp add: reviewInput_def)
  have "permissionDecision (rt_Permission r) (iv_Capability i) (iv_Effect i) = Inr ActionAllow \<or>
     permissionDecision (rt_Permission r) (iv_Capability i) (iv_Effect i) = Inr ActionAsk \<and>
       (list_ex (\<lambda>u. ruleMatches env u i \<and> ru_Action u = ActionAllow) (rt_User r) \<or>
        autoReviewEligible env (reviewInput r i v ActionAsk) \<or> guardianAllows env r i)"
    using source p passed(5) unfolding list_ex_iff by blast
  with valid controlPlaneLayer_None [OF input(2)] input(3) passed(1) rules plan last show ?thesis
    unfolding review by (simp add: strongestMatch_None list_all_iff list_ex_iff)
qed

theorem allow_is_justified_witness:
  "dc_Action (decide plainPolicy suggestRuntime editCall) = ActionAllow \<and>
   list_ex (\<lambda>g. ruleMatches plainPolicy g editCall) (rt_Grants suggestRuntime) \<and>
   planningDecision suggestRuntime (iv_Assessment editCall) = None"
proof -
  have "dc_Action (decide plainPolicy suggestRuntime editCall) = ActionAllow" by code_simp
  from allow_is_justified [OF this] this show ?thesis by blast
qed

end
