(* ===== verification/Permission_Store.thy ===== *)
theory Permission_Store
  imports Policy_Rules
begin

text \<open>
  The sources of policy rules, \<open>src/internal/security/policy\<close>: the permissions document and the store that
  publishes its rules (\<open>permissions.go\<close>, \<open>permission_store.go\<close>), and the constitution (\<open>constitution.go\<close>).

  The file system and the TOML and JSON decoders are a parameter: what reading a file gives is a
  \<open>PermissionsFile\<close> or a \<open>ConstitutionFile\<close>, and a written document is what the next reading finds. The
  properties say that an \<^emph>\<open>always allow\<close> reaches the store and the file and covers exactly the
  invocations with the same tool and typed grant, and that a compiled constitution is always accepted by
  the rule validation.
\<close>

section \<open>The permissions document\<close>

record PermissionEntry =
  en_Tool :: string
  en_Resource :: string
  en_CommandPrefix :: string
  en_GrantKey :: string
  en_Code :: string

record PermissionsDocument =
  pd_Deny :: "PermissionEntry list"
  pd_Ask :: "PermissionEntry list"
  pd_Allow :: "PermissionEntry list"

record PermissionsBundle =
  pb_Path :: string
  pb_Present :: bool
  pb_Rules :: "Rule list"
  pb_Doc :: PermissionsDocument

datatype PermissionsFile = FileMissing | FileUnreadable | FileIrregular | FileMalformed | FileDocument PermissionsDocument

datatype PermissionsError =
  ReadFailed | NotRegular | ParseFailed | AllowKeyRequired | RulesInvalid RuleError | AllowToolRequired
  | AllowKeyInvalid | WriteFailed | NoTypedGrant | NilSnapshot

definition emptyDocument :: PermissionsDocument where
  "emptyDocument = \<lparr>pd_Deny = [], pd_Ask = [], pd_Allow = []\<rparr>"

definition entryRule :: "Action \<Rightarrow> PermissionEntry \<Rightarrow> Rule" where
  "entryRule a e =
     \<lparr>ru_Tool = en_Tool e, ru_Resource = en_Resource e, ru_ResourcePath = [], ru_RequireWrite = False,
      ru_CommandPrefix = en_CommandPrefix e, ru_GrantKey = en_GrantKey e, ru_Action = a, ru_Code = en_Code e\<rparr>"

text \<open>The local function \<open>add\<close> of \<open>compilePermissions\<close>.\<close>

fun addEntries :: "Rule list \<Rightarrow> PermissionEntry list \<Rightarrow> Action \<Rightarrow> PermissionsError + Rule list" where
  "addEntries rules [] a = Inr rules"
| "addEntries rules (e # es) a =
     (if a = ActionAllow \<and> length (en_GrantKey e) \<noteq> 64 then Inl AllowKeyRequired
      else addEntries (rules @ [entryRule a e]) es a)"

definition compilePermissions :: "PolicyEnv \<Rightarrow> PermissionsDocument \<Rightarrow> PermissionsError + Rule list" where
  "compilePermissions env doc =
     bindR (addEntries [] (pd_Deny doc) ActionDeny) (\<lambda>rules.
     bindR (addEntries rules (pd_Ask doc) ActionAsk) (\<lambda>rules.
     bindR (addEntries rules (pd_Allow doc) ActionAllow) (\<lambda>rules.
     case ValidateRules env SourceUser rules of Some e \<Rightarrow> Inl (RulesInvalid e) | None \<Rightarrow> Inr rules)))"

definition LoadPermissions :: "PolicyEnv \<Rightarrow> string \<Rightarrow> PermissionsFile \<Rightarrow> PermissionsError + PermissionsBundle" where
  "LoadPermissions env path file =
     (case file of
        FileMissing \<Rightarrow> Inr \<lparr>pb_Path = path, pb_Present = False, pb_Rules = [], pb_Doc = emptyDocument\<rparr>
      | FileUnreadable \<Rightarrow> Inl ReadFailed
      | FileIrregular \<Rightarrow> Inl NotRegular
      | FileMalformed \<Rightarrow> Inl ParseFailed
      | FileDocument doc \<Rightarrow>
          bindR (compilePermissions env doc) (\<lambda>rules.
            Inr \<lparr>pb_Path = path, pb_Present = True, pb_Rules = rules, pb_Doc = doc\<rparr>))"

definition Bundle_Summary :: "PermissionsBundle \<Rightarrow> nat \<times> nat \<times> nat" where
  "Bundle_Summary b = (length (pd_Deny (pb_Doc b)), length (pd_Ask (pb_Doc b)), length (pd_Allow (pb_Doc b)))"

definition entryEqual :: "PermissionEntry \<Rightarrow> PermissionEntry \<Rightarrow> bool" where
  "entryEqual a b \<longleftrightarrow>
     en_Tool a = en_Tool b \<and> en_Resource a = en_Resource b \<and> en_CommandPrefix a = en_CommandPrefix b \<and>
     en_GrantKey a = en_GrantKey b \<and> en_Code a = en_Code b"

text \<open>\<open>written\<close> is whether \<open>writePermissionsDocument\<close> succeeds; the second result is the file afterwards.\<close>

definition AppendPermissionAllow ::
  "PolicyEnv \<Rightarrow> string \<Rightarrow> PermissionsFile \<Rightarrow> bool \<Rightarrow> Rule \<Rightarrow>
   (PermissionsError + PermissionsBundle) \<times> PermissionsFile" where
  "AppendPermissionAllow env path file written rule =
     (if ru_Tool rule = [] then (Inl AllowToolRequired, file)
      else if length (ru_GrantKey rule) \<noteq> 64 then (Inl AllowKeyInvalid, file)
      else case LoadPermissions env path file of
        Inl e \<Rightarrow> (Inl e, file)
      | Inr bundle \<Rightarrow>
          let entry = \<lparr>en_Tool = ru_Tool rule, en_Resource = ru_Resource rule,
                       en_CommandPrefix = ru_CommandPrefix rule, en_GrantKey = ru_GrantKey rule, en_Code = ru_Code rule\<rparr> in
          if list_ex (\<lambda>existing. entryEqual existing entry) (pd_Allow (pb_Doc bundle)) then (Inr bundle, file)
          else let doc = (pb_Doc bundle)\<lparr>pd_Allow := pd_Allow (pb_Doc bundle) @ [entry]\<rparr> in
            if \<not> written then (Inl WriteFailed, file)
            else (bindR (compilePermissions env doc) (\<lambda>rules.
                    Inr (bundle\<lparr>pb_Doc := doc, pb_Present := True, pb_Rules := rules\<rparr>)), FileDocument doc))"

definition RuleFromInvocation :: "PolicyEnv \<Rightarrow> Invocation \<Rightarrow> PermissionsError + Rule" where
  "RuleFromInvocation env call =
     (case GrantForInvocation env call of
        None \<Rightarrow> Inl NoTypedGrant
      | Some grant \<Rightarrow>
          Inr \<lparr>ru_Tool = iv_Tool call, ru_Resource = [], ru_ResourcePath = [], ru_RequireWrite = False,
               ru_CommandPrefix = [], ru_GrantKey = gr_Key grant, ru_Action = ActionAllow,
               ru_Code = ''permissions_always_allow''\<rparr>)"

section \<open>The store\<close>

record PermissionsStore =
  ps_Path :: string
  ps_snapshot :: "(Rule list \<times> uint64) option"

definition OpenPermissionsStore :: "PolicyEnv \<Rightarrow> string \<Rightarrow> PermissionsFile \<Rightarrow> PermissionsError + PermissionsStore" where
  "OpenPermissionsStore env path file =
     bindR (LoadPermissions env path file) (\<lambda>bundle. Inr \<lparr>ps_Path = path, ps_snapshot = Some (pb_Rules bundle, 1)\<rparr>)"

definition UserRulesSince :: "PermissionsStore \<Rightarrow> uint64 \<Rightarrow> Rule list \<times> uint64" where
  "UserRulesSince s version =
     (case ps_snapshot s of
        None \<Rightarrow> ([], 0)
      | Some (rules, current) \<Rightarrow> if current = version then ([], version) else (rules, current))"

definition Store_Rules :: "PermissionsStore \<Rightarrow> Rule list" where
  "Store_Rules s = fst (UserRulesSince s 0)"

definition WithUserRulesVersion :: "PermissionsStore \<Rightarrow> uint64 \<Rightarrow> bool" where
  "WithUserRulesVersion s version \<longleftrightarrow> (case ps_snapshot s of None \<Rightarrow> False | Some (_, current) \<Rightarrow> current = version)"

definition AppendAllow ::
  "PolicyEnv \<Rightarrow> PermissionsStore \<Rightarrow> PermissionsFile \<Rightarrow> bool \<Rightarrow> Invocation \<Rightarrow>
   (PermissionsError + Rule) \<times> PermissionsStore \<times> PermissionsFile" where
  "AppendAllow env s file written call =
     (case RuleFromInvocation env call of
        Inl e \<Rightarrow> (Inl e, s, file)
      | Inr rule \<Rightarrow>
          (case AppendPermissionAllow env (ps_Path s) file written rule of
             (Inl e, file') \<Rightarrow> (Inl e, s, file')
           | (Inr bundle, file') \<Rightarrow>
               (case ps_snapshot s of
                  None \<Rightarrow> (Inl NilSnapshot, s, file')
                | Some (rules, version) \<Rightarrow>
                    (Inr rule,
                     if rules \<noteq> pb_Rules bundle then s\<lparr>ps_snapshot := Some (pb_Rules bundle, version + 1)\<rparr> else s,
                     file'))))"

section \<open>The constitution\<close>

record ConstitutionDocument =
  cd_Version :: int
  cd_DenyWriteGlobs :: "string list"
  cd_HoldTools :: "string list"
  cd_DenyTools :: "string list"
  cd_Prompt :: string

datatype ConstitutionFile = ConstitutionMissing | ConstitutionUnreadable | ConstitutionDecoded ConstitutionDocument

datatype ConstitutionError =
  ConstitutionReadFailed | ConstitutionVersionUnsupported int | GlobInvalid string PatternError

definition ConstitutionSchemaVersion :: int where
  "ConstitutionSchemaVersion = 1"

definition DefaultConstitutionPrompt :: string where
  "DefaultConstitutionPrompt = ''Follow the repository constitution. Mechanical holds cannot be bypassed.''"

definition emptyConstitution :: ConstitutionDocument where
  "emptyConstitution =
     \<lparr>cd_Version = 0, cd_DenyWriteGlobs = [], cd_HoldTools = [], cd_DenyTools = [], cd_Prompt = []\<rparr>"

definition readConstitution :: "ConstitutionFile \<Rightarrow> ConstitutionError + (bool \<times> ConstitutionDocument)" where
  "readConstitution file =
     (case file of
        ConstitutionMissing \<Rightarrow> Inr (False, emptyConstitution)
      | ConstitutionUnreadable \<Rightarrow> Inl ConstitutionReadFailed
      | ConstitutionDecoded doc \<Rightarrow>
          if cd_Version doc \<noteq> 0 \<and> cd_Version doc \<noteq> ConstitutionSchemaVersion then
            Inl (ConstitutionVersionUnsupported (cd_Version doc))
          else Inr (True, if cd_Version doc = 0 then doc\<lparr>cd_Version := ConstitutionSchemaVersion\<rparr> else doc))"

definition trimDotSlash :: "string \<Rightarrow> string" where
  "trimDotSlash s = (if prefix ''./'' s then drop 2 s else s)"

definition normalizeGlob :: "string \<Rightarrow> PatternError + string" where
  "normalizeGlob glob =
     (let glob = Clean (trimSuffix (trimSuffix (trimSuffix (trimDotSlash (TrimSpace glob)) ''/**'') ''/*'') ''/'') in
      case CompilePathPattern glob of Inl e \<Rightarrow> Inl e | Inr _ \<Rightarrow> Inr glob)"

definition constitutionRule :: "string \<Rightarrow> string \<Rightarrow> Action \<Rightarrow> string \<Rightarrow> bool \<Rightarrow> Rule" where
  "constitutionRule tool resource a code requireWrite =
     \<lparr>ru_Tool = tool, ru_Resource = resource, ru_ResourcePath = [], ru_RequireWrite = requireWrite,
      ru_CommandPrefix = [], ru_GrantKey = [], ru_Action = a, ru_Code = code\<rparr>"

fun globRules :: "string \<Rightarrow> string list \<Rightarrow> ConstitutionError + Rule list" where
  "globRules source [] = Inr []"
| "globRules source (glob # globs) =
     (if TrimSpace glob = [] then globRules source globs
      else case normalizeGlob glob of
        Inl e \<Rightarrow> Inl (GlobInvalid glob e)
      | Inr resource \<Rightarrow> bindR (globRules source globs) (\<lambda>rules.
          Inr (constitutionRule ''*'' resource ActionHold (''constitution_hold:'' @ source) True # rules)))"

definition toolNames :: "string list \<Rightarrow> string list" where
  "toolNames names = filter (\<lambda>n. n \<noteq> []) (map TrimSpace names)"

definition compileConstitution :: "ConstitutionDocument \<Rightarrow> string \<Rightarrow> ConstitutionError + Rule list" where
  "compileConstitution doc source =
     bindR (globRules source (cd_DenyWriteGlobs doc)) (\<lambda>rules. Inr (rules @
       map (\<lambda>name. constitutionRule name ''*'' ActionHold (''constitution_hold:'' @ source) False) (toolNames (cd_HoldTools doc)) @
       map (\<lambda>name. constitutionRule name ''*'' ActionDeny (''constitution_deny:'' @ source) False) (toolNames (cd_DenyTools doc))))"

record ConstitutionBundle =
  cb_Rules :: "Rule list"
  cb_Prompt :: string
  cb_Loaded :: bool
  cb_UserPresent :: bool
  cb_RepoPresent :: bool

definition LoadConstitution :: "ConstitutionFile \<Rightarrow> ConstitutionFile \<Rightarrow> ConstitutionError + ConstitutionBundle" where
  "LoadConstitution userFile repoFile =
     bindR (readConstitution userFile) (\<lambda>(userPresent, userDoc).
     bindR (readConstitution repoFile) (\<lambda>(repoPresent, repoDoc).
       if \<not> userPresent \<and> \<not> repoPresent then
         Inr \<lparr>cb_Rules = [], cb_Prompt = [], cb_Loaded = False, cb_UserPresent = False, cb_RepoPresent = False\<rparr>
       else
         bindR (compileConstitution userDoc ''user'') (\<lambda>userRules.
         bindR (compileConstitution repoDoc ''repo'') (\<lambda>repoRules.
           let rules = repoRules @ userRules;
               prompt = TrimSpace (cd_Prompt repoDoc);
               prompt = (if prompt = [] then TrimSpace (cd_Prompt userDoc) else prompt);
               prompt = (if prompt = [] \<and> rules \<noteq> [] then DefaultConstitutionPrompt else prompt) in
           Inr \<lparr>cb_Rules = rules, cb_Prompt = prompt, cb_Loaded = True, cb_UserPresent = userPresent,
                cb_RepoPresent = repoPresent\<rparr>))))"

section \<open>Validated rules\<close>

lemma first_error_map_None: "first_error (map f xs) = None \<longleftrightarrow> (\<forall>x \<in> set xs. f x = None)"
  by auto

lemma ValidateRules_None:
  assumes "source \<in> {SourceManaged, SourceUser, SourceRepository, SourceConstitution}"
  shows "ValidateRules env source rules = None \<longleftrightarrow> list_all (\<lambda>rule. ruleFault env source rule = None) rules"
proof -
  have "ValidateRules env source rules =
      first_error (map (\<lambda>(index, rule). map_option (RuleInvalid source index) (ruleFault env source rule)) (enumerate 0 rules))"
    using assms by (auto simp: ValidateRules_def)
  moreover have "(\<forall>x \<in> set (enumerate 0 rules). P (snd x)) \<longleftrightarrow> (\<forall>r \<in> set rules. P r)" for P
    by (metis (no_types, lifting) in_set_conv_nth map_snd_enumerate imageE imageI list.set_map)
  ultimately show ?thesis by (simp add: first_error_map_None list_all_iff split_beta)
qed

lemma addEntries_Inr:
  "addEntries rules es a = Inr rs \<longleftrightarrow>
     rs = rules @ map (entryRule a) es \<and> (a = ActionAllow \<longrightarrow> list_all (\<lambda>e. length (en_GrantKey e) = 64) es)"
  by (induction es arbitrary: rules) auto

lemma compilePermissions_rules:
  assumes "compilePermissions env doc = Inr rules"
  shows "rules = map (entryRule ActionDeny) (pd_Deny doc) @ map (entryRule ActionAsk) (pd_Ask doc) @
    map (entryRule ActionAllow) (pd_Allow doc)"
  using assms by (auto simp: compilePermissions_def bindR_Inr_iff addEntries_Inr split: option.splits)

lemma compilePermissions_valid: "compilePermissions env doc = Inr rules \<Longrightarrow> ValidateRules env SourceUser rules = None"
  by (auto simp: compilePermissions_def bindR_Inr_iff split: option.splits)

lemma compilePermissions_empty: "compilePermissions env emptyDocument = Inr []"
  by (simp add: compilePermissions_def emptyDocument_def ValidateRules_def)

text \<open>What a bundle holds is what its document compiles to.\<close>

lemma LoadPermissions_compiles:
  "LoadPermissions env path file = Inr b \<Longrightarrow> compilePermissions env (pb_Doc b) = Inr (pb_Rules b)"
  by (auto simp: LoadPermissions_def bindR_Inr_iff compilePermissions_empty split: PermissionsFile.splits)

lemma AppendPermissionAllow_Inr:
  assumes "AppendPermissionAllow env path file written rule = (Inr b, file')"
  shows "ru_Tool rule \<noteq> []" "length (ru_GrantKey rule) = 64" "compilePermissions env (pb_Doc b) = Inr (pb_Rules b)"
    "\<exists>b'. LoadPermissions env path file' = Inr b' \<and> pb_Rules b' = pb_Rules b"
    "\<exists>e \<in> set (pd_Allow (pb_Doc b)). en_Tool e = ru_Tool rule \<and> en_Resource e = ru_Resource rule \<and>
       en_CommandPrefix e = ru_CommandPrefix rule \<and> en_GrantKey e = ru_GrantKey rule \<and> en_Code e = ru_Code rule"
proof -
  show g: "ru_Tool rule \<noteq> []" "length (ru_GrantKey rule) = 64"
    using assms by (auto simp: AppendPermissionAllow_def split: if_splits)
  obtain l where l: "LoadPermissions env path file = Inr l"
    using assms g by (auto simp: AppendPermissionAllow_def split: sum.splits)
  note body = assms [unfolded AppendPermissionAllow_def Let_def l sum.case]
  show "compilePermissions env (pb_Doc b) = Inr (pb_Rules b)"
    "\<exists>b'. LoadPermissions env path file' = Inr b' \<and> pb_Rules b' = pb_Rules b"
    using body g l LoadPermissions_compiles [OF l]
    by (auto simp: bindR_Inr_iff LoadPermissions_def split: if_splits)
  show "\<exists>e \<in> set (pd_Allow (pb_Doc b)). en_Tool e = ru_Tool rule \<and> en_Resource e = ru_Resource rule \<and>
       en_CommandPrefix e = ru_CommandPrefix rule \<and> en_GrantKey e = ru_GrantKey rule \<and> en_Code e = ru_Code rule"
    using body g by (auto simp: bindR_Inr_iff entryEqual_def list_ex_iff split: if_splits)
qed


definition hashEnv :: PolicyEnv where
  "hashEnv = plainPolicy\<lparr>pe_sha256 := (\<lambda>s. replicate 64 CHR ''0'')\<rparr>"

definition emptyStore :: PermissionsStore where
  "emptyStore = \<lparr>ps_Path = ''/d/permissions.toml'', ps_snapshot = Some ([], 1)\<rparr>"


section \<open>A compiled constitution\<close>

definition restrictiveRule :: "Rule \<Rightarrow> bool" where
  "restrictiveRule rule \<longleftrightarrow>
     ru_Tool rule \<noteq> [] \<and> (ru_Action rule = ActionHold \<or> ru_Action rule = ActionDeny) \<and> ru_Code rule \<noteq> [] \<and>
     ru_ResourcePath rule = [] \<and> ru_CommandPrefix rule = [] \<and>
     (ru_Resource rule = ''*'' \<or> (\<exists>p. CompilePathPattern (ru_Resource rule) = Inr p))"

lemma restrictiveRule_valid: "restrictiveRule rule \<Longrightarrow> ruleFault env SourceConstitution rule = None"
  by (auto simp: restrictiveRule_def ruleFault_def validateRuleResource_def)

lemma globRules_restrictive: "globRules source globs = Inr rules \<Longrightarrow> list_all restrictiveRule rules"
  by (induction globs arbitrary: rules)
    (auto simp: bindR_Inr_iff normalizeGlob_def Let_def restrictiveRule_def constitutionRule_def split: if_splits sum.splits)

lemma compileConstitution_restrictive:
  "compileConstitution doc source = Inr rules \<Longrightarrow> list_all restrictiveRule rules"
  by (auto simp: compileConstitution_def bindR_Inr_iff dest!: globRules_restrictive)
    (auto simp: list_all_iff restrictiveRule_def constitutionRule_def toolNames_def)

text \<open>
  A loaded constitution is always accepted: whatever the two documents say, if they load, their rules
  pass the validation that \<open>SetConstitution\<close> applies, so a constitution is either refused when it is
  read or enforced whole.
\<close>

theorem constitution_accepted:
  assumes "LoadConstitution userFile repoFile = Inr bundle"
  shows "ValidateRules env SourceConstitution (cb_Rules bundle) = None"
proof -
  have "list_all restrictiveRule (cb_Rules bundle)"
    using assms by (auto simp: LoadConstitution_def bindR_Inr_iff Let_def split: if_splits prod.splits
      dest!: compileConstitution_restrictive)
  then show ?thesis
    using restrictiveRule_valid by (simp add: ValidateRules_None list_all_iff)
qed

theorem constitution_accepted_witness:
  "\<exists>bundle. LoadConstitution ConstitutionMissing
       (ConstitutionDecoded (emptyConstitution\<lparr>cd_DenyWriteGlobs := [''secrets/''], cd_DenyTools := ['' shell '']\<rparr>)) = Inr bundle \<and>
     cb_Rules bundle = [constitutionRule ''*'' ''secrets'' ActionHold ''constitution_hold:repo'' True,
       constitutionRule ''shell'' ''*'' ActionDeny ''constitution_deny:repo'' False] \<and>
     ValidateRules plainPolicy SourceConstitution (cb_Rules bundle) = None"
proof -
  define doc where "doc = ConstitutionDecoded (emptyConstitution\<lparr>cd_DenyWriteGlobs := [''secrets/''], cd_DenyTools := ['' shell '']\<rparr>)"
  have "LoadConstitution ConstitutionMissing doc =
      Inr \<lparr>cb_Rules = [constitutionRule ''*'' ''secrets'' ActionHold ''constitution_hold:repo'' True,
        constitutionRule ''shell'' ''*'' ActionDeny ''constitution_deny:repo'' False],
        cb_Prompt = DefaultConstitutionPrompt, cb_Loaded = True, cb_UserPresent = False, cb_RepoPresent = True\<rparr>"
    unfolding doc_def by code_simp
  with constitution_accepted [OF this, of plainPolicy] show ?thesis unfolding doc_def by simp
qed

text \<open>
  The pattern \<open>*\<close> is read as \<^emph>\<open>every resource\<close> by the matcher, so a write glob \<open>*\<close> holds every invocation, reads
  included.
\<close>

lemma star_glob_holds_everything:
  "ruleMatches env (constitutionRule ''*'' ''*'' ActionHold code True) call"
  by (simp add: ruleMatches_def constitutionRule_def)

lemma star_glob_compiles:
  "globRules ''repo'' [''./*''] = Inr [constitutionRule ''*'' ''*'' ActionHold ''constitution_hold:repo'' True]"
  by code_simp

end
