(* ===== verification/Policy_Runtime.thy ===== *)
theory Policy_Runtime
  imports Policy_Decide Permission_Store
begin

text \<open>
  The policy runtime, \<open>src/internal/security/policy\<close>: sampling, the setters and rule sources of a
  \<open>Runtime\<close> (\<open>policy.go\<close>, \<open>sources.go\<close>, \<open>planning.go\<close>), \<open>Runtime_Validate\<close> and the fenced start of a process
  (\<open>admission.go\<close>). Every operation runs under the runtime's mutex, so a history is a sequence of
  operations; \<open>OpPublish\<close> is the bound source changing between two of them. A nil runtime is \<open>None\<close>.

  The properties say that rule lists stay valid, that the revision identifies the policy, and that a
  process only starts under the policy it was decided by.
\<close>

section \<open>Revisions\<close>

definition bumpRevision :: "Runtime \<Rightarrow> Runtime" where
  "bumpRevision r = r\<lparr>rt_Revision := (if rt_Revision r = 0 then 1 else rt_Revision r) + 1\<rparr>"

definition inheritAll :: Granular where
  "inheritAll = \<lparr>gn_Sandbox = SurfaceInherit, gn_Rules = SurfaceInherit, gn_Skills = SurfaceInherit, gn_MCP = SurfaceInherit\<rparr>"

definition DefaultRuntime :: "Mode \<Rightarrow> Permission \<Rightarrow> Runtime" where
  "DefaultRuntime mode permission =
     \<lparr>rt_userSource = None, rt_userSourceVersion = 0, rt_Revision = 1, rt_Mode = mode, rt_Permission = permission,
      rt_DisableHostExecution = False, rt_PlanningPolicy = PlanningOff, rt_PlanSubmitted = False,
      rt_DisableAutoReview = False, rt_ForceEditPlanApproval = False,
      rt_Grants = [\<lparr>ru_Tool = ''*'', ru_Resource = ''*'', ru_ResourcePath = [], ru_RequireWrite = False,
        ru_CommandPrefix = [], ru_GrantKey = [], ru_Action = ActionAllow, ru_Code = []\<rparr>],
      rt_User = [], rt_Repository = [], rt_Constitution = [], rt_Granular = inheritAll\<rparr>"

section \<open>Sampling\<close>

definition refreshUserRules :: "Runtime \<Rightarrow> Runtime" where
  "refreshUserRules r =
     (case rt_userSource r of
        None \<Rightarrow> r
      | Some source \<Rightarrow>
          (case us_since source (rt_userSourceVersion r) of
             (rules, version) \<Rightarrow>
               if version \<le> rt_userSourceVersion r then r
               else bumpRevision (r\<lparr>rt_User := rules, rt_userSourceVersion := version\<rparr>)))"

text \<open>The copy that \<open>CloneSampling\<close> makes: everything but the live source.\<close>

definition sampled :: "Runtime \<Rightarrow> Runtime" where
  "sampled r = r\<lparr>rt_userSource := None, rt_userSourceVersion := 0\<rparr>"

definition CloneSampling :: "Runtime \<Rightarrow> Runtime \<times> Runtime" where
  "CloneSampling r = (let r = refreshUserRules r in (sampled r, r))"

definition Decide :: "PolicyEnv \<Rightarrow> Runtime option \<Rightarrow> Invocation \<Rightarrow> Decision \<times> Runtime option" where
  "Decide env r i =
     (case r of
        None \<Rightarrow> (atLayer (deny ''policy_unavailable'' ''security runtime is required'') LayerInput, None)
      | Some r \<Rightarrow> (case CloneSampling r of (snapshot, r) \<Rightarrow> (decide env snapshot i, Some r)))"

definition PermissionValue :: "Runtime option \<Rightarrow> Permission \<times> Runtime option" where
  "PermissionValue r =
     (case r of
        None \<Rightarrow> (PermissionNever, None)
      | Some r \<Rightarrow> (case CloneSampling r of (snapshot, r) \<Rightarrow> (rt_Permission snapshot, Some r)))"

definition ManagedGrant :: "PolicyEnv \<Rightarrow> Runtime option \<Rightarrow> Invocation \<Rightarrow> Rule option \<times> Runtime option" where
  "ManagedGrant env r i =
     (case r of
        None \<Rightarrow> (None, None)
      | Some r \<Rightarrow> (case CloneSampling r of (snapshot, r) \<Rightarrow> (strongestMatch env (rt_Grants snapshot) i, Some r)))"

definition zeroAssessment :: Assessment where
  "zeroAssessment =
     \<lparr>as_input = \<lparr>ai_Binding = \<lparr>ab_Capability = CapabilityNone, ab_Access = AccessNone, ab_SandboxDeclared = False,
          ab_StrongSandbox = False, ab_Journaled = False, ab_Fixed = None, ab_PlanningExempt = False\<rparr>,
        ai_Declared = \<lparr>de_HostExecution = False, de_FullAccess = False, de_ReadOnly = False\<rparr>, ai_Resources = []\<rparr>,
      as_facets = \<lparr>fa_HostExecution = False, fa_FullAccess = False, fa_WritesWorkspace = False, fa_Egress = EgressNone,
        fa_Network = False, fa_LoopbackReach = False, fa_HostLocalTarget = False, fa_Process = False,
        fa_Agent = False, fa_PlanOnly = False, fa_StrongSandbox = False, fa_Journaled = False,
        fa_ReadOnlyDeclared = False, fa_PlanningExempt = False\<rparr>,
      as_effect = \<lparr>ef_Kind = EffectKindOther [], ef_Risk = RiskOther [], ef_Reversibility = ReversibilityOther []\<rparr>,
      as_rule = [], as_identity = []\<rparr>"

definition toolInvocation :: "string \<Rightarrow> Invocation" where
  "toolInvocation name =
     \<lparr>iv_CallID = [], iv_Tool = name, iv_Source = SourceOther [], iv_Arguments = [], iv_Assessment = zeroAssessment,
      iv_Approval = ApprovalUnset, iv_Validated = True, iv_Workspace = [], iv_Stage = StageCall,
      iv_GuardianRegistered = False, iv_Guardian = None\<rparr>"

definition AdvertisesTool :: "PolicyEnv \<Rightarrow> Runtime option \<Rightarrow> string \<Rightarrow> bool \<times> Runtime option" where
  "AdvertisesTool env r name =
     (if Option.is_none r \<or> name = [] then (True, r)
      else case ManagedGrant env r (toolInvocation name) of
        (None, r) \<Rightarrow> (True, r)
      | (Some grant, r) \<Rightarrow> (ru_Action grant \<noteq> ActionDeny \<and> ru_Action grant \<noteq> ActionHold, r))"

section \<open>Setters\<close>

fun permissionRank :: "Permission \<Rightarrow> nat option" where
  "permissionRank PermissionNever = Some 0"
| "permissionRank PermissionSuggest = Some 1"
| "permissionRank PermissionAuto = Some 2"
| "permissionRank PermissionBypass = Some 3"
| "permissionRank (PermissionOther _) = None"

definition TightenPermission :: "Permission \<Rightarrow> Permission \<Rightarrow> Permission" where
  "TightenPermission requested upper =
     (case (permissionRank requested, permissionRank upper) of
        (Some requestedRank, Some upperRank) \<Rightarrow> if requestedRank > upperRank then upper else requested
      | _ \<Rightarrow> PermissionNever)"

definition SetPermission :: "Permission \<Rightarrow> Runtime \<Rightarrow> Runtime" where
  "SetPermission p r = bumpRevision (r\<lparr>rt_Permission := p\<rparr>)"

definition SetPermissionWithinCeiling :: "Permission \<Rightarrow> Permission \<Rightarrow> Runtime \<Rightarrow> Runtime" where
  "SetPermissionWithinCeiling requested upper r =
     (let upper = (if upper = PermissionOther [] then rt_Permission r else upper) in
      bumpRevision (r\<lparr>rt_Permission := TightenPermission requested upper\<rparr>))"

definition SetGranular :: "Granular \<Rightarrow> Runtime \<Rightarrow> Runtime" where
  "SetGranular g r = bumpRevision (r\<lparr>rt_Granular := g\<rparr>)"

definition SetForceEditPlanApproval :: "bool \<Rightarrow> Runtime \<Rightarrow> Runtime" where
  "SetForceEditPlanApproval forced r =
     (if rt_ForceEditPlanApproval r = forced then r else bumpRevision (r\<lparr>rt_ForceEditPlanApproval := forced\<rparr>))"

definition SetDisableAutoReview :: "bool \<Rightarrow> Runtime \<Rightarrow> Runtime" where
  "SetDisableAutoReview disabled r =
     (if rt_DisableAutoReview r = disabled then r else bumpRevision (r\<lparr>rt_DisableAutoReview := disabled\<rparr>))"

definition ConfigurePlanning :: "PlanningPolicy \<Rightarrow> Runtime \<Rightarrow> Runtime" where
  "ConfigurePlanning planning r = bumpRevision (r\<lparr>rt_PlanningPolicy := planning, rt_PlanSubmitted := False\<rparr>)"

definition SubmitPlan :: "Runtime \<Rightarrow> Runtime" where
  "SubmitPlan r = bumpRevision (r\<lparr>rt_PlanSubmitted := True\<rparr>)"

definition ResetPlanState :: "Runtime \<Rightarrow> Runtime" where
  "ResetPlanState r = bumpRevision (r\<lparr>rt_PlanSubmitted := False\<rparr>)"

section \<open>Rule sources\<close>

definition AppendManagedRule :: "PolicyEnv \<Rightarrow> Rule \<Rightarrow> Runtime \<Rightarrow> RuleError + Runtime" where
  "AppendManagedRule env rule r =
     (case ValidateRules env SourceManaged [rule] of
        Some e \<Rightarrow> Inl e
      | None \<Rightarrow> Inr (bumpRevision (r\<lparr>rt_Grants := rt_Grants r @ [rule]\<rparr>)))"

definition BindUserRuleSource :: "RuleSource option \<Rightarrow> Runtime \<Rightarrow> Runtime" where
  "BindUserRuleSource source r = refreshUserRules (r\<lparr>rt_userSource := source, rt_userSourceVersion := 0\<rparr>)"

definition ReloadSources :: "PolicyEnv \<Rightarrow> Rule list \<Rightarrow> Rule list \<Rightarrow> Runtime \<Rightarrow> RuleError + Runtime" where
  "ReloadSources env user repository r =
     (case ValidateRules env SourceUser user of
        Some e \<Rightarrow> Inl e
      | None \<Rightarrow>
          (case ValidateRules env SourceRepository repository of
             Some e \<Rightarrow> Inl e
           | None \<Rightarrow> Inr (bumpRevision (r\<lparr>rt_userSource := None, rt_userSourceVersion := 0,
               rt_User := user, rt_Repository := repository\<rparr>))))"

definition SetConstitution :: "PolicyEnv \<Rightarrow> Rule list \<Rightarrow> Runtime \<Rightarrow> RuleError + Runtime" where
  "SetConstitution env rules r =
     (case ValidateRules env SourceConstitution rules of
        Some e \<Rightarrow> Inl e
      | None \<Rightarrow> Inr (bumpRevision (r\<lparr>rt_Constitution := rules\<rparr>)))"

definition AppendUserRule :: "PolicyEnv \<Rightarrow> Rule \<Rightarrow> Runtime \<Rightarrow> RuleError + Runtime" where
  "AppendUserRule env rule r =
     (case ValidateRules env SourceUser [rule] of
        Some e \<Rightarrow> Inl e
      | None \<Rightarrow> Inr (bumpRevision (r\<lparr>rt_User := rt_User r @ [rule]\<rparr>)))"

section \<open>Validation and planning texts\<close>

datatype RuntimeError =
  RuntimeRequired | ModeInvalid Decision | PermissionInvalid Decision | PlanningUnknown PlanningPolicy | RuleListInvalid RuleError

definition validatePlanning :: "PlanningPolicy \<Rightarrow> RuntimeError option" where
  "validatePlanning p =
     fail_if (p \<noteq> PlanningOff \<and> p \<noteq> PlanningAdaptive \<and> p \<noteq> PlanningRequired) (PlanningUnknown p)"

definition Runtime_Validate :: "PolicyEnv \<Rightarrow> Runtime option \<Rightarrow> RuntimeError option" where
  "Runtime_Validate env runtime =
     (case runtime of
        None \<Rightarrow> Some RuntimeRequired
      | Some r \<Rightarrow>
          let r = fst (CloneSampling r) in first_error
            [map_option ModeInvalid (validateMode (rt_Mode r)),
             (case permissionDecision (rt_Permission r) CapabilityRead
                 \<lparr>ef_Kind = WorkspaceRead, ef_Risk = RiskLow, ef_Reversibility = Reversible\<rparr> of
                Inl e \<Rightarrow> Some (PermissionInvalid e) | Inr _ \<Rightarrow> None),
             validatePlanning (rt_PlanningPolicy r),
             map_option RuleListInvalid (ValidateRules env SourceManaged (rt_Grants r)),
             map_option RuleListInvalid (ValidateRules env SourceUser (rt_User r)),
             map_option RuleListInvalid (ValidateRules env SourceRepository (rt_Repository r)),
             map_option RuleListInvalid (ValidateRules env SourceConstitution (rt_Constitution r))])"

fun planningName :: "PlanningPolicy \<Rightarrow> string" where
  "planningName PlanningOff = ''off''"
| "planningName PlanningAdaptive = ''adaptive''"
| "planningName PlanningRequired = ''required''"
| "planningName (PlanningOther s) = s"

record PlanningSnapshot =
  sn_Planning :: string
  sn_PlanSubmitted :: bool

definition planningSnapshot :: "Runtime option \<Rightarrow> PlanningSnapshot" where
  "planningSnapshot r =
     (case r of
        None \<Rightarrow> \<lparr>sn_Planning = [], sn_PlanSubmitted = False\<rparr>
      | Some r \<Rightarrow> \<lparr>sn_Planning = planningName (rt_PlanningPolicy r), sn_PlanSubmitted = rt_PlanSubmitted r\<rparr>)"

definition Guidance :: "PlanningSnapshot \<Rightarrow> string" where
  "Guidance s =
     (if sn_Planning s = [] \<or> sn_Planning s = ''off'' then []
      else ''- planning='' @ sn_Planning s @ '' submitted='' @ (if sn_PlanSubmitted s then ''true'' else ''false'') @ [CHR 0x0A] @
        (if sn_Planning s = ''required'' then ''- submit_plan is required before consequential actions''
         else ''- use submit_plan before complex or high-risk actions'') @ [CHR 0x0A])"

section \<open>Fenced start\<close>

datatype StartRefusal = PolicyUnavailable | PolicyChanged | SourceCannotFence | UserRulesChanged

text \<open>\<open>Started x\<close>: the callback ran and returned \<open>x\<close>.\<close>

datatype 'e StartResult = Refused StartRefusal | Started "'e option"

definition WithRevision :: "Runtime option \<Rightarrow> uint64 \<Rightarrow> 'e option \<Rightarrow> 'e StartResult \<times> Runtime option" where
  "WithRevision runtime revision start =
     (case runtime of
        None \<Rightarrow> (Refused PolicyUnavailable, None)
      | Some r \<Rightarrow>
          let r = refreshUserRules r in
          (if rt_Revision r \<noteq> revision then Refused PolicyChanged
           else case rt_userSource r of
             None \<Rightarrow> Started start
           | Some source \<Rightarrow>
               (case us_fence source of
                  None \<Rightarrow> Refused SourceCannotFence
                | Some fence \<Rightarrow> if fence (rt_userSourceVersion r) then Started start else Refused UserRulesChanged),
           Some r))"

text \<open>A permissions store as the bound source.\<close>

definition storeSource :: "PermissionsStore \<Rightarrow> RuleSource" where
  "storeSource s = \<lparr>us_since = UserRulesSince s, us_fence = Some (WithUserRulesVersion s)\<rparr>"

text \<open>
  The contract between the runtime and its rule source: while the fence holds, the source has nothing newer.
\<close>

locale fenced_source =
  fixes since :: "uint64 \<Rightarrow> Rule list \<times> uint64" and fence :: "uint64 \<Rightarrow> bool"
  assumes fenced: "fence v \<Longrightarrow> snd (since v) = v"
begin

lemma refresh_stable:
  assumes "rt_userSource r = Some \<lparr>us_since = since, us_fence = Some fence\<rparr>" "fence (rt_userSourceVersion r)"
  shows "refreshUserRules r = r"
  using assms fenced [OF assms(2)] by (auto simp: refreshUserRules_def split: prod.split)

end

interpretation store: fenced_source "UserRulesSince s" "WithUserRulesVersion s" for s
  by unfold_locales (auto simp: WithUserRulesVersion_def UserRulesSince_def split: option.splits)

section \<open>Histories\<close>

datatype RuntimeOp =
  OpSetPermission Permission | OpSetPermissionWithinCeiling Permission Permission | OpSetGranular Granular
  | OpSetForceEditPlanApproval bool | OpSetDisableAutoReview bool | OpConfigurePlanning PlanningPolicy | OpSubmitPlan
  | OpResetPlanState | OpAppendManagedRule Rule | OpAppendUserRule Rule | OpReloadSources "Rule list" "Rule list"
  | OpSetConstitution "Rule list" | OpBindUserRuleSource "RuleSource option" | OpSample | OpPublish RuleSource

text \<open>An operation that returns an error leaves the runtime alone.\<close>

definition orKeep :: "Runtime \<Rightarrow> 'e + Runtime \<Rightarrow> Runtime" where
  "orKeep r result = (case result of Inl _ \<Rightarrow> r | Inr r' \<Rightarrow> r')"

fun applyOp :: "PolicyEnv \<Rightarrow> RuntimeOp \<Rightarrow> Runtime \<Rightarrow> Runtime" where
  "applyOp env (OpSetPermission p) r = SetPermission p r"
| "applyOp env (OpSetPermissionWithinCeiling p c) r = SetPermissionWithinCeiling p c r"
| "applyOp env (OpSetGranular g) r = SetGranular g r"
| "applyOp env (OpSetForceEditPlanApproval b) r = SetForceEditPlanApproval b r"
| "applyOp env (OpSetDisableAutoReview b) r = SetDisableAutoReview b r"
| "applyOp env (OpConfigurePlanning p) r = ConfigurePlanning p r"
| "applyOp env OpSubmitPlan r = SubmitPlan r"
| "applyOp env OpResetPlanState r = ResetPlanState r"
| "applyOp env (OpAppendManagedRule rule) r = orKeep r (AppendManagedRule env rule r)"
| "applyOp env (OpAppendUserRule rule) r = orKeep r (AppendUserRule env rule r)"
| "applyOp env (OpReloadSources user repository) r = orKeep r (ReloadSources env user repository r)"
| "applyOp env (OpSetConstitution rules) r = orKeep r (SetConstitution env rules r)"
| "applyOp env (OpBindUserRuleSource source) r = BindUserRuleSource source r"
| "applyOp env OpSample r = refreshUserRules r"
| "applyOp env (OpPublish source) r = r\<lparr>rt_userSource := map_option (\<lambda>_. source) (rt_userSource r)\<rparr>"

definition runOps :: "PolicyEnv \<Rightarrow> RuntimeOp list \<Rightarrow> Runtime \<Rightarrow> Runtime" where
  "runOps env ops r = fold (applyOp env) ops r"

section \<open>The revision identifies the policy\<close>

lemma sampled_revision: "rt_Revision (sampled r) = rt_Revision r"
  by (simp add: sampled_def)

text \<open>What an operation may do: leave the policy and its revision alone, or move to the next revision.\<close>

definition moves :: "Runtime \<Rightarrow> Runtime \<Rightarrow> bool" where
  "moves r r' \<longleftrightarrow> sampled r' = sampled r \<or> rt_Revision r' = rt_Revision (bumpRevision r)"

lemma moves_bump: "rt_Revision r' = rt_Revision r \<Longrightarrow> moves r (bumpRevision r')"
  by (simp add: moves_def bumpRevision_def)

lemma moves_refl [simp]: "moves r r"
  by (simp add: moves_def)

lemma moves_refresh: "sampled r' = sampled r \<Longrightarrow> moves r (refreshUserRules r')"
  using sampled_revision [of r'] sampled_revision [of r]
  by (auto simp: refreshUserRules_def moves_def bumpRevision_def split: option.splits prod.splits)

lemma applyOp_moves: "moves r (applyOp env op r)"
proof (cases op)
  case (OpBindUserRuleSource source)
  then show ?thesis by (simp add: BindUserRuleSource_def moves_refresh sampled_def)
next
  case (OpPublish source)
  then show ?thesis by (simp add: moves_def sampled_def)
next
  case OpSample
  then show ?thesis by (simp add: moves_refresh)
qed (auto simp: SetPermission_def SetPermissionWithinCeiling_def SetGranular_def SetForceEditPlanApproval_def
    SetDisableAutoReview_def ConfigurePlanning_def SubmitPlan_def ResetPlanState_def AppendManagedRule_def
    AppendUserRule_def ReloadSources_def SetConstitution_def orKeep_def Let_def moves_bump split: option.splits)

definition level :: "Runtime \<Rightarrow> nat" where
  "level r = max 1 (unat (rt_Revision r))"

lemma bump_unat:
  assumes "level r + 1 < 2 ^ 64"
  shows "unat (rt_Revision (bumpRevision r)) = level r + 1"
proof (cases "rt_Revision r = 0")
  case False
  then have "level r = unat (rt_Revision r)" by (simp add: level_def Suc_leI word_gt_0 unat_gt_0 max_def)
  with assms False show ?thesis by (simp add: bumpRevision_def unat_word_ariths)
qed (simp add: level_def bumpRevision_def)

lemma runOps_Cons [simp]: "runOps env (op # ops) r = runOps env ops (applyOp env op r)"
  by (simp add: runOps_def)

lemma runOps_append: "runOps env (ops @ ops') r = runOps env ops' (runOps env ops r)"
  by (simp add: runOps_def)

lemma runOps_revision:
  assumes "level r + length ops < 2 ^ 64"
  shows "sampled (runOps env ops r) = sampled r \<or> unat (rt_Revision r) < unat (rt_Revision (runOps env ops r))"
  using assms
proof (induction ops arbitrary: r)
  case Nil
  then show ?case by (simp add: runOps_def)
next
  case (Cons op ops)
  define r' where "r' = applyOp env op r"
  have "moves r r'" by (simp add: r'_def applyOp_moves)
  then consider (same) "sampled r' = sampled r" | (bump) "rt_Revision r' = rt_Revision (bumpRevision r)"
    by (auto simp: moves_def)
  then show ?case
  proof cases
    case same
    then have rev: "rt_Revision r' = rt_Revision r" using sampled_revision by metis
    then have "level r' + length ops < 2 ^ 64" using Cons.prems by (simp add: level_def)
    from Cons.IH [OF this] show ?thesis using same rev by (simp add: r'_def)
  next
    case bump
    have up: "unat (rt_Revision r') = level r + 1" using Cons.prems by (simp add: bump bump_unat)
    then have "level r' + length ops < 2 ^ 64" using Cons.prems by (simp add: level_def)
    from Cons.IH [OF this] have "unat (rt_Revision r') \<le> unat (rt_Revision (runOps env ops r'))"
      using sampled_revision by (metis less_imp_le order_refl)
    with up show ?thesis by (auto simp: r'_def level_def)
  qed
qed

text \<open>
  C26. The revision identifies the policy: after any operations, rejected ones and samplings of a changing
  rule source included, a runtime whose revision is unchanged decides by exactly the same policy. The
  revision is a 64-bit counter, so the statement stops at $2^{64}$ changes.
\<close>

theorem revision_identifies_policy:
  assumes "max 1 (unat (rt_Revision r)) + length ops < 2 ^ 64" "rt_Revision (runOps env ops r) = rt_Revision r"
  shows "sampled (runOps env ops r) = sampled r \<and>
    decide env (sampled (runOps env ops r)) i = decide env (sampled r) i"
  using runOps_revision [of r ops env] assms by (auto simp: level_def)

text \<open>A rule without a tool, which every authority refuses.\<close>

definition refusedRule :: Rule where
  "refusedRule = entryRule ActionAllow
     \<lparr>en_Tool = [], en_Resource = [], en_CommandPrefix = [], en_GrantKey = [], en_Code = []\<rparr>"

theorem revision_identifies_policy_witness:
  "sampled (runOps plainPolicy [OpSetDisableAutoReview False, OpAppendUserRule refusedRule]
     (DefaultRuntime ModeAct PermissionAuto)) = sampled (DefaultRuntime ModeAct PermissionAuto)"
proof -
  define ops where "ops = [OpSetDisableAutoReview False, OpAppendUserRule refusedRule]"
  have one: "rt_Revision (DefaultRuntime ModeAct PermissionAuto) = 1" by (simp add: DefaultRuntime_def)
  have "rt_Revision (runOps plainPolicy ops (DefaultRuntime ModeAct PermissionAuto)) = 1" unfolding ops_def by code_simp
  moreover have "length ops = 2" by (simp add: ops_def)
  ultimately show ?thesis
    using revision_identifies_policy [of "DefaultRuntime ModeAct PermissionAuto" ops plainPolicy]
    unfolding one ops_def [symmetric] by simp
qed


text \<open>A runtime bound to a permissions store that publishes one rule.\<close>

definition publishedStore :: PermissionsStore where
  "publishedStore = \<lparr>ps_Path = ''/d/permissions.toml'', ps_snapshot = Some ([constitutionRule ''shell'' [] ActionAsk [] False], 1)\<rparr>"


section \<open>Valid rules\<close>

definition publishesValid :: "PolicyEnv \<Rightarrow> RuleSource \<Rightarrow> bool" where
  "publishesValid env source \<longleftrightarrow> (\<forall>version. ValidateRules env SourceUser (fst (us_since source version)) = None)"

definition rulesValid :: "PolicyEnv \<Rightarrow> Runtime \<Rightarrow> bool" where
  "rulesValid env r \<longleftrightarrow>
     ValidateRules env SourceManaged (rt_Grants r) = None \<and> ValidateRules env SourceUser (rt_User r) = None \<and>
     ValidateRules env SourceRepository (rt_Repository r) = None \<and>
     ValidateRules env SourceConstitution (rt_Constitution r) = None \<and>
     (\<forall>source. rt_userSource r = Some source \<longrightarrow> publishesValid env source)"

text \<open>Runtimes made by \<open>DefaultRuntime\<close> and changed by operations whose sources publish validated rules.\<close>

fun soundOp :: "PolicyEnv \<Rightarrow> RuntimeOp \<Rightarrow> bool" where
  "soundOp env (OpBindUserRuleSource (Some source)) = publishesValid env source"
| "soundOp env (OpPublish source) = publishesValid env source"
| "soundOp env _ = True"

inductive reachable :: "PolicyEnv \<Rightarrow> Runtime \<Rightarrow> bool" for env where
  start: "reachable env (DefaultRuntime mode permission)"
| step: "reachable env r \<Longrightarrow> soundOp env op \<Longrightarrow> reachable env (applyOp env op r)"

lemma ValidateRules_append:
  assumes "source \<in> {SourceManaged, SourceUser, SourceRepository, SourceConstitution}"
  shows "ValidateRules env source (xs @ ys) = None \<longleftrightarrow>
    ValidateRules env source xs = None \<and> ValidateRules env source ys = None"
  by (simp add: ValidateRules_None [OF assms])

lemma rulesValid_bump [simp]: "rulesValid env (bumpRevision r) = rulesValid env r"
  by (simp add: rulesValid_def bumpRevision_def)

lemma rulesValid_refresh:
  assumes "rulesValid env r"
  shows "rulesValid env (refreshUserRules r)"
proof (cases "rt_userSource r")
  case (Some source)
  then have "ValidateRules env SourceUser (fst (us_since source (rt_userSourceVersion r))) = None"
    using assms by (simp add: rulesValid_def publishesValid_def)
  with assms Some show ?thesis by (auto simp: refreshUserRules_def rulesValid_def bumpRevision_def split: prod.splits)
qed (use assms in \<open>simp add: refreshUserRules_def\<close>)

lemma rulesValid_step:
  assumes "rulesValid env r" "soundOp env op"
  shows "rulesValid env (applyOp env op r)"
proof (cases op)
  case (OpBindUserRuleSource source)
  have "rulesValid env (r\<lparr>rt_userSource := source, rt_userSourceVersion := 0\<rparr>)"
    using assms OpBindUserRuleSource by (cases source) (auto simp: rulesValid_def)
  then show ?thesis by (simp add: OpBindUserRuleSource BindUserRuleSource_def rulesValid_refresh)
next
  case OpSample
  then show ?thesis using assms(1) by (simp add: rulesValid_refresh)
next
  case (OpPublish source)
  then show ?thesis using assms by (auto simp: rulesValid_def)
qed (use assms(1) in \<open>auto simp: SetPermission_def SetPermissionWithinCeiling_def SetGranular_def SetForceEditPlanApproval_def
    SetDisableAutoReview_def ConfigurePlanning_def SubmitPlan_def ResetPlanState_def AppendManagedRule_def
    AppendUserRule_def ReloadSources_def SetConstitution_def orKeep_def Let_def rulesValid_def bumpRevision_def ValidateRules_append
    split: option.splits\<close>)

lemma rulesValid_default: "rulesValid env (DefaultRuntime mode permission)"
  by (simp add: rulesValid_def DefaultRuntime_def ValidateRules_None ruleFault_def validateRuleResource_def)

lemma reachable_valid: "reachable env r \<Longrightarrow> rulesValid env r"
  by (induction rule: reachable.induct) (simp_all add: rulesValid_default rulesValid_step)

text \<open>A store publishes validated rules after \<open>OpenPermissionsStore\<close> and after a successful \<open>AppendAllow\<close>.\<close>

lemma storeSource_valid:
  assumes "\<And>rules version. ps_snapshot s = Some (rules, version) \<Longrightarrow> ValidateRules env SourceUser rules = None"
  shows "publishesValid env (storeSource s)"
proof -
  have "ValidateRules env SourceUser [] = None" by (simp add: ValidateRules_def)
  with assms show ?thesis
    by (auto simp: publishesValid_def storeSource_def UserRulesSince_def split: option.split)
qed

lemma opened_store_valid: "OpenPermissionsStore env path file = Inr s \<Longrightarrow> publishesValid env (storeSource s)"
  by (rule storeSource_valid)
    (auto simp: OpenPermissionsStore_def bindR_Inr_iff dest!: LoadPermissions_compiles compilePermissions_valid)

lemma appended_store_valid:
  assumes "AppendAllow env s file written call = (Inr rule, s', file')"
  shows "publishesValid env (storeSource s')"
proof (rule storeSource_valid)
  fix rules version assume snap: "ps_snapshot s' = Some (rules, version)"
  obtain b where b: "AppendPermissionAllow env (ps_Path s) file written rule = (Inr b, file')" "rules = pb_Rules b"
    using assms snap by (auto simp: AppendAllow_def split: sum.splits prod.splits option.splits if_splits)
  from compilePermissions_valid [OF AppendPermissionAllow_Inr(3) [OF b(1)]] b(2)
  show "ValidateRules env SourceUser rules = None" by simp
qed

text \<open>
  C27. The rule lists of a runtime stay valid: from the default runtime, through any accepted or refused
  change and any sampling of a source that publishes validated rules, \<open>Runtime_Validate\<close> can only object to the
  mode, the permission or the planning policy. In particular a repository rule never allows, and
  a constitution rule only denies or holds.
\<close>

theorem rules_stay_valid:
  assumes "reachable env r"
  shows "(Runtime_Validate env (Some r) = None \<longleftrightarrow>
       rt_Mode r = ModeAct \<and> rt_Permission r \<in> {PermissionSuggest, PermissionAuto, PermissionBypass, PermissionNever} \<and>
       rt_PlanningPolicy r \<in> {PlanningOff, PlanningAdaptive, PlanningRequired}) \<and>
    list_all (\<lambda>rule. ru_Action rule \<noteq> ActionAllow) (rt_Repository r) \<and>
    list_all (\<lambda>rule. ru_Action rule = ActionDeny \<or> ru_Action rule = ActionHold) (rt_Constitution r)"
proof -
  note valid = reachable_valid [OF assms] rulesValid_refresh [OF reachable_valid [OF assms]]
  define r' where "r' = refreshUserRules r"
  have kept: "rt_Mode r' = rt_Mode r" "rt_Permission r' = rt_Permission r" "rt_PlanningPolicy r' = rt_PlanningPolicy r"
    by (auto simp: r'_def refreshUserRules_def bumpRevision_def split: option.splits prod.splits)
  have "Runtime_Validate env (Some r) = None \<longleftrightarrow> validateMode (rt_Mode r) = None \<and>
      (\<exists>a. permissionDecision (rt_Permission r) CapabilityRead
        \<lparr>ef_Kind = WorkspaceRead, ef_Risk = RiskLow, ef_Reversibility = Reversible\<rparr> = Inr a) \<and>
      validatePlanning (rt_PlanningPolicy r) = None"
    using valid(2) by (auto simp: Runtime_Validate_def CloneSampling_def Let_def sampled_def kept rulesValid_def r'_def [symmetric]
        split: sum.splits)
  moreover have "list_all (\<lambda>rule. ruleFault env SourceRepository rule = None) (rt_Repository r)"
    "list_all (\<lambda>rule. ruleFault env SourceConstitution rule = None) (rt_Constitution r)"
    using valid(1) by (auto simp: rulesValid_def ValidateRules_None)
  ultimately show ?thesis
    by (auto simp: validateMode_def permissionDecision_def validatePlanning_def ruleFault_def list_all_iff)
qed

theorem rules_stay_valid_witness:
  "Runtime_Validate plainPolicy (Some (applyOp plainPolicy (OpAppendUserRule refusedRule) (DefaultRuntime ModeAct PermissionAuto))) = None"
proof -
  have "reachable plainPolicy (applyOp plainPolicy (OpAppendUserRule refusedRule) (DefaultRuntime ModeAct PermissionAuto))"
    by (intro reachable.intros) simp
  from rules_stay_valid [OF this] show ?thesis
    by (auto simp: orKeep_def AppendUserRule_def bumpRevision_def DefaultRuntime_def split: option.splits)
qed

section \<open>Ceilings\<close>

text \<open>\<open>TightenPermission\<close> is the meet of the order of ranks, and unknown values are the least one.\<close>

lemma TightenPermission_meet:
  assumes "permissionRank p = Some m" "permissionRank q = Some n"
  shows "permissionRank (TightenPermission p q) = Some (min m n)"
  using assms by (auto simp: TightenPermission_def)

lemma TightenPermission_unknown:
  "permissionRank p = None \<or> permissionRank q = None \<Longrightarrow> TightenPermission p q = PermissionNever"
  by (auto simp: TightenPermission_def split: option.splits)

text \<open>
  The rank is not the order of what the postures allow: \<open>never\<close>, the least rank, lets a read-only process of any
  risk pass, which \<open>suggest\<close> asks about and denies when the risk is critical.
\<close>

lemma never_allows_more:
  "permissionDecision PermissionNever CapabilityProcess
     \<lparr>ef_Kind = ProcessReadOnly, ef_Risk = RiskHigh, ef_Reversibility = Bounded\<rparr> = Inr ActionAllow"
  "permissionDecision PermissionSuggest CapabilityProcess
     \<lparr>ef_Kind = ProcessReadOnly, ef_Risk = RiskHigh, ef_Reversibility = Bounded\<rparr> = Inr ActionAsk"
  by (simp_all add: permissionDecision_def)

end
