(* ===== verification/Approval_Cache.thy ===== *)
theory Approval_Cache
  imports Policy_Rules
begin

text \<open>
  Cached approvals, \<open>src/internal/security/policy/approval.go\<close>: the request an approval answers, its
  fingerprints, and the cache with its one-time entries, reusable grants, expiry and bound.

  The text of a time (\<open>ae_time\<close>) and the order in which a Go map is ranged over (\<open>ae_order\<close>, assumed to list every
  key once: \<open>rangesAll\<close>) are the fields of \<open>ApprovalEnv\<close>. The mutex makes every method one step.

  The properties say when a cached approval answers an invocation, that a one-time approval
  answers at most one, and that the cache stays within its limit.
\<close>

section \<open>Requests\<close>

datatype ApprovalScope = ApprovalOnce | ApprovalSession | ApprovalAlways | ApprovalScopeOther string

record approvalEntry =
  ae_expiresAt :: Time
  ae_once :: bool
  ae_baseFingerprint :: string
  ae_sequence :: uint64
  ae_prefix :: "string list"
  ae_scope :: string

type_synonym Entries = "(string, approvalEntry) fmap"

record ApprovalEnv =
  ae_policy :: PolicyEnv
  ae_time :: "Time \<Rightarrow> string"
  ae_order :: "Entries \<Rightarrow> string list"

record ApprovalRequest =
  aq_CallID :: string
  aq_Tool :: string
  aq_Arguments :: string
  aq_ArgumentsDigest :: string
  aq_Resources :: "Resource list"
  aq_Scope :: ApprovalScope
  aq_Fingerprint :: string
  aq_ExpiresAt :: Time
  aq_Grant :: "Grant option"

fun scopeName :: "ApprovalScope \<Rightarrow> string" where
  "scopeName ApprovalOnce = ''once''"
| "scopeName ApprovalSession = ''session''"
| "scopeName ApprovalAlways = ''always''"
| "scopeName (ApprovalScopeOther s) = s"

definition sortedResources :: "PolicyEnv \<Rightarrow> Resource list \<Rightarrow> Resource list" where
  "sortedResources env rs = compactBy (Resource_Key (pe_net env)) (sort_key (Resource_Key (pe_net env)) rs)"

definition approvalBaseFingerprint :: "ApprovalEnv \<Rightarrow> ApprovalRequest \<Rightarrow> string" where
  "approvalBaseFingerprint env q =
     (let p = ae_policy env in
      case pe_canonicalJSON p (aq_Arguments q) of
        None \<Rightarrow> []
      | Some arguments \<Rightarrow>
          pe_sha256 p (fingerprint ([aq_Tool q, arguments] @ map (pe_resourceJSON p) (sortedResources p (aq_Resources q)) @
            (case aq_Grant q of None \<Rightarrow> [] | Some g \<Rightarrow> [gr_Kind g, gr_Key g, gr_Summary g]))))"

definition approvalFingerprint :: "ApprovalEnv \<Rightarrow> ApprovalRequest \<Rightarrow> string" where
  "approvalFingerprint env q =
     pe_sha256 (ae_policy env)
       (fingerprint [approvalBaseFingerprint env q, scopeName (aq_Scope q), ae_time env (aq_ExpiresAt q)])"

definition NewApprovalRequestForScope ::
  "ApprovalEnv \<Rightarrow> Invocation \<Rightarrow> ApprovalScope \<Rightarrow> Time \<Rightarrow> ApprovalRequest option" where
  "NewApprovalRequestForScope env call scope expiresAt =
     (let p = ae_policy env in
      if \<not> Assessment_Valid (iv_Assessment call) then None
      else case pe_canonicalJSON p (iv_Arguments call) of
        None \<Rightarrow> None
      | Some arguments \<Rightarrow>
          let q = \<lparr>aq_CallID = iv_CallID call, aq_Tool = iv_Tool call, aq_Arguments = arguments,
                   aq_ArgumentsDigest = pe_sha256 p arguments, aq_Resources = sortedResources p (iv_Resources call),
                   aq_Scope = scope, aq_Fingerprint = [], aq_ExpiresAt = expiresAt, aq_Grant = GrantForInvocation p call\<rparr> in
          Some (q\<lparr>aq_Fingerprint := approvalFingerprint env q\<rparr>))"

definition NewApprovalRequest :: "ApprovalEnv \<Rightarrow> Invocation \<Rightarrow> Time \<Rightarrow> ApprovalRequest option" where
  "NewApprovalRequest env call expiresAt = NewApprovalRequestForScope env call ApprovalOnce expiresAt"

section \<open>The cache\<close>

record ApprovalCache =
  ac_entries :: Entries
  ac_grantKeys :: Entries
  ac_limit :: int
  ac_next :: uint64

definition defaultApprovalCacheLimit :: int where
  "defaultApprovalCacheLimit = 1024"

definition NewApprovalCacheWithLimit :: "int \<Rightarrow> ApprovalCache" where
  "NewApprovalCacheWithLimit limit =
     \<lparr>ac_entries = fmempty, ac_grantKeys = fmempty, ac_limit = (if limit < 1 then 1 else limit), ac_next = 0\<rparr>"

definition NewApprovalCache :: ApprovalCache where
  "NewApprovalCache = NewApprovalCacheWithLimit defaultApprovalCacheLimit"

definition approvalExpired :: "approvalEntry \<Rightarrow> Time \<Rightarrow> bool" where
  "approvalExpired e now \<longleftrightarrow> ae_expiresAt e \<noteq> 0 \<and> \<not> ae_expiresAt e > now"

text \<open>One pass of \<open>pruneApprovalEntries\<close>: the key with the least sequence number.\<close>

fun oldestFrom :: "Entries \<Rightarrow> string \<Rightarrow> uint64 \<Rightarrow> string list \<Rightarrow> string" where
  "oldestFrom m oldestKey oldestSequence [] = oldestKey"
| "oldestFrom m oldestKey oldestSequence (k # ks) =
     (case fmlookup m k of
        None \<Rightarrow> oldestFrom m oldestKey oldestSequence ks
      | Some v \<Rightarrow>
          if oldestKey = [] \<or> ae_sequence v < oldestSequence then oldestFrom m k (ae_sequence v) ks
          else oldestFrom m oldestKey oldestSequence ks)"

text \<open>
  The loop of \<open>pruneApprovalEntries\<close> ends because every round deletes a key of the map; the model stops as
  well if a round deleted nothing, which \<open>prune_bound\<close> excludes.
\<close>

lemma length_keys: "length (keys m) = card (fmdom' m)"
  by (simp add: keys_def)

lemma length_keys_drop: "k \<in> fmdom' m \<Longrightarrow> length (keys (fmdrop k m)) < length (keys m)"
  unfolding length_keys fmdom'_drop by (rule card_Diff1_less) simp_all

function pruneApprovalEntries :: "(Entries \<Rightarrow> string list) \<Rightarrow> Entries \<Rightarrow> int \<Rightarrow> Entries" where
  "pruneApprovalEntries order m limit =
     (if int (length (keys m)) \<le> limit then m
      else let k = oldestFrom m [] 0 (order m) in
        if k \<in> fmdom' m then pruneApprovalEntries order (fmdrop k m) limit else m)"
  by pat_completeness auto
termination
  by (relation "measure (\<lambda>(order, m, limit). length (keys m))") (simp_all add: length_keys_drop)

declare pruneApprovalEntries.simps [simp del]

datatype AddError = FingerprintMismatch | ScopeInvalid | GrantRequired

definition Add :: "ApprovalEnv \<Rightarrow> ApprovalCache \<Rightarrow> ApprovalRequest \<Rightarrow> ApprovalScope \<Rightarrow> AddError option \<times> ApprovalCache" where
  "Add env c request scope =
     (if aq_Fingerprint request = [] \<or> aq_Fingerprint request \<noteq> approvalFingerprint env request then
        (Some FingerprintMismatch, c)
      else if scope \<noteq> ApprovalOnce \<and> scope \<noteq> ApprovalSession \<and> scope \<noteq> ApprovalAlways then (Some ScopeInvalid, c)
      else
        let limit = (if ac_limit c < 1 then defaultApprovalCacheLimit else ac_limit c);
            next = ac_next c + 1;
            request = request\<lparr>aq_Scope := scope\<rparr>;
            request = request\<lparr>aq_Fingerprint := approvalFingerprint env request\<rparr>;
            entry = \<lparr>ae_expiresAt = aq_ExpiresAt request, ae_once = (scope = ApprovalOnce),
                     ae_baseFingerprint = approvalBaseFingerprint env request, ae_sequence = next, ae_prefix = [], ae_scope = []\<rparr>;
            c = c\<lparr>ac_limit := limit, ac_next := next,
                  ac_entries := fmupd (aq_Fingerprint request) entry (ac_entries c)\<rparr>;
            prune = (\<lambda>c. c\<lparr>ac_entries := pruneApprovalEntries (ae_order env) (ac_entries c) limit,
                            ac_grantKeys := pruneApprovalEntries (ae_order env) (ac_grantKeys c) limit\<rparr>) in
        if scope = ApprovalSession \<or> scope = ApprovalAlways then
          (case aq_Grant request of
             None \<Rightarrow> (Some GrantRequired, c)
           | Some grant \<Rightarrow>
               if gr_Key grant = [] then (Some GrantRequired, c)
               else (None, prune (c\<lparr>ac_grantKeys := fmupd (gr_Key grant)
                      \<lparr>ae_expiresAt = aq_ExpiresAt request, ae_once = False, ae_baseFingerprint = [], ae_sequence = next,
                       ae_prefix = gr_Prefix grant, ae_scope = gr_scope grant\<rparr> (ac_grantKeys c)\<rparr>)))
        else (None, prune c))"

section \<open>Matching\<close>

text \<open>
  The loops over the two maps: expired entries are deleted on the way, and the first live entry that
  satisfies \<open>P\<close> ends the loop.
\<close>

fun sweep :: "(approvalEntry \<Rightarrow> bool) \<Rightarrow> Time \<Rightarrow> string list \<Rightarrow> Entries \<Rightarrow> (string \<times> approvalEntry) option \<times> Entries" where
  "sweep P now [] m = (None, m)"
| "sweep P now (k # ks) m =
     (case fmlookup m k of
        None \<Rightarrow> sweep P now ks m
      | Some e \<Rightarrow>
          if approvalExpired e now then sweep P now ks (fmdrop k m)
          else if \<not> P e then sweep P now ks m
          else (Some (k, e), m))"

definition matchInvocationExact :: "ApprovalEnv \<Rightarrow> ApprovalCache \<Rightarrow> Invocation \<Rightarrow> Time \<Rightarrow> bool \<times> ApprovalCache" where
  "matchInvocationExact env c call now =
     (case NewApprovalRequestForScope env call ApprovalOnce 0 of
        None \<Rightarrow> (False, c)
      | Some request \<Rightarrow>
          (case sweep (\<lambda>e. ae_baseFingerprint e = approvalBaseFingerprint env request) now
              (ae_order env (ac_entries c)) (ac_entries c) of
             (None, m) \<Rightarrow> (False, c\<lparr>ac_entries := m\<rparr>)
           | (Some (k, e), m) \<Rightarrow> (True, c\<lparr>ac_entries := if ae_once e then fmdrop k m else m\<rparr>)))"

definition coversGrant :: "Grant \<Rightarrow> approvalEntry \<Rightarrow> bool" where
  "coversGrant grant e \<longleftrightarrow> ae_prefix e \<noteq> [] \<and> ae_scope e = gr_scope grant \<and> argvPrefix (gr_Prefix grant) (ae_prefix e)"

text \<open>\<open>matchGrant\<close> after the exact key has missed: \<open>m\<close> are the grants without an expired entry of that key.\<close>

definition matchPrefixes :: "ApprovalEnv \<Rightarrow> ApprovalCache \<Rightarrow> Grant \<Rightarrow> Time \<Rightarrow> Entries \<Rightarrow> bool \<times> ApprovalCache" where
  "matchPrefixes env c grant now m =
     (if gr_Prefix grant = [] then (False, c\<lparr>ac_grantKeys := m\<rparr>)
      else case sweep (coversGrant grant) now (ae_order env m) m of (found, m) \<Rightarrow> (found \<noteq> None, c\<lparr>ac_grantKeys := m\<rparr>))"

definition matchGrant :: "ApprovalEnv \<Rightarrow> ApprovalCache \<Rightarrow> Invocation \<Rightarrow> Time \<Rightarrow> bool \<times> ApprovalCache" where
  "matchGrant env c call now =
     (case GrantForInvocation (ae_policy env) call of
        None \<Rightarrow> (False, c)
      | Some grant \<Rightarrow>
          (case fmlookup (ac_grantKeys c) (gr_Key grant) of
             None \<Rightarrow> matchPrefixes env c grant now (ac_grantKeys c)
           | Some e \<Rightarrow>
               if \<not> approvalExpired e now then (True, c)
               else matchPrefixes env c grant now (fmdrop (gr_Key grant) (ac_grantKeys c))))"

definition MatchInvocation :: "ApprovalEnv \<Rightarrow> ApprovalCache \<Rightarrow> Invocation \<Rightarrow> Time \<Rightarrow> bool \<times> ApprovalCache" where
  "MatchInvocation env c call now =
     (case matchInvocationExact env c call now of
        (True, c) \<Rightarrow> (True, c)
      | (False, c) \<Rightarrow> matchGrant env c call now)"

definition Purge :: "ApprovalCache \<Rightarrow> Time \<Rightarrow> ApprovalCache" where
  "Purge c now =
     (let live = (\<lambda>m. fmfilter (\<lambda>k. case fmlookup m k of None \<Rightarrow> False | Some e \<Rightarrow> \<not> approvalExpired e now) m) in
      c\<lparr>ac_entries := live (ac_entries c), ac_grantKeys := live (ac_grantKeys c)\<rparr>)"

section \<open>The order of iteration\<close>

definition rangesAll :: "(Entries \<Rightarrow> string list) \<Rightarrow> bool" where
  "rangesAll order \<longleftrightarrow> (\<forall>m. set (order m) = fmdom' m)"

lemma rangesAll_keys: "rangesAll keys"
  by (simp add: rangesAll_def)

lemma rangesAll_dom: "rangesAll order \<Longrightarrow> k \<in> set (order m) \<longleftrightarrow> fmlookup m k \<noteq> None"
  by (auto simp: rangesAll_def fmlookup_dom'_iff)

section \<open>What answers an invocation\<close>

text \<open>A map holds a live entry that satisfies \<open>P\<close>.\<close>

definition live :: "Time \<Rightarrow> (approvalEntry \<Rightarrow> bool) \<Rightarrow> Entries \<Rightarrow> bool" where
  "live now P m \<longleftrightarrow> (\<exists>k e. fmlookup m k = Some e \<and> \<not> approvalExpired e now \<and> P e)"

text \<open>A map with some entries taken away.\<close>

definition within :: "Entries \<Rightarrow> Entries \<Rightarrow> bool" where
  "within m' m \<longleftrightarrow> (\<forall>k e. fmlookup m' k = Some e \<longrightarrow> fmlookup m k = Some e)"

lemma within_refl [simp]: "within m m"
  by (simp add: within_def)

lemma within_drop [simp]: "within (fmdrop k m) m"
  by (simp add: within_def)

lemma within_trans [trans]: "within a b \<Longrightarrow> within b c \<Longrightarrow> within a c"
  by (simp add: within_def)

lemma sweep_within: "within (snd (sweep P now ks m)) m"
proof (induction ks arbitrary: m)
  case (Cons k ks)
  then show ?case using within_trans [OF Cons.IH [of "fmdrop k m"] within_drop] by (simp split: option.split)
qed simp

lemma sweep_found:
  assumes "sweep P now ks m = (Some (k, e), m')"
  shows "fmlookup m' k = Some e" "\<not> approvalExpired e now" "P e"
  using assms by (induction ks arbitrary: m) (auto split: option.splits if_splits)

lemma sweep_missed:
  assumes "sweep P now ks m = (None, m')" "k \<in> set ks" "fmlookup m k = Some e" "\<not> approvalExpired e now"
  shows "\<not> P e"
  using assms
proof (induction ks arbitrary: m)
  case (Cons x ks)
  show ?case
  proof (cases "x = k")
    case True
    with Cons.prems show ?thesis by (auto split: if_splits)
  next
    case False
    with Cons.prems Cons.IH [of m] Cons.IH [of "fmdrop x m"] show ?thesis by (auto split: option.splits if_splits)
  qed
qed simp

lemma sweep_live:
  assumes "rangesAll order"
  shows "fst (sweep P now (order m) m) \<noteq> None \<longleftrightarrow> live now P m"
proof (cases "sweep P now (order m) m")
  case (Pair found m')
  show ?thesis
  proof (cases found)
    case None
    with Pair sweep_missed [of P now "order m" m m'] rangesAll_dom [OF assms, of _ m] show ?thesis
      by (auto simp: live_def)
  next
    case (Some ke)
    obtain k e where ke: "ke = (k, e)" by (cases ke)
    note found = sweep_found [OF Pair [unfolded Some ke]]
    have "fmlookup m k = Some e" using sweep_within [of P now "order m" m] Pair found(1) by (simp add: within_def)
    with found Pair Some show ?thesis by (auto simp: live_def)
  qed
qed

lemma live_drop_expired:
  assumes "fmlookup m k = Some e" "approvalExpired e now"
  shows "live now P (fmdrop k m) = live now P m"
proof -
  have "fmlookup (fmdrop k m) k' = Some e' \<and> \<not> approvalExpired e' now \<longleftrightarrow>
      fmlookup m k' = Some e' \<and> \<not> approvalExpired e' now" for k' e'
    using assms by auto
  then show ?thesis unfolding live_def by blast
qed

text \<open>
  C29. When a cached approval answers an invocation: exactly when the cache holds an unexpired approval of the
  same tool, arguments, resources and grant, an unexpired reusable grant with the invocation's grant
  key, or an unexpired reusable command grant of the same scope whose argument vector the invocation's
  command extends. The order in which the maps are ranged over does not matter.
\<close>

theorem approval_match_exact:
  assumes "rangesAll (ae_order env)"
  shows "fst (MatchInvocation env c call now) \<longleftrightarrow>
    (\<exists>request. NewApprovalRequestForScope env call ApprovalOnce 0 = Some request \<and>
       live now (\<lambda>e. ae_baseFingerprint e = approvalBaseFingerprint env request) (ac_entries c)) \<or>
    (\<exists>grant. GrantForInvocation (ae_policy env) call = Some grant \<and>
       ((\<exists>e. fmlookup (ac_grantKeys c) (gr_Key grant) = Some e \<and> \<not> approvalExpired e now) \<or>
        gr_Prefix grant \<noteq> [] \<and> live now (coversGrant grant) (ac_grantKeys c)))"
proof -
  have exact: "fst (matchInvocationExact env c call now) \<longleftrightarrow>
      (\<exists>request. NewApprovalRequestForScope env call ApprovalOnce 0 = Some request \<and>
         live now (\<lambda>e. ae_baseFingerprint e = approvalBaseFingerprint env request) (ac_entries c))"
    by (auto simp: matchInvocationExact_def sweep_live [OF assms, symmetric] split: option.splits prod.splits)
  have keeps: "ac_grantKeys (snd (matchInvocationExact env c call now)) = ac_grantKeys c"
    by (auto simp: matchInvocationExact_def split: option.splits prod.splits)
  have prefixes: "fst (matchPrefixes env d grant now m) \<longleftrightarrow> gr_Prefix grant \<noteq> [] \<and> live now (coversGrant grant) m" for d grant m
    by (auto simp: matchPrefixes_def sweep_live [OF assms, symmetric] split: prod.splits)
  have grants: "fst (matchGrant env d call now) \<longleftrightarrow>
      (\<exists>grant. GrantForInvocation (ae_policy env) call = Some grant \<and>
         ((\<exists>e. fmlookup (ac_grantKeys d) (gr_Key grant) = Some e \<and> \<not> approvalExpired e now) \<or>
          gr_Prefix grant \<noteq> [] \<and> live now (coversGrant grant) (ac_grantKeys d)))" for d
    by (auto simp: matchGrant_def prefixes live_drop_expired split: option.splits)
  show ?thesis
    using exact grants [of "snd (matchInvocationExact env c call now)"]
    by (auto simp: MatchInvocation_def keeps split: prod.splits bool.splits)
qed

text \<open>An environment whose hash is constant and whose maps are ranged over in key order.\<close>

definition approvalEnv :: ApprovalEnv where
  "approvalEnv = \<lparr>ae_policy = plainPolicy\<lparr>pe_sha256 := (\<lambda>s. ''h'')\<rparr>, ae_time = (\<lambda>t. []), ae_order = keys\<rparr>"

lemma approvalEnv_simps [simp]:
  "pe_sha256 (ae_policy approvalEnv) x = ''h''" "rangesAll (ae_order approvalEnv)"
  "pe_canonicalJSON (ae_policy approvalEnv) x = Some x"
  by (simp_all add: approvalEnv_def rangesAll_keys plainPolicy_def)

lemma approvalEnv_grant:
  "\<exists>g. GrantForInvocation (ae_policy approvalEnv) editCall = Some g \<and> gr_Key g = ''h'' \<and> gr_Prefix g = []"
proof -
  have "grantParts (ae_policy approvalEnv) editCall =
      Some (''file'', ''workspace paths: path:a.go:write'', [], [], [], ai_Resources editInput)" by code_simp
  moreover have "Assessment_Valid (iv_Assessment editCall)" by code_simp
  ultimately show ?thesis by (simp add: GrantForInvocation_def)
qed

definition grantEntry :: "Time \<Rightarrow> approvalEntry" where
  "grantEntry expires = \<lparr>ae_expiresAt = expires, ae_once = False, ae_baseFingerprint = ''other'', ae_sequence = 1,
     ae_prefix = [], ae_scope = []\<rparr>"

theorem approval_match_exact_witness:
  "fst (MatchInvocation approvalEnv (NewApprovalCache\<lparr>ac_grantKeys := fmupd ''h'' (grantEntry 9) fmempty\<rparr>) editCall 8) \<and>
   \<not> fst (MatchInvocation approvalEnv (NewApprovalCache\<lparr>ac_grantKeys := fmupd ''h'' (grantEntry 9) fmempty\<rparr>) editCall 9)"
proof -
  have "\<not> live now P fmempty" for now P by (simp add: live_def)
  moreover obtain g where "GrantForInvocation (ae_policy approvalEnv) editCall = Some g" "gr_Key g = ''h''" "gr_Prefix g = []"
    using approvalEnv_grant by blast
  ultimately show ?thesis
    unfolding approval_match_exact [OF approvalEnv_simps(2)]
    by (simp add: NewApprovalCache_def NewApprovalCacheWithLimit_def grantEntry_def approvalExpired_def)
qed

section \<open>Eviction\<close>

lemma oldestFrom_in:
  assumes "oldestKey \<in> fmdom' m \<or> oldestKey = [] \<and> ks \<noteq> []" "set ks \<subseteq> fmdom' m"
  shows "oldestFrom m oldestKey n ks \<in> fmdom' m"
  using assms
proof (induction ks arbitrary: oldestKey n)
  case (Cons k ks)
  then obtain v where "fmlookup m k = Some v" by (auto simp: fmlookup_dom'_iff)
  with Cons show ?case by auto
qed auto

lemma oldestFrom_least:
  assumes "[] \<notin> fmdom' m" "oldestKey = [] \<or> (\<exists>v. fmlookup m oldestKey = Some v \<and> ae_sequence v = n)"
    "fmlookup m (oldestFrom m oldestKey n ks) = Some w"
  shows "(oldestKey = [] \<or> ae_sequence w \<le> n) \<and> (\<forall>k \<in> set ks. \<forall>v. fmlookup m k = Some v \<longrightarrow> ae_sequence w \<le> ae_sequence v)"
  using assms(2,3)
proof (induction ks arbitrary: oldestKey n)
  case (Cons k ks)
  show ?case
  proof (cases "fmlookup m k")
    case None
    then show ?thesis using Cons.IH [of oldestKey n] Cons.prems by auto
  next
    case (Some v)
    then have "k \<noteq> []" using assms(1) by (metis fmlookup_dom'_iff)
    then show ?thesis
      using Some Cons.IH [of oldestKey n] Cons.IH [of k "ae_sequence v"] Cons.prems by (auto split: if_splits)
  qed
qed auto

lemma oldest_in:
  assumes "rangesAll order" "m \<noteq> fmempty"
  shows "oldestFrom m [] 0 (order m) \<in> fmdom' m"
proof -
  have "order m \<noteq> []" using assms by (metis rangesAll_def empty_set fmdom'_empty fmrestrict_set_dom fmrestrict_set_null)
  with assms(1) show ?thesis by (intro oldestFrom_in) (auto simp: rangesAll_def)
qed

lemma prune_within: "within (pruneApprovalEntries order m limit) m"
proof (induction order m limit rule: pruneApprovalEntries.induct)
  case (1 order m limit)
  show ?case
  proof (cases "int (length (keys m)) \<le> limit \<or> oldestFrom m [] 0 (order m) \<notin> fmdom' m")
    case True
    then show ?thesis by (subst pruneApprovalEntries.simps) (auto simp: Let_def)
  next
    case False
    with "1.IH" [OF _ refl] have "within (pruneApprovalEntries order (fmdrop (oldestFrom m [] 0 (order m)) m) limit) m"
      using within_trans [OF _ within_drop] by blast
    with False show ?thesis by (subst pruneApprovalEntries.simps) (simp add: Let_def)
  qed
qed

lemma prune_bound:
  assumes "rangesAll order" "0 \<le> limit"
  shows "int (length (keys (pruneApprovalEntries order m limit))) \<le> limit"
  using assms
proof (induction order m limit rule: pruneApprovalEntries.induct)
  case (1 order m limit)
  show ?case
  proof (cases "int (length (keys m)) \<le> limit")
    case False
    then have "m \<noteq> fmempty" using "1.prems" by auto
    from oldest_in [OF "1.prems"(1) this] "1.IH" [OF False refl] "1.prems" False show ?thesis
      by (subst pruneApprovalEntries.simps) (auto simp: Let_def)
  qed (simp add: pruneApprovalEntries.simps)
qed

lemma prune_keeps:
  assumes "rangesAll order" "1 \<le> limit" "[] \<notin> fmdom' m" "fmlookup m k = Some e"
    "\<And>k' e'. fmlookup m k' = Some e' \<Longrightarrow> k' \<noteq> k \<Longrightarrow> ae_sequence e' < ae_sequence e"
  shows "fmlookup (pruneApprovalEntries order m limit) k = Some e"
  using assms
proof (induction order m limit rule: pruneApprovalEntries.induct)
  case (1 order m limit)
  show ?case
  proof (cases "int (length (keys m)) \<le> limit")
    case False
    define x where "x = oldestFrom m [] 0 (order m)"
    have "length (keys m) \<noteq> 1" using False "1.prems"(2) by linarith
    then have "card (fmdom' m) \<noteq> card {k}" by (simp add: length_keys)
    then have "fmdom' m \<noteq> {k}" by metis
    moreover have "k \<in> fmdom' m" using "1.prems"(4) by (simp add: fmlookup_dom'_iff)
    ultimately obtain k' where "k' \<noteq> k" "k' \<in> fmdom' m" by blast
    then obtain e' where k': "k' \<noteq> k" "fmlookup m k' = Some e'" by (auto simp: fmlookup_dom'_iff)
    have "m \<noteq> fmempty" using k' by auto
    note x = oldest_in [OF "1.prems"(1) this, folded x_def]
    then obtain w where w: "fmlookup m x = Some w" by (auto simp: fmlookup_dom'_iff)
    have "k' \<in> set (order m)" using k'(2) rangesAll_dom [OF "1.prems"(1)] by auto
    with oldestFrom_least [OF "1.prems"(3), of "[]" 0 "order m" w] w k' have "ae_sequence w \<le> ae_sequence e'"
      by (auto simp: x_def)
    with "1.prems"(5) [OF k'(2) k'(1)] w "1.prems"(4) have other: "x \<noteq> k" by auto
    have "fmlookup (pruneApprovalEntries order (fmdrop x m) limit) k = Some e"
    proof (rule "1.IH" [OF False x_def x "1.prems"(1,2)])
      show "[] \<notin> fmdom' (fmdrop x m)" using "1.prems"(3) by simp
      show "fmlookup (fmdrop x m) k = Some e" using other "1.prems"(4) by simp
      show "ae_sequence e' < ae_sequence e" if "fmlookup (fmdrop x m) k' = Some e'" "k' \<noteq> k" for k' e'
        using that "1.prems"(5) by (auto split: if_splits)
    qed
    with False x show ?thesis by (subst pruneApprovalEntries.simps) (simp add: Let_def x_def [symmetric])
  qed (simp add: pruneApprovalEntries.simps "1.prems")
qed

text \<open>What every operation keeps: a positive limit, no empty key, and sequence numbers up to the counter.\<close>

definition numbered :: "uint64 \<Rightarrow> Entries \<Rightarrow> bool" where
  "numbered n m \<longleftrightarrow> [] \<notin> fmdom' m \<and> (\<forall>k e. fmlookup m k = Some e \<longrightarrow> ae_sequence e \<le> n)"

definition cacheOk :: "ApprovalCache \<Rightarrow> bool" where
  "cacheOk c \<longleftrightarrow> 1 \<le> ac_limit c \<and> numbered (ac_next c) (ac_entries c) \<and> numbered (ac_next c) (ac_grantKeys c)"

lemma numbered_within: "numbered n m \<Longrightarrow> within m' m \<Longrightarrow> numbered n m'"
  unfolding numbered_def within_def by (metis fmlookup_dom'_iff)

lemma numbered_next: "numbered n m \<Longrightarrow> n < n + 1 \<Longrightarrow> numbered (n + 1) m"
  unfolding numbered_def by (meson le_less_trans less_imp_le)

lemma numbered_upd: "numbered n m \<Longrightarrow> k \<noteq> [] \<Longrightarrow> ae_sequence e \<le> n \<Longrightarrow> numbered n (fmupd k e m)"
  by (auto simp: numbered_def)

lemma cacheOk_new: "cacheOk (NewApprovalCacheWithLimit limit)"
  by (simp add: cacheOk_def NewApprovalCacheWithLimit_def numbered_def)

text \<open>An inserted and pruned map is bounded, keeps the new entry and stays numbered.\<close>

lemma insert_prune:
  assumes "rangesAll order" "1 \<le> limit" "numbered n m" "n < n + 1" "k \<noteq> []" "ae_sequence e = n + 1"
  defines "m' \<equiv> pruneApprovalEntries order (fmupd k e m) limit"
  shows "int (length (keys m')) \<le> limit" "fmlookup m' k = Some e" "numbered (n + 1) m'"
proof -
  show "int (length (keys m')) \<le> limit" unfolding m'_def using assms(1,2) by (intro prune_bound) simp_all
  have "ae_sequence e' < n + 1" if "fmlookup m k' = Some e'" for k' e'
    using assms(3,4) that by (auto simp: numbered_def intro: le_less_trans)
  with assms show "fmlookup m' k = Some e" unfolding m'_def
    by (intro prune_keeps) (auto simp: numbered_def split: if_splits)
  have "numbered (n + 1) (fmupd k e m)" using assms by (intro numbered_upd numbered_next) simp_all
  then show "numbered (n + 1) m'" unfolding m'_def by (rule numbered_within [OF _ prune_within])
qed

text \<open>The fingerprint under which \<open>Add\<close> files a request.\<close>

definition filedUnder :: "ApprovalEnv \<Rightarrow> ApprovalRequest \<Rightarrow> ApprovalScope \<Rightarrow> string" where
  "filedUnder env request scope = approvalFingerprint env (request\<lparr>aq_Scope := scope\<rparr>)"

text \<open>
  C30. An accepted approval is cached and the cache stays bounded: after \<open>Add\<close> succeeds, both maps hold at most
  \<open>limit\<close> entries, and the approval just given, with its grant when it is reusable, is among
  them: the entries evicted are older ones. The cache's invariant is kept.
\<close>

theorem accepted_approval_kept:
  assumes "rangesAll (ae_order env)" "\<forall>x. pe_sha256 (ae_policy env) x \<noteq> []" "cacheOk c" "ac_next c < ac_next c + 1"
    "Add env c request scope = (None, c')"
  shows "int (length (keys (ac_entries c'))) \<le> ac_limit c \<and> int (length (keys (ac_grantKeys c'))) \<le> ac_limit c \<and>
    (\<exists>e. fmlookup (ac_entries c') (filedUnder env request scope) = Some e \<and> ae_expiresAt e = aq_ExpiresAt request \<and>
       ae_once e = (scope = ApprovalOnce)) \<and>
    (scope \<noteq> ApprovalOnce \<longrightarrow> (\<exists>g e. aq_Grant request = Some g \<and> fmlookup (ac_grantKeys c') (gr_Key g) = Some e \<and>
       ae_prefix e = gr_Prefix g \<and> ae_scope e = gr_scope g)) \<and>
    cacheOk c'"
proof -
  have limit: "1 \<le> ac_limit c" and num: "numbered (ac_next c) (ac_entries c)" "numbered (ac_next c) (ac_grantKeys c)"
    using assms(3) by (auto simp: cacheOk_def)
  have key: "filedUnder env request scope \<noteq> []" using assms(2) by (simp add: filedUnder_def approvalFingerprint_def)
  note ins = insert_prune [OF assms(1) limit num(1) assms(4) key] insert_prune [OF assms(1) limit num(2) assms(4)]
  have old: "int (length (keys (pruneApprovalEntries (ae_order env) (ac_grantKeys c) (ac_limit c)))) \<le> ac_limit c"
    "numbered (ac_next c + 1) (pruneApprovalEntries (ae_order env) (ac_grantKeys c) (ac_limit c))"
    using prune_bound [OF assms(1), of "ac_limit c"] limit numbered_within [OF numbered_next [OF num(2) assms(4)] prune_within]
    by simp_all
  show ?thesis
    using assms(5) limit ins old
    by (auto simp: Add_def Let_def filedUnder_def cacheOk_def split: if_splits option.splits)
qed

definition editRequest :: ApprovalRequest where
  "editRequest =
     \<lparr>aq_CallID = ''c1'', aq_Tool = ''file_edit'', aq_Arguments = ''ls'', aq_ArgumentsDigest = ''h'',
      aq_Resources = ai_Resources editInput, aq_Scope = ApprovalOnce, aq_Fingerprint = ''h'', aq_ExpiresAt = 0, aq_Grant = None\<rparr>"

theorem accepted_approval_kept_witness:
  "\<exists>c' e. Add approvalEnv NewApprovalCache editRequest ApprovalOnce = (None, c') \<and>
     fmlookup (ac_entries c') ''h'' = Some e \<and> ae_once e"
proof -
  have once: "approvalFingerprint approvalEnv q = ''h''" for q by (simp add: approvalFingerprint_def)
  then obtain c' where c': "Add approvalEnv NewApprovalCache editRequest ApprovalOnce = (None, c')"
    by (simp add: Add_def Let_def editRequest_def)
  have "filedUnder approvalEnv editRequest ApprovalOnce = ''h''" by (simp add: filedUnder_def once)
  moreover have "cacheOk NewApprovalCache" "ac_next NewApprovalCache < ac_next NewApprovalCache + 1"
    by (simp_all add: NewApprovalCache_def cacheOk_new) (simp add: NewApprovalCacheWithLimit_def)
  ultimately show ?thesis using accepted_approval_kept [OF approvalEnv_simps(2) _ _ _ c'] c' by auto
qed

text \<open>
  \<open>Add\<close> files the exact approval before it finds that a reusable scope lacks a typed grant: it returns an
  error, but the approval, which is not a one-time one, stays in the cache and is not pruned.
\<close>

lemma failed_add_is_cached:
  assumes "aq_Fingerprint q \<noteq> []" "aq_Fingerprint q = approvalFingerprint env q" "aq_Grant q = None"
  shows "fst (Add env c q ApprovalSession) = Some GrantRequired"
    "\<exists>e. fmlookup (ac_entries (snd (Add env c q ApprovalSession))) (filedUnder env q ApprovalSession) = Some e \<and>
       \<not> ae_once e \<and> ae_expiresAt e = aq_ExpiresAt q"
  using assms by (simp_all add: Add_def Let_def filedUnder_def)

section \<open>One-time approvals\<close>

datatype CacheOp = OpAdd ApprovalRequest ApprovalScope | OpMatch Invocation Time | OpPurge Time

fun cacheStep :: "ApprovalEnv \<Rightarrow> CacheOp \<Rightarrow> ApprovalCache \<Rightarrow> bool \<times> ApprovalCache" where
  "cacheStep env (OpAdd request scope) c = (False, snd (Add env c request scope))"
| "cacheStep env (OpMatch call now) c = MatchInvocation env c call now"
| "cacheStep env (OpPurge now) c = (False, Purge c now)"

text \<open>The operations that ask for an approval with the base fingerprint \<open>b\<close>, and those that give one.\<close>

fun asksBase :: "ApprovalEnv \<Rightarrow> string \<Rightarrow> CacheOp \<Rightarrow> bool" where
  "asksBase env b (OpMatch call now) =
     (case NewApprovalRequestForScope env call ApprovalOnce 0 of None \<Rightarrow> False | Some q \<Rightarrow> approvalBaseFingerprint env q = b)"
| "asksBase env b _ = False"

fun gives :: "ApprovalEnv \<Rightarrow> string \<Rightarrow> CacheOp \<Rightarrow> bool" where
  "gives env b (OpAdd request scope) = (approvalBaseFingerprint env request = b)"
| "gives env b _ = False"

fun onceOnly :: "CacheOp \<Rightarrow> bool" where
  "onceOnly (OpAdd request scope) = (scope = ApprovalOnce)"
| "onceOnly _ = True"

text \<open>The steps of a history that hit and are asked for.\<close>

fun hits :: "('op \<Rightarrow> 's \<Rightarrow> bool \<times> 's) \<Rightarrow> ('op \<Rightarrow> bool) \<Rightarrow> 'op list \<Rightarrow> 's \<Rightarrow> nat" where
  "hits step asks [] s = 0"
| "hits step asks (op # ops) s =
     (if fst (step op s) \<and> asks op then 1 else 0) + hits step asks ops (snd (step op s))"

definition answered :: "ApprovalEnv \<Rightarrow> string \<Rightarrow> CacheOp list \<Rightarrow> ApprovalCache \<Rightarrow> nat" where
  "answered env b ops c = hits (cacheStep env) (asksBase env b) ops c"

text \<open>
  A state that pays for its hits: whatever a step hits is taken from what the state holds, and only the
  steps that give add to it.
\<close>

locale accounted =
  fixes step :: "'op \<Rightarrow> 's \<Rightarrow> bool \<times> 's" and inv :: "'s \<Rightarrow> bool" and admissible :: "'op \<Rightarrow> bool"
    and asks :: "'op \<Rightarrow> bool" and pays :: "'op \<Rightarrow> bool" and held :: "'s \<Rightarrow> nat"
  assumes paid: "inv s \<Longrightarrow> admissible op \<Longrightarrow> step op s = (hit, s') \<Longrightarrow>
    inv s' \<and> held s' + (if hit \<and> asks op then 1 else 0) \<le> held s + (if pays op then 1 else 0)"
begin

lemma hits_paid: "inv s \<Longrightarrow> list_all admissible ops \<Longrightarrow> hits step asks ops s \<le> held s + length (filter pays ops)"
proof (induction ops arbitrary: s)
  case (Cons op ops)
  obtain hit s' where "step op s = (hit, s')" by fastforce
  with paid [of s op hit s'] Cons.prems Cons.IH [of s'] show ?case by auto
qed simp

end

definition stock :: "string \<Rightarrow> Entries \<Rightarrow> nat" where
  "stock b m = card {k. \<exists>e. fmlookup m k = Some e \<and> ae_baseFingerprint e = b}"

lemma finite_stock: "finite {k. \<exists>e. fmlookup m k = Some e \<and> P e}"
  by (rule finite_subset [of _ "fmdom' m"]) (auto simp: fmlookup_dom'_iff)

lemma stock_within: "within m' m \<Longrightarrow> stock b m' \<le> stock b m"
  unfolding stock_def by (rule card_mono [OF finite_stock]) (auto simp: within_def)

lemma stock_upd: "stock b (fmupd k e m) \<le> stock b m + (if ae_baseFingerprint e = b then 1 else 0)"
proof -
  have "stock b (fmupd k e m) \<le> card ((if ae_baseFingerprint e = b then {k} else {}) \<union> {k. \<exists>e. fmlookup m k = Some e \<and> ae_baseFingerprint e = b})"
    unfolding stock_def using finite_stock [of m "\<lambda>e. ae_baseFingerprint e = b"] by (intro card_mono) auto
  also have "\<dots> \<le> card (if ae_baseFingerprint e = b then {k} else {}) + stock b m"
    unfolding stock_def by (rule card_Un_le)
  finally show ?thesis by (auto split: if_splits)
qed

lemma stock_drop:
  assumes "fmlookup m k = Some e" "ae_baseFingerprint e = b"
  shows "stock b (fmdrop k m) < stock b m"
  unfolding stock_def using assms by (intro psubset_card_mono [OF finite_stock]) auto

text \<open>A cache that only ever received one-time approvals.\<close>

definition onceCache :: "ApprovalCache \<Rightarrow> bool" where
  "onceCache c \<longleftrightarrow> ac_grantKeys c = fmempty \<and> (\<forall>k e. fmlookup (ac_entries c) k = Some e \<longrightarrow> ae_once e)"

lemma onceCache_within:
  assumes "onceCache c" "within (ac_entries c') (ac_entries c)" "ac_grantKeys c' = fmempty"
  shows "onceCache c'"
  using assms by (auto simp: onceCache_def within_def)

lemma base_scope [simp]:
  "approvalBaseFingerprint env (q\<lparr>aq_Scope := s\<rparr>) = approvalBaseFingerprint env q"
  "approvalBaseFingerprint env (q\<lparr>aq_Fingerprint := f\<rparr>) = approvalBaseFingerprint env q"
  by (simp_all add: approvalBaseFingerprint_def Let_def split: option.split)

lemma prune_empty [simp]: "pruneApprovalEntries order fmempty limit = fmempty"
  using prune_within [of order fmempty limit] by (intro fmap_ext) (auto simp: within_def intro: option.exhaust)

lemma Add_once:
  assumes "onceCache c"
  shows "onceCache (snd (Add env c q ApprovalOnce))"
    "stock b (ac_entries (snd (Add env c q ApprovalOnce))) \<le> stock b (ac_entries c) + (if gives env b (OpAdd q ApprovalOnce) then 1 else 0)"
proof -
  define k where "k = filedUnder env q ApprovalOnce"
  define e where "e = \<lparr>ae_expiresAt = aq_ExpiresAt q, ae_once = True, ae_baseFingerprint = approvalBaseFingerprint env q,
    ae_sequence = ac_next c + 1, ae_prefix = [], ae_scope = []\<rparr>"
  define c' where "c' = snd (Add env c q ApprovalOnce)"
  have "c' = c \<or> (ac_grantKeys c' = fmempty \<and> within (ac_entries c') (fmupd k e (ac_entries c)))"
    using assms by (auto simp: c'_def Add_def Let_def k_def e_def filedUnder_def onceCache_def prune_within)
  then consider (same) "c' = c"
    | (filed) "ac_grantKeys c' = fmempty" "within (ac_entries c') (fmupd k e (ac_entries c))" by blast
  then have "onceCache c' \<and> stock b (ac_entries c') \<le> stock b (ac_entries c) + (if approvalBaseFingerprint env q = b then 1 else 0)"
  proof cases
    case same
    with assms show ?thesis by simp
  next
    case filed
    have "\<forall>k' e'. fmlookup (fmupd k e (ac_entries c)) k' = Some e' \<longrightarrow> ae_once e'"
      using assms by (auto simp: onceCache_def e_def)
    then have "onceCache c'" using filed unfolding onceCache_def within_def by blast
    moreover have "stock b (ac_entries c') \<le> stock b (fmupd k e (ac_entries c))" using filed by (intro stock_within)
    moreover have "ae_baseFingerprint e = approvalBaseFingerprint env q" by (simp add: e_def)
    ultimately show ?thesis using stock_upd [of b k e "ac_entries c"] by (auto split: if_splits)
  qed
  then show "onceCache (snd (Add env c q ApprovalOnce))"
    "stock b (ac_entries (snd (Add env c q ApprovalOnce))) \<le> stock b (ac_entries c) + (if gives env b (OpAdd q ApprovalOnce) then 1 else 0)"
    by (simp_all add: c'_def)
qed

lemma sweep_empty [simp]: "sweep P now ks fmempty = (None, fmempty)"
  by (induction ks) simp_all

lemma matchGrant_once: "onceCache c \<Longrightarrow> matchGrant env c call now = (False, c)"
  by (auto simp: matchGrant_def matchPrefixes_def onceCache_def split: option.split)

lemma Match_once:
  assumes "onceCache c" "MatchInvocation env c call now = (hit, c')"
  shows "onceCache c' \<and>
    stock b (ac_entries c') + (if hit \<and> asksBase env b (OpMatch call now) then 1 else 0) \<le> stock b (ac_entries c)"
proof (cases "NewApprovalRequestForScope env call ApprovalOnce 0")
  case None
  with assms matchGrant_once [OF assms(1)] show ?thesis by (auto simp: MatchInvocation_def matchInvocationExact_def)
next
  case (Some q)
  define P where "P = (\<lambda>e :: approvalEntry. ae_baseFingerprint e = approvalBaseFingerprint env q)"
  obtain found m where sweep: "sweep P now (ae_order env (ac_entries c)) (ac_entries c) = (found, m)" by fastforce
  have m: "within m (ac_entries c)" using sweep_within [of P now "ae_order env (ac_entries c)" "ac_entries c"] sweep by simp
  define d where "d = c\<lparr>ac_entries := m\<rparr>"
  have d: "onceCache d" using onceCache_within [OF assms(1), of d] m assms(1) by (simp add: d_def onceCache_def)
  show ?thesis
  proof (cases found)
    case None
    then have "hit = False" "c' = d"
      using assms(2) Some sweep matchGrant_once [OF d]
      by (simp_all add: MatchInvocation_def matchInvocationExact_def P_def d_def)
    with d stock_within [OF m, of b] show ?thesis by (simp add: d_def)
  next
    case found: (Some ke)
    obtain k e where ke: "ke = (k, e)" by (cases ke)
    note e = sweep_found [OF sweep [unfolded found ke]]
    have once: "ae_once e" using e(1) d by (simp add: onceCache_def d_def)
    have res: "hit = True" "c' = c\<lparr>ac_entries := fmdrop k m\<rparr>"
      using assms(2) Some sweep found ke once by (simp_all add: MatchInvocation_def matchInvocationExact_def P_def)
    have "within (fmdrop k m) (ac_entries c)" using m within_trans within_drop by blast
    then have "onceCache c'" using onceCache_within [OF assms(1), of c'] assms(1) by (simp add: res onceCache_def)
    moreover have "stock b (fmdrop k m) < stock b m" if "asksBase env b (OpMatch call now)"
      using that stock_drop [OF e(1)] e(3) by (simp add: Some P_def)
    moreover have "stock b (fmdrop k m) \<le> stock b m" by (rule stock_within) simp
    ultimately show ?thesis using stock_within [OF m, of b] by (auto simp: res simp del: asksBase.simps)
  qed
qed

lemma Purge_within: "within (ac_entries (Purge c now)) (ac_entries c)" "onceCache c \<Longrightarrow> onceCache (Purge c now)"
  by (auto simp: Purge_def Let_def within_def onceCache_def split: if_splits)

lemma step_once:
  assumes "onceCache c" "onceOnly op" "cacheStep env op c = (hit, c')"
  shows "onceCache c' \<and> stock b (ac_entries c') + (if hit \<and> asksBase env b op then 1 else 0) \<le>
    stock b (ac_entries c) + (if gives env b op then 1 else 0)"
proof (cases op)
  case (OpAdd q scope)
  with assms Add_once(1) [OF assms(1)] Add_once(2) [OF assms(1), of b env q] show ?thesis by auto
next
  case (OpMatch call now)
  with assms Match_once [OF assms(1), of env call now hit c' b] show ?thesis by (simp del: asksBase.simps)
next
  case (OpPurge now)
  with assms Purge_within [of c now] stock_within [of "ac_entries (Purge c now)" "ac_entries c" b] show ?thesis by auto
qed

interpretation cache: accounted "cacheStep env" onceCache onceOnly "asksBase env b" "gives env b" "\<lambda>c. stock b (ac_entries c)"
  for env b
  by unfold_locales (rule step_once)

text \<open>
  C28. A one-time approval answers one invocation: in any history of a new cache that was only given one-time
  approvals, with matches, purges and evictions in any order, the number of invocations with a given base fingerprint
  that were answered from the cache is at most the number of approvals given for that fingerprint.
\<close>

theorem one_approval_one_answer:
  assumes "list_all onceOnly ops"
  shows "answered env b ops (NewApprovalCacheWithLimit limit) \<le> length (filter (gives env b) ops)"
proof -
  have "onceCache (NewApprovalCacheWithLimit limit)" "stock b (ac_entries (NewApprovalCacheWithLimit limit)) = 0"
    by (simp_all add: onceCache_def NewApprovalCacheWithLimit_def stock_def)
  with cache.hits_paid [OF this(1) assms, of env b] show ?thesis by (simp add: answered_def)
qed

theorem one_approval_one_answer_witness:
  "answered approvalEnv ''h'' [OpAdd editRequest ApprovalOnce, OpMatch editCall 1, OpMatch editCall 2] NewApprovalCache \<le> 1"
  using one_approval_one_answer [of "[OpAdd editRequest ApprovalOnce, OpMatch editCall 1, OpMatch editCall 2]" approvalEnv "''h''"
      defaultApprovalCacheLimit]
  by (simp add: NewApprovalCache_def approvalBaseFingerprint_def)

end
